(* ===== verification/Prelude.thy ===== *)
theory Prelude
  imports Main "HOL-Library.Word" "HOL-Library.Finite_Map" "HOL-Library.List_Lexorder"
    "HOL-Library.Product_Lexorder"
begin

text \<open>
  Shared ground of the development.
  \<^item> Machine integers: Rust's \<open>u8\<close> to \<open>u128\<close> as words, with the checked, saturating and
    overflowing operations of the standard library and their meaning on natural numbers.
  \<^item> Operations: a Rust function that works on the current state is a function from the state
    to an outcome and the state it leaves. The outcome is \<open>Ok\<close>, \<open>Err\<close> (a \<open>Result::Err\<close>, the
    state keeps what was written before it) or \<open>Panic\<close>.
  \<^item> Ordered maps: \<open>BTreeMap\<close> as a finite map, iterated in key order.
\<close>

section \<open>Machine integers\<close>

type_synonym u8 = "8 word"
type_synonym u16 = "16 word"
type_synonym u32 = "32 word"
type_synonym u64 = "64 word"
type_synonym u128 = "128 word"
type_synonym bytes = "u8 list"

definition checked_add :: "'a::len word \<Rightarrow> 'a word \<Rightarrow> 'a word option" where
  "checked_add x y = (if unat x + unat y < 2 ^ LENGTH('a) then Some (x + y) else None)"

definition checked_sub :: "'a::len word \<Rightarrow> 'a word \<Rightarrow> 'a word option" where
  "checked_sub x y = (if y \<le> x then Some (x - y) else None)"

definition checked_mul :: "'a::len word \<Rightarrow> 'a word \<Rightarrow> 'a word option" where
  "checked_mul x y = (if unat x * unat y < 2 ^ LENGTH('a) then Some (x * y) else None)"

definition checked_div :: "'a::len word \<Rightarrow> 'a word \<Rightarrow> 'a word option" where
  "checked_div x y = (if y = 0 then None else Some (x div y))"

definition saturating_add :: "'a::len word \<Rightarrow> 'a word \<Rightarrow> 'a word" where
  "saturating_add x y = (if unat x + unat y < 2 ^ LENGTH('a) then x + y else - 1)"

definition saturating_sub :: "'a::len word \<Rightarrow> 'a word \<Rightarrow> 'a word" where
  "saturating_sub x y = (if y \<le> x then x - y else 0)"

definition saturating_mul :: "'a::len word \<Rightarrow> 'a word \<Rightarrow> 'a word" where
  "saturating_mul x y = (if unat x * unat y < 2 ^ LENGTH('a) then x * y else - 1)"

named_theorems word_nat \<open>the integer operations on natural numbers\<close>

lemma unat_max_word: "unat (- 1 :: 'a::len word) = 2 ^ LENGTH('a) - 1"
  by (simp add: unsigned_minus_1_eq_mask mask_eq_exp_minus_1)

lemma unat_lt: "unat (x :: 'a::len word) < 2 ^ LENGTH('a)"
  by (rule unsigned_less)

lemma unat_ucast_up:
  "LENGTH('a::len) \<le> LENGTH('b::len) \<Longrightarrow> unat (ucast (x :: 'a word) :: 'b word) = unat x"
  by (simp add: unsigned_ucast_eq take_bit_nat_eq_self
      order_less_le_trans [OF unat_lt [of x] power_increasing])

lemma checked_add_Some [word_nat]:
  "checked_add x y = Some z \<longleftrightarrow> unat z = unat x + unat (y :: 'a::len word)"
proof
  assume "checked_add x y = Some z"
  then show "unat z = unat x + unat y"
    by (auto simp: checked_add_def unat_word_ariths split: if_splits)
next
  assume a: "unat z = unat x + unat y"
  then have lt: "unat x + unat y < 2 ^ LENGTH('a)"
    using unat_lt [of z] by simp
  then have "z = x + y"
    using a by (simp add: word_unat_eq_iff unat_word_ariths)
  then show "checked_add x y = Some z"
    using lt by (simp add: checked_add_def)
qed

lemma checked_add_None [word_nat]:
  "checked_add x y = None \<longleftrightarrow> 2 ^ LENGTH('a) \<le> unat x + unat (y :: 'a::len word)"
  by (auto simp: checked_add_def)

lemma checked_sub_Some [word_nat]:
  "checked_sub x y = Some z \<longleftrightarrow> unat x = unat z + unat (y :: 'a::len word)"
proof
  assume "checked_sub x y = Some z"
  then show "unat x = unat z + unat y"
    by (auto simp: checked_sub_def word_le_nat_alt unat_sub split: if_splits)
next
  assume a: "unat x = unat z + unat y"
  then have le: "y \<le> x" by (simp add: word_le_nat_alt)
  then have "x - y = z" using a by (simp add: word_unat_eq_iff unat_sub)
  then show "checked_sub x y = Some z" using le by (simp add: checked_sub_def)
qed

lemma checked_sub_None [word_nat]: "checked_sub x y = None \<longleftrightarrow> unat x < unat y"
  by (auto simp: checked_sub_def word_le_nat_alt)

lemma checked_mul_Some [word_nat]:
  "checked_mul x y = Some z \<longleftrightarrow> unat z = unat x * unat (y :: 'a::len word)"
proof
  assume "checked_mul x y = Some z"
  then show "unat z = unat x * unat y"
    by (auto simp: checked_mul_def unat_word_ariths split: if_splits)
next
  assume a: "unat z = unat x * unat y"
  then have lt: "unat x * unat y < 2 ^ LENGTH('a)"
    using unat_lt [of z] by simp
  then have "z = x * y"
    using a by (simp add: word_unat_eq_iff unat_word_ariths)
  then show "checked_mul x y = Some z"
    using lt by (simp add: checked_mul_def)
qed

lemma checked_mul_None [word_nat]:
  "checked_mul x y = None \<longleftrightarrow> 2 ^ LENGTH('a) \<le> unat x * unat (y :: 'a::len word)"
  by (auto simp: checked_mul_def)

lemma unat_saturating_sub [word_nat]: "unat (saturating_sub x y) = unat x - unat y"
  by (auto simp: saturating_sub_def word_le_nat_alt unat_sub)

lemma unat_saturating_add [word_nat]:
  "unat (saturating_add x (y :: 'a::len word)) = min (unat x + unat y) (2 ^ LENGTH('a) - 1)"
  by (auto simp: saturating_add_def unat_word_ariths unat_max_word)

lemma unat_saturating_mul [word_nat]:
  "unat (saturating_mul x (y :: 'a::len word)) = min (unat x * unat y) (2 ^ LENGTH('a) - 1)"
  by (auto simp: saturating_mul_def unat_word_ariths unat_max_word)

lemma checked_div_Some [word_nat]:
  "checked_div x y = Some z \<longleftrightarrow> y \<noteq> 0 \<and> unat z = unat x div unat (y :: 'a::len word)"
  by (auto simp: checked_div_def word_unat_eq_iff unat_div)

lemma unat_min [word_nat]: "unat (min x y) = min (unat x) (unat (y :: 'a::len word))"
  by (simp add: min_def word_le_nat_alt)

lemma unat_max [word_nat]: "unat (max x y) = max (unat x) (unat (y :: 'a::len word))"
  by (simp add: max_def word_le_nat_alt)

lemmas unat_word_eq = word_unat_eq_iff word_le_nat_alt word_less_nat_alt

section \<open>Results of pure functions\<close>

text \<open>A pure function that returns \<open>Result<T, E>\<close> gives a value of \<open>'e + 'a\<close>; \<open>?\<close> is \<open>bind_result\<close>.\<close>

definition bind_result :: "'e + 'a \<Rightarrow> ('a \<Rightarrow> 'e + 'b) \<Rightarrow> 'e + 'b" where
  "bind_result r f = (case r of Inl e \<Rightarrow> Inl e | Inr a \<Rightarrow> f a)"

definition map_err :: "('e \<Rightarrow> 'f) \<Rightarrow> 'e + 'a \<Rightarrow> 'f + 'a" where
  "map_err g r = (case r of Inl e \<Rightarrow> Inl (g e) | Inr a \<Rightarrow> Inr a)"

definition ok_or :: "'e \<Rightarrow> 'a option \<Rightarrow> 'e + 'a" where
  "ok_or e x = (case x of None \<Rightarrow> Inl e | Some a \<Rightarrow> Inr a)"

lemma bind_result_simps [simp]: "bind_result (Inl e) f = Inl e" "bind_result (Inr a) f = f a"
  by (simp_all add: bind_result_def)

lemma map_err_simps [simp]: "map_err g (Inl e) = Inl (g e)" "map_err g (Inr a) = Inr a"
  by (simp_all add: map_err_def)

lemma ok_or_simps [simp]: "ok_or e None = Inl e" "ok_or e (Some a) = Inr a"
  by (simp_all add: ok_or_def)

lemma bind_result_Inr: "bind_result r f = Inr b \<longleftrightarrow> (\<exists>a. r = Inr a \<and> f a = Inr b)"
  by (cases r) simp_all

lemma map_err_Inr: "map_err g r = Inr a \<longleftrightarrow> r = Inr a"
  by (cases r) simp_all

lemma ok_or_Inr: "ok_or e x = Inr a \<longleftrightarrow> x = Some a"
  by (cases x) simp_all

lemmas result_Inr = bind_result_Inr map_err_Inr ok_or_Inr

section \<open>Operations with errors and panics\<close>

datatype ('e, 'a) outcome = Ok 'a | Err 'e | Panic

type_synonym ('s, 'e, 'a) rust_op = "'s \<Rightarrow> ('e, 'a) outcome \<times> 's"

named_theorems op_simps \<open>unfolding the combinators of operations\<close>

definition return_op :: "'a \<Rightarrow> ('s, 'e, 'a) rust_op" where
  [op_simps]: "return_op a s = (Ok a, s)"

definition throw_op :: "'e \<Rightarrow> ('s, 'e, 'a) rust_op" where
  [op_simps]: "throw_op e s = (Err e, s)"

definition panic_op :: "('s, 'e, 'a) rust_op" where
  [op_simps]: "panic_op s = (Panic, s)"

definition reads_op :: "('s \<Rightarrow> 'a) \<Rightarrow> ('s, 'e, 'a) rust_op" where
  [op_simps]: "reads_op f s = (Ok (f s), s)"

definition update_op :: "('s \<Rightarrow> 's) \<Rightarrow> ('s, 'e, unit) rust_op" where
  [op_simps]: "update_op f s = (Ok (), f s)"

definition bind_op :: "('s, 'e, 'a) rust_op \<Rightarrow> ('a \<Rightarrow> ('s, 'e, 'b) rust_op) \<Rightarrow> ('s, 'e, 'b) rust_op" where
  "bind_op m f s = (case m s of (Ok a, t) \<Rightarrow> f a t | (Err e, t) \<Rightarrow> (Err e, t) | (Panic, t) \<Rightarrow> (Panic, t))"

definition seq_op :: "('s, 'e, 'a) rust_op \<Rightarrow> ('s, 'e, 'b) rust_op \<Rightarrow> ('s, 'e, 'b) rust_op" where
  [op_simps]: "seq_op m n = bind_op m (\<lambda>_. n)"

definition bind_outcome :: "('e, 'a) outcome \<Rightarrow> ('a \<Rightarrow> ('e, 'b) outcome) \<Rightarrow> ('e, 'b) outcome" where
  "bind_outcome r f = (case r of Ok a \<Rightarrow> f a | Err e \<Rightarrow> Err e | Panic \<Rightarrow> Panic)"

text \<open>Rust's \<open>map_err\<close>; \<open>expect\<close> and \<open>unwrap\<close> turn an error into a panic.\<close>

definition map_err_op :: "('e \<Rightarrow> 'f) \<Rightarrow> ('s, 'e, 'a) rust_op \<Rightarrow> ('s, 'f, 'a) rust_op" where
  "map_err_op g m s = (case m s of (Ok a, t) \<Rightarrow> (Ok a, t) | (Err e, t) \<Rightarrow> (Err (g e), t) | (Panic, t) \<Rightarrow> (Panic, t))"

definition expect_op :: "('s, 'e, 'a) rust_op \<Rightarrow> ('s, 'f, 'a) rust_op" where
  "expect_op m s = (case m s of (Ok a, t) \<Rightarrow> (Ok a, t) | (Err e, t) \<Rightarrow> (Panic, t) | (Panic, t) \<Rightarrow> (Panic, t))"

definition ok_or_op :: "'e \<Rightarrow> 'a option \<Rightarrow> ('s, 'e, 'a) rust_op" where
  [op_simps]: "ok_or_op e x = (case x of Some a \<Rightarrow> return_op a | None \<Rightarrow> throw_op e)"

fun for_op :: "('x \<Rightarrow> ('s, 'e, unit) rust_op) \<Rightarrow> 'x list \<Rightarrow> ('s, 'e, unit) rust_op" where
  "for_op f [] = return_op ()"
| "for_op f (x # xs) = seq_op (f x) (for_op f xs)"

lemma bind_outcome_simps [simp]:
  "bind_outcome (Ok a) f = f a" "bind_outcome (Err e) f = Err e" "bind_outcome Panic f = Panic"
  by (simp_all add: bind_outcome_def)

lemma bind_outcome_Ok: "bind_outcome r f = Ok b \<longleftrightarrow> (\<exists>a. r = Ok a \<and> f a = Ok b)"
  by (cases r) simp_all

lemma bind_op_simps [simp]:
  "m s = (Ok a, t) \<Longrightarrow> bind_op m f s = f a t"
  "m s = (Err e, t) \<Longrightarrow> bind_op m f s = (Err e, t)"
  "m s = (Panic, t) \<Longrightarrow> bind_op m f s = (Panic, t)"
  by (simp_all add: bind_op_def)

lemma bind_op_Ok_iff [op_simps]:
  "bind_op m f s = (Ok b, u) \<longleftrightarrow> (\<exists>a t. m s = (Ok a, t) \<and> f a t = (Ok b, u))"
  by (auto simp: bind_op_def split: prod.splits outcome.splits)

lemma bind_op_Err_iff [op_simps]:
  "bind_op m f s = (Err e, u) \<longleftrightarrow> m s = (Err e, u) \<or> (\<exists>a t. m s = (Ok a, t) \<and> f a t = (Err e, u))"
  by (auto simp: bind_op_def split: prod.splits outcome.splits)

lemma bind_op_Panic_iff [op_simps]:
  "bind_op m f s = (Panic, u) \<longleftrightarrow> m s = (Panic, u) \<or> (\<exists>a t. m s = (Ok a, t) \<and> f a t = (Panic, u))"
  by (auto simp: bind_op_def split: prod.splits outcome.splits)

lemma map_err_op_iff [op_simps]:
  "map_err_op g m s = (Ok a, t) \<longleftrightarrow> m s = (Ok a, t)"
  "map_err_op g m s = (Panic, t) \<longleftrightarrow> m s = (Panic, t)"
  "map_err_op g m s = (Err f, t) \<longleftrightarrow> (\<exists>e. m s = (Err e, t) \<and> f = g e)"
  by (auto simp: map_err_op_def split: prod.splits outcome.splits)

lemma expect_op_iff [op_simps]:
  "expect_op m s = (Ok a, t) \<longleftrightarrow> m s = (Ok a, t)"
  "expect_op m s = (Panic, t) \<longleftrightarrow> m s = (Panic, t) \<or> (\<exists>e. m s = (Err e, t))"
  "expect_op m s \<noteq> (Err f, t)"
  by (auto simp: expect_op_def split: prod.splits outcome.splits)

subsection \<open>Operations that succeed\<close>

text \<open>\<open>runs m s Q\<close>: from \<open>s\<close>, \<open>m\<close> succeeds, with a value and a state of which \<open>Q\<close> holds.\<close>

definition runs :: "('s, 'e, 'a) rust_op \<Rightarrow> 's \<Rightarrow> ('a \<Rightarrow> 's \<Rightarrow> bool) \<Rightarrow> bool" where
  "runs m s Q \<longleftrightarrow> (\<exists>a t. m s = (Ok a, t) \<and> Q a t)"

lemma runsI: "m s = (Ok a, t) \<Longrightarrow> Q a t \<Longrightarrow> runs m s Q"
  by (auto simp: runs_def)

lemma runs_mono: "runs m s Q \<Longrightarrow> (\<And>a t. Q a t \<Longrightarrow> Q' a t) \<Longrightarrow> runs m s Q'"
  by (auto simp: runs_def)

lemma runs_bind: "runs m s (\<lambda>a t. runs (f a) t Q) \<Longrightarrow> runs (bind_op m f) s Q"
  by (auto simp: runs_def)

lemma runs_seq: "runs m s (\<lambda>_ t. runs n t Q) \<Longrightarrow> runs (seq_op m n) s Q"
  by (auto simp: runs_def seq_op_def)

lemma runs_expect: "runs m s Q \<Longrightarrow> runs (expect_op m) s Q"
  by (auto simp: runs_def expect_op_def)

lemma runs_map_err: "runs m s Q \<Longrightarrow> runs (map_err_op g m) s Q"
  by (auto simp: runs_def map_err_op_def)

subsection \<open>What an operation keeps\<close>

text \<open>
  \<open>keeps P m\<close>: whatever its outcome, \<open>m\<close> leads from a \<open>P\<close>-state to a \<open>P\<close>-state.
  \<open>keeps_ok P m\<close> says it of the successful outcomes only; a failing operation may have written
  half of its updates and relies on its caller to roll back.
\<close>

definition keeps :: "('s \<Rightarrow> bool) \<Rightarrow> ('s, 'e, 'a) rust_op \<Rightarrow> bool" where
  "keeps P m \<longleftrightarrow> (\<forall>s r t. m s = (r, t) \<longrightarrow> P s \<longrightarrow> P t)"

definition keeps_ok :: "('s \<Rightarrow> bool) \<Rightarrow> ('s, 'e, 'a) rust_op \<Rightarrow> bool" where
  "keeps_ok P m \<longleftrightarrow> (\<forall>s a t. m s = (Ok a, t) \<longrightarrow> P s \<longrightarrow> P t)"

named_theorems keeps_intros \<open>which operations keep which predicates\<close>

lemma keepsI: "(\<And>s r t. m s = (r, t) \<Longrightarrow> P s \<Longrightarrow> P t) \<Longrightarrow> keeps P m"
  by (auto simp: keeps_def)

lemma keepsD: "keeps P m \<Longrightarrow> m s = (r, t) \<Longrightarrow> P s \<Longrightarrow> P t"
  by (auto simp: keeps_def)

lemma keeps_okI: "(\<And>s a t. m s = (Ok a, t) \<Longrightarrow> P s \<Longrightarrow> P t) \<Longrightarrow> keeps_ok P m"
  by (auto simp: keeps_ok_def)

lemma keeps_okD: "keeps_ok P m \<Longrightarrow> m s = (Ok a, t) \<Longrightarrow> P s \<Longrightarrow> P t"
  by (auto simp: keeps_ok_def)

lemma keeps_return [keeps_intros]: "keeps P (return_op a)"
  by (simp add: keeps_def return_op_def)

lemma keeps_throw [keeps_intros]: "keeps P (throw_op a)"
  by (simp add: keeps_def throw_op_def)

lemma keeps_panic [keeps_intros]: "keeps P panic_op"
  by (simp add: keeps_def panic_op_def)

lemma keeps_reads [keeps_intros]: "keeps P (reads_op f)"
  by (simp add: keeps_def reads_op_def)

lemma keeps_update [keeps_intros]: "(\<And>s. P s \<Longrightarrow> P (f s)) \<Longrightarrow> keeps P (update_op f)"
  by (simp add: keeps_def update_op_def)

lemma keeps_bind [keeps_intros]: "keeps P m \<Longrightarrow> (\<And>a. keeps P (f a)) \<Longrightarrow> keeps P (bind_op m f)"
  unfolding keeps_def bind_op_def by (auto split: prod.splits outcome.splits)

lemma keeps_seq [keeps_intros]: "keeps P m \<Longrightarrow> keeps P n \<Longrightarrow> keeps P (seq_op m n)"
  by (simp add: seq_op_def keeps_bind)

lemma keeps_map_err [keeps_intros]: "keeps P m \<Longrightarrow> keeps P (map_err_op g m)"
  unfolding keeps_def map_err_op_def by (auto split: prod.splits outcome.splits)

lemma keeps_expect [keeps_intros]: "keeps P m \<Longrightarrow> keeps P (expect_op m)"
  unfolding keeps_def expect_op_def by (auto split: prod.splits outcome.splits)

lemma keeps_ok_or [keeps_intros]: "keeps P (ok_or_op e x)"
  by (cases x) (simp_all add: ok_or_op_def keeps_return keeps_throw)

lemma keeps_if [keeps_intros]: "(b \<Longrightarrow> keeps P m) \<Longrightarrow> (\<not> b \<Longrightarrow> keeps P n) \<Longrightarrow> keeps P (if b then m else n)"
  by simp

lemma keeps_for [keeps_intros]: "(\<And>x. x \<in> set xs \<Longrightarrow> keeps P (f x)) \<Longrightarrow> keeps P (for_op f xs)"
  by (induction xs) (simp_all add: keeps_return keeps_seq)

lemma keeps_imp_keeps_ok: "keeps P m \<Longrightarrow> keeps_ok P m"
  by (auto simp: keeps_def keeps_ok_def)

lemma keeps_ok_bind: "keeps_ok P m \<Longrightarrow> (\<And>a. keeps_ok P (f a)) \<Longrightarrow> keeps_ok P (bind_op m f)"
  unfolding keeps_ok_def bind_op_Ok_iff by blast

lemma keeps_ok_seq: "keeps_ok P m \<Longrightarrow> keeps_ok P n \<Longrightarrow> keeps_ok P (seq_op m n)"
  by (simp add: seq_op_def keeps_ok_bind)

lemma keeps_ok_map_err: "keeps_ok P m \<Longrightarrow> keeps_ok P (map_err_op g m)"
  by (simp add: keeps_ok_def map_err_op_iff)

lemma keeps_ok_expect: "keeps_ok P m \<Longrightarrow> keeps_ok P (expect_op m)"
  by (simp add: keeps_ok_def expect_op_iff)

lemma keeps_ok_for: "(\<And>x. x \<in> set xs \<Longrightarrow> keeps_ok P (f x)) \<Longrightarrow> keeps_ok P (for_op f xs)"
  by (induction xs) (simp_all add: keeps_imp_keeps_ok keeps_return keeps_ok_seq)

section \<open>Ordered maps\<close>

definition fm_get :: "'v \<Rightarrow> ('k, 'v) fmap \<Rightarrow> 'k \<Rightarrow> 'v" where
  "fm_get d m k = (case fmlookup m k of Some v \<Rightarrow> v | None \<Rightarrow> d)"

text \<open>The entries of a map in the order of the keys, as a \<open>BTreeMap\<close> iterates them.\<close>

definition fm_entries :: "('k::linorder, 'v) fmap \<Rightarrow> ('k \<times> 'v) list" where
  "fm_entries m = map (\<lambda>k. (k, the (fmlookup m k))) (sorted_list_of_fset (fmdom m))"

text \<open>The sum of a measure over the entries of a map.\<close>

definition fm_total :: "('k \<Rightarrow> 'v \<Rightarrow> nat) \<Rightarrow> ('k, 'v) fmap \<Rightarrow> nat" where
  "fm_total f m = (\<Sum>k \<in> fmdom' m. f k (the (fmlookup m k)))"

lemma fm_get_empty [simp]: "fm_get d fmempty k = d"
  by (simp add: fm_get_def)

lemma fm_get_upd [simp]: "fm_get d (fmupd k v m) k' = (if k = k' then v else fm_get d m k')"
  by (simp add: fm_get_def)

lemma fm_get_Some [simp]: "fmlookup m k = Some v \<Longrightarrow> fm_get d m k = v"
  by (simp add: fm_get_def)

lemma fm_get_None [simp]: "fmlookup m k = None \<Longrightarrow> fm_get d m k = d"
  by (simp add: fm_get_def)

lemma takeWhile_sorted: "sorted (map f xs) \<Longrightarrow> takeWhile (\<lambda>x. f x \<le> (e :: 'a::linorder)) xs = filter (\<lambda>x. f x \<le> e) xs"
proof (induction xs)
  case (Cons x xs)
  then show ?case by (cases "f x \<le> e") (auto simp: filter_empty_conv eq_commute [of "[]"] dest: order_trans)
qed simp

lemma set_fm_entries: "(k, v) \<in> set (fm_entries m) \<longleftrightarrow> fmlookup m k = Some v"
  by (auto simp: fm_entries_def fmlookup_dom_iff image_iff fmdom'_alt_def)

lemma fst_fm_entries: "fst ` set (fm_entries m) = fmdom' m"
  by (simp add: fm_entries_def image_image fmdom'_alt_def sorted_list_of_fset.rep_eq)

lemma distinct_fm_entries: "distinct (map fst (fm_entries m))"
  by (simp add: fm_entries_def comp_def sorted_list_of_fset.rep_eq)

lemma sorted_fm_entries: "sorted (map fst (fm_entries m))"
  by (simp add: fm_entries_def comp_def sorted_list_of_fset.rep_eq)

lemma map_of_fm_entries: "map_of (fm_entries m) = fmlookup m"
proof
  fix k show "map_of (fm_entries m) k = fmlookup m k"
  proof (cases "fmlookup m k")
    case None
    then show ?thesis
      by (metis map_of_SomeD not_Some_eq set_fm_entries)
  next
    case (Some v)
    then show ?thesis
      by (simp add: distinct_fm_entries map_of_is_SomeI set_fm_entries)
  qed
qed

lemma fm_total_empty [simp]: "fm_total f fmempty = 0"
  by (simp add: fm_total_def)

lemma fm_total_upd:
  "fm_total f (fmupd k v m) + (case fmlookup m k of Some w \<Rightarrow> f k w | None \<Rightarrow> 0) = fm_total f m + f k v"
proof -
  let ?D = "fmdom' m - {k}"
  have rest: "(\<Sum>i \<in> ?D. f i (the (fmlookup (fmupd k v m) i))) = (\<Sum>i \<in> ?D. f i (the (fmlookup m i)))"
    by (rule sum.cong) auto
  have new: "fm_total f (fmupd k v m) = f k v + (\<Sum>i \<in> ?D. f i (the (fmlookup m i)))"
    unfolding fm_total_def using rest by (simp add: sum.insert_remove)
  have old: "fm_total f m = (case fmlookup m k of Some w \<Rightarrow> f k w | None \<Rightarrow> 0)
      + (\<Sum>i \<in> ?D. f i (the (fmlookup m i)))"
  proof (cases "fmlookup m k")
    case None
    then have "?D = fmdom' m" by (auto simp: fmdom'_notI)
    then show ?thesis using None by (simp add: fm_total_def)
  next
    case (Some w)
    then have "k \<in> fmdom' m" by (simp add: fmdom'I)
    then show ?thesis using Some by (simp add: fm_total_def sum.remove [where x = k])
  qed
  show ?thesis using new old by simp
qed

lemma fm_total_entries: "fm_total f m = (\<Sum>(k, v) \<leftarrow> fm_entries m. f k v)"
proof -
  have "(\<Sum>(k, v) \<leftarrow> fm_entries m. f k v) =
      (\<Sum>k \<leftarrow> sorted_list_of_fset (fmdom m). f k (the (fmlookup m k)))"
    by (simp add: fm_entries_def comp_def)
  also have "\<dots> = (\<Sum>k \<in> fset (fmdom m). f k (the (fmlookup m k)))"
    by (simp add: sum_list_distinct_conv_sum_set sorted_list_of_fset.rep_eq)
  finally show ?thesis by (simp add: fm_total_def fmdom'_alt_def)
qed

lemma fm_total_lookup_le: "fmlookup m k = Some v \<Longrightarrow> f k v \<le> fm_total f m"
  unfolding fm_total_def
  using member_le_sum [of k "fmdom' m" "\<lambda>i. f i (the (fmlookup m i))"] by (simp add: fmdom'I)

section \<open>Big-endian bytes\<close>

fun be_bytes :: "nat \<Rightarrow> nat \<Rightarrow> bytes" where
  "be_bytes 0 n = []"
| "be_bytes (Suc k) n = be_bytes k (n div 256) @ [of_nat n]"

definition be_value :: "bytes \<Rightarrow> nat" where
  "be_value bs = foldl (\<lambda>acc b. 256 * acc + unat b) 0 bs"

lemma length_be_bytes [simp]: "length (be_bytes k n) = k"
  by (induction k arbitrary: n) simp_all

lemma be_value_bytes: "be_value (be_bytes k n) = n mod 256 ^ k"
proof (induction k arbitrary: n)
  case (Suc k)
  have "unat (of_nat n :: u8) = n mod 256" by (simp add: unsigned_of_nat take_bit_nat_def)
  then show ?case using Suc [of "n div 256"] by (simp add: be_value_def mod_mult2_eq)
qed (simp add: be_value_def)

lemma be_bytes_inject:
  assumes "m < 256 ^ k" "n < 256 ^ k"
  shows "be_bytes k m = be_bytes k n \<longleftrightarrow> m = n"
  using assms by (metis be_value_bytes mod_less)

end
