(* ===== verification/Kv_Store.thy ===== *)
theory Kv_Store
  imports Prelude "HOL-Library.Sublist"
begin

text \<open>
  The key-value stores of \<open>runtime-sdk/src/storage\<close>.
  The trait \<open>Store\<close> is the locale \<open>kv_store\<close>: reading after writing, and iteration in key order.
  The state tree at the bottom (\<open>mkvs\<close>, part of Oasis Core) is a parameter: the operations below
  take the parent's operations as arguments. \<open>OverlayStore\<close> (a write buffer that is committed
  or dropped), \<open>PrefixStore\<close> (a sub-tree) and \<open>TypedStore\<close> (values encoded in CBOR) are modelled
  operation by operation, and each is shown to be a store again.

  An iterator of the parent (\<open>mkvs::Iterator\<close>) is only observed through \<open>is_valid\<close>,
  \<open>get_key\<close>, \<open>get_value\<close>, \<open>next\<close> and \<open>seek\<close>; it is modelled by the entries still ahead of it.
\<close>

section \<open>The interface\<close>

type_synonym cursor = "(bytes \<times> bytes) list"

text \<open>\<open>mkvs::Iterator\<close> over a store with the given entries, and what it observes.\<close>

definition cursor_seek :: "cursor \<Rightarrow> bytes \<Rightarrow> cursor" where
  "cursor_seek es key = dropWhile (\<lambda>(k, _). k < key) es"

definition cursor_valid :: "cursor \<Rightarrow> bool" where
  "cursor_valid c \<longleftrightarrow> c \<noteq> []"

definition cursor_key :: "cursor \<Rightarrow> bytes option" where
  "cursor_key c = (case c of [] \<Rightarrow> None | (k, _) # _ \<Rightarrow> Some k)"

definition cursor_value :: "cursor \<Rightarrow> bytes option" where
  "cursor_value c = (case c of [] \<Rightarrow> None | (_, v) # _ \<Rightarrow> Some v)"

text \<open>Strictly increasing keys: what a cursor over a store always has.\<close>

definition ordered :: "cursor \<Rightarrow> bool" where
  "ordered c \<longleftrightarrow> sorted_wrt (<) (map fst c)"

locale kv_store =
  fixes inv :: "'s \<Rightarrow> bool"
    and get :: "'s \<Rightarrow> bytes \<Rightarrow> bytes option"
    and ins :: "'s \<Rightarrow> bytes \<Rightarrow> bytes \<Rightarrow> 's"
    and rem :: "'s \<Rightarrow> bytes \<Rightarrow> 's"
    and ents :: "'s \<Rightarrow> cursor"
  assumes inv_ins: "inv s \<Longrightarrow> inv (ins s k v)"
    and inv_rem: "inv s \<Longrightarrow> inv (rem s k)"
    and get_ins: "inv s \<Longrightarrow> get (ins s k v) = (get s)(k \<mapsto> v)"
    and get_rem: "inv s \<Longrightarrow> get (rem s k) = (get s)(k := None)"
    and ents_get: "inv s \<Longrightarrow> map_of (ents s) = get s"
    and ents_ordered: "inv s \<Longrightarrow> ordered (ents s)"

section \<open>Ordered cursors\<close>

lemma ordered_Nil [simp]: "ordered []"
  by (simp add: ordered_def)

lemma ordered_Cons [simp]: "ordered ((k, v) # c) \<longleftrightarrow> (\<forall>(k', v') \<in> set c. k < k') \<and> ordered c"
  by (auto simp: ordered_def)

lemma ordered_distinct: "ordered c \<Longrightarrow> distinct (map fst c)"
  unfolding ordered_def by (induction c) auto

lemma ordered_filter: "ordered c \<Longrightarrow> ordered (filter P c)"
  unfolding ordered_def by (induction c) auto

lemma ordered_tl: "ordered c \<Longrightarrow> ordered (tl c)"
  by (cases c) auto

lemma ordered_dropWhile: "ordered c \<Longrightarrow> ordered (dropWhile P c)"
  by (induction c) auto

lemma ordered_fm_entries: "ordered (fm_entries (m :: (bytes, bytes) fmap))"
  unfolding ordered_def using sorted_fm_entries [of m] distinct_fm_entries [of m]
  by (simp add: strict_sorted_iff)

lemma ordered_seek:
  "ordered c \<Longrightarrow> cursor_seek c key = filter (\<lambda>(k, _). key \<le> k) c"
proof (induction c)
  case Nil
  show ?case by (simp add: cursor_seek_def)
next
  case (Cons e c)
  obtain k v where e: "e = (k, v)" by (cases e)
  have IH: "dropWhile (\<lambda>(k, _). k < key) c = filter (\<lambda>(k, _). key \<le> k) c"
    using Cons.IH Cons.prems by (simp add: cursor_seek_def e)
  show ?case
  proof (cases "k < key")
    case True
    with IH show ?thesis by (auto simp: cursor_seek_def e)
  next
    case False
    with Cons.prems have "\<forall>x \<in> set c. key \<le> fst x" by (fastforce simp: e)
    then have "filter (\<lambda>(k, _). key \<le> k) c = c"
      by (simp add: case_prod_unfold)
    with False show ?thesis by (simp add: cursor_seek_def e)
  qed
qed

lemma map_of_filter_keys:
  "map_of (filter (\<lambda>(k, _). P k) c) k = (if P k then map_of c k else None)"
  by (induction c) auto

section \<open>OverlayStore\<close>

record 's overlay_store =
  ov_parent :: 's
  ov_overlay :: "(bytes, bytes) fmap"
  ov_dirty :: "bytes fset"

definition overlay_new :: "'s \<Rightarrow> 's overlay_store" where
  "overlay_new p = \<lparr>ov_parent = p, ov_overlay = fmempty, ov_dirty = {||}\<rparr>"

definition overlay_get :: "('s \<Rightarrow> bytes \<Rightarrow> bytes option) \<Rightarrow> 's overlay_store \<Rightarrow> bytes \<Rightarrow> bytes option" where
  "overlay_get pget os key =
     (if key |\<in>| ov_dirty os then fmlookup (ov_overlay os) key else pget (ov_parent os) key)"

definition overlay_insert :: "'s overlay_store \<Rightarrow> bytes \<Rightarrow> bytes \<Rightarrow> 's overlay_store" where
  "overlay_insert os key value =
     os\<lparr>ov_overlay := fmupd key value (ov_overlay os), ov_dirty := finsert key (ov_dirty os)\<rparr>"

definition overlay_remove :: "'s overlay_store \<Rightarrow> bytes \<Rightarrow> 's overlay_store" where
  "overlay_remove os key =
     (if key |\<in>| ov_dirty os then os\<lparr>ov_overlay := fmdrop key (ov_overlay os)\<rparr>
      else os\<lparr>ov_dirty := finsert key (ov_dirty os)\<rparr>)"

text \<open>
  \<open>commit\<close>: every item of the overlay is inserted (and is then no longer dirty), what is still
  dirty afterwards was removed. The \<open>HashSet\<close> iterates in no particular order; the keys are taken
  in increasing order here, and \<open>fold_rem\<close> below shows that the order does not matter.
\<close>

fun commit_inserts :: "('s \<Rightarrow> bytes \<Rightarrow> bytes \<Rightarrow> 's) \<Rightarrow> cursor \<Rightarrow> 's \<times> bytes fset \<Rightarrow> 's \<times> bytes fset" where
  "commit_inserts pins [] (p, dirty) = (p, dirty)"
| "commit_inserts pins ((k, v) # es) (p, dirty) = commit_inserts pins es (pins p k v, dirty |-| {|k|})"

definition overlay_commit ::
    "('s \<Rightarrow> bytes \<Rightarrow> bytes \<Rightarrow> 's) \<Rightarrow> ('s \<Rightarrow> bytes \<Rightarrow> 's) \<Rightarrow> 's overlay_store \<Rightarrow> 's" where
  "overlay_commit pins prem os =
     (case commit_inserts pins (fm_entries (ov_overlay os)) (ov_parent os, ov_dirty os) of
        (p, dirty) \<Rightarrow> fold (\<lambda>k p. prem p k) (sorted_list_of_fset dirty) p)"

definition overlay_rollback :: "'s overlay_store \<Rightarrow> 's" where
  "overlay_rollback os = ov_parent os"

definition overlay_has_pending_updates :: "'s overlay_store \<Rightarrow> bool" where
  "overlay_has_pending_updates os \<longleftrightarrow> ov_dirty os \<noteq> {||}"

definition overlay_pending_update_byte_size :: "'s overlay_store \<Rightarrow> nat" where
  "overlay_pending_update_byte_size os =
     (let updated_size = sum_list (map (\<lambda>(k, v). length k + length v) (fm_entries (ov_overlay os)));
          removed_size = sum_list (map length
            (filter (\<lambda>k. k |\<notin>| fmdom (ov_overlay os)) (sorted_list_of_fset (ov_dirty os))))
      in min (updated_size + removed_size) (2 ^ 64 - 1))"

definition overlay_inv :: "('s \<Rightarrow> bool) \<Rightarrow> 's overlay_store \<Rightarrow> bool" where
  "overlay_inv pinv os \<longleftrightarrow> pinv (ov_parent os) \<and> fmdom (ov_overlay os) |\<subseteq>| ov_dirty os"

subsection \<open>The iterator\<close>

record overlay_iter =
  it_parent :: cursor
  it_overlay :: cursor
  it_overlay_valid :: bool
  it_key :: "bytes option"
  it_value :: "bytes option"

definition overlay_iter_new :: "('s \<Rightarrow> cursor) \<Rightarrow> 's overlay_store \<Rightarrow> overlay_iter" where
  "overlay_iter_new pents os =
     \<lparr>it_parent = pents (ov_parent os), it_overlay = fm_entries (ov_overlay os),
      it_overlay_valid = True, it_key = None, it_value = None\<rparr>"

fun skip_dirty :: "bytes fset \<Rightarrow> cursor \<Rightarrow> cursor" where
  "skip_dirty dirty [] = []"
| "skip_dirty dirty ((k, v) # c) = (if k |\<notin>| dirty then (k, v) # c else skip_dirty dirty c)"

definition update_iterator_position :: "bytes fset \<Rightarrow> overlay_iter \<Rightarrow> overlay_iter" where
  "update_iterator_position dirty it =
     (let parent = skip_dirty dirty (it_parent it);
          i_key = cursor_key parent;
          o_item = (case it_overlay it of [] \<Rightarrow> None | e # _ \<Rightarrow> Some e);
          overlay_valid = (o_item \<noteq> None);
          it = it\<lparr>it_parent := parent, it_overlay_valid := overlay_valid\<rparr>
      in if cursor_valid parent \<and> (\<not> overlay_valid \<or> the i_key < fst (the o_item))
         then it\<lparr>it_key := i_key, it_value := cursor_value parent\<rparr>
         else if overlay_valid
         then it\<lparr>it_key := Some (fst (the o_item)), it_value := Some (snd (the o_item))\<rparr>
         else it\<lparr>it_key := None, it_value := None\<rparr>)"

text \<open>\<open>next\<close> panics (\<open>None\<close>) when \<open>overlay_valid\<close> is set but nothing is left to peek at.\<close>

definition overlay_iter_next :: "bytes fset \<Rightarrow> overlay_iter \<Rightarrow> overlay_iter option" where
  "overlay_iter_next dirty it =
     (if it_overlay_valid it \<and> cursor_valid (it_parent it) \<and> it_overlay it = [] then None
      else if \<not> it_overlay_valid it \<or>
          (cursor_valid (it_parent it) \<and> the (cursor_key (it_parent it)) \<le> fst (hd (it_overlay it)))
      then Some (update_iterator_position dirty (it\<lparr>it_parent := tl (it_parent it)\<rparr>))
      else Some (update_iterator_position dirty (it\<lparr>it_overlay := tl (it_overlay it)\<rparr>)))"

definition overlay_iter_is_valid :: "overlay_iter \<Rightarrow> bool" where
  "overlay_iter_is_valid it \<longleftrightarrow> cursor_valid (it_parent it) \<or> it_overlay_valid it"

definition overlay_iter_seek ::
    "('s \<Rightarrow> cursor) \<Rightarrow> 's overlay_store \<Rightarrow> bytes \<Rightarrow> overlay_iter \<Rightarrow> overlay_iter" where
  "overlay_iter_seek pents os key it =
     update_iterator_position (ov_dirty os)
       (it\<lparr>it_parent := cursor_seek (pents (ov_parent os)) key,
           it_overlay := cursor_seek (fm_entries (ov_overlay os)) key\<rparr>)"

definition overlay_iter_rewind :: "('s \<Rightarrow> cursor) \<Rightarrow> 's overlay_store \<Rightarrow> overlay_iter \<Rightarrow> overlay_iter" where
  "overlay_iter_rewind pents os it = overlay_iter_seek pents os [] it"

text \<open>The item interface: \<open>None\<close> is a panic, \<open>Some None\<close> the end of the iteration.\<close>

definition overlay_iter_item ::
    "bytes fset \<Rightarrow> overlay_iter \<Rightarrow> ((bytes \<times> bytes) \<times> overlay_iter) option option" where
  "overlay_iter_item dirty it =
     (if \<not> overlay_iter_is_valid it then Some None
      else case (it_key it, it_value it) of
        (Some k, Some v) \<Rightarrow> map_option (\<lambda>it'. Some ((k, v), it')) (overlay_iter_next dirty it)
      | _ \<Rightarrow> None)"

text \<open>What the iterator has to enumerate: both sources merged, parents' dirty entries left out.\<close>

fun merge_cursors :: "cursor \<Rightarrow> cursor \<Rightarrow> cursor" where
  "merge_cursors [] os = os"
| "merge_cursors ps [] = ps"
| "merge_cursors ((pk, pv) # ps) ((ok, ov) # os) =
     (if pk < ok then (pk, pv) # merge_cursors ps ((ok, ov) # os)
      else (ok, ov) # merge_cursors ((pk, pv) # ps) os)"

definition overlay_entries :: "('s \<Rightarrow> cursor) \<Rightarrow> 's overlay_store \<Rightarrow> cursor" where
  "overlay_entries pents os =
     merge_cursors (filter (\<lambda>(k, _). k |\<notin>| ov_dirty os) (pents (ov_parent os)))
       (fm_entries (ov_overlay os))"

section \<open>PrefixStore\<close>

record 's prefix_store =
  pf_parent :: 's
  pf_prefix :: bytes

definition prefix_get :: "('s \<Rightarrow> bytes \<Rightarrow> bytes option) \<Rightarrow> 's prefix_store \<Rightarrow> bytes \<Rightarrow> bytes option" where
  "prefix_get pget ps key = pget (pf_parent ps) (pf_prefix ps @ key)"

definition prefix_insert ::
    "('s \<Rightarrow> bytes \<Rightarrow> bytes \<Rightarrow> 's) \<Rightarrow> 's prefix_store \<Rightarrow> bytes \<Rightarrow> bytes \<Rightarrow> 's prefix_store" where
  "prefix_insert pins ps key value =
     ps\<lparr>pf_parent := pins (pf_parent ps) (pf_prefix ps @ key) value\<rparr>"

definition prefix_remove :: "('s \<Rightarrow> bytes \<Rightarrow> 's) \<Rightarrow> 's prefix_store \<Rightarrow> bytes \<Rightarrow> 's prefix_store" where
  "prefix_remove prem ps key = ps\<lparr>pf_parent := prem (pf_parent ps) (pf_prefix ps @ key)\<rparr>"

text \<open>
  \<open>PrefixStoreIterator\<close>: seek the prefix, hand out items with the prefix cut off, and end at the
  first key that does not start with it.
\<close>

definition prefix_iter_new :: "cursor \<Rightarrow> bytes \<Rightarrow> cursor" where
  "prefix_iter_new inner pfx = cursor_seek inner pfx"

definition prefix_iter_item :: "bytes \<Rightarrow> cursor \<Rightarrow> ((bytes \<times> bytes) \<times> cursor) option" where
  "prefix_iter_item pfx c =
     (case c of [] \<Rightarrow> None
      | (k, v) # c' \<Rightarrow> if prefix pfx k then Some ((drop (length pfx) k, v), c') else None)"

definition prefix_iter_is_valid :: "bytes \<Rightarrow> cursor \<Rightarrow> bool" where
  "prefix_iter_is_valid pfx c \<longleftrightarrow>
     prefix pfx (case cursor_key c of Some k \<Rightarrow> k | None \<Rightarrow> []) \<and> cursor_valid c"

definition prefix_iter_next :: "bytes \<Rightarrow> cursor \<Rightarrow> cursor" where
  "prefix_iter_next pfx c = (if \<not> prefix_iter_is_valid pfx c then c else tl c)"

definition prefix_iter_seek :: "cursor \<Rightarrow> bytes \<Rightarrow> bytes \<Rightarrow> cursor" where
  "prefix_iter_seek inner pfx key = cursor_seek inner (pfx @ key)"

fun prefix_iter_items :: "bytes \<Rightarrow> cursor \<Rightarrow> (bytes \<times> bytes) list" where
  "prefix_iter_items pfx [] = []"
| "prefix_iter_items pfx (e # c) =
     (case prefix_iter_item pfx (e # c) of None \<Rightarrow> [] | Some (i, _) \<Rightarrow> i # prefix_iter_items pfx c)"

definition prefix_entries :: "('s \<Rightarrow> cursor) \<Rightarrow> 's prefix_store \<Rightarrow> cursor" where
  "prefix_entries pents ps =
     prefix_iter_items (pf_prefix ps) (prefix_iter_new (pents (pf_parent ps)) (pf_prefix ps))"

section \<open>TypedStore\<close>

text \<open>
  Keys are byte strings, values go through CBOR (\<open>oasis-cbor\<close>, a dependency): \<open>enc\<close> and \<open>dec\<close>
  are parameters. A value that does not decode panics.
\<close>

definition typed_get ::
    "(bytes \<Rightarrow> 'v option) \<Rightarrow> ('s \<Rightarrow> bytes \<Rightarrow> bytes option) \<Rightarrow> 's \<Rightarrow> bytes \<Rightarrow> ('e, 'v option) outcome" where
  "typed_get dec pget s key =
     (case pget s key of None \<Rightarrow> Ok None
      | Some data \<Rightarrow> (case dec data of Some v \<Rightarrow> Ok (Some v) | None \<Rightarrow> Panic))"

definition typed_insert ::
    "('v \<Rightarrow> bytes) \<Rightarrow> ('s \<Rightarrow> bytes \<Rightarrow> bytes \<Rightarrow> 's) \<Rightarrow> 's \<Rightarrow> bytes \<Rightarrow> 'v \<Rightarrow> 's" where
  "typed_insert enc pins s key value = pins s key (enc value)"

definition typed_remove :: "('s \<Rightarrow> bytes \<Rightarrow> 's) \<Rightarrow> 's \<Rightarrow> bytes \<Rightarrow> 's" where
  "typed_remove prem s key = prem s key"

text \<open>One item of the typed iterator; an empty value is read as the default.\<close>

definition typed_iter_item ::
    "(bytes \<Rightarrow> 'k option) \<Rightarrow> (bytes \<Rightarrow> 'v option) \<Rightarrow> 'v \<Rightarrow> bytes \<times> bytes \<Rightarrow> ('e, 'k \<times> 'v) outcome" where
  "typed_iter_item key_of dec dflt item =
     (case item of (k, v) \<Rightarrow>
        (case key_of k of None \<Rightarrow> Panic
         | Some key \<Rightarrow> if v = [] then Ok (key, dflt)
             else (case dec v of Some value \<Rightarrow> Ok (key, value) | None \<Rightarrow> Panic)))"


section \<open>Lemmas on the iterators\<close>

lemma skip_dirty_filter:
  "filter (\<lambda>(k, _). k |\<notin>| dirty) (skip_dirty dirty c) = filter (\<lambda>(k, _). k |\<notin>| dirty) c"
  by (induction dirty c rule: skip_dirty.induct) auto

lemma skip_dirty_set: "set (skip_dirty dirty c) \<subseteq> set c"
  by (induction dirty c rule: skip_dirty.induct) auto

lemma skip_dirty_ordered: "ordered c \<Longrightarrow> ordered (skip_dirty dirty c)"
  by (induction dirty c rule: skip_dirty.induct) auto

lemma skip_dirty_head: "skip_dirty dirty c = (k, v) # c' \<Longrightarrow> k |\<notin>| dirty"
  by (induction dirty c rule: skip_dirty.induct) (auto split: if_splits)

lemma merge_cursors_Nil2 [simp]: "merge_cursors ps [] = ps"
  by (cases ps) auto

lemma set_merge_cursors: "set (merge_cursors ps os) = set ps \<union> set os"
  by (induction ps os rule: merge_cursors.induct) auto

lemma ordered_merge_cursors:
  "ordered ps \<Longrightarrow> ordered os \<Longrightarrow> fst ` set ps \<inter> fst ` set os = {} \<Longrightarrow> ordered (merge_cursors ps os)"
proof (induction ps os rule: merge_cursors.induct)
  case (3 pk pv ps ok ov os)
  show ?case
  proof (cases "pk < ok")
    case True
    have "fst ` set ps \<inter> fst ` set ((ok, ov) # os) = {}" using 3(5) by auto
    with 3 True have "ordered (merge_cursors ps ((ok, ov) # os))" by simp
    moreover have "\<forall>x \<in> set os. pk < fst x" using 3(4) True by fastforce
    ultimately show ?thesis using 3(3) True by (auto simp: set_merge_cursors)
  next
    case False
    have "fst ` set ((pk, pv) # ps) \<inter> fst ` set os = {}" using 3(5) by auto
    with 3 False have o: "ordered (merge_cursors ((pk, pv) # ps) os)" by simp
    have lt: "ok < pk" using False 3(5) by auto
    moreover have "\<forall>x \<in> set ps. ok < fst x" using 3(3) lt by fastforce
    ultimately show ?thesis using 3(4) False o by (auto simp: set_merge_cursors)
  qed
qed auto

lemma map_of_merge_cursors:
  assumes "ordered ps" "ordered os" "fst ` set ps \<inter> fst ` set os = {}"
  shows "map_of (merge_cursors ps os) k = (case map_of os k of Some v \<Rightarrow> Some v | None \<Rightarrow> map_of ps k)"
proof -
  have d: "distinct (map fst (merge_cursors ps os))"
    using ordered_merge_cursors [OF assms] by (rule ordered_distinct)
  show ?thesis
  proof (cases "map_of os k")
    case None
    then have no: "k \<notin> fst ` set os" by (simp add: map_of_eq_None_iff)
    show ?thesis
    proof (cases "map_of ps k")
      case None
      then have "map_of (merge_cursors ps os) k = None" using no
        by (simp add: map_of_eq_None_iff set_merge_cursors image_Un)
      then show ?thesis using None \<open>map_of os k = None\<close> by simp
    next
      case (Some v)
      then have "(k, v) \<in> set (merge_cursors ps os)"
        by (simp add: map_of_SomeD set_merge_cursors)
      then show ?thesis using d Some None by simp
    qed
  next
    case (Some v)
    then have "(k, v) \<in> set (merge_cursors ps os)"
      by (simp add: map_of_SomeD set_merge_cursors)
    then show ?thesis using d Some by simp
  qed
qed

text \<open>What is ahead of an iterator, and when its cached position is up to date.\<close>

definition overlay_iter_rest :: "bytes fset \<Rightarrow> overlay_iter \<Rightarrow> cursor" where
  "overlay_iter_rest dirty it =
     merge_cursors (filter (\<lambda>(k, _). k |\<notin>| dirty) (it_parent it)) (it_overlay it)"

definition overlay_iter_positioned :: "bytes fset \<Rightarrow> overlay_iter \<Rightarrow> bool" where
  "overlay_iter_positioned dirty it \<longleftrightarrow>
     ordered (it_parent it) \<and> ordered (it_overlay it) \<and> (\<forall>(k, _) \<in> set (it_overlay it). k |\<in>| dirty) \<and>
     (case it_parent it of [] \<Rightarrow> True | (k, _) # _ \<Rightarrow> k |\<notin>| dirty) \<and>
     it_overlay_valid it = (it_overlay it \<noteq> []) \<and>
     it_key it = cursor_key (overlay_iter_rest dirty it) \<and>
     it_value it = cursor_value (overlay_iter_rest dirty it)"

lemma update_position_rest:
  "overlay_iter_rest dirty (update_iterator_position dirty it) = overlay_iter_rest dirty it"
  by (auto simp: overlay_iter_rest_def update_iterator_position_def Let_def skip_dirty_filter)

lemma update_position_positioned:
  assumes "ordered (it_parent it)" "ordered (it_overlay it)" "\<forall>(k, _) \<in> set (it_overlay it). k |\<in>| dirty"
  shows "overlay_iter_positioned dirty (update_iterator_position dirty it)"
proof -
  let ?it = "update_iterator_position dirty it"
  let ?p = "skip_dirty dirty (it_parent it)"
  have p: "it_parent ?it = ?p" and o: "it_overlay ?it = it_overlay it"
    and v: "it_overlay_valid ?it = (it_overlay it \<noteq> [])"
    by (auto simp: update_iterator_position_def Let_def split: list.splits)
  have head: "case ?p of [] \<Rightarrow> True | (k, _) # _ \<Rightarrow> k |\<notin>| dirty"
    by (auto split: list.splits dest: skip_dirty_head)
  have kv: "it_key ?it = cursor_key (overlay_iter_rest dirty ?it) \<and>
        it_value ?it = cursor_value (overlay_iter_rest dirty ?it)"
  proof (cases ?p)
    case Nil
    then have "filter (\<lambda>(k, _). k |\<notin>| dirty) (it_parent it) = []"
      using skip_dirty_filter [of dirty "it_parent it"] by simp
    then show ?thesis using Nil
      by (auto simp: update_iterator_position_def Let_def overlay_iter_rest_def cursor_valid_def
          cursor_key_def cursor_value_def split: list.splits)
  next
    case (Cons e c)
    obtain k w where e: "e = (k, w)" by (cases e)
    have k: "k |\<notin>| dirty" using skip_dirty_head Cons e by blast
    have f: "filter (\<lambda>(k, _). k |\<notin>| dirty) ?p = (k, w) # filter (\<lambda>(k, _). k |\<notin>| dirty) c"
      using Cons e k by simp
    show ?thesis using Cons e f k
      by (cases "it_overlay it")
        (auto simp: update_iterator_position_def Let_def overlay_iter_rest_def cursor_valid_def
          cursor_key_def cursor_value_def)
  qed
  show ?thesis using assms p o v head kv skip_dirty_ordered
    by (simp add: overlay_iter_positioned_def)
qed

lemma positioned_valid:
  assumes "overlay_iter_positioned dirty it"
  shows "overlay_iter_is_valid it \<longleftrightarrow> overlay_iter_rest dirty it \<noteq> []"
proof (cases "it_parent it")
  case Nil
  with assms show ?thesis
    by (simp add: overlay_iter_positioned_def overlay_iter_is_valid_def overlay_iter_rest_def cursor_valid_def)
next
  case (Cons e c)
  with assms obtain k v where "e = (k, v)" "k |\<notin>| dirty"
    by (cases e) (auto simp: overlay_iter_positioned_def)
  with Cons show ?thesis
    by (cases "it_overlay it")
      (auto simp: overlay_iter_is_valid_def overlay_iter_rest_def cursor_valid_def split: if_splits)
qed

lemma positioned_next:
  assumes pos: "overlay_iter_positioned dirty it" and valid: "overlay_iter_is_valid it"
  obtains it' where "overlay_iter_next dirty it = Some it'" "overlay_iter_positioned dirty it'"
    "overlay_iter_rest dirty it' = tl (overlay_iter_rest dirty it)"
proof -
  let ?adv_p = "it\<lparr>it_parent := tl (it_parent it)\<rparr>"
  let ?adv_o = "it\<lparr>it_overlay := tl (it_overlay it)\<rparr>"
  note defs = overlay_iter_positioned_def overlay_iter_next_def overlay_iter_rest_def cursor_valid_def
    cursor_key_def overlay_iter_is_valid_def
  have posp: "overlay_iter_positioned dirty (update_iterator_position dirty ?adv_p)"
    using pos by (intro update_position_positioned) (auto simp: defs ordered_tl)
  have poso: "overlay_iter_positioned dirty (update_iterator_position dirty ?adv_o)"
    using pos by (intro update_position_positioned)
      (cases "it_overlay it"; force simp: defs ordered_tl)+
  show thesis
  proof (cases "it_parent it")
    case Nil
    then obtain e os where o: "it_overlay it = e # os" using pos valid
      by (auto simp: defs neq_Nil_conv)
    have "overlay_iter_next dirty it = Some (update_iterator_position dirty ?adv_o)"
      using Nil o pos by (simp add: defs)
    moreover have "overlay_iter_rest dirty ?adv_o = tl (overlay_iter_rest dirty it)"
      using Nil o by (simp add: defs)
    ultimately show ?thesis using that poso by (simp add: update_position_rest)
  next
    case (Cons e c)
    obtain pk pv where e: "e = (pk, pv)" by (cases e)
    have pk: "pk |\<notin>| dirty" using pos Cons e by (simp add: defs)
    show ?thesis
    proof (cases "it_overlay it")
      case Nil
      have "overlay_iter_next dirty it = Some (update_iterator_position dirty ?adv_p)"
        using Nil Cons pos by (simp add: defs)
      moreover have "overlay_iter_rest dirty ?adv_p = tl (overlay_iter_rest dirty it)"
        using Nil Cons e pk by (simp add: defs)
      ultimately show ?thesis using that posp by (simp add: update_position_rest)
    next
      case (Cons oe os)
      note o = Cons
      obtain ok ov where oe: "oe = (ok, ov)" by (cases oe)
      have ok: "ok |\<in>| dirty" using pos o oe by (simp add: defs)
      with pk have neq: "pk \<noteq> ok" by auto
      show ?thesis
      proof (cases "pk \<le> ok")
        case True
        have "overlay_iter_next dirty it = Some (update_iterator_position dirty ?adv_p)"
          using True o oe e \<open>it_parent it = e # c\<close> pos by (simp add: defs)
        moreover have "overlay_iter_rest dirty ?adv_p = tl (overlay_iter_rest dirty it)"
          using True neq o oe e pk \<open>it_parent it = e # c\<close> by (simp add: defs)
        ultimately show ?thesis using that posp by (simp add: update_position_rest)
      next
        case False
        have "overlay_iter_next dirty it = Some (update_iterator_position dirty ?adv_o)"
          using False o oe e \<open>it_parent it = e # c\<close> pos by (simp add: defs)
        moreover have "\<not> pk < ok" using False by auto
        then have "overlay_iter_rest dirty ?adv_o = tl (overlay_iter_rest dirty it)"
          using o oe e pk \<open>it_parent it = e # c\<close> by (simp add: defs)
        ultimately show ?thesis using that poso by (simp add: update_position_rest)
      qed
    qed
  qed
qed


text \<open>A fresh seek positions the iterator on the entries from \<open>key\<close> on.\<close>

lemma merge_cursors_filter:
  "ordered ps \<Longrightarrow> ordered os \<Longrightarrow>
   merge_cursors (filter (\<lambda>(k, _). key \<le> k) ps) (filter (\<lambda>(k, _). key \<le> k) os) =
   filter (\<lambda>(k, _). key \<le> k) (merge_cursors ps os)"
proof (induction ps os rule: merge_cursors.induct)
  case (3 pk pv ps ok ov os)
  have keep_p: "key \<le> pk \<Longrightarrow> filter (\<lambda>(k, _). key \<le> k) ps = ps"
    using 3(3) by (intro filter_True) fastforce
  have keep_o: "key \<le> ok \<Longrightarrow> filter (\<lambda>(k, _). key \<le> k) os = os"
    using 3(4) by (intro filter_True) fastforce
  show ?case
  proof (cases "pk < ok")
    case True
    then have IH: "merge_cursors (filter (\<lambda>(k, _). key \<le> k) ps) (filter (\<lambda>(k, _). key \<le> k) ((ok, ov) # os)) =
        filter (\<lambda>(k, _). key \<le> k) (merge_cursors ps ((ok, ov) # os))" using 3 by simp
    show ?thesis
    proof (cases "key \<le> pk")
      case True
      with \<open>pk < ok\<close> have "key \<le> ok" by simp
      then show ?thesis using IH True \<open>pk < ok\<close> by simp
    next
      case False
      then show ?thesis using IH \<open>pk < ok\<close> by simp
    qed
  next
    case False
    then have IH: "merge_cursors (filter (\<lambda>(k, _). key \<le> k) ((pk, pv) # ps)) (filter (\<lambda>(k, _). key \<le> k) os) =
        filter (\<lambda>(k, _). key \<le> k) (merge_cursors ((pk, pv) # ps) os)" using 3 by simp
    show ?thesis
    proof (cases "key \<le> ok")
      case True
      with False have "key \<le> pk" by simp
      then show ?thesis using IH True False by simp
    next
      case nk: False
      then show ?thesis using IH False by simp
    qed
  qed
qed auto

section \<open>The stores satisfy the interface\<close>

lemma prefix_le: "prefix p (k :: bytes) \<Longrightarrow> p \<le> k"
proof (induction p arbitrary: k)
  case (Cons a p)
  then show ?case by (cases k) auto
qed simp

lemma not_prefix_less: "p \<le> (k :: bytes) \<Longrightarrow> \<not> prefix p k \<Longrightarrow> p @ x < k"
proof (induction p arbitrary: k)
  case (Cons a p)
  then show ?case by (cases k) auto
qed simp

text \<open>The keys below a prefix are contiguous, so iterating from the prefix to the first other key finds all of them.\<close>

lemma prefix_iter_items_from:
  "ordered c \<Longrightarrow> \<forall>(k, _) \<in> set c. pfx \<le> k \<Longrightarrow>
   prefix_iter_items pfx c =
     map (\<lambda>(k, v). (drop (length pfx) k, v)) (filter (\<lambda>(k, _). prefix pfx k) c)"
proof (induction c)
  case (Cons e c)
  obtain k v where e: "e = (k, v)" by (cases e)
  show ?case
  proof (cases "prefix pfx k")
    case True
    then show ?thesis using Cons by (auto simp: e prefix_iter_item_def)
  next
    case False
    have "\<not> prefix pfx k'" if "(k', v') \<in> set c" for k' v'
    proof
      assume "prefix pfx k'"
      then obtain x where "k' = pfx @ x" by (auto simp: prefix_def)
      then have "k' < k" using not_prefix_less [of pfx k] False Cons.prems by (auto simp: e)
      moreover have "k < k'" using Cons.prems that by (auto simp: e)
      ultimately show False by simp
    qed
    then have "filter (\<lambda>(k, _). prefix pfx k) c = []" by (auto simp: filter_empty_conv)
    then show ?thesis using False by (simp add: e prefix_iter_item_def)
  qed
qed simp

lemma prefix_iter_items_all:
  assumes "ordered es"
  shows "prefix_iter_items pfx (prefix_iter_new es pfx) =
    map (\<lambda>(k, v). (drop (length pfx) k, v)) (filter (\<lambda>(k, _). prefix pfx k) es)"
proof -
  have s: "prefix_iter_new es pfx = filter (\<lambda>(k, _). pfx \<le> k) es"
    using assms by (simp add: prefix_iter_new_def ordered_seek)
  have "filter (\<lambda>(k, _). prefix pfx k) (filter (\<lambda>(k, _). pfx \<le> k) es) = filter (\<lambda>(k, _). prefix pfx k) es"
    by (auto simp: filter_filter intro!: filter_cong dest: prefix_le)
  then show ?thesis using assms
    by (subst s, subst prefix_iter_items_from) (auto simp: s ordered_filter)
qed

lemma map_of_strip:
  "map_of (map (\<lambda>(k, v). (drop (length pfx) k, v)) (filter (\<lambda>(k, _). prefix pfx k) es)) k = map_of es (pfx @ k)"
proof (induction es)
  case (Cons e es)
  obtain k' v where e: "e = (k', v)" by (cases e)
  show ?case
  proof (cases "prefix pfx k'")
    case True
    then obtain x where "k' = pfx @ x" by (auto elim: prefixE)
    then show ?thesis using Cons by (simp add: e)
  next
    case False
    then have "k' \<noteq> pfx @ k" by auto
    then show ?thesis using Cons False by (simp add: e)
  qed
qed simp

lemma ordered_strip:
  "ordered es \<Longrightarrow> ordered (map (\<lambda>(k, v). (drop (length pfx) k, v)) (filter (\<lambda>(k, _). prefix pfx k) es))"
proof (induction es)
  case (Cons e es)
  obtain k v where e: "e = (k, v)" by (cases e)
  have lt: "drop (length pfx) k < drop (length pfx) k'"
    if p: "prefix pfx k" "prefix pfx k'" and k': "(k', v') \<in> set es" for k' v'
  proof -
    obtain x y where "k = pfx @ x" "k' = pfx @ y" using p by (auto elim!: prefixE)
    moreover have "pfx @ x < pfx @ y \<Longrightarrow> x < y" by (induction pfx) auto
    ultimately show ?thesis using Cons.prems k' by (auto simp: e)
  qed
  show ?case using Cons lt by (auto simp: e)
qed simp

text \<open>The laws of an overlay need its parent's laws for its parent store alone.\<close>

lemma overlay_get_insert: "overlay_get pget (overlay_insert s k v) = (overlay_get pget s)(k \<mapsto> v)"
  by (auto simp: overlay_get_def overlay_insert_def)

lemma overlay_get_remove:
  assumes "fmdom (ov_overlay s) |\<subseteq>| ov_dirty s"
  shows "overlay_get pget (overlay_remove s k) = (overlay_get pget s)(k := None)"
proof -
  have "fmlookup (ov_overlay s) k = None" if "k |\<notin>| ov_dirty s" using assms that by auto
  then show ?thesis by (auto simp: overlay_get_def overlay_remove_def)
qed

lemma overlay_entries_laws:
  assumes "fmdom (ov_overlay s) |\<subseteq>| ov_dirty s"
    and "ordered (pents (ov_parent s))" "map_of (pents (ov_parent s)) = pget (ov_parent s)"
  shows "ordered (overlay_entries pents s)" and "map_of (overlay_entries pents s) = overlay_get pget s"
proof -
  have dom: "\<And>k. k |\<notin>| ov_dirty s \<Longrightarrow> fmlookup (ov_overlay s) k = None"
    using assms(1) by auto
  let ?ps = "filter (\<lambda>(k, _). k |\<notin>| ov_dirty s) (pents (ov_parent s))"
  have o: "ordered ?ps" "ordered (fm_entries (ov_overlay s))"
    using assms(2) by (auto simp: ordered_filter ordered_fm_entries)
  have "fst ` set (fm_entries (ov_overlay s)) \<subseteq> fset (ov_dirty s)"
    using assms(1) by (auto simp: set_fm_entries fmdomI)
  then have dj: "fst ` set ?ps \<inter> fst ` set (fm_entries (ov_overlay s)) = {}" by auto
  show "ordered (overlay_entries pents s)"
    unfolding overlay_entries_def by (rule ordered_merge_cursors [OF o dj])
  show "map_of (overlay_entries pents s) = overlay_get pget s"
    using assms by (auto simp: overlay_entries_def map_of_merge_cursors [OF o dj] map_of_fm_entries
        map_of_filter_keys overlay_get_def dom split: option.splits)
qed

context kv_store
begin

lemma fold_rem:
  "inv p \<Longrightarrow> inv (fold (\<lambda>k p. rem p k) ks p) \<and>
     get (fold (\<lambda>k p. rem p k) ks p) k = (if k \<in> set ks then None else get p k)"
  by (induction ks arbitrary: p) (auto simp: inv_rem get_rem)

lemma commit_inserts_get:
  "commit_inserts ins es (p, dirty) = (q, rest) \<Longrightarrow> inv p \<Longrightarrow> distinct (map fst es) \<Longrightarrow>
   inv q \<and> get q k = (case map_of es k of Some v \<Rightarrow> Some v | None \<Rightarrow> get p k) \<and>
   (k |\<in>| rest \<longleftrightarrow> k |\<in>| dirty \<and> k \<notin> fst ` set es)"
proof (induction es arbitrary: p dirty)
  case (Cons e es)
  obtain k' v where e: "e = (k', v)" by (cases e)
  have "inv q \<and> get q k = (case map_of es k of Some v \<Rightarrow> Some v | None \<Rightarrow> get (ins p k' v) k) \<and>
      (k |\<in>| rest \<longleftrightarrow> k |\<in>| dirty |-| {|k'|} \<and> k \<notin> fst ` set es)"
    using Cons.prems by (intro Cons.IH) (auto simp: e inv_ins)
  moreover have "map_of es k' = None" using Cons.prems by (simp add: e map_of_eq_None_iff)
  ultimately show ?case using Cons.prems
    by (cases "map_of es k") (auto simp: e get_ins simp del: map_of_eq_None_iff)
qed simp

lemma overlay_commit_get:
  assumes "overlay_inv inv os"
  shows "inv (overlay_commit ins rem os)" and "get (overlay_commit ins rem os) = overlay_get get os"
proof -
  obtain q rest where c: "commit_inserts ins (fm_entries (ov_overlay os)) (ov_parent os, ov_dirty os) = (q, rest)"
    by fastforce
  note I = commit_inserts_get [OF c, unfolded map_of_fm_entries]
  have p: "inv (ov_parent os)" and d: "fmdom (ov_overlay os) |\<subseteq>| ov_dirty os"
    using assms by (auto simp: overlay_inv_def)
  have q: "inv q" using I p distinct_fm_entries by blast
  show "inv (overlay_commit ins rem os)" using fold_rem [OF q] by (simp add: overlay_commit_def c)
  show "get (overlay_commit ins rem os) = overlay_get get os"
  proof
    fix k
    have k: "k \<in> fst ` set (fm_entries (ov_overlay os)) \<longleftrightarrow> fmlookup (ov_overlay os) k \<noteq> None"
      by (metis map_of_eq_None_iff map_of_fm_entries)
    have dk: "fmlookup (ov_overlay os) k \<noteq> None \<Longrightarrow> k |\<in>| ov_dirty os"
      using d by (auto simp: fmdomI)
    show "get (overlay_commit ins rem os) k = overlay_get get os k"
      using fold_rem [OF q, of "sorted_list_of_fset rest" k] I [OF p distinct_fm_entries, of k] k dk
      by (auto simp: overlay_commit_def c overlay_get_def split: option.splits)
  qed
qed

lemma overlay_kv_store:
  "kv_store (overlay_inv inv) (overlay_get get) overlay_insert overlay_remove (overlay_entries ents)"
proof
  fix s :: "'s overlay_store" and k v
  assume i: "overlay_inv inv s"
  then show "overlay_inv inv (overlay_insert s k v)" "overlay_inv inv (overlay_remove s k)"
    by (auto simp: overlay_inv_def overlay_insert_def overlay_remove_def)
  show "overlay_get get (overlay_insert s k v) = (overlay_get get s)(k \<mapsto> v)"
    "overlay_get get (overlay_remove s k) = (overlay_get get s)(k := None)"
    using i by (simp_all add: overlay_inv_def overlay_get_insert overlay_get_remove)
  show "ordered (overlay_entries ents s)" "map_of (overlay_entries ents s) = overlay_get get s"
    using i by (auto simp: overlay_inv_def ents_ordered ents_get intro!: overlay_entries_laws)
qed

lemma prefix_kv_store:
  "kv_store (\<lambda>ps. inv (pf_parent ps)) (prefix_get get) (prefix_insert ins) (prefix_remove rem) (prefix_entries ents)"
proof
  fix s :: "'s prefix_store" and k v
  assume i: "inv (pf_parent s)"
  show "inv (pf_parent (prefix_insert ins s k v))" "inv (pf_parent (prefix_remove rem s k))"
    using i by (simp_all add: prefix_insert_def prefix_remove_def inv_ins inv_rem)
  show "prefix_get get (prefix_insert ins s k v) = (prefix_get get s)(k \<mapsto> v)"
    "prefix_get get (prefix_remove rem s k) = (prefix_get get s)(k := None)"
    using i by (auto simp: prefix_get_def prefix_insert_def prefix_remove_def get_ins get_rem)
  show "map_of (prefix_entries ents s) = prefix_get get s"
    using i by (auto simp: prefix_entries_def prefix_iter_items_all ents_ordered map_of_strip ents_get prefix_get_def)
  show "ordered (prefix_entries ents s)"
    using i by (simp add: prefix_entries_def prefix_iter_items_all ents_ordered ordered_strip)
qed

text \<open>Writing below one prefix leaves what lies below an unrelated prefix as it is.\<close>

lemma prefix_insert_other:
  assumes "inv s" "\<not> prefix p q" "\<not> prefix q p"
  shows "prefix_get get \<lparr>pf_parent = pf_parent (prefix_insert ins \<lparr>pf_parent = s, pf_prefix = p\<rparr> k v), pf_prefix = q\<rparr> k'
    = prefix_get get \<lparr>pf_parent = s, pf_prefix = q\<rparr> k'"
proof -
  have "p @ k \<noteq> q @ k'" using assms(2,3)
    by (metis prefix_def prefix_same_cases)
  then show ?thesis using assms(1) by (simp add: prefix_get_def prefix_insert_def get_ins)
qed

lemma overlay_seek_positioned:
  assumes "overlay_inv inv os"
  shows "overlay_iter_positioned (ov_dirty os) (overlay_iter_seek ents os key it)"
    and "overlay_iter_rest (ov_dirty os) (overlay_iter_seek ents os key it) =
      cursor_seek (overlay_entries ents os) key"
proof -
  let ?it = "it\<lparr>it_parent := cursor_seek (ents (ov_parent os)) key,
           it_overlay := cursor_seek (fm_entries (ov_overlay os)) key\<rparr>"
  have op: "ordered (ents (ov_parent os))" using assms by (simp add: overlay_inv_def ents_ordered)
  have oo: "ordered (fm_entries (ov_overlay os))" by (rule ordered_fm_entries)
  have d: "\<forall>(k, _) \<in> set (fm_entries (ov_overlay os)). k |\<in>| ov_dirty os"
    using assms by (auto simp: overlay_inv_def set_fm_entries fmdomI)
  show "overlay_iter_positioned (ov_dirty os) (overlay_iter_seek ents os key it)"
    unfolding overlay_iter_seek_def using op oo d
    by (intro update_position_positioned) (auto simp: ordered_seek ordered_filter)
  have "overlay_iter_rest (ov_dirty os) ?it =
      merge_cursors (filter (\<lambda>(k, _). key \<le> k) (filter (\<lambda>(k, _). k |\<notin>| ov_dirty os) (ents (ov_parent os))))
        (filter (\<lambda>(k, _). key \<le> k) (fm_entries (ov_overlay os)))"
    using op oo by (simp add: overlay_iter_rest_def ordered_seek filter_filter conj_commute case_prod_unfold)
  also have "\<dots> = filter (\<lambda>(k, _). key \<le> k) (overlay_entries ents os)"
    unfolding overlay_entries_def by (rule merge_cursors_filter) (simp_all add: op oo ordered_filter)
  also have "\<dots> = cursor_seek (overlay_entries ents os) key"
    using kv_store.ents_ordered [OF overlay_kv_store assms] by (simp add: ordered_seek)
  finally show "overlay_iter_rest (ov_dirty os) (overlay_iter_seek ents os key it) =
      cursor_seek (overlay_entries ents os) key"
    by (simp add: overlay_iter_seek_def update_position_rest)
qed

end

section \<open>Interpretations\<close>

text \<open>
  The state tree is a finite map whose iterator visits the keys in order; over it, the overlay and
  the prefix store are stores themselves.
\<close>

interpretation tree_kv: kv_store "\<lambda>_. True" fmlookup "\<lambda>m k v. fmupd k v m" "\<lambda>m k. fmdrop k m" fm_entries
  by unfold_locales (auto simp: map_of_fm_entries ordered_fm_entries)

interpretation overlay_kv: kv_store "overlay_inv (\<lambda>_. True)" "overlay_get fmlookup" overlay_insert overlay_remove
    "overlay_entries fm_entries"
  by (rule tree_kv.overlay_kv_store)

interpretation prefix_kv: kv_store "\<lambda>ps. overlay_inv (\<lambda>_. True) (pf_parent ps)" "prefix_get (overlay_get fmlookup)"
    "prefix_insert overlay_insert" "prefix_remove overlay_remove" "prefix_entries (overlay_entries fm_entries)"
  by (rule overlay_kv.prefix_kv_store)

section \<open>Collecting an iterator\<close>

text \<open>Calling \<open>Iterator::next\<close> until it ends; \<open>None\<close> is a panic, or fuel that did not suffice.\<close>

fun overlay_iter_collect :: "nat \<Rightarrow> bytes fset \<Rightarrow> overlay_iter \<Rightarrow> cursor option" where
  "overlay_iter_collect 0 dirty it = None"
| "overlay_iter_collect (Suc n) dirty it =
     (case overlay_iter_item dirty it of None \<Rightarrow> None | Some None \<Rightarrow> Some []
      | Some (Some (e, it')) \<Rightarrow> map_option ((#) e) (overlay_iter_collect n dirty it'))"

lemma positioned_item:
  assumes "overlay_iter_positioned dirty it"
  shows "case overlay_iter_rest dirty it of [] \<Rightarrow> overlay_iter_item dirty it = Some None
    | e # c \<Rightarrow> \<exists>it'. overlay_iter_item dirty it = Some (Some (e, it')) \<and> overlay_iter_positioned dirty it' \<and>
        overlay_iter_rest dirty it' = c"
proof (cases "overlay_iter_rest dirty it")
  case Nil
  then show ?thesis using positioned_valid [OF assms] by (simp add: overlay_iter_item_def)
next
  case (Cons e c)
  then have v: "overlay_iter_is_valid it" using positioned_valid [OF assms] by simp
  obtain it' where "overlay_iter_next dirty it = Some it'" "overlay_iter_positioned dirty it'"
      "overlay_iter_rest dirty it' = tl (overlay_iter_rest dirty it)"
    by (rule positioned_next [OF assms v])
  moreover have "it_key it = Some (fst e)" "it_value it = Some (snd e)"
    using assms Cons
    by (auto simp: overlay_iter_positioned_def cursor_key_def cursor_value_def split: prod.splits)
  ultimately show ?thesis using Cons v by (auto simp: overlay_iter_item_def)
qed

lemma collect_rest:
  "overlay_iter_positioned dirty it \<Longrightarrow> length (overlay_iter_rest dirty it) < n \<Longrightarrow>
   overlay_iter_collect n dirty it = Some (overlay_iter_rest dirty it)"
proof (induction n arbitrary: it)
  case (Suc n)
  show ?case
  proof (cases "overlay_iter_rest dirty it")
    case Nil
    then show ?thesis using positioned_item [OF Suc.prems(1)] by simp
  next
    case (Cons e c)
    then obtain it' where "overlay_iter_item dirty it = Some (Some (e, it'))" "overlay_iter_positioned dirty it'"
        "overlay_iter_rest dirty it' = c"
      using positioned_item [OF Suc.prems(1)] by auto
    then show ?thesis using Suc Cons by simp
  qed
qed simp

section \<open>Properties\<close>

text \<open>C24: committing an overlay into any parent that keeps the store laws gives a parent that reads, at
  every key, what the overlay read before; the parent's own invariant survives.\<close>

theorem overlay_commit_correct:
  assumes "kv_store pinv pget pins prem pents" "overlay_inv pinv os"
  shows "pinv (overlay_commit pins prem os) \<and> pget (overlay_commit pins prem os) = overlay_get pget os"
  using kv_store.overlay_commit_get [OF assms] by simp

definition sample_overlay :: "(bytes, bytes) fmap overlay_store" where
  "sample_overlay = overlay_remove (overlay_insert (overlay_new (fmap_of_list [([1], [10]), ([2], [20])])) [3] [30]) [1]"

lemma sample_overlay_inv: "overlay_inv (\<lambda>_. True) sample_overlay"
  by (auto simp: sample_overlay_def overlay_inv_def overlay_insert_def overlay_remove_def overlay_new_def)

theorem overlay_commit_correct_witness:
  "fmlookup (overlay_commit (\<lambda>m k v. fmupd k v m) (\<lambda>m k. fmdrop k m) sample_overlay) [1] = None \<and>
   fmlookup (overlay_commit (\<lambda>m k v. fmupd k v m) (\<lambda>m k. fmdrop k m) sample_overlay) [3] = Some [30]"
  using overlay_commit_correct [OF tree_kv.kv_store_axioms sample_overlay_inv]
  by (simp add: sample_overlay_def overlay_get_def overlay_insert_def overlay_remove_def overlay_new_def)

text \<open>C25: an iterator that was sought to \<open>key\<close>, from whatever position, ends without a panic and hands
  out exactly the entries the overlay reads as present from \<open>key\<close> on, once each and in key order.\<close>

theorem overlay_iteration_correct:
  assumes "kv_store pinv pget pins prem pents" "overlay_inv pinv os"
  shows "\<exists>es n. overlay_iter_collect n (ov_dirty os) (overlay_iter_seek pents os key it) = Some es \<and> ordered es \<and>
    (\<forall>k. map_of es k = (if key \<le> k then overlay_get pget os k else None))"
proof -
  note kv = kv_store.overlay_kv_store [OF assms(1)]
  let ?es = "cursor_seek (overlay_entries pents os) key"
  have o: "ordered (overlay_entries pents os)" by (rule kv_store.ents_ordered [OF kv assms(2)])
  have "overlay_iter_collect (Suc (length ?es)) (ov_dirty os) (overlay_iter_seek pents os key it) = Some ?es"
    using kv_store.overlay_seek_positioned [OF assms, of key it]
      collect_rest [of "ov_dirty os" "overlay_iter_seek pents os key it" "Suc (length ?es)"]
    by (simp del: overlay_iter_collect.simps)
  moreover have "map_of ?es k = (if key \<le> k then overlay_get pget os k else None)" for k
    using o kv_store.ents_get [OF kv assms(2)] by (simp add: ordered_seek map_of_filter_keys)
  ultimately show ?thesis using o by (metis ordered_filter ordered_seek)
qed

theorem overlay_iteration_correct_witness:
  "\<exists>es n. overlay_iter_collect n (ov_dirty sample_overlay)
      (overlay_iter_seek fm_entries sample_overlay [2] (overlay_iter_new fm_entries sample_overlay)) = Some es \<and>
    map_of es [1] = None \<and> map_of es [2] = Some [20] \<and> map_of es [3] = Some [30]"
proof -
  obtain es n where c: "overlay_iter_collect n (ov_dirty sample_overlay)
      (overlay_iter_seek fm_entries sample_overlay [2] (overlay_iter_new fm_entries sample_overlay)) = Some es"
    and m: "\<forall>k. map_of es k = (if [2] \<le> k then overlay_get fmlookup sample_overlay k else None)"
    using overlay_iteration_correct [OF tree_kv.kv_store_axioms sample_overlay_inv,
        of "[2]" "overlay_iter_new fm_entries sample_overlay"] by blast
  have "map_of es [1] = None \<and> map_of es [2] = Some [20] \<and> map_of es [3] = Some [30]"
    using m by (simp add: sample_overlay_def overlay_get_def overlay_insert_def overlay_remove_def
        overlay_new_def fmlookup_of_list)
  with c show ?thesis by blast
qed

text \<open>What a store below one prefix writes is seen at its key and nowhere below an unrelated prefix.\<close>

theorem prefix_isolation:
  assumes "kv_store pinv pget pins prem pents" "pinv s" "\<not> prefix p q" "\<not> prefix q p"
  shows "prefix_get pget (prefix_insert pins \<lparr>pf_parent = s, pf_prefix = p\<rparr> k v) k = Some v \<and>
    prefix_get pget \<lparr>pf_parent = pf_parent (prefix_insert pins \<lparr>pf_parent = s, pf_prefix = p\<rparr> k v), pf_prefix = q\<rparr> k' =
    prefix_get pget \<lparr>pf_parent = s, pf_prefix = q\<rparr> k'"
proof
  show "prefix_get pget (prefix_insert pins \<lparr>pf_parent = s, pf_prefix = p\<rparr> k v) k = Some v"
    using kv_store.get_ins [OF assms(1,2)] by (simp add: prefix_get_def prefix_insert_def)
qed (rule kv_store.prefix_insert_other [OF assms])

theorem prefix_isolation_witness:
  "prefix_get fmlookup (prefix_insert (\<lambda>m k v. fmupd k v m) \<lparr>pf_parent = fmap_of_list [([2, 7], [5])], pf_prefix = [1]\<rparr> [7] [9]) [7]
     = Some [9] \<and>
   prefix_get fmlookup \<lparr>pf_parent = pf_parent (prefix_insert (\<lambda>m k v. fmupd k v m)
     \<lparr>pf_parent = fmap_of_list [([2, 7], [5])], pf_prefix = [1]\<rparr> [7] [9]), pf_prefix = [2]\<rparr> [7] = Some [5]"
  using prefix_isolation [OF tree_kv.kv_store_axioms, where s = "fmap_of_list [([2, 7], [5])]" and p = "[1]" and q = "[2]"
      and k = "[7]" and v = "[9]" and k' = "[7]"]
  by (simp add: prefix_get_def fmlookup_of_list)

text \<open>A fresh overlay iterator that was not yet sought claims to be valid but has no item: reading it
  through the item interface panics.\<close>

theorem overlay_iter_new_unpositioned:
  "overlay_iter_is_valid (overlay_iter_new pents os) \<and>
   overlay_iter_item (ov_dirty os) (overlay_iter_new pents os) = None"
  by (simp add: overlay_iter_item_def overlay_iter_new_def overlay_iter_is_valid_def)

end
