(* ===== verification/Token_Types.thy ===== *)
theory Token_Types
  imports Prelude
begin

text \<open>
  Addresses (\<open>runtime-sdk/src/types/address.rs\<close>), denominations and token amounts
  (\<open>runtime-sdk/src/types/token.rs\<close>), and the keys the accounts module builds from them.
  An address is an array of 21 bytes and a denomination a byte string of at most 32 bytes; both
  are types of their own, ordered like their bytes, so the length bounds are type invariants.
  The hash function (\<open>Hash::digest_bytes_list\<close> of Oasis Core) is a parameter.
\<close>

section \<open>Definitions\<close>

definition ascii :: "string \<Rightarrow> bytes" where
  "ascii s = map of_char s"

text \<open>\<open>cbor::Value\<close>, as far as the code looks into it.\<close>

datatype cbor_value = Cbor_Unsigned u64 | Cbor_ByteString bytes | Cbor_Null | Cbor_Other bytes

datatype cbor_error = UnexpectedType

subsection \<open>Addresses\<close>

definition ADDRESS_VERSION_SIZE :: nat where "ADDRESS_VERSION_SIZE = 1"
definition ADDRESS_DATA_SIZE :: nat where "ADDRESS_DATA_SIZE = 20"
definition ADDRESS_SIZE :: nat where "ADDRESS_SIZE = ADDRESS_VERSION_SIZE + ADDRESS_DATA_SIZE"

definition ADDRESS_V0_VERSION :: u8 where "ADDRESS_V0_VERSION = 0"
definition ADDRESS_V0_ED25519_CONTEXT :: bytes where
  "ADDRESS_V0_ED25519_CONTEXT = ascii ''oasis-core/address: staking''"
definition ADDRESS_V0_SECP256K1ETH_CONTEXT :: bytes where
  "ADDRESS_V0_SECP256K1ETH_CONTEXT = ascii ''oasis-runtime-sdk/address: secp256k1eth''"
definition ADDRESS_V0_SR25519_CONTEXT :: bytes where
  "ADDRESS_V0_SR25519_CONTEXT = ascii ''oasis-runtime-sdk/address: sr25519''"
definition ADDRESS_V0_MODULE_CONTEXT :: bytes where
  "ADDRESS_V0_MODULE_CONTEXT = ascii ''oasis-runtime-sdk/address: module''"
definition ADDRESS_RUNTIME_V0_CONTEXT :: bytes where
  "ADDRESS_RUNTIME_V0_CONTEXT = ascii ''oasis-core/address: runtime''"
definition ADDRESS_RUNTIME_V0_VERSION :: u8 where "ADDRESS_RUNTIME_V0_VERSION = 0"
definition ADDRESS_V0_MULTISIG_CONTEXT :: bytes where
  "ADDRESS_V0_MULTISIG_CONTEXT = ascii ''oasis-runtime-sdk/address: multisig''"

datatype address_error = MalformedAddress

typedef address = "{bs :: bytes. length bs = 21}" morphisms address_bytes Abs_address
proof
  show "replicate 21 0 \<in> {bs :: bytes. length bs = 21}" by simp
qed

definition default_address :: address where
  "default_address = Abs_address (replicate 21 0)"

definition address_from_bytes :: "bytes \<Rightarrow> address_error + address" where
  "address_from_bytes data =
     (if length data \<noteq> ADDRESS_SIZE then Inl MalformedAddress else Inr (Abs_address data))"

text \<open>\<open>Address::new\<close>: the version byte, then the hash of context, version and data cut to 20 bytes.\<close>

definition address_new :: "(bytes list \<Rightarrow> bytes) \<Rightarrow> bytes \<Rightarrow> u8 \<Rightarrow> bytes \<Rightarrow> address" where
  "address_new H ctx version data =
     (let h = H [ctx, [version], data] in Abs_address ([version] @ take ADDRESS_DATA_SIZE h))"

definition address_from_module_raw :: "(bytes list \<Rightarrow> bytes) \<Rightarrow> string \<Rightarrow> bytes \<Rightarrow> address" where
  "address_from_module_raw H module kind =
     address_new H ADDRESS_V0_MODULE_CONTEXT ADDRESS_V0_VERSION (ascii module @ ascii ''.'' @ kind)"

definition address_from_module :: "(bytes list \<Rightarrow> bytes) \<Rightarrow> string \<Rightarrow> string \<Rightarrow> address" where
  "address_from_module H module kind = address_from_module_raw H module (ascii kind)"

definition address_from_runtime_id :: "(bytes list \<Rightarrow> bytes) \<Rightarrow> bytes \<Rightarrow> address" where
  "address_from_runtime_id H rid = address_new H ADDRESS_RUNTIME_V0_CONTEXT ADDRESS_RUNTIME_V0_VERSION rid"

definition address_from_eth :: "(bytes list \<Rightarrow> bytes) \<Rightarrow> bytes \<Rightarrow> address" where
  "address_from_eth H eth_address = address_new H ADDRESS_V0_SECP256K1ETH_CONTEXT ADDRESS_V0_VERSION eth_address"

definition address_to_cbor :: "address \<Rightarrow> cbor_value" where
  "address_to_cbor a = Cbor_ByteString (address_bytes a)"

definition address_of_cbor :: "cbor_value \<Rightarrow> cbor_error + address" where
  "address_of_cbor value =
     (case value of
        Cbor_ByteString data \<Rightarrow> (case address_from_bytes data of Inr a \<Rightarrow> Inr a | Inl _ \<Rightarrow> Inl UnexpectedType)
      | _ \<Rightarrow> Inl UnexpectedType)"

subsection \<open>Denominations and amounts\<close>

definition MAX_LENGTH :: nat where "MAX_LENGTH = 32"

datatype token_error = NameTooLong nat

typedef denomination = "{bs :: bytes. length bs \<le> 32}" morphisms denomination_bytes Abs_denomination
proof
  show "[] \<in> {bs :: bytes. length bs \<le> 32}" by simp
qed

definition NATIVE :: denomination where
  "NATIVE = Abs_denomination []"

definition denomination_is_native :: "denomination \<Rightarrow> bool" where
  "denomination_is_native d \<longleftrightarrow> denomination_bytes d = []"

definition denomination_try_from :: "bytes \<Rightarrow> token_error + denomination" where
  "denomination_try_from bs =
     (if length bs > MAX_LENGTH then Inl (NameTooLong (length bs)) else Inr (Abs_denomination bs))"

definition denomination_to_cbor :: "denomination \<Rightarrow> cbor_value" where
  "denomination_to_cbor d = Cbor_ByteString (denomination_bytes d)"

definition denomination_of_cbor :: "cbor_value \<Rightarrow> cbor_error + denomination" where
  "denomination_of_cbor value =
     (case value of
        Cbor_ByteString data \<Rightarrow> (case denomination_try_from data of Inr d \<Rightarrow> Inr d | Inl _ \<Rightarrow> Inl UnexpectedType)
      | _ \<Rightarrow> Inl UnexpectedType)"

datatype base_units = BaseUnits (amount: u128) (denom: denomination)

definition base_units_native :: "u128 \<Rightarrow> base_units" where
  "base_units_native a = BaseUnits a NATIVE"

definition default_base_units :: base_units where
  "default_base_units = BaseUnits 0 NATIVE"

subsection \<open>Order\<close>

instantiation address :: linorder
begin

definition less_eq_address :: "address \<Rightarrow> address \<Rightarrow> bool" where
  "a \<le> b \<longleftrightarrow> address_bytes a \<le> address_bytes b"

definition less_address :: "address \<Rightarrow> address \<Rightarrow> bool" where
  "a < b \<longleftrightarrow> address_bytes a < address_bytes b"

instance
  by standard (auto simp: less_eq_address_def less_address_def address_bytes_inject less_le_not_le)

end

instantiation denomination :: linorder
begin

definition less_eq_denomination :: "denomination \<Rightarrow> denomination \<Rightarrow> bool" where
  "a \<le> b \<longleftrightarrow> denomination_bytes a \<le> denomination_bytes b"

definition less_denomination :: "denomination \<Rightarrow> denomination \<Rightarrow> bool" where
  "a < b \<longleftrightarrow> denomination_bytes a < denomination_bytes b"

instance
  by standard (auto simp: less_eq_denomination_def less_denomination_def denomination_bytes_inject less_le_not_le)

end

instantiation address :: equal
begin

definition equal_address :: "address \<Rightarrow> address \<Rightarrow> bool" where
  "equal_address a b \<longleftrightarrow> address_bytes a = address_bytes b"

instance
  by standard (simp add: equal_address_def address_bytes_inject)

end

instantiation denomination :: equal
begin

definition equal_denomination :: "denomination \<Rightarrow> denomination \<Rightarrow> bool" where
  "equal_denomination a b \<longleftrightarrow> denomination_bytes a = denomination_bytes b"

instance
  by standard (simp add: equal_denomination_def denomination_bytes_inject)

end

subsection \<open>Keys of the balances map\<close>

datatype awd_error = Awd_MalformedAddress | Awd_MalformedDenomination

text \<open>The slice \<open>bytes[..Address::SIZE]\<close> panics (\<open>None\<close>) on a shorter key.\<close>

definition awd_try_from :: "bytes \<Rightarrow> (awd_error + address \<times> denomination) option" where
  "awd_try_from bs =
     (if length bs < ADDRESS_SIZE then None
      else Some (case address_from_bytes (take ADDRESS_SIZE bs) of
          Inl _ \<Rightarrow> Inl Awd_MalformedAddress
        | Inr address \<Rightarrow>
            (case denomination_try_from (drop ADDRESS_SIZE bs) of
               Inl _ \<Rightarrow> Inl Awd_MalformedDenomination
             | Inr denomination \<Rightarrow> Inr (address, denomination))))"

text \<open>The key the nested prefix stores build: the address, then the denomination.\<close>

definition balance_key :: "address \<times> denomination \<Rightarrow> bytes" where
  "balance_key ad = address_bytes (fst ad) @ denomination_bytes (snd ad)"

section \<open>Lemmas\<close>

lemmas address_size_defs = ADDRESS_SIZE_def ADDRESS_VERSION_SIZE_def ADDRESS_DATA_SIZE_def

lemma length_address_bytes [simp]: "length (address_bytes a) = 21"
  using address_bytes [of a] by simp

lemma length_denomination_bytes: "length (denomination_bytes d) \<le> 32"
  using denomination_bytes [of d] by simp

lemma address_from_bytes_roundtrip: "address_from_bytes (address_bytes a) = Inr a"
  by (simp add: address_from_bytes_def address_size_defs address_bytes_inverse)

lemma address_from_bytes_Inr: "address_from_bytes bs = Inr a \<Longrightarrow> address_bytes a = bs"
  by (auto simp: address_from_bytes_def address_size_defs Abs_address_inverse split: if_splits)

lemma denomination_try_from_roundtrip: "denomination_try_from (denomination_bytes d) = Inr d"
  using length_denomination_bytes [of d]
  by (simp add: denomination_try_from_def MAX_LENGTH_def denomination_bytes_inverse)

lemma denomination_try_from_Inr: "denomination_try_from bs = Inr d \<Longrightarrow> denomination_bytes d = bs"
  by (auto simp: denomination_try_from_def MAX_LENGTH_def Abs_denomination_inverse split: if_splits)

lemma append_less_same_length:
  "length (xs :: 'a::linorder list) = length ys \<Longrightarrow> xs @ us < ys @ vs \<longleftrightarrow> xs < ys \<or> xs = ys \<and> us < vs"
  by (induction xs ys rule: list_induct2) auto

lemma balance_key_less: "balance_key p < balance_key q \<longleftrightarrow> p < q"
  by (cases p; cases q)
    (auto simp: balance_key_def append_less_same_length less_prod_def less_address_def less_eq_address_def
      less_denomination_def address_bytes_inject)

text \<open>Concrete addresses and denominations for evaluation.\<close>

definition test_address :: "u8 \<Rightarrow> address" where
  "test_address b = Abs_address (replicate 21 b)"

definition test_denomination :: "u8 \<Rightarrow> denomination" where
  "test_denomination b = Abs_denomination [b]"

lemma test_address_bytes: "address_bytes (test_address b) = replicate 21 b"
  by (simp add: test_address_def Abs_address_inverse)

lemma test_address_eq [simp]: "test_address b = test_address c \<longleftrightarrow> b = c"
  by (metis test_address_bytes nth_replicate zero_less_numeral)

lemma replicate_less_iff: "0 < n \<Longrightarrow> replicate n (b::'a::linorder) < replicate n c \<longleftrightarrow> b < c"
  by (cases n) auto

lemma test_address_less [simp]: "test_address b < test_address c \<longleftrightarrow> b < c"
  by (simp add: less_address_def test_address_bytes replicate_less_iff)

lemma test_denomination_bytes: "denomination_bytes (test_denomination b) = [b]"
  by (simp add: test_denomination_def Abs_denomination_inverse)

lemma native_bytes [simp]: "denomination_bytes NATIVE = []"
  by (simp add: NATIVE_def Abs_denomination_inverse)

lemma test_denomination_eq [simp]: "test_denomination b = test_denomination c \<longleftrightarrow> b = c"
  by (metis list.inject test_denomination_bytes)

lemma test_denomination_native [simp]: "test_denomination b \<noteq> NATIVE" "NATIVE \<noteq> test_denomination b"
  by (metis list.distinct(1) native_bytes test_denomination_bytes)+

end
