(* ===== verification/Signature_Types.thy ===== *)
theory Signature_Types
  imports Prelude
begin

text \<open>
  Public keys and signatures (\<open>runtime-sdk/src/crypto/signature/mod.rs\<close>) and multisig
  configurations (\<open>runtime-sdk/src/crypto/multisig/mod.rs\<close>).
  The signature schemes themselves (\<open>ed25519-dalek\<close>, \<open>k256\<close>, \<open>p256\<close>, \<open>p384\<close>, \<open>schnorrkel\<close>) are
  dependencies: a record \<open>sig_schemes\<close> of functions stands for them. A public key is its bytes,
  tagged with its scheme.
\<close>

section \<open>Signature types and keys\<close>

datatype signature_type =
    Ed25519_Oasis | Ed25519_Pure | Ed25519_PrehashedSha512
  | Secp256k1_Oasis | Secp256k1_PrehashedKeccak256 | Secp256k1_PrehashedSha256
  | Sr25519_Pure | Secp256r1_PrehashedSha256 | Secp384r1_PrehashedSha384

fun as_int :: "signature_type \<Rightarrow> u8" where
  "as_int Ed25519_Oasis = 0"
| "as_int Ed25519_Pure = 1"
| "as_int Ed25519_PrehashedSha512 = 2"
| "as_int Secp256k1_Oasis = 3"
| "as_int Secp256k1_PrehashedKeccak256 = 4"
| "as_int Secp256k1_PrehashedSha256 = 5"
| "as_int Sr25519_Pure = 6"
| "as_int Secp256r1_PrehashedSha256 = 7"
| "as_int Secp384r1_PrehashedSha384 = 8"

definition is_prehashed :: "signature_type \<Rightarrow> bool" where
  "is_prehashed t \<longleftrightarrow> t \<in> {Ed25519_PrehashedSha512, Secp256k1_PrehashedKeccak256,
     Secp256k1_PrehashedSha256, Secp256r1_PrehashedSha256, Secp384r1_PrehashedSha384}"

definition is_ed25519_variant :: "signature_type \<Rightarrow> bool" where
  "is_ed25519_variant t \<longleftrightarrow> t \<in> {Ed25519_Oasis, Ed25519_Pure, Ed25519_PrehashedSha512}"

definition is_secp256k1_variant :: "signature_type \<Rightarrow> bool" where
  "is_secp256k1_variant t \<longleftrightarrow> t \<in> {Secp256k1_Oasis, Secp256k1_PrehashedKeccak256, Secp256k1_PrehashedSha256}"

definition is_secp256r1_variant :: "signature_type \<Rightarrow> bool" where
  "is_secp256r1_variant t \<longleftrightarrow> t = Secp256r1_PrehashedSha256"

definition is_secp384r1_variant :: "signature_type \<Rightarrow> bool" where
  "is_secp384r1_variant t \<longleftrightarrow> t = Secp384r1_PrehashedSha384"

definition is_sr25519_variant :: "signature_type \<Rightarrow> bool" where
  "is_sr25519_variant t \<longleftrightarrow> t = Sr25519_Pure"

datatype signature_error =
    MalformedPublicKey | MalformedPrivateKey | MalformedSignature | VerificationFailed
  | InvalidArgument | InvalidDigestLength | SigningError

definition signature_type_try_from :: "u8 \<Rightarrow> signature_error + signature_type" where
  "signature_type_try_from value =
     (if value = 0 then Inr Ed25519_Oasis
      else if value = 1 then Inr Ed25519_Pure
      else if value = 2 then Inr Ed25519_PrehashedSha512
      else if value = 3 then Inr Secp256k1_Oasis
      else if value = 4 then Inr Secp256k1_PrehashedKeccak256
      else if value = 5 then Inr Secp256k1_PrehashedSha256
      else if value = 6 then Inr Sr25519_Pure
      else if value = 7 then Inr Secp256r1_PrehashedSha256
      else if value = 8 then Inr Secp384r1_PrehashedSha384
      else Inl InvalidArgument)"

datatype public_key =
    Pk_Ed25519 bytes | Pk_Secp256k1 bytes | Pk_Secp256r1 bytes | Pk_Secp384r1 bytes | Pk_Sr25519 bytes

type_synonym signature = bytes

fun key_type :: "public_key \<Rightarrow> string" where
  "key_type (Pk_Ed25519 _) = ''ed25519''"
| "key_type (Pk_Secp256k1 _) = ''secp256k1''"
| "key_type (Pk_Secp256r1 _) = ''secp256r1''"
| "key_type (Pk_Secp384r1 _) = ''secp384r1''"
| "key_type (Pk_Sr25519 _) = ''sr25519''"

fun pk_as_bytes :: "public_key \<Rightarrow> bytes" where
  "pk_as_bytes (Pk_Ed25519 pk) = pk"
| "pk_as_bytes (Pk_Secp256k1 pk) = pk"
| "pk_as_bytes (Pk_Secp256r1 pk) = pk"
| "pk_as_bytes (Pk_Secp384r1 pk) = pk"
| "pk_as_bytes (Pk_Sr25519 pk) = pk"

text \<open>
  The schemes: which byte strings are keys, and verification of a message under a context, of a
  raw message, of a digest. \<open>sch_sr_raw\<close> is \<open>sr25519::PublicKey::verify_raw\<close>, which takes a
  context as well.
\<close>

record sig_schemes =
  sch_key :: "public_key \<Rightarrow> signature_error option"
  sch_verify :: "public_key \<Rightarrow> bytes \<Rightarrow> bytes \<Rightarrow> signature \<Rightarrow> signature_error + unit"
  sch_raw :: "public_key \<Rightarrow> bytes \<Rightarrow> signature \<Rightarrow> signature_error + unit"
  sch_digest :: "public_key \<Rightarrow> bytes \<Rightarrow> signature \<Rightarrow> signature_error + unit"
  sch_sr_raw :: "bytes \<Rightarrow> bytes \<Rightarrow> bytes \<Rightarrow> signature \<Rightarrow> signature_error + unit"

definition pk_from_bytes :: "sig_schemes \<Rightarrow> signature_type \<Rightarrow> bytes \<Rightarrow> signature_error + public_key" where
  "pk_from_bytes S sig_type bs =
     (let pk = (case sig_type of
          Ed25519_Oasis \<Rightarrow> Pk_Ed25519 bs
        | Ed25519_Pure \<Rightarrow> Pk_Ed25519 bs
        | Ed25519_PrehashedSha512 \<Rightarrow> Pk_Ed25519 bs
        | Secp256k1_Oasis \<Rightarrow> Pk_Secp256k1 bs
        | Secp256k1_PrehashedKeccak256 \<Rightarrow> Pk_Secp256k1 bs
        | Secp256k1_PrehashedSha256 \<Rightarrow> Pk_Secp256k1 bs
        | Secp256r1_PrehashedSha256 \<Rightarrow> Pk_Secp256r1 bs
        | Secp384r1_PrehashedSha384 \<Rightarrow> Pk_Secp384r1 bs
        | Sr25519_Pure \<Rightarrow> Pk_Sr25519 bs)
      in case sch_key S pk of None \<Rightarrow> Inr pk | Some e \<Rightarrow> Inl e)"

definition pk_verify_raw :: "sig_schemes \<Rightarrow> public_key \<Rightarrow> bytes \<Rightarrow> signature \<Rightarrow> signature_error + unit" where
  "pk_verify_raw S pk message sig =
     (case pk of Pk_Sr25519 _ \<Rightarrow> Inl InvalidArgument | _ \<Rightarrow> sch_raw S pk message sig)"

text \<open>The prehashed variants check the length of the digest (SHA-512: 64, SHA-384: 48, else 32).\<close>

definition verify_prehashed :: "sig_schemes \<Rightarrow> nat \<Rightarrow> public_key \<Rightarrow> bytes \<Rightarrow> signature \<Rightarrow> signature_error + unit" where
  "verify_prehashed S n pk h sig =
     (if length h \<noteq> n then Inl InvalidArgument else sch_digest S pk h sig)"

definition pk_verify_by_type ::
    "sig_schemes \<Rightarrow> public_key \<Rightarrow> signature_type \<Rightarrow> bytes \<Rightarrow> bytes \<Rightarrow> signature \<Rightarrow> signature_error + unit" where
  "pk_verify_by_type S pk t context_or_hash message sig =
     (case pk of
        Pk_Ed25519 _ \<Rightarrow>
          (case t of Ed25519_Oasis \<Rightarrow> sch_verify S pk context_or_hash message sig
           | Ed25519_Pure \<Rightarrow> sch_raw S pk message sig
           | Ed25519_PrehashedSha512 \<Rightarrow> verify_prehashed S 64 pk context_or_hash sig
           | _ \<Rightarrow> Inl InvalidArgument)
      | Pk_Secp256k1 _ \<Rightarrow>
          (case t of Secp256k1_Oasis \<Rightarrow> sch_verify S pk context_or_hash message sig
           | Secp256k1_PrehashedKeccak256 \<Rightarrow> verify_prehashed S 32 pk context_or_hash sig
           | Secp256k1_PrehashedSha256 \<Rightarrow> verify_prehashed S 32 pk context_or_hash sig
           | _ \<Rightarrow> Inl InvalidArgument)
      | Pk_Secp256r1 _ \<Rightarrow>
          (case t of Secp256r1_PrehashedSha256 \<Rightarrow> verify_prehashed S 32 pk context_or_hash sig
           | _ \<Rightarrow> Inl InvalidArgument)
      | Pk_Secp384r1 _ \<Rightarrow>
          (case t of Secp384r1_PrehashedSha384 \<Rightarrow> verify_prehashed S 48 pk context_or_hash sig
           | _ \<Rightarrow> Inl InvalidArgument)
      | Pk_Sr25519 bs \<Rightarrow>
          (case t of Sr25519_Pure \<Rightarrow> sch_sr_raw S bs context_or_hash message sig
           | _ \<Rightarrow> Inl InvalidArgument))"

fun verify_all :: "sig_schemes \<Rightarrow> bytes \<Rightarrow> bytes \<Rightarrow> (public_key \<times> signature) list \<Rightarrow> signature_error + unit" where
  "verify_all S ctx message [] = Inr ()"
| "verify_all S ctx message ((pk, sig) # rest) =
     bind_result (sch_verify S pk ctx message sig) (\<lambda>_. verify_all S ctx message rest)"

definition verify_batch_multisig ::
    "sig_schemes \<Rightarrow> bytes \<Rightarrow> bytes \<Rightarrow> public_key list \<Rightarrow> signature list \<Rightarrow> signature_error + unit" where
  "verify_batch_multisig S ctx message public_keys signatures =
     (if length public_keys \<noteq> length signatures then Inl InvalidArgument
      else verify_all S ctx message (zip public_keys signatures))"

section \<open>Multisig configurations\<close>

datatype multisig_error = InvalidConfig | InvalidSignatureSet | InsufficientWeight

record multisig_signer =
  ms_public_key :: public_key
  ms_weight :: u64

record multisig_config =
  mc_signers :: "multisig_signer list"
  mc_threshold :: u64

type_synonym signature_set = "signature option list"

text \<open>The loop of \<open>validate_basic\<close>: \<open>before\<close> are the signers already seen.\<close>

fun validate_signers ::
    "multisig_signer list \<Rightarrow> multisig_signer list \<Rightarrow> u64 \<Rightarrow> multisig_error + u64" where
  "validate_signers before [] tot = Inr tot"
| "validate_signers before (signer # rest) tot =
     (if list_ex (\<lambda>other_signer. ms_public_key signer = ms_public_key other_signer) before
      then Inl InvalidConfig
      else if ms_weight signer = 0 then Inl InvalidConfig
      else bind_result (ok_or InvalidConfig (checked_add tot (ms_weight signer)))
             (validate_signers (before @ [signer]) rest))"

definition multisig_validate_basic :: "multisig_config \<Rightarrow> multisig_error + unit" where
  "multisig_validate_basic c =
     (if mc_threshold c = 0 then Inl InvalidConfig
      else bind_result (validate_signers [] (mc_signers c) 0) (\<lambda>tot.
        if tot < mc_threshold c then Inl InvalidConfig else Inr ()))"

text \<open>The loop of \<open>batch\<close>; the weights are added with a wrapping \<open>+=\<close>.\<close>

fun batch_loop ::
    "(multisig_signer \<times> signature option) list \<Rightarrow> u64 \<times> public_key list \<times> signature list \<Rightarrow>
     u64 \<times> public_key list \<times> signature list" where
  "batch_loop [] acc = acc"
| "batch_loop ((signer, signature_o) # rest) (tot, public_keys, signatures) =
     batch_loop rest
       (case signature_o of None \<Rightarrow> (tot, public_keys, signatures)
        | Some sig \<Rightarrow> (tot + ms_weight signer, public_keys @ [ms_public_key signer], signatures @ [sig]))"

definition multisig_batch ::
    "multisig_config \<Rightarrow> signature_set \<Rightarrow> multisig_error + (public_key list \<times> signature list)" where
  "multisig_batch c signature_set =
     bind_result (multisig_validate_basic c) (\<lambda>_.
       if length signature_set \<noteq> length (mc_signers c) then Inl InvalidSignatureSet
       else case batch_loop (zip (mc_signers c) signature_set) (0, [], []) of
         (tot, public_keys, signatures) \<Rightarrow>
           if tot < mc_threshold c then Inl InsufficientWeight else Inr (public_keys, signatures))"

section \<open>Lemmas\<close>

lemma signature_type_roundtrip: "signature_type_try_from (as_int t) = Inr t"
  by (cases t) (simp_all add: signature_type_try_from_def)

lemma signature_type_try_from_Inr: "signature_type_try_from v = Inr t \<Longrightarrow> as_int t = v"
  by (auto simp: signature_type_try_from_def split: if_splits)

lemma pk_from_bytes_as_bytes: "pk_from_bytes S t bs = Inr pk \<Longrightarrow> pk_as_bytes pk = bs"
  by (auto simp: pk_from_bytes_def Let_def split: option.splits signature_type.splits)

lemma verify_all_Inr:
  "verify_all S ctx message ps = Inr () \<longleftrightarrow> (\<forall>(pk, sig) \<in> set ps. sch_verify S pk ctx message sig = Inr ())"
  by (induction ps) (auto simp: bind_result_Inr)

text \<open>The total weight, as a number, and the part of it that signed.\<close>

definition total_weight :: "multisig_signer list \<Rightarrow> nat" where
  "total_weight ss = (\<Sum>s \<leftarrow> ss. unat (ms_weight s))"

definition signed_part :: "multisig_signer list \<Rightarrow> signature_set \<Rightarrow> (multisig_signer \<times> signature) list" where
  "signed_part ss sigs = map (\<lambda>(s, o_sig). (s, the o_sig)) (filter (\<lambda>(s, o_sig). o_sig \<noteq> None) (zip ss sigs))"

definition signed_weight :: "multisig_signer list \<Rightarrow> signature_set \<Rightarrow> nat" where
  "signed_weight ss sigs = total_weight (map fst (signed_part ss sigs))"

lemma signed_part_simps [simp]:
  "signed_part [] sigs = []" "signed_part ss [] = []"
  "signed_part (s # ss) (None # sigs) = signed_part ss sigs"
  "signed_part (s # ss) (Some sig # sigs) = (s, sig) # signed_part ss sigs"
  by (simp_all add: signed_part_def)

lemma validate_signers_Inr:
  "validate_signers before ss tot = Inr t \<longleftrightarrow>
     unat t = unat tot + total_weight ss \<and> (\<forall>s \<in> set ss. ms_weight s \<noteq> 0) \<and>
     distinct (map ms_public_key ss) \<and> ms_public_key ` set before \<inter> ms_public_key ` set ss = {}"
proof (induction before ss tot rule: validate_signers.induct)
  case (1 before tot)
  then show ?case by (auto simp: total_weight_def word_unat_eq_iff)
next
  case (2 before s ss tot)
  show ?case
  proof (cases "checked_add tot (ms_weight s)")
    case None
    then have "2 ^ 64 \<le> unat tot + unat (ms_weight s)" by (simp add: checked_add_None)
    with None show ?thesis using unat_lt [of t] by (auto simp: total_weight_def)
  next
    case (Some u)
    then have u: "unat u = unat tot + unat (ms_weight s)" by (simp add: checked_add_Some)
    show ?thesis
    proof (cases "list_ex (\<lambda>other. ms_public_key s = ms_public_key other) before \<or> ms_weight s = 0")
      case True
      then show ?thesis by (auto simp: list_ex_iff)
    next
      case False
      then show ?thesis using 2(1) [of u] Some u
        by (auto simp: list_ex_iff total_weight_def)
    qed
  qed
qed

text \<open>A configuration is accepted exactly when it means what it should.\<close>

definition multisig_valid :: "multisig_config \<Rightarrow> bool" where
  "multisig_valid c \<longleftrightarrow> 0 < unat (mc_threshold c) \<and> unat (mc_threshold c) \<le> total_weight (mc_signers c) \<and>
     total_weight (mc_signers c) < 2 ^ 64 \<and> (\<forall>s \<in> set (mc_signers c). 0 < unat (ms_weight s)) \<and>
     distinct (map ms_public_key (mc_signers c))"

lemma multisig_validate_basic_Inr: "multisig_validate_basic c = Inr () \<longleftrightarrow> multisig_valid c"
proof
  assume "multisig_validate_basic c = Inr ()"
  then obtain t where "validate_signers [] (mc_signers c) 0 = Inr t" "\<not> t < mc_threshold c"
    "mc_threshold c \<noteq> 0"
    by (auto simp: multisig_validate_basic_def bind_result_Inr split: if_splits)
  then show "multisig_valid c"
    using unat_lt [of t]
    by (auto simp: validate_signers_Inr multisig_valid_def word_less_nat_alt unat_gt_0)
next
  assume v: "multisig_valid c"
  define t :: u64 where "t = of_nat (total_weight (mc_signers c))"
  have t: "unat t = total_weight (mc_signers c)"
    using v by (simp add: t_def multisig_valid_def unat_of_nat)
  then have "validate_signers [] (mc_signers c) 0 = Inr t"
    using v by (auto simp: validate_signers_Inr multisig_valid_def unat_gt_0)
  then show "multisig_validate_basic c = Inr ()"
    using v t by (auto simp: multisig_validate_basic_def multisig_valid_def word_less_nat_alt)
qed

lemma signed_weight_le: "signed_weight ss sigs \<le> total_weight ss"
proof (induction ss arbitrary: sigs)
  case (Cons s ss)
  show ?case
  proof (cases sigs)
    case (Cons o_sig sigs')
    then show ?thesis using Cons.IH [of sigs']
      by (cases o_sig) (simp_all add: signed_weight_def total_weight_def)
  qed (simp add: signed_weight_def total_weight_def)
qed (simp add: signed_weight_def total_weight_def)

lemma batch_loop_result:
  "length sigs = length ss \<Longrightarrow> unat tot + signed_weight ss sigs < 2 ^ 64 \<Longrightarrow>
   (case batch_loop (zip ss sigs) (tot, pks, sgs) of (t, pks', sgs') \<Rightarrow>
      unat t = unat tot + signed_weight ss sigs \<and>
      pks' = pks @ map (ms_public_key \<circ> fst) (signed_part ss sigs) \<and>
      sgs' = sgs @ map snd (signed_part ss sigs))"
proof (induction ss arbitrary: sigs tot pks sgs)
  case (Cons s ss)
  then obtain o_sig sigs' where sigs: "sigs = o_sig # sigs'" by (cases sigs) auto
  show ?case
  proof (cases o_sig)
    case None
    then show ?thesis using Cons.IH [of sigs' tot pks sgs] Cons.prems
      by (simp add: sigs signed_weight_def split: prod.splits)
  next
    case (Some sig)
    then have lt: "unat tot + unat (ms_weight s) + signed_weight ss sigs' < 2 ^ 64"
      using Cons.prems by (simp add: sigs signed_weight_def total_weight_def)
    then have "unat (tot + ms_weight s) = unat tot + unat (ms_weight s)"
      by (simp add: unat_word_ariths)
    then show ?thesis using Some lt
      Cons.IH [of sigs' "tot + ms_weight s" "pks @ [ms_public_key s]" "sgs @ [sig]"] Cons.prems
      by (simp add: sigs signed_weight_def total_weight_def split: prod.splits)
  qed
qed (simp add: signed_weight_def total_weight_def)

lemma multisig_batch_cases:
  assumes "multisig_valid c" "length sigs = length (mc_signers c)"
  shows "multisig_batch c sigs =
    (if signed_weight (mc_signers c) sigs < unat (mc_threshold c) then Inl InsufficientWeight
     else Inr (map (ms_public_key \<circ> fst) (signed_part (mc_signers c) sigs),
               map snd (signed_part (mc_signers c) sigs)))"
proof -
  have "multisig_validate_basic c = Inr ()" using assms by (simp add: multisig_validate_basic_Inr)
  moreover have "unat (0::u64) + signed_weight (mc_signers c) sigs < 2 ^ 64"
    using assms signed_weight_le [of "mc_signers c" sigs] by (simp add: multisig_valid_def)
  note batch_loop_result [OF assms(2) this, of "[]" "[]"]
  ultimately show ?thesis using assms(2)
    by (auto simp: multisig_batch_def word_less_nat_alt split: prod.splits)
qed

end
