(* ===== verification/Transaction_Types.thy ===== *)
theory Transaction_Types
  imports Token_Types Signature_Types
begin

text \<open>
  Transactions (\<open>runtime-sdk/src/types/transaction.rs\<close>), how a signer's address is derived
  (\<open>runtime-sdk/src/types/address.rs\<close>) and the sender metadata handed to the host
  (\<open>runtime-sdk/src/sender.rs\<close>).
  Verification of an unverified transaction and its counterpart, the transaction signer, are
  modelled in full. Parameters, collected in the record \<open>tx_deps\<close>: the CBOR coding of
  transactions and multisig configurations, the hash functions, the chain context and the
  signature schemes.
\<close>

section \<open>Address derivation\<close>

datatype signature_address_spec = Spec_Ed25519 bytes | Spec_Secp256k1Eth bytes | Spec_Sr25519 bytes

fun try_from_pk :: "public_key \<Rightarrow> signature_address_spec option" where
  "try_from_pk (Pk_Ed25519 pk) = Some (Spec_Ed25519 pk)"
| "try_from_pk (Pk_Secp256k1 pk) = Some (Spec_Secp256k1Eth pk)"
| "try_from_pk (Pk_Sr25519 pk) = Some (Spec_Sr25519 pk)"
| "try_from_pk _ = None"

fun spec_public_key :: "signature_address_spec \<Rightarrow> public_key" where
  "spec_public_key (Spec_Ed25519 pk) = Pk_Ed25519 pk"
| "spec_public_key (Spec_Secp256k1Eth pk) = Pk_Secp256k1 pk"
| "spec_public_key (Spec_Sr25519 pk) = Pk_Sr25519 pk"

datatype caller_address = Caller_Address address | Caller_EthAddress bytes

datatype address_spec =
    Spec_Signature signature_address_spec | Spec_Multisig multisig_config | Spec_Internal caller_address

datatype auth_proof =
    Proof_Signature signature | Proof_Multisig signature_set | Proof_Module string | Proof_Invalid

section \<open>Transactions\<close>

datatype call_format = Plain | EncryptedX25519DeoxysII

fun is_encrypted :: "call_format \<Rightarrow> bool" where
  "is_encrypted Plain = False"
| "is_encrypted EncryptedX25519DeoxysII = True"

record call =
  call_format_of :: call_format
  call_method :: string
  call_body :: cbor_value
  call_read_only :: bool

definition default_call :: call where
  "default_call = \<lparr>call_format_of = Plain, call_method = '''', call_body = Cbor_Null, call_read_only = False\<rparr>"

record fee_proxy =
  fp_module :: string
  fp_id :: bytes

record fee =
  fee_amount_of :: base_units
  fee_gas_of :: u64
  fee_consensus_messages :: u32
  fee_proxy_of :: "fee_proxy option"

definition default_fee :: fee where
  "default_fee = \<lparr>fee_amount_of = default_base_units, fee_gas_of = 0, fee_consensus_messages = 0, fee_proxy_of = None\<rparr>"

text \<open>\<open>Fee::gas_price\<close>: the gas is widened to 128 bits; no gas means no price.\<close>

definition gas_price :: "fee \<Rightarrow> u128" where
  "gas_price f = (case checked_div (amount (fee_amount_of f)) (ucast (fee_gas_of f)) of Some p \<Rightarrow> p | None \<Rightarrow> 0)"

record signer_info =
  si_address_spec :: address_spec
  si_nonce :: u64

record auth_info =
  ai_signer_info :: "signer_info list"
  ai_fee :: fee
  ai_not_before :: "u64 option"
  ai_not_after :: "u64 option"

definition default_auth_info :: auth_info where
  "default_auth_info = \<lparr>ai_signer_info = [], ai_fee = default_fee, ai_not_before = None, ai_not_after = None\<rparr>"

record transaction =
  tx_version :: u16
  tx_call :: call
  tx_auth_info :: auth_info

definition LATEST_TRANSACTION_VERSION :: u16 where "LATEST_TRANSACTION_VERSION = 1"

definition SIGNATURE_CONTEXT_BASE :: bytes where
  "SIGNATURE_CONTEXT_BASE = ascii ''oasis-runtime-sdk/tx: v0''"

definition transaction_new :: "string \<Rightarrow> cbor_value \<Rightarrow> transaction" where
  "transaction_new method body =
     \<lparr>tx_version = LATEST_TRANSACTION_VERSION,
      tx_call = default_call\<lparr>call_format_of := Plain, call_method := method, call_body := body\<rparr>,
      tx_auth_info = default_auth_info\<rparr>"

definition fee_gas :: "transaction \<Rightarrow> u64" where
  "fee_gas tx = fee_gas_of (ai_fee (tx_auth_info tx))"

definition set_fee :: "(fee \<Rightarrow> fee) \<Rightarrow> transaction \<Rightarrow> transaction" where
  "set_fee f tx = tx\<lparr>tx_auth_info := (tx_auth_info tx)\<lparr>ai_fee := f (ai_fee (tx_auth_info tx))\<rparr>\<rparr>"

definition set_fee_gas :: "u64 \<Rightarrow> transaction \<Rightarrow> transaction" where
  "set_fee_gas gas = set_fee (\<lambda>f. f\<lparr>fee_gas_of := gas\<rparr>)"

definition fee_amount :: "transaction \<Rightarrow> base_units" where
  "fee_amount tx = fee_amount_of (ai_fee (tx_auth_info tx))"

definition set_fee_amount :: "base_units \<Rightarrow> transaction \<Rightarrow> transaction" where
  "set_fee_amount a = set_fee (\<lambda>f. f\<lparr>fee_amount_of := a\<rparr>)"

definition set_fee_proxy :: "string \<Rightarrow> bytes \<Rightarrow> transaction \<Rightarrow> transaction" where
  "set_fee_proxy module ident = set_fee (\<lambda>f. f\<lparr>fee_proxy_of := Some \<lparr>fp_module = module, fp_id = ident\<rparr>\<rparr>)"

definition append_signer_info :: "address_spec \<Rightarrow> u64 \<Rightarrow> transaction \<Rightarrow> transaction" where
  "append_signer_info spec nonce tx =
     tx\<lparr>tx_auth_info := (tx_auth_info tx)\<lparr>ai_signer_info :=
       ai_signer_info (tx_auth_info tx) @ [\<lparr>si_address_spec = spec, si_nonce = nonce\<rparr>]\<rparr>\<rparr>"

definition append_auth_signature :: "signature_address_spec \<Rightarrow> u64 \<Rightarrow> transaction \<Rightarrow> transaction" where
  "append_auth_signature spec nonce = append_signer_info (Spec_Signature spec) nonce"

definition append_auth_multisig :: "multisig_config \<Rightarrow> u64 \<Rightarrow> transaction \<Rightarrow> transaction" where
  "append_auth_multisig cfg nonce = append_signer_info (Spec_Multisig cfg) nonce"

definition signer_info_new_sigspec :: "signature_address_spec \<Rightarrow> u64 \<Rightarrow> signer_info" where
  "signer_info_new_sigspec spec nonce = \<lparr>si_address_spec = Spec_Signature spec, si_nonce = nonce\<rparr>"

definition signer_info_new_multisig :: "multisig_config \<Rightarrow> u64 \<Rightarrow> signer_info" where
  "signer_info_new_multisig cfg nonce = \<lparr>si_address_spec = Spec_Multisig cfg, si_nonce = nonce\<rparr>"

text \<open>What the wrapped \<open>anyhow\<close> error of \<open>MalformedTransaction\<close> says.\<close>

datatype malformed =
    Malformed_Cbor
  | Malformed_Proof_Count nat nat
  | Malformed_Multisig multisig_error
  | Malformed_Signature signature_error
  | Malformed_Msg string

datatype tx_error =
    UnsupportedVersion | MalformedTransaction malformed | SignerNotFound | FailedToSign signature_error

definition transaction_validate_basic :: "transaction \<Rightarrow> tx_error + unit" where
  "transaction_validate_basic tx =
     (if tx_version tx \<noteq> LATEST_TRANSACTION_VERSION then Inl UnsupportedVersion
      else if ai_signer_info (tx_auth_info tx) = []
      then Inl (MalformedTransaction (Malformed_Msg ''transaction has no signers''))
      else Inr ())"

datatype tx_call_result =
    TxOk cbor_value | TxFailed string u32 string | TxUnknown cbor_value

definition tx_call_result_is_success :: "tx_call_result \<Rightarrow> bool" where
  "tx_call_result_is_success r = (case r of TxFailed _ _ _ \<Rightarrow> False | _ \<Rightarrow> True)"

fun tx_call_result_ok :: "tx_call_result \<Rightarrow> (string \<times> u32 \<times> string) + cbor_value" where
  "tx_call_result_ok (TxOk v) = Inr v"
| "tx_call_result_ok (TxUnknown v) = Inr v"
| "tx_call_result_ok (TxFailed module code message) = Inl (module, code, message)"

section \<open>Dependencies\<close>

record tx_deps =
  dep_hash :: "bytes list \<Rightarrow> bytes"
  dep_keccak :: "bytes \<Rightarrow> bytes"
  dep_uncompressed :: "bytes \<Rightarrow> bytes"
  dep_cbor_config :: "multisig_config \<Rightarrow> bytes"
  dep_cbor_tx :: "transaction \<Rightarrow> bytes"
  dep_uncbor_tx :: "bytes \<Rightarrow> transaction option"
  dep_chain_context :: bytes
  dep_schemes :: sig_schemes

definition CHAIN_CONTEXT_SEPARATOR :: bytes where
  "CHAIN_CONTEXT_SEPARATOR = ascii '' for chain ''"

text \<open>The chain context is configured once at startup; here it is a constant of the environment.\<close>

definition get_chain_context_for :: "tx_deps \<Rightarrow> bytes \<Rightarrow> bytes" where
  "get_chain_context_for D base = base @ CHAIN_CONTEXT_SEPARATOR @ dep_chain_context D"

definition to_eth_address :: "tx_deps \<Rightarrow> bytes \<Rightarrow> bytes" where
  "to_eth_address D pk = drop (32 - 20) (dep_keccak D (dep_uncompressed D pk))"

fun from_sigspec :: "tx_deps \<Rightarrow> signature_address_spec \<Rightarrow> address" where
  "from_sigspec D (Spec_Ed25519 pk) = address_new (dep_hash D) ADDRESS_V0_ED25519_CONTEXT ADDRESS_V0_VERSION pk"
| "from_sigspec D (Spec_Secp256k1Eth pk) =
     address_new (dep_hash D) ADDRESS_V0_SECP256K1ETH_CONTEXT ADDRESS_V0_VERSION (to_eth_address D pk)"
| "from_sigspec D (Spec_Sr25519 pk) = address_new (dep_hash D) ADDRESS_V0_SR25519_CONTEXT ADDRESS_V0_VERSION pk"

definition from_multisig :: "tx_deps \<Rightarrow> multisig_config \<Rightarrow> address" where
  "from_multisig D c = address_new (dep_hash D) ADDRESS_V0_MULTISIG_CONTEXT ADDRESS_V0_VERSION (dep_cbor_config D c)"

fun caller_address_address :: "tx_deps \<Rightarrow> caller_address \<Rightarrow> address" where
  "caller_address_address D (Caller_Address a) = a"
| "caller_address_address D (Caller_EthAddress e) = address_from_eth (dep_hash D) e"

fun caller_address_zeroized :: "caller_address \<Rightarrow> caller_address" where
  "caller_address_zeroized (Caller_Address _) = Caller_Address default_address"
| "caller_address_zeroized (Caller_EthAddress _) = Caller_EthAddress (replicate 20 0)"

definition address_spec_public_key :: "address_spec \<Rightarrow> public_key option" where
  "address_spec_public_key spec = (case spec of Spec_Signature s \<Rightarrow> Some (spec_public_key s) | _ \<Rightarrow> None)"

fun address_spec_address :: "tx_deps \<Rightarrow> address_spec \<Rightarrow> address" where
  "address_spec_address D (Spec_Signature spec) = from_sigspec D spec"
| "address_spec_address D (Spec_Multisig c) = from_multisig D c"
| "address_spec_address D (Spec_Internal caller) = caller_address_address D caller"

text \<open>\<open>try_into().unwrap()\<close> panics (\<open>None\<close>) unless the Ethereum address has 20 bytes.\<close>

definition address_spec_caller_address :: "tx_deps \<Rightarrow> address_spec \<Rightarrow> caller_address option" where
  "address_spec_caller_address D spec =
     (case spec of
        Spec_Signature (Spec_Secp256k1Eth pk) \<Rightarrow>
          (let e = to_eth_address D pk in if length e = 20 then Some (Caller_EthAddress e) else None)
      | Spec_Internal caller \<Rightarrow> Some caller
      | _ \<Rightarrow> Some (Caller_Address (address_spec_address D spec)))"

definition address_spec_batch ::
    "address_spec \<Rightarrow> auth_proof \<Rightarrow> tx_error + (public_key list \<times> signature list)" where
  "address_spec_batch spec aproof =
     (case (spec, aproof) of
        (Spec_Signature s, Proof_Signature sig) \<Rightarrow> Inr ([spec_public_key s], [sig])
      | (Spec_Multisig config, Proof_Multisig signature_set) \<Rightarrow>
          map_err (MalformedTransaction \<circ> Malformed_Multisig) (multisig_batch config signature_set)
      | (Spec_Signature _, Proof_Multisig _) \<Rightarrow> Inl (MalformedTransaction (Malformed_Msg
          ''transaction signer used a single signature, but auth proof was multisig''))
      | (Spec_Multisig _, Proof_Signature _) \<Rightarrow> Inl (MalformedTransaction (Malformed_Msg
          ''transaction signer used multisig, but auth proof was a single signature''))
      | (Spec_Internal _, _) \<Rightarrow> Inl (MalformedTransaction (Malformed_Msg
          ''transaction signer used internal address spec''))
      | (_, Proof_Module _) \<Rightarrow> Inl (MalformedTransaction (Malformed_Msg
          ''module-controlled decoding flag in auth proof list''))
      | (_, Proof_Invalid) \<Rightarrow> Inl (MalformedTransaction (Malformed_Msg
          ''invalid auth proof in list'')))"

section \<open>Verification\<close>

datatype unverified_transaction = UnverifiedTransaction (ut_body: bytes) (ut_proofs: "auth_proof list")

fun collect_batches ::
    "(signer_info \<times> auth_proof) list \<Rightarrow> public_key list \<Rightarrow> signature list \<Rightarrow>
     tx_error + (public_key list \<times> signature list)" where
  "collect_batches [] public_keys signatures = Inr (public_keys, signatures)"
| "collect_batches ((si, aproof) # rest) public_keys signatures =
     bind_result (address_spec_batch (si_address_spec si) aproof) (\<lambda>(batch_pks, batch_sigs).
       collect_batches rest (public_keys @ batch_pks) (signatures @ batch_sigs))"

definition unverified_transaction_verify :: "tx_deps \<Rightarrow> unverified_transaction \<Rightarrow> tx_error + transaction" where
  "unverified_transaction_verify D ut =
     bind_result (ok_or (MalformedTransaction Malformed_Cbor) (dep_uncbor_tx D (ut_body ut))) (\<lambda>body.
     bind_result (transaction_validate_basic body) (\<lambda>_.
       let sis = ai_signer_info (tx_auth_info body) in
       if length (ut_proofs ut) \<noteq> length sis
       then Inl (MalformedTransaction (Malformed_Proof_Count (length sis) (length (ut_proofs ut))))
       else bind_result (collect_batches (zip sis (ut_proofs ut)) [] []) (\<lambda>(public_keys, signatures).
         bind_result
           (map_err (MalformedTransaction \<circ> Malformed_Signature)
              (verify_batch_multisig (dep_schemes D) (get_chain_context_for D SIGNATURE_CONTEXT_BASE)
                 (ut_body ut) public_keys signatures))
           (\<lambda>_. Inr body))))"

section \<open>The transaction signer\<close>

record transaction_signer =
  ts_auth_info :: auth_info
  ts_body :: bytes
  ts_proofs :: "auth_proof list"

definition allocate_proof :: "signer_info \<Rightarrow> auth_proof \<Rightarrow> auth_proof" where
  "allocate_proof si ap =
     (case si_address_spec si of Spec_Multisig cfg \<Rightarrow> Proof_Multisig (replicate (length (mc_signers cfg)) None) | _ \<Rightarrow> ap)"

definition allocate_proofs :: "transaction_signer \<Rightarrow> transaction_signer" where
  "allocate_proofs ts =
     (if ts_proofs ts \<noteq> [] then ts
      else let sis = ai_signer_info (ts_auth_info ts) in
        ts\<lparr>ts_proofs := map (\<lambda>(si, ap). allocate_proof si ap) (zip sis (replicate (length sis) Proof_Invalid))\<rparr>)"

definition transaction_signer_new :: "tx_deps \<Rightarrow> transaction \<Rightarrow> transaction_signer" where
  "transaction_signer_new D tx =
     allocate_proofs \<lparr>ts_auth_info = tx_auth_info tx, ts_body = dep_cbor_tx D tx, ts_proofs = []\<rparr>"

text \<open>A signer is its public key and what \<open>sign\<close> gives for a context and a message.\<close>

record tx_signer =
  sg_public_key :: public_key
  sg_sign :: "bytes \<Rightarrow> bytes \<Rightarrow> signature_error + signature"

text \<open>The inner loop: \<open>sigs[i]\<close> panics (\<open>None\<close>) when out of range.\<close>

fun sign_slots ::
    "public_key \<Rightarrow> signature \<Rightarrow> multisig_signer list \<Rightarrow> nat \<Rightarrow> signature_set \<times> bool \<Rightarrow> (signature_set \<times> bool) option" where
  "sign_slots pk sig [] i acc = Some acc"
| "sign_slots pk sig (mss # rest) i (sigs, matched) =
     (if ms_public_key mss \<noteq> pk then sign_slots pk sig rest (Suc i) (sigs, matched)
      else if i < length sigs then sign_slots pk sig rest (Suc i) (sigs[i := Some sig], True)
      else None)"

fun sign_proofs ::
    "public_key \<Rightarrow> signature \<Rightarrow> signer_info list \<Rightarrow> auth_proof list \<Rightarrow> bool \<Rightarrow>
     (tx_error, bool) outcome \<times> auth_proof list" where
  "sign_proofs pk sig [] aps matched = (Ok matched, aps)"
| "sign_proofs pk sig sis [] matched = (Ok matched, [])"
| "sign_proofs pk sig (si # sis) (ap # aps) matched =
     (case (si_address_spec si, ap) of
        (Spec_Signature spec, _) \<Rightarrow>
          if spec_public_key spec \<noteq> pk
          then (case sign_proofs pk sig sis aps matched of (r, aps') \<Rightarrow> (r, ap # aps'))
          else (case sign_proofs pk sig sis aps True of (r, aps') \<Rightarrow> (r, Proof_Signature sig # aps'))
      | (Spec_Multisig cfg, Proof_Multisig sigs) \<Rightarrow>
          (case sign_slots pk sig (mc_signers cfg) 0 (sigs, matched) of
             None \<Rightarrow> (Panic, ap # aps)
           | Some (sigs', matched') \<Rightarrow>
               (case sign_proofs pk sig sis aps matched' of (r, aps') \<Rightarrow> (r, Proof_Multisig sigs' # aps')))
      | _ \<Rightarrow> (Err (MalformedTransaction (Malformed_Msg ''malformed address_spec'')), ap # aps))"

definition append_sign :: "tx_deps \<Rightarrow> tx_signer \<Rightarrow> (transaction_signer, tx_error, unit) rust_op" where
  "append_sign D signer ts =
     (case sg_sign signer (get_chain_context_for D SIGNATURE_CONTEXT_BASE) (ts_body ts) of
        Inl e \<Rightarrow> (Err (FailedToSign e), ts)
      | Inr sig \<Rightarrow>
          (case sign_proofs (sg_public_key signer) sig (ai_signer_info (ts_auth_info ts)) (ts_proofs ts) False of
             (r, aps) \<Rightarrow>
               ((case r of Ok matched \<Rightarrow> if matched then Ok () else Err SignerNotFound
                 | Err e \<Rightarrow> Err e | Panic \<Rightarrow> Panic),
                ts\<lparr>ts_proofs := aps\<rparr>)))"

definition transaction_signer_finalize :: "transaction_signer \<Rightarrow> unverified_transaction" where
  "transaction_signer_finalize ts = UnverifiedTransaction (ts_body ts) (ts_proofs ts)"

section \<open>Sender metadata\<close>

record sender_meta =
  sm_address :: address
  sm_tx_nonce :: u64
  sm_state_nonce :: u64

definition default_sender_meta :: sender_meta where
  "default_sender_meta = \<lparr>sm_address = default_address, sm_tx_nonce = 0, sm_state_nonce = 0\<rparr>"

definition sender_meta_id :: "sender_meta \<Rightarrow> bytes" where
  "sender_meta_id m = (if sm_address m = default_address then [] else address_bytes (sm_address m))"

section \<open>Lemmas\<close>

lemma try_from_pk_public_key: "try_from_pk pk = Some spec \<longleftrightarrow> spec_public_key spec = pk"
  by (cases pk; cases spec) auto

lemma unat_gas_price: "unat (gas_price f) = unat (amount (fee_amount_of f)) div unat (fee_gas_of f)"
proof (cases "fee_gas_of f = 0")
  case False
  have "unat (ucast (fee_gas_of f) :: u128) = unat (fee_gas_of f)"
    by (simp add: unat_ucast_up)
  with False show ?thesis
    by (auto simp: gas_price_def checked_div_def unat_div word_unat_eq_iff split: option.splits)
qed (simp add: gas_price_def checked_div_def)

text \<open>Deriving the caller's address in either of the two ways gives the same address.\<close>

lemma caller_address_consistent:
  "address_spec_caller_address D spec = Some caller \<Longrightarrow>
   caller_address_address D caller = address_spec_address D spec"
  by (cases spec rule: address_spec.exhaust)
    (auto simp: address_spec_caller_address_def address_from_eth_def Let_def
      split: signature_address_spec.splits if_splits)

subsection \<open>What verification establishes\<close>

abbreviation verifies :: "tx_deps \<Rightarrow> bytes \<Rightarrow> public_key \<Rightarrow> signature \<Rightarrow> bool" where
  "verifies D message pk sig \<equiv>
     sch_verify (dep_schemes D) pk (get_chain_context_for D SIGNATURE_CONTEXT_BASE) message sig = Inr ()"

text \<open>A signer has authorized a message: with a valid signature, or with enough weight of them.\<close>

definition authorizes :: "tx_deps \<Rightarrow> bytes \<Rightarrow> signer_info \<Rightarrow> auth_proof \<Rightarrow> bool" where
  "authorizes D message si aproof =
     (case (si_address_spec si, aproof) of
        (Spec_Signature s, Proof_Signature sig) \<Rightarrow> verifies D message (spec_public_key s) sig
      | (Spec_Multisig c, Proof_Multisig sigs) \<Rightarrow>
          multisig_valid c \<and> length sigs = length (mc_signers c) \<and>
          unat (mc_threshold c) \<le> signed_weight (mc_signers c) sigs \<and>
          (\<forall>(s, sig) \<in> set (signed_part (mc_signers c) sigs). verifies D message (ms_public_key s) sig)
      | _ \<Rightarrow> False)"

lemma multisig_batch_Inr:
  "multisig_batch c sigs = Inr r \<longleftrightarrow>
     multisig_valid c \<and> length sigs = length (mc_signers c) \<and>
     unat (mc_threshold c) \<le> signed_weight (mc_signers c) sigs \<and>
     r = (map (ms_public_key \<circ> fst) (signed_part (mc_signers c) sigs),
          map snd (signed_part (mc_signers c) sigs))"
proof (cases "multisig_valid c \<and> length sigs = length (mc_signers c)")
  case True
  then show ?thesis by (auto simp: multisig_batch_cases)
next
  case False
  then show ?thesis
    using multisig_validate_basic_Inr [of c]
    by (auto simp: multisig_batch_def bind_result_Inr)
qed

lemma address_spec_batch_lengths:
  "address_spec_batch spec aproof = Inr (pks, sigs) \<Longrightarrow> length pks = length sigs"
  by (auto simp: address_spec_batch_def map_err_Inr multisig_batch_Inr
      split: address_spec.splits auth_proof.splits)

lemma authorizes_batch:
  "authorizes D message si aproof \<longleftrightarrow>
     (\<exists>pks sigs. address_spec_batch (si_address_spec si) aproof = Inr (pks, sigs) \<and>
        (\<forall>(pk, sig) \<in> set (zip pks sigs). verifies D message pk sig))"
proof (cases "si_address_spec si")
  case (Spec_Multisig c)
  show ?thesis
  proof (cases aproof)
    case (Proof_Multisig sigs)
    have "zip (map (ms_public_key \<circ> fst) ps) (map snd ps) = map (\<lambda>(s, sig). (ms_public_key s, sig)) ps"
      for ps :: "(multisig_signer \<times> signature) list"
      by (induction ps) auto
    then show ?thesis using Spec_Multisig Proof_Multisig
      by (auto simp: authorizes_def address_spec_batch_def map_err_Inr multisig_batch_Inr)
  qed (use Spec_Multisig in \<open>simp_all add: authorizes_def address_spec_batch_def\<close>)
qed (cases aproof; simp add: authorizes_def address_spec_batch_def)+

lemma collect_batches_verify:
  assumes "length pks0 = length sigs0"
  shows "(\<exists>pks sigs. collect_batches xs pks0 sigs0 = Inr (pks, sigs) \<and>
      verify_batch_multisig (dep_schemes D) (get_chain_context_for D SIGNATURE_CONTEXT_BASE) message pks sigs = Inr ())
    \<longleftrightarrow> (\<forall>(pk, sig) \<in> set (zip pks0 sigs0). verifies D message pk sig) \<and>
      (\<forall>(si, aproof) \<in> set xs. authorizes D message si aproof)"
  using assms
proof (induction xs arbitrary: pks0 sigs0)
  case Nil
  then show ?case by (auto simp: verify_batch_multisig_def verify_all_Inr)
next
  case (Cons x xs)
  obtain si aproof where x: "x = (si, aproof)" by (cases x)
  show ?case
  proof (cases "address_spec_batch (si_address_spec si) aproof")
    case (Inl e)
    then show ?thesis by (simp add: x authorizes_batch)
  next
    case (Inr b)
    obtain pks sigs where b: "b = (pks, sigs)" by (cases b)
    then have len: "length pks = length sigs" using Inr address_spec_batch_lengths by simp
    then show ?thesis using Cons.IH [of "pks0 @ pks" "sigs0 @ sigs"] Cons.prems Inr b
      by (auto simp: x authorizes_batch zip_append)
  qed
qed

lemma verify_iff:
  "unverified_transaction_verify D ut = Inr tx \<longleftrightarrow>
     dep_uncbor_tx D (ut_body ut) = Some tx \<and>
     tx_version tx = LATEST_TRANSACTION_VERSION \<and> ai_signer_info (tx_auth_info tx) \<noteq> [] \<and>
     list_all2 (authorizes D (ut_body ut)) (ai_signer_info (tx_auth_info tx)) (ut_proofs ut)"
proof -
  let ?sis = "ai_signer_info (tx_auth_info tx)"
  have "(\<exists>pks sigs. collect_batches (zip ?sis (ut_proofs ut)) [] [] = Inr (pks, sigs) \<and>
      verify_batch_multisig (dep_schemes D) (get_chain_context_for D SIGNATURE_CONTEXT_BASE)
        (ut_body ut) pks sigs = Inr ())
    \<longleftrightarrow> (\<forall>(si, aproof) \<in> set (zip ?sis (ut_proofs ut)). authorizes D (ut_body ut) si aproof)"
    using collect_batches_verify [of "[]" "[]"] by simp
  then show ?thesis
    by (auto simp: unverified_transaction_verify_def transaction_validate_basic_def result_Inr Let_def
        list_all2_iff split: if_splits)
qed

subsection \<open>What the signer produces\<close>

text \<open>The proof of a signer when \<open>K\<close> gives the signatures made so far, by key.\<close>

definition proof_of :: "(public_key \<Rightarrow> signature option) \<Rightarrow> signer_info \<Rightarrow> auth_proof" where
  "proof_of K si =
     (case si_address_spec si of
        Spec_Signature s \<Rightarrow> (case K (spec_public_key s) of Some sig \<Rightarrow> Proof_Signature sig | None \<Rightarrow> Proof_Invalid)
      | Spec_Multisig c \<Rightarrow> Proof_Multisig (map (\<lambda>s. K (ms_public_key s)) (mc_signers c))
      | Spec_Internal _ \<Rightarrow> Proof_Invalid)"

definition spec_keys :: "address_spec \<Rightarrow> public_key set" where
  "spec_keys spec = (case spec of Spec_Signature s \<Rightarrow> {spec_public_key s}
     | Spec_Multisig c \<Rightarrow> ms_public_key ` set (mc_signers c) | Spec_Internal _ \<Rightarrow> {})"

lemma new_signer_proofs:
  "ts_proofs (transaction_signer_new D tx) = map (proof_of (\<lambda>_. None)) (ai_signer_info (tx_auth_info tx))"
  "ts_body (transaction_signer_new D tx) = dep_cbor_tx D tx"
  "ts_auth_info (transaction_signer_new D tx) = tx_auth_info tx"
proof -
  have "map (\<lambda>(si, ap). allocate_proof si ap) (zip sis (replicate (length sis) Proof_Invalid)) =
      map (proof_of (\<lambda>_. None)) sis" for sis
    by (induction sis) (auto simp: allocate_proof_def proof_of_def map_replicate_const split: address_spec.splits)
  then show "ts_proofs (transaction_signer_new D tx) =
      map (proof_of (\<lambda>_. None)) (ai_signer_info (tx_auth_info tx))"
    by (simp add: transaction_signer_new_def allocate_proofs_def Let_def)
qed (simp_all add: transaction_signer_new_def allocate_proofs_def Let_def)

lemma sign_slots_all:
  "sign_slots pk sig ss (length pre) (pre @ map (\<lambda>s. K (ms_public_key s)) ss, matched) =
     Some (pre @ map (\<lambda>s. (K(pk \<mapsto> sig)) (ms_public_key s)) ss, matched \<or> pk \<in> ms_public_key ` set ss)"
proof (induction ss arbitrary: pre matched)
  case (Cons s ss)
  show ?case
  proof (cases "ms_public_key s = pk")
    case True
    then show ?thesis
      using Cons.IH [of "pre @ [Some sig]" True] by simp
  next
    case False
    then show ?thesis
      using Cons.IH [of "pre @ [K (ms_public_key s)]" matched] by auto
  qed
qed simp

lemma sign_proofs_all:
  assumes "\<forall>si \<in> set sis. spec_keys (si_address_spec si) \<noteq> {} \<or> (\<exists>c. si_address_spec si = Spec_Multisig c)"
  shows "sign_proofs pk sig sis (map (proof_of K) sis) matched =
    (Ok (matched \<or> (\<exists>si \<in> set sis. pk \<in> spec_keys (si_address_spec si))), map (proof_of (K(pk \<mapsto> sig))) sis)"
  using assms
proof (induction sis arbitrary: matched)
  case (Cons si sis)
  then show ?case
  proof (cases "si_address_spec si")
    case (Spec_Multisig c)
    then show ?thesis using Cons sign_slots_all [of pk sig "mc_signers c" "[]" K matched]
      by (auto simp: proof_of_def spec_keys_def)
  qed (auto simp: proof_of_def spec_keys_def)
qed simp

text \<open>
  \<open>can_sign\<close>: the signer's signatures verify under its key, which is the promise of a signature
  scheme. \<open>covered\<close>: the available keys suffice for the address specification.
\<close>

definition can_sign :: "tx_deps \<Rightarrow> bytes \<Rightarrow> tx_signer \<Rightarrow> bool" where
  "can_sign D message signer =
     (case sg_sign signer (get_chain_context_for D SIGNATURE_CONTEXT_BASE) message of
        Inr sig \<Rightarrow> verifies D message (sg_public_key signer) sig | Inl _ \<Rightarrow> False)"

definition covered :: "public_key set \<Rightarrow> address_spec \<Rightarrow> bool" where
  "covered keys spec =
     (case spec of Spec_Signature s \<Rightarrow> spec_public_key s \<in> keys
      | Spec_Multisig c \<Rightarrow> multisig_valid c \<and>
          unat (mc_threshold c) \<le> total_weight (filter (\<lambda>s. ms_public_key s \<in> keys) (mc_signers c))
      | Spec_Internal _ \<Rightarrow> False)"

definition no_internal :: "signer_info list \<Rightarrow> bool" where
  "no_internal sis \<longleftrightarrow>
     (\<forall>si \<in> set sis. spec_keys (si_address_spec si) \<noteq> {} \<or> (\<exists>c. si_address_spec si = Spec_Multisig c))"

lemma append_sign_step:
  assumes "sg_sign signer (get_chain_context_for D SIGNATURE_CONTEXT_BASE) (ts_body ts) = Inr sig"
    and "ts_proofs ts = map (proof_of K) sis" "ai_signer_info (ts_auth_info ts) = sis" "no_internal sis"
    and "\<exists>si \<in> set sis. sg_public_key signer \<in> spec_keys (si_address_spec si)"
  shows "append_sign D signer ts =
    (Ok (), ts\<lparr>ts_proofs := map (proof_of (K(sg_public_key signer \<mapsto> sig))) sis\<rparr>)"
  using assms by (simp add: append_sign_def sign_proofs_all no_internal_def)

lemma append_sign_all:
  assumes "\<forall>signer \<in> set signers. can_sign D (ts_body ts) signer \<and>
      (\<exists>si \<in> set sis. sg_public_key signer \<in> spec_keys (si_address_spec si))"
    and "no_internal sis" "ai_signer_info (ts_auth_info ts) = sis" "ts_proofs ts = map (proof_of K) sis"
    and "\<forall>pk sig. K pk = Some sig \<longrightarrow> verifies D (ts_body ts) pk sig"
  shows "\<exists>K'. for_op (append_sign D) signers ts = (Ok (), ts\<lparr>ts_proofs := map (proof_of K') sis\<rparr>) \<and>
    dom K' = dom K \<union> sg_public_key ` set signers \<and>
    (\<forall>pk sig. K' pk = Some sig \<longrightarrow> verifies D (ts_body ts) pk sig)"
  using assms
proof (induction signers arbitrary: ts K)
  case Nil
  then show ?case by (auto simp: return_op_def intro!: exI [of _ K])
next
  case (Cons signer signers)
  obtain sig where sig: "sg_sign signer (get_chain_context_for D SIGNATURE_CONTEXT_BASE) (ts_body ts) = Inr sig"
    "verifies D (ts_body ts) (sg_public_key signer) sig"
    using Cons.prems(1) by (auto simp: can_sign_def split: sum.splits)
  let ?K = "K(sg_public_key signer \<mapsto> sig)"
  let ?ts = "ts\<lparr>ts_proofs := map (proof_of ?K) sis\<rparr>"
  have step: "append_sign D signer ts = (Ok (), ?ts)"
    using append_sign_step [OF sig(1)] Cons.prems by simp
  have "\<exists>K'. for_op (append_sign D) signers ?ts = (Ok (), ?ts\<lparr>ts_proofs := map (proof_of K') sis\<rparr>) \<and>
      dom K' = dom ?K \<union> sg_public_key ` set signers \<and>
      (\<forall>pk sig. K' pk = Some sig \<longrightarrow> verifies D (ts_body ?ts) pk sig)"
    by (rule Cons.IH [where K = ?K]) (use Cons.prems sig(2) in \<open>simp_all add: fun_upd_def\<close>)
  then show ?case using step by (auto simp: seq_op_def)
qed

lemma signed_weight_by_key:
  "signed_weight ss (map (\<lambda>s. K (ms_public_key s)) ss) = total_weight (filter (\<lambda>s. ms_public_key s \<in> dom K) ss)"
proof (induction ss)
  case (Cons s ss)
  then show ?case by (cases "K (ms_public_key s)") (auto simp: signed_weight_def total_weight_def)
qed (simp add: signed_weight_def)

lemma signed_part_by_key:
  "(s, sig) \<in> set (signed_part ss (map (\<lambda>s. K (ms_public_key s)) ss)) \<Longrightarrow> K (ms_public_key s) = Some sig"
proof (induction ss)
  case (Cons s' ss)
  then show ?case by (cases "K (ms_public_key s')") auto
qed simp

lemma covered_authorizes:
  assumes "covered (dom K) (si_address_spec si)" "\<forall>pk sig. K pk = Some sig \<longrightarrow> verifies D message pk sig"
  shows "authorizes D message si (proof_of K si)"
  using assms signed_part_by_key
  by (cases "si_address_spec si")
    (fastforce simp: covered_def authorizes_def proof_of_def signed_weight_by_key)+

lemma signed_transaction_verifies:
  assumes "dep_uncbor_tx D (dep_cbor_tx D tx) = Some tx" "transaction_validate_basic tx = Inr ()"
    and "\<forall>signer \<in> set signers. can_sign D (dep_cbor_tx D tx) signer \<and>
      (\<exists>si \<in> set (ai_signer_info (tx_auth_info tx)). sg_public_key signer \<in> spec_keys (si_address_spec si))"
    and "\<forall>si \<in> set (ai_signer_info (tx_auth_info tx)). covered (sg_public_key ` set signers) (si_address_spec si)"
  shows "\<exists>ts. for_op (append_sign D) signers (transaction_signer_new D tx) = (Ok (), ts) \<and>
    unverified_transaction_verify D (transaction_signer_finalize ts) = Inr tx"
proof -
  let ?sis = "ai_signer_info (tx_auth_info tx)" and ?ts = "transaction_signer_new D tx"
  have "no_internal ?sis"
    using assms(4) unfolding no_internal_def covered_def spec_keys_def
    by (fastforce split: address_spec.splits)
  then obtain K where K: "for_op (append_sign D) signers ?ts = (Ok (), ?ts\<lparr>ts_proofs := map (proof_of K) ?sis\<rparr>)"
      "dom K = sg_public_key ` set signers"
      "\<forall>pk sig. K pk = Some sig \<longrightarrow> verifies D (dep_cbor_tx D tx) pk sig"
    using append_sign_all [of signers D ?ts ?sis "\<lambda>_. None"] assms(3) by (auto simp: new_signer_proofs)
  then have "list_all2 (authorizes D (dep_cbor_tx D tx)) ?sis (map (proof_of K) ?sis)"
    using assms(4) covered_authorizes by (fastforce simp: list_all2_conv_all_nth)
  then show ?thesis using K assms(1,2)
    by (auto simp: verify_iff transaction_signer_finalize_def new_signer_proofs
        transaction_validate_basic_def split: if_splits)
qed

end
