(* ===== verification/Execution_Env.thy ===== *)
theory Execution_Env
  imports Transaction_Types
begin

text \<open>
  What a state carries besides its storage: the execution mode, the environment and the options
  that change it (\<open>runtime-sdk/src/state.rs\<close>), event tags (\<open>runtime-sdk/src/event.rs\<close>) and the
  root random number generator (\<open>runtime-sdk/src/crypto/random.rs\<close>).
  A Merlin transcript is the list of its labelled messages; the VRF, the transcript-based
  generators and the key manager are parameters of \<open>rng_fork\<close>.
\<close>

section \<open>Modes and environments\<close>

datatype mode = Execute | Check | Simulate | PreSchedule

fun mode_str :: "mode \<Rightarrow> string" where
  "mode_str Check = ''check''"
| "mode_str Execute = ''execute''"
| "mode_str Simulate = ''simulate''"
| "mode_str PreSchedule = ''pre_schedule''"

record tx_with_meta =
  txm_data :: transaction
  txm_size :: u32
  txm_index :: nat
  txm_hash :: bytes

definition tx_with_meta_internal :: "transaction \<Rightarrow> tx_with_meta" where
  "tx_with_meta_internal tx = \<lparr>txm_data = tx, txm_size = 0, txm_index = 0, txm_hash = replicate 32 0\<rparr>"

record environment =
  env_mode :: mode
  env_tx :: "tx_with_meta option"
  env_internal :: bool

definition default_environment :: environment where
  "default_environment = \<lparr>env_mode = Execute, env_tx = None, env_internal = False\<rparr>"

definition is_check_only :: "environment \<Rightarrow> bool" where
  "is_check_only e \<longleftrightarrow> env_mode e = Check \<or> env_mode e = PreSchedule"

definition is_pre_schedule :: "environment \<Rightarrow> bool" where
  "is_pre_schedule e \<longleftrightarrow> env_mode e = PreSchedule"

definition is_simulation :: "environment \<Rightarrow> bool" where
  "is_simulation e \<longleftrightarrow> env_mode e = Simulate"

definition is_execute :: "environment \<Rightarrow> bool" where
  "is_execute e \<longleftrightarrow> env_mode e = Execute"

definition is_transaction :: "environment \<Rightarrow> bool" where
  "is_transaction e \<longleftrightarrow> env_tx e \<noteq> None"

text \<open>The accessors of the active transaction panic (\<open>None\<close>) outside a transaction environment.\<close>

definition tx_index :: "environment \<Rightarrow> nat option" where
  "tx_index e = map_option txm_index (env_tx e)"

definition tx_size :: "environment \<Rightarrow> u32 option" where
  "tx_size e = map_option txm_size (env_tx e)"

definition env_auth_info :: "environment \<Rightarrow> auth_info option" where
  "env_auth_info e = map_option (tx_auth_info \<circ> txm_data) (env_tx e)"

definition tx_call_format :: "environment \<Rightarrow> call_format option" where
  "tx_call_format e = map_option (call_format_of \<circ> tx_call \<circ> txm_data) (env_tx e)"

definition is_read_only :: "environment \<Rightarrow> bool option" where
  "is_read_only e = map_option (call_read_only \<circ> tx_call \<circ> txm_data) (env_tx e)"

definition first_signer :: "auth_info \<Rightarrow> signer_info option" where
  "first_signer ai = (case ai_signer_info ai of [] \<Rightarrow> None | si # _ \<Rightarrow> Some si)"

definition tx_caller_address :: "tx_deps \<Rightarrow> environment \<Rightarrow> address option" where
  "tx_caller_address D e = map_option (\<lambda>ai.
     case first_signer ai of Some si \<Rightarrow> address_spec_address D (si_address_spec si) | None \<Rightarrow> default_address)
     (env_auth_info e)"

definition tx_caller_public_key :: "environment \<Rightarrow> public_key option option" where
  "tx_caller_public_key e = map_option (\<lambda>ai.
     case first_signer ai of Some si \<Rightarrow> address_spec_public_key (si_address_spec si) | None \<Rightarrow> None)
     (env_auth_info e)"

record options =
  opt_mode :: "mode option"
  opt_tx :: "tx_with_meta option"
  opt_internal :: "bool option"
  opt_rng_local_entropy :: bool

definition default_options :: options where
  "default_options = \<lparr>opt_mode = None, opt_tx = None, opt_internal = None, opt_rng_local_entropy = False\<rparr>"

definition with_mode :: "mode \<Rightarrow> options \<Rightarrow> options" where
  "with_mode m o' = o'\<lparr>opt_mode := Some m\<rparr>"

definition with_tx :: "tx_with_meta \<Rightarrow> options \<Rightarrow> options" where
  "with_tx tx o' = o'\<lparr>opt_tx := Some tx\<rparr>"

definition with_internal :: "bool \<Rightarrow> options \<Rightarrow> options" where
  "with_internal b o' = o'\<lparr>opt_internal := Some b\<rparr>"

definition with_rng_local_entropy :: "options \<Rightarrow> options" where
  "with_rng_local_entropy o' = o'\<lparr>opt_rng_local_entropy := True\<rparr>"

section \<open>Event tags\<close>

type_synonym 'ev event_tags = "(bytes, 'ev list) fmap"

text \<open>\<open>u32::to_be_bytes\<close>, and the key of an event: the module's name, then its code.\<close>

definition be32 :: "u32 \<Rightarrow> bytes" where
  "be32 c = [ucast (drop_bit 24 c), ucast (drop_bit 16 c), ucast (drop_bit 8 c), ucast c]"

definition etag_key :: "string \<Rightarrow> u32 \<Rightarrow> bytes" where
  "etag_key module_name code = ascii module_name @ be32 code"

definition push_event :: "bytes \<Rightarrow> 'ev \<Rightarrow> 'ev event_tags \<Rightarrow> 'ev event_tags" where
  "push_event key value tags = fmupd key (fm_get [] tags key @ [value]) tags"

fun extend_events :: "(bytes \<times> 'ev list) list \<Rightarrow> 'ev event_tags \<Rightarrow> 'ev event_tags" where
  "extend_events [] tags = tags"
| "extend_events ((key, es) # rest) tags = extend_events rest (fmupd key (fm_get [] tags key @ es) tags)"

definition merge_events :: "'ev event_tags \<Rightarrow> 'ev event_tags \<Rightarrow> 'ev event_tags" where
  "merge_events parent child = extend_events (fm_entries child) parent"

section \<open>The root random number generator\<close>

type_synonym transcript = "(bytes \<times> bytes) list"

text \<open>\<open>'g\<close> is the transcript-based generator, present once the first leaf was requested.\<close>

record 'g root_rng =
  rng_label :: bytes
  rng_transcript :: transcript
  rng_inner :: "'g option"
  rng_mode :: mode
  rng_valid :: bool

definition RNG_CONTEXT :: bytes where
  "RNG_CONTEXT = ascii ''oasis-runtime-sdk/crypto: rng v1''"

definition rng_new :: "mode \<Rightarrow> 'g root_rng" where
  "rng_new m = \<lparr>rng_label = RNG_CONTEXT, rng_transcript = [], rng_inner = None, rng_mode = m, rng_valid = True\<rparr>"

definition rng_invalid :: "'g root_rng" where
  "rng_invalid = \<lparr>rng_label = [], rng_transcript = [], rng_inner = None, rng_mode = Simulate, rng_valid = False\<rparr>"

definition rng_append :: "bytes \<Rightarrow> bytes \<Rightarrow> 'g root_rng \<Rightarrow> 'g root_rng" where
  "rng_append label msg g = (if \<not> rng_valid g then g else g\<lparr>rng_transcript := rng_transcript g @ [(label, msg)]\<rparr>)"

definition append_local_entropy :: "bytes \<Rightarrow> 'g root_rng \<Rightarrow> 'g root_rng" where
  "append_local_entropy entropy = rng_append (ascii ''local-rng'') entropy"

definition append_tx :: "bytes \<Rightarrow> 'g root_rng \<Rightarrow> 'g root_rng" where
  "append_tx tx_hash = rng_append (ascii ''tx'') tx_hash"

definition append_subcontext :: "'g root_rng \<Rightarrow> 'g root_rng" where
  "append_subcontext = rng_append (ascii ''subctx'') []"

datatype 'e rng_error = Rng_InvalidArgument | Rng_Abort 'e

text \<open>
  \<open>vrf\<close> derives the root VRF key of a mode and hashes the transcript with it, giving the
  generator and the transcript it leaves; \<open>leaf\<close> builds a leaf generator from the transcript and
  the parent generator.
\<close>

definition rng_fork ::
    "(mode \<Rightarrow> transcript \<Rightarrow> 'e + 'g \<times> transcript) \<Rightarrow> (transcript \<Rightarrow> 'g \<Rightarrow> 'l \<times> 'g) \<Rightarrow> bytes \<Rightarrow>
     ('g root_rng, 'e rng_error, 'l) rust_op" where
  "rng_fork vrf leaf pers g =
     (if \<not> rng_valid g then (Err Rng_InvalidArgument, g)
      else case (case rng_inner g of Some inner \<Rightarrow> Inr (inner, rng_transcript g) | None \<Rightarrow> vrf (rng_mode g) (rng_transcript g)) of
        Inl e \<Rightarrow> (Err (Rng_Abort e), g)
      | Inr (inner, ts) \<Rightarrow>
          (let ts' = ts @ [(ascii ''fork'', pers)] in
           case leaf ts' inner of (l, inner') \<Rightarrow>
             (Ok l, g\<lparr>rng_inner := Some inner', rng_transcript := ts'\<rparr>)))"

section \<open>Lemmas\<close>

lemma rng_append_invalid [simp]: "\<not> rng_valid g \<Longrightarrow> rng_append l m g = g"
  by (simp add: rng_append_def)

lemma rng_valid_append [simp]: "rng_valid (rng_append l m g) = rng_valid g"
  by (simp add: rng_append_def)

lemma rng_invalid_not_valid [simp]: "\<not> rng_valid rng_invalid"
  by (simp add: rng_invalid_def)

text \<open>Merging event tags appends the child's values key by key.\<close>

lemma fm_get_extend_events:
  "distinct (map fst es) \<Longrightarrow>
   fm_get [] (extend_events es tags) key = fm_get [] tags key @ (case map_of es key of Some vs \<Rightarrow> vs | None \<Rightarrow> [])"
proof (induction es arbitrary: tags)
  case (Cons e es)
  obtain k vs where e: "e = (k, vs)" by (cases e)
  then have "k \<notin> fst ` set es" using Cons.prems by simp
  then have "map_of es k = None" by (simp add: map_of_eq_None_iff)
  then show ?case using Cons by (auto simp: e)
qed simp

lemma fm_get_merge_events: "fm_get [] (merge_events p c) key = fm_get [] p key @ fm_get [] c key"
  unfolding merge_events_def fm_get_extend_events [OF distinct_fm_entries] map_of_fm_entries
  by (simp add: fm_get_def)

lemma length_be32 [simp]: "length (be32 c) = 4"
  by (simp add: be32_def)

text \<open>A failed fork, and any use of the invalid generator, leaves the generator as it is.\<close>

lemma rng_fork_Err: "rng_fork vrf leaf pers g = (Err e, g') \<Longrightarrow> g' = g"
  by (auto simp: rng_fork_def Let_def split: if_splits sum.splits option.splits prod.splits)

end
