(* ===== verification/Runtime_State.thy ===== *)
theory Runtime_State
  imports Kv_Store Execution_Env
begin

text \<open>
  The nested state of a runtime (\<open>runtime-sdk/src/state.rs\<close>): \<open>State\<close>, its \<open>open\<close>, \<open>commit\<close> and
  \<open>rollback\<close>, block and local values, messages and events, and \<open>CurrentState\<close>.
  The chain of \<open>parent\<close> boxes is the list \<open>st_parents\<close>, nearest parent first. The store is a type
  parameter with three operations (\<open>store_ops\<close>), used twice:
  \<^item> \<open>overlay_ops\<close> is the code: an \<open>OverlayStore\<close> over the boxed parent store, and the \<open>unsafe\<close>
    cast of \<open>convert_store\<close> when returning to the parent;
  \<^item> \<open>snapshot_ops\<close> is the specification: a child starts with a copy of its parent's contents,
    commit keeps the copy, rollback forgets it.
  The first refines the second, and the cast is always applied to an overlay store. The modules
  are then modelled over snapshots. The root store (\<open>mkvs\<close> of Oasis Core) is a parameter.
\<close>

section \<open>States\<close>

text \<open>\<open>BTreeMap::new\<close> and \<open>Default::default\<close> of a map.\<close>

instantiation fmap :: (type, type) default
begin

definition default_fmap :: "('a, 'b) fmap" where
  "default_fmap = fmempty"

instance ..

end

record ('st, 'ev, 'msg, 'bv, 'lv, 'g) frame =
  st_store :: 'st
  st_events :: "'ev event_tags"
  st_unconditional_events :: "'ev event_tags"
  st_messages :: "'msg list"
  st_block_values :: 'bv
  st_hidden_block_values :: "'bv option"
  st_local_values :: 'lv
  st_rng :: "'g root_rng option"
  st_hidden_rng :: "'g root_rng option"
  st_env :: environment
  st_always_rollback :: bool

record ('st, 'ev, 'msg, 'bv, 'lv, 'g) state = "('st, 'ev, 'msg, 'bv, 'lv, 'g) frame" +
  st_parents :: "('st, 'ev, 'msg, 'bv, 'lv, 'g) frame list"

text \<open>Casting a store that is no overlay to one would be undefined behaviour.\<close>

datatype ub = Invalid_Cast

record 'st store_ops =
  so_open :: "'st \<Rightarrow> 'st \<times> 'st"
  so_commit :: "'st \<Rightarrow> 'st \<Rightarrow> (ub, 'st) outcome"
  so_rollback :: "'st \<Rightarrow> 'st \<Rightarrow> (ub, 'st) outcome"

definition level :: "('st, 'ev, 'msg, 'bv, 'lv, 'g) state \<Rightarrow> nat" where
  "level s = length (st_parents s)"

definition hide_block_values ::
    "('st, 'ev, 'msg, 'bv::default, 'lv, 'g) state \<Rightarrow> (ub, ('st, 'ev, 'msg, 'bv, 'lv, 'g) state) outcome" where
  "hide_block_values s =
     (if st_parents s = [] then Panic
      else if st_hidden_block_values s \<noteq> None then Ok s
      else Ok (s\<lparr>st_hidden_block_values := Some (st_block_values s), st_block_values := default\<rparr>))"

definition disable_rng ::
    "('st, 'ev, 'msg, 'bv, 'lv, 'g) state \<Rightarrow> (ub, ('st, 'ev, 'msg, 'bv, 'lv, 'g) state) outcome" where
  "disable_rng s =
     (if st_parents s = [] then Panic
      else if st_hidden_rng s \<noteq> None then Ok s
      else Ok (s\<lparr>st_hidden_rng := st_rng s, st_rng := Some rng_invalid\<rparr>))"

definition map_rng ::
    "('g root_rng \<Rightarrow> 'g root_rng) \<Rightarrow> ('st, 'ev, 'msg, 'bv, 'lv, 'g) state \<Rightarrow>
     (ub, ('st, 'ev, 'msg, 'bv, 'lv, 'g) state) outcome" where
  "map_rng f s = (case st_rng s of None \<Rightarrow> Panic | Some g \<Rightarrow> Ok (s\<lparr>st_rng := Some (f g)\<rparr>))"

text \<open>\<open>State::init\<close>; \<open>entropy\<close> are the bytes the operating system would give.\<close>

definition init_mode :: "options \<Rightarrow> ('st, 'ev, 'msg, 'bv::default, 'lv, 'g) state \<Rightarrow>
    (ub, ('st, 'ev, 'msg, 'bv, 'lv, 'g) state) outcome" where
  "init_mode opts s =
     (case opt_mode opts of None \<Rightarrow> Ok s
      | Some m \<Rightarrow>
          (let s = s\<lparr>st_env := (st_env s)\<lparr>env_mode := m\<rparr>\<rparr> in
           if m = PreSchedule \<or> m = Simulate then hide_block_values (s\<lparr>st_always_rollback := True\<rparr>) else Ok s))"

definition init_tx :: "options \<Rightarrow> ('st, 'ev, 'msg, 'bv, 'lv, 'g) state \<Rightarrow>
    (ub, ('st, 'ev, 'msg, 'bv, 'lv, 'g) state) outcome" where
  "init_tx opts s =
     (case opt_tx opts of None \<Rightarrow> Ok s
      | Some tx \<Rightarrow> bind_outcome (map_rng (append_tx (txm_hash tx)) s)
          (\<lambda>s. Ok (s\<lparr>st_env := (st_env s)\<lparr>env_tx := Some tx\<rparr>\<rparr>)))"

definition init_internal :: "options \<Rightarrow> ('st, 'ev, 'msg, 'bv::default, 'lv, 'g) state \<Rightarrow>
    (ub, ('st, 'ev, 'msg, 'bv, 'lv, 'g) state) outcome" where
  "init_internal opts s =
     (case opt_internal opts of None \<Rightarrow> Ok s
      | Some b \<Rightarrow>
          (let s = s\<lparr>st_env := (st_env s)\<lparr>env_internal := b\<rparr>\<rparr> in
           if b then hide_block_values s else Ok s))"

definition init_rng :: "bytes \<Rightarrow> options \<Rightarrow> ('st, 'ev, 'msg, 'bv, 'lv, 'g) state \<Rightarrow>
    (ub, ('st, 'ev, 'msg, 'bv, 'lv, 'g) state) outcome" where
  "init_rng entropy opts s =
     bind_outcome (if opt_rng_local_entropy opts then map_rng (append_local_entropy entropy) s else Ok s) (\<lambda>s.
       if env_mode (st_env s) \<noteq> PreSchedule then map_rng append_subcontext s else disable_rng s)"

definition state_init :: "bytes \<Rightarrow> options \<Rightarrow> ('st, 'ev, 'msg, 'bv::default, 'lv, 'g) state \<Rightarrow>
    (ub, ('st, 'ev, 'msg, 'bv, 'lv, 'g) state) outcome" where
  "state_init entropy opts s =
     bind_outcome (init_mode opts s) (\<lambda>s. bind_outcome (init_tx opts s) (\<lambda>s.
     bind_outcome (init_internal opts s) (init_rng entropy opts)))"

definition state_open :: "'st store_ops \<Rightarrow> ('st, 'ev, 'msg, 'bv::default, 'lv::default, 'g) state \<Rightarrow>
    ('st, 'ev, 'msg, 'bv, 'lv, 'g) state" where
  "state_open ops s =
     (let (pstore, cstore) = so_open ops (st_store s) in
      \<lparr>st_store = cstore, st_events = fmempty, st_unconditional_events = fmempty, st_messages = [],
       st_block_values = st_block_values s, st_hidden_block_values = None, st_local_values = default,
       st_rng = st_rng s, st_hidden_rng = None, st_env = st_env s, st_always_rollback = False,
       st_parents = (frame.truncate s)\<lparr>st_store := pstore, st_block_values := default, st_rng := None\<rparr> # st_parents s\<rparr>)"

text \<open>Both ways back to the parent put back the block values and the RNG, hidden or not.\<close>

definition put_back :: "('st, 'ev, 'msg, 'bv, 'lv, 'g) state \<Rightarrow> ('st, 'ev, 'msg, 'bv, 'lv, 'g) frame \<Rightarrow>
    ('st, 'ev, 'msg, 'bv, 'lv, 'g) frame" where
  "put_back child p = p\<lparr>
     st_block_values := (case st_hidden_block_values child of Some b \<Rightarrow> b | None \<Rightarrow> st_block_values child),
     st_rng := (if st_hidden_rng child \<noteq> None then st_hidden_rng child else st_rng child)\<rparr>"

definition commit_inner :: "'st store_ops \<Rightarrow> ('st, 'ev, 'msg, 'bv, 'lv, 'g) state \<Rightarrow>
    (ub, ('st, 'ev, 'msg, 'bv, 'lv, 'g) state) outcome" where
  "commit_inner ops s =
     (case st_parents s of [] \<Rightarrow> Panic
      | p # ps \<Rightarrow> bind_outcome (so_commit ops (st_store s) (st_store p)) (\<lambda>st.
          Ok (frame.extend (put_back s (p\<lparr>st_store := st,
            st_messages := st_messages p @ st_messages s,
            st_events := merge_events (st_events p) (st_events s),
            st_unconditional_events :=
              merge_events (st_unconditional_events p) (st_unconditional_events s)\<rparr>)) (state.fields ps))))"

definition state_rollback :: "'st store_ops \<Rightarrow> ('st, 'ev, 'msg, 'bv, 'lv, 'g) state \<Rightarrow>
    (ub, ('st, 'ev, 'msg, 'bv, 'lv, 'g) state) outcome" where
  "state_rollback ops s =
     (case st_parents s of [] \<Rightarrow> Panic
      | p # ps \<Rightarrow> bind_outcome (so_rollback ops (st_store s) (st_store p)) (\<lambda>st.
          Ok (frame.extend (put_back s (p\<lparr>st_store := st\<rparr>)) (state.fields ps))))"

definition state_commit :: "'st store_ops \<Rightarrow> ('st, 'ev, 'msg, 'bv, 'lv, 'g) state \<Rightarrow>
    (ub, ('st, 'ev, 'msg, 'bv, 'lv, 'g) state) outcome" where
  "state_commit ops s = (if st_always_rollback s then state_rollback ops s else commit_inner ops s)"

section \<open>Messages, events, environments\<close>

definition emitted_messages_count :: "('st, 'ev, 'msg, 'bv, 'lv, 'g) state \<Rightarrow> nat" where
  "emitted_messages_count s = length (st_messages s) + (\<Sum>p \<leftarrow> st_parents s. length (st_messages p))"

definition emitted_messages_local_count :: "('st, 'ev, 'msg, 'bv, 'lv, 'g) state \<Rightarrow> nat" where
  "emitted_messages_local_count s = length (st_messages s)"

text \<open>\<open>ctx_max\<close> is \<open>Context::max_messages\<close>.\<close>

definition emitted_messages_max :: "u32 \<Rightarrow> ('st, 'ev, 'msg, 'bv, 'lv, 'g) state \<Rightarrow> u32" where
  "emitted_messages_max ctx_max s =
     (case env_auth_info (st_env s) of
        Some ai \<Rightarrow> (let limit = fee_consensus_messages (ai_fee ai) in if limit > 0 then limit else ctx_max)
      | None \<Rightarrow> ctx_max)"

datatype message_error = OutOfMessageSlots

definition emit_message :: "u32 \<Rightarrow> 'msg \<Rightarrow> (('st, 'ev, 'msg, 'bv, 'lv, 'g) state, message_error, unit) rust_op" where
  "emit_message ctx_max msg s =
     (if emitted_messages_count s \<ge> unat (emitted_messages_max ctx_max s) then (Err OutOfMessageSlots, s)
      else (Ok (), s\<lparr>st_messages := st_messages s @ [msg]\<rparr>))"

definition take_messages :: "('st, 'ev, 'msg, 'bv, 'lv, 'g) state \<Rightarrow> 'msg list \<times> ('st, 'ev, 'msg, 'bv, 'lv, 'g) state" where
  "take_messages s = (st_messages s, s\<lparr>st_messages := []\<rparr>)"

definition emit_event_raw :: "bytes \<Rightarrow> 'ev \<Rightarrow> ('st, 'ev, 'msg, 'bv, 'lv, 'g) state \<Rightarrow> ('st, 'ev, 'msg, 'bv, 'lv, 'g) state" where
  "emit_event_raw key value s = s\<lparr>st_events := push_event key value (st_events s)\<rparr>"

definition emit_unconditional_event :: "bytes \<Rightarrow> 'ev \<Rightarrow> ('st, 'ev, 'msg, 'bv, 'lv, 'g) state \<Rightarrow> ('st, 'ev, 'msg, 'bv, 'lv, 'g) state" where
  "emit_unconditional_event key value s =
     s\<lparr>st_unconditional_events := push_event key value (st_unconditional_events s)\<rparr>"

definition take_events :: "('st, 'ev, 'msg, 'bv, 'lv, 'g) state \<Rightarrow> 'ev event_tags \<times> ('st, 'ev, 'msg, 'bv, 'lv, 'g) state" where
  "take_events s = (st_events s, s\<lparr>st_events := fmempty\<rparr>)"

definition take_unconditional_events ::
    "('st, 'ev, 'msg, 'bv, 'lv, 'g) state \<Rightarrow> 'ev event_tags \<times> ('st, 'ev, 'msg, 'bv, 'lv, 'g) state" where
  "take_unconditional_events s = (st_unconditional_events s, s\<lparr>st_unconditional_events := fmempty\<rparr>)"

definition take_all_events :: "('st, 'ev, 'msg, 'bv, 'lv, 'g) state \<Rightarrow> 'ev event_tags \<times> ('st, 'ev, 'msg, 'bv, 'lv, 'g) state" where
  "take_all_events s =
     (let (events, s) = take_events s; (unconditional_events, s) = take_unconditional_events s
      in (merge_events events unconditional_events, s))"

fun env_origin_of :: "environment \<Rightarrow> environment list \<Rightarrow> environment" where
  "env_origin_of e [] = e"
| "env_origin_of e (p # ps) = (if env_internal e then env_origin_of p ps else e)"

definition env_origin :: "('st, 'ev, 'msg, 'bv, 'lv, 'g) state \<Rightarrow> environment" where
  "env_origin s = env_origin_of (st_env s) (map st_env (st_parents s))"

section \<open>Transactions on the current state\<close>

datatype 'r transaction_result = Commit 'r | Rollback 'r

definition of_outcome :: "('e, 's) outcome \<Rightarrow> 'r \<Rightarrow> 's \<Rightarrow> ('e, 'r) outcome \<times> 's" where
  "of_outcome res r s = (case res of Ok t \<Rightarrow> (Ok r, t) | Err e \<Rightarrow> (Err e, s) | Panic \<Rightarrow> (Panic, s))"

text \<open>Dropping the \<open>TransactionGuard\<close> rolls back a state that is still open.\<close>

definition guard_drop :: "'st store_ops \<Rightarrow> nat \<Rightarrow> ('e, 'r) outcome \<times> ('st, 'ev, 'msg, 'bv, 'lv, 'g) state \<Rightarrow>
    ('e, 'r) outcome \<times> ('st, 'ev, 'msg, 'bv, 'lv, 'g) state" where
  "guard_drop ops lvl rs =
     (case rs of (r, s) \<Rightarrow>
        if level s = lvl then (case state_rollback ops s of Ok t \<Rightarrow> (r, t) | _ \<Rightarrow> (Panic, s)) else (r, s))"

definition close_transaction :: "'st store_ops \<Rightarrow> nat \<Rightarrow>
    (ub, 'r transaction_result) outcome \<times> ('st, 'ev, 'msg, 'bv, 'lv, 'g) state \<Rightarrow>
    (ub, 'r) outcome \<times> ('st, 'ev, 'msg, 'bv, 'lv, 'g) state" where
  "close_transaction ops lvl res =
     guard_drop ops lvl
       (case res of
          (Ok (Commit r), s) \<Rightarrow> of_outcome (state_commit ops s) r s
        | (Ok (Rollback r), s) \<Rightarrow> of_outcome (state_rollback ops s) r s
        | (Err e, s) \<Rightarrow> (Err e, s)
        | (Panic, s) \<Rightarrow> (Panic, s))"

definition with_transaction_opts ::
    "'st store_ops \<Rightarrow> bytes \<Rightarrow> options \<Rightarrow>
     (('st, 'ev, 'msg, 'bv::default, 'lv::default, 'g) state, ub, 'r transaction_result) rust_op \<Rightarrow>
     (('st, 'ev, 'msg, 'bv, 'lv, 'g) state, ub, 'r) rust_op" where
  "with_transaction_opts ops entropy opts f s =
     (case state_init entropy opts (state_open ops s) of
        Err e \<Rightarrow> (Err e, state_open ops s)
      | Panic \<Rightarrow> (Panic, state_open ops s)
      | Ok s1 \<Rightarrow> close_transaction ops (level s1) (f s1))"

definition with_transaction ::
    "'st store_ops \<Rightarrow> (('st, 'ev, 'msg, 'bv::default, 'lv::default, 'g) state, ub, 'r transaction_result) rust_op \<Rightarrow>
     (('st, 'ev, 'msg, 'bv, 'lv, 'g) state, ub, 'r) rust_op" where
  "with_transaction ops f = with_transaction_opts ops [] default_options f"

definition root_state :: "'st \<Rightarrow> mode \<Rightarrow> ('st, 'ev, 'msg, 'bv::default, 'lv::default, 'g) state" where
  "root_state st m =
     \<lparr>st_store = st, st_events = fmempty, st_unconditional_events = fmempty, st_messages = [],
      st_block_values = default, st_hidden_block_values = None, st_local_values = default,
      st_rng = Some (rng_new m), st_hidden_rng = None, st_env = default_environment,
      st_always_rollback = False, st_parents = []\<rparr>"

text \<open>
  \<open>CurrentState::enter_opts\<close>: \<open>wrap\<close> puts the root store under the first overlay and \<open>unwrap\<close>
  commits it when the guard is dropped. Without a mode in the options it panics.
\<close>

definition enter_opts ::
    "('r \<Rightarrow> 'st) \<Rightarrow> ('st \<Rightarrow> 'r) \<Rightarrow> bytes \<Rightarrow> options \<Rightarrow> 'r \<Rightarrow>
     (('st, 'ev, 'msg, 'bv::default, 'lv::default, 'g) state, ub, 'a) rust_op \<Rightarrow> (ub, 'a) outcome \<times> 'r" where
  "enter_opts wrap unwrap entropy opts root f =
     (case opt_mode opts of None \<Rightarrow> (Panic, root)
      | Some m \<Rightarrow>
          (case state_init entropy opts (root_state (wrap root) m) of
             Ok s \<Rightarrow> (case f s of (r, t) \<Rightarrow> (r, unwrap (st_store t)))
           | Err e \<Rightarrow> (Err e, root)
           | Panic \<Rightarrow> (Panic, root)))"

section \<open>The stores of the states\<close>

text \<open>\<open>Box<dyn Store>\<close> below a state: the root store, or an overlay that was boxed by \<open>open\<close>.\<close>

datatype 'r dyn_store = Root_Store 'r | Overlay_Store "'r dyn_store" "(bytes, bytes) fmap" "bytes fset"

record 'r root_ops =
  ro_get :: "'r \<Rightarrow> bytes \<Rightarrow> bytes option"
  ro_insert :: "'r \<Rightarrow> bytes \<Rightarrow> bytes \<Rightarrow> 'r"
  ro_remove :: "'r \<Rightarrow> bytes \<Rightarrow> 'r"
  ro_entries :: "'r \<Rightarrow> cursor"

definition box_overlay :: "'r dyn_store overlay_store \<Rightarrow> 'r dyn_store" where
  "box_overlay os = Overlay_Store (ov_parent os) (ov_overlay os) (ov_dirty os)"

lemma overlay_get_cong [fundef_cong]:
  "os = os' \<Longrightarrow> key = key' \<Longrightarrow> pget (ov_parent os') key' = pget' (ov_parent os') key' \<Longrightarrow>
   overlay_get pget os key = overlay_get pget' os' key'"
  by (simp add: overlay_get_def)

lemma overlay_entries_cong [fundef_cong]:
  "os = os' \<Longrightarrow> pents (ov_parent os') = pents' (ov_parent os') \<Longrightarrow>
   overlay_entries pents os = overlay_entries pents' os'"
  by (simp add: overlay_entries_def)

fun dyn_get :: "'r root_ops \<Rightarrow> 'r dyn_store \<Rightarrow> bytes \<Rightarrow> bytes option" where
  "dyn_get R (Root_Store r) key = ro_get R r key"
| "dyn_get R (Overlay_Store p ov dirty) key =
     overlay_get (dyn_get R) \<lparr>ov_parent = p, ov_overlay = ov, ov_dirty = dirty\<rparr> key"

fun dyn_insert :: "'r root_ops \<Rightarrow> 'r dyn_store \<Rightarrow> bytes \<Rightarrow> bytes \<Rightarrow> 'r dyn_store" where
  "dyn_insert R (Root_Store r) key value = Root_Store (ro_insert R r key value)"
| "dyn_insert R (Overlay_Store p ov dirty) key value =
     box_overlay (overlay_insert \<lparr>ov_parent = p, ov_overlay = ov, ov_dirty = dirty\<rparr> key value)"

fun dyn_remove :: "'r root_ops \<Rightarrow> 'r dyn_store \<Rightarrow> bytes \<Rightarrow> 'r dyn_store" where
  "dyn_remove R (Root_Store r) key = Root_Store (ro_remove R r key)"
| "dyn_remove R (Overlay_Store p ov dirty) key =
     box_overlay (overlay_remove \<lparr>ov_parent = p, ov_overlay = ov, ov_dirty = dirty\<rparr> key)"

fun dyn_entries :: "'r root_ops \<Rightarrow> 'r dyn_store \<Rightarrow> cursor" where
  "dyn_entries R (Root_Store r) = ro_entries R r"
| "dyn_entries R (Overlay_Store p ov dirty) =
     overlay_entries (dyn_entries R) \<lparr>ov_parent = p, ov_overlay = ov, ov_dirty = dirty\<rparr>"

fun dyn_inv :: "('r \<Rightarrow> bool) \<Rightarrow> 'r dyn_store \<Rightarrow> bool" where
  "dyn_inv rinv (Root_Store r) = rinv r"
| "dyn_inv rinv (Overlay_Store p ov dirty) \<longleftrightarrow> dyn_inv rinv p \<and> fmdom ov |\<subseteq>| dirty"

text \<open>\<open>convert_store\<close>: the cast is defined only when the boxed store is an overlay.\<close>

fun convert_store :: "'r dyn_store \<Rightarrow> (ub, 'r dyn_store overlay_store) outcome" where
  "convert_store (Overlay_Store p ov dirty) = Ok \<lparr>ov_parent = p, ov_overlay = ov, ov_dirty = dirty\<rparr>"
| "convert_store (Root_Store _) = Err Invalid_Cast"

text \<open>\<open>Option::map\<close> over the store that was taken from the child.\<close>

definition map_taken :: "('r dyn_store overlay_store \<Rightarrow> 'r dyn_store) \<Rightarrow> 'r dyn_store overlay_store option \<Rightarrow>
    (ub, 'r dyn_store overlay_store option) outcome" where
  "map_taken f taken =
     (case taken of None \<Rightarrow> Ok None
      | Some cstore \<Rightarrow> bind_outcome (convert_store (f cstore)) (\<lambda>os. Ok (Some os)))"

definition overlay_ops :: "'r root_ops \<Rightarrow> 'r dyn_store overlay_store option store_ops" where
  "overlay_ops R = \<lparr>
     so_open = (\<lambda>st. (None, map_option (overlay_new \<circ> box_overlay) st)),
     so_commit = (\<lambda>child _. map_taken (overlay_commit (dyn_insert R) (dyn_remove R)) child),
     so_rollback = (\<lambda>child _. map_taken overlay_rollback child)\<rparr>"

definition snapshot_ops :: "'st store_ops" where
  "snapshot_ops = \<lparr>so_open = (\<lambda>st. (st, st)), so_commit = (\<lambda>child _. Ok child), so_rollback = (\<lambda>_ parent. Ok parent)\<rparr>"

text \<open>Reading and writing the store of a state; without a store they panic.\<close>

definition state_store_get :: "'r root_ops \<Rightarrow> bytes \<Rightarrow>
    ('r dyn_store overlay_store option, 'ev, 'msg, 'bv, 'lv, 'g) state \<Rightarrow> bytes option option" where
  "state_store_get R key s = map_option (\<lambda>os. overlay_get (dyn_get R) os key) (st_store s)"

definition state_store_insert :: "bytes \<Rightarrow> bytes \<Rightarrow>
    ('r dyn_store overlay_store option, 'ev, 'msg, 'bv, 'lv, 'g) state \<Rightarrow>
    ('r dyn_store overlay_store option, 'ev, 'msg, 'bv, 'lv, 'g) state option" where
  "state_store_insert key value s =
     (case st_store s of None \<Rightarrow> None | Some os \<Rightarrow> Some (s\<lparr>st_store := Some (overlay_insert os key value)\<rparr>))"

definition state_store_remove :: "bytes \<Rightarrow>
    ('r dyn_store overlay_store option, 'ev, 'msg, 'bv, 'lv, 'g) state \<Rightarrow>
    ('r dyn_store overlay_store option, 'ev, 'msg, 'bv, 'lv, 'g) state option" where
  "state_store_remove key s =
     (case st_store s of None \<Rightarrow> None | Some os \<Rightarrow> Some (s\<lparr>st_store := Some (overlay_remove os key)\<rparr>))"

definition has_pending_store_updates :: "('r dyn_store overlay_store option, 'ev, 'msg, 'bv, 'lv, 'g) state \<Rightarrow> bool" where
  "has_pending_store_updates s = (case st_store s of None \<Rightarrow> False | Some os \<Rightarrow> overlay_has_pending_updates os)"

definition pending_store_update_byte_size :: "('r dyn_store overlay_store option, 'ev, 'msg, 'bv, 'lv, 'g) state \<Rightarrow> nat" where
  "pending_store_update_byte_size s = (case st_store s of None \<Rightarrow> 0 | Some os \<Rightarrow> overlay_pending_update_byte_size os)"

section \<open>The boxed stores are stores\<close>

lemma dyn_entries_laws:
  assumes "kv_store rinv (ro_get R) (ro_insert R) (ro_remove R) (ro_entries R)" "dyn_inv rinv d"
  shows "ordered (dyn_entries R d) \<and> map_of (dyn_entries R d) = dyn_get R d"
  using assms(2)
proof (induction d)
  case (Root_Store r)
  then show ?case
    using kv_store.ents_ordered [OF assms(1)] kv_store.ents_get [OF assms(1)] by (simp add: fun_eq_iff)
next
  case (Overlay_Store p ov dirty)
  let ?os = "\<lparr>ov_parent = p, ov_overlay = ov, ov_dirty = dirty\<rparr>"
  have "ordered (overlay_entries (dyn_entries R) ?os)"
    "map_of (overlay_entries (dyn_entries R) ?os) = overlay_get (dyn_get R) ?os"
    using Overlay_Store by (auto intro!: overlay_entries_laws)
  then show ?case by (simp add: fun_eq_iff)
qed

lemma dyn_kv_store:
  assumes "kv_store rinv (ro_get R) (ro_insert R) (ro_remove R) (ro_entries R)"
  shows "kv_store (dyn_inv rinv) (dyn_get R) (dyn_insert R) (dyn_remove R) (dyn_entries R)"
proof
  fix d k v
  assume i: "dyn_inv rinv d"
  show "dyn_inv rinv (dyn_insert R d k v)"
    using i by (cases d) (auto simp: kv_store.inv_ins [OF assms] box_overlay_def overlay_insert_def)
  show "dyn_inv rinv (dyn_remove R d k)"
    using i by (cases d) (auto simp: kv_store.inv_rem [OF assms] box_overlay_def overlay_remove_def)
  show "dyn_get R (dyn_insert R d k v) = (dyn_get R d)(k \<mapsto> v)"
  proof (cases d)
    case (Root_Store r)
    then show ?thesis using i by (auto simp: kv_store.get_ins [OF assms])
  next
    case (Overlay_Store p ov dirty)
    then show ?thesis
      using overlay_get_insert [of "dyn_get R" "\<lparr>ov_parent = p, ov_overlay = ov, ov_dirty = dirty\<rparr>" k v]
      by (simp add: fun_eq_iff box_overlay_def overlay_insert_def)
  qed
  show "dyn_get R (dyn_remove R d k) = (dyn_get R d)(k := None)"
  proof (cases d)
    case (Root_Store r)
    then show ?thesis using i by (auto simp: kv_store.get_rem [OF assms])
  next
    case (Overlay_Store p ov dirty)
    then show ?thesis
      using i overlay_get_remove [of "\<lparr>ov_parent = p, ov_overlay = ov, ov_dirty = dirty\<rparr>" "dyn_get R" k]
      by (auto simp: fun_eq_iff box_overlay_def overlay_remove_def)
  qed
  show "map_of (dyn_entries R d) = dyn_get R d" "ordered (dyn_entries R d)"
    using dyn_entries_laws [OF assms i] by simp_all
qed

text \<open>Writing to a boxed overlay leaves it a boxed overlay over the same parent.\<close>

definition over :: "'r dyn_store \<Rightarrow> 'r dyn_store \<Rightarrow> bool" where
  "over p d \<longleftrightarrow> (\<exists>ov dirty. d = Overlay_Store p ov dirty)"

lemma over_insert: "over p d \<Longrightarrow> over p (dyn_insert R d k v)"
  by (auto simp: over_def box_overlay_def overlay_insert_def)

lemma over_remove: "over p d \<Longrightarrow> over p (dyn_remove R d k)"
  by (auto simp: over_def box_overlay_def overlay_remove_def)

lemma over_commit_inserts:
  "over p d \<Longrightarrow> commit_inserts (dyn_insert R) es (d, dirty) = (d', dirty') \<Longrightarrow> over p d'"
proof (induction es arbitrary: d dirty)
  case (Cons e es)
  then show ?case by (cases e) (metis commit_inserts.simps(2) over_insert)
qed simp

lemma over_fold_remove: "over p d \<Longrightarrow> over p (fold (\<lambda>k d. dyn_remove R d k) ks d)"
  by (induction ks arbitrary: d) (auto intro: over_remove)

lemma over_commit: "over p (ov_parent os) \<Longrightarrow> over p (overlay_commit (dyn_insert R) (dyn_remove R) os)"
  unfolding overlay_commit_def
  by (auto split: prod.splits intro: over_fold_remove dest: over_commit_inserts)

section \<open>Overlays refine snapshots\<close>

text \<open>
  The contents a state shows: its own store's, and for every parent what lies below. While a
  child is open the parents' own store field is empty, so a parent's contents are read off the
  boxed store of the child above it.
\<close>

definition with_store :: "'tt \<Rightarrow> ('st, 'ev, 'msg, 'bv, 'lv, 'g) frame \<Rightarrow> ('tt, 'ev, 'msg, 'bv, 'lv, 'g) frame" where
  "with_store st f =
     \<lparr>st_store = st, st_events = st_events f, st_unconditional_events = st_unconditional_events f,
      st_messages = st_messages f, st_block_values = st_block_values f,
      st_hidden_block_values = st_hidden_block_values f, st_local_values = st_local_values f,
      st_rng = st_rng f, st_hidden_rng = st_hidden_rng f, st_env = st_env f,
      st_always_rollback = st_always_rollback f\<rparr>"

type_synonym contents = "bytes \<Rightarrow> bytes option"

fun below :: "'r dyn_store \<Rightarrow> 'r dyn_store" where
  "below (Overlay_Store p _ _) = p"
| "below (Root_Store r) = Root_Store r"

fun overlay_depth :: "'r dyn_store \<Rightarrow> nat" where
  "overlay_depth (Overlay_Store p _ _) = Suc (overlay_depth p)"
| "overlay_depth (Root_Store _) = 0"

fun abs_parents :: "'r root_ops \<Rightarrow> 'r dyn_store \<Rightarrow>
    ('st, 'ev, 'msg, 'bv, 'lv, 'g) frame list \<Rightarrow> (contents, 'ev, 'msg, 'bv, 'lv, 'g) frame list" where
  "abs_parents R d [] = []"
| "abs_parents R d (p # ps) = with_store (dyn_get R d) p # abs_parents R (below d) ps"

definition abs_state :: "'r root_ops \<Rightarrow> ('r dyn_store overlay_store option, 'ev, 'msg, 'bv, 'lv, 'g) state \<Rightarrow>
    (contents, 'ev, 'msg, 'bv, 'lv, 'g) state" where
  "abs_state R s =
     (case st_store s of
        Some os \<Rightarrow> frame.extend (with_store (overlay_get (dyn_get R) os) (frame.truncate s))
          (state.fields (abs_parents R (ov_parent os) (st_parents s)))
      | None \<Rightarrow> frame.extend (with_store (\<lambda>_. None) (frame.truncate s)) (state.fields []))"

text \<open>
  The invariant of the chain: the current state has a store, no parent has one, and there are as
  many overlays below the current one as there are open parents.
\<close>

definition state_ok :: "('r \<Rightarrow> bool) \<Rightarrow> ('r dyn_store overlay_store option, 'ev, 'msg, 'bv, 'lv, 'g) state \<Rightarrow> bool" where
  "state_ok rinv s \<longleftrightarrow>
     (\<exists>os. st_store s = Some os \<and> overlay_inv (dyn_inv rinv) os \<and>
        overlay_depth (ov_parent os) = length (st_parents s)) \<and>
     (\<forall>p \<in> set (st_parents s). st_store p = None)"

lemmas frame_defs = frame.extend_def frame.truncate_def state.fields_def with_store_def

lemma overlay_depth_box: "overlay_depth (box_overlay os) = Suc (overlay_depth (ov_parent os))"
  by (simp add: box_overlay_def)

lemma dyn_get_box: "dyn_get R (box_overlay os) = overlay_get (dyn_get R) os"
  by (cases os) (simp add: box_overlay_def fun_eq_iff)

lemma dyn_inv_box: "dyn_inv rinv (box_overlay os) \<longleftrightarrow> overlay_inv (dyn_inv rinv) os"
  by (simp add: box_overlay_def overlay_inv_def)

lemma convert_box [simp]: "convert_store (box_overlay os) = Ok os"
  by (cases os) (simp add: box_overlay_def)

lemma below_box [simp]: "below (box_overlay os) = ov_parent os"
  by (simp add: box_overlay_def)

lemma ov_parent_new [simp]: "ov_parent (overlay_new p) = p"
  by (simp add: overlay_new_def)

lemma overlay_new_get: "overlay_get pget (overlay_new p) = pget p"
  by (simp add: fun_eq_iff overlay_get_def overlay_new_def)

lemma state_ok_open: "state_ok rinv s \<Longrightarrow> state_ok rinv (state_open (overlay_ops R) s)"
  by (auto simp: state_ok_def state_open_def overlay_ops_def overlay_depth_box overlay_new_def
      overlay_inv_def dyn_inv_box)

lemma abs_open:
  "state_ok rinv s \<Longrightarrow> abs_state R (state_open (overlay_ops R) s) = state_open snapshot_ops (abs_state R s)"
  by (auto simp: state_ok_def state_open_def overlay_ops_def snapshot_ops_def abs_state_def frame_defs
      overlay_new_get dyn_get_box)

text \<open>What is below a state with an open parent is the parent's overlay.\<close>

lemma state_ok_unbox:
  assumes "state_ok rinv s" "st_parents s = p # ps"
  obtains os pos where "st_store s = Some os" "ov_parent os = box_overlay pos"
    "overlay_inv (dyn_inv rinv) os" "overlay_inv (dyn_inv rinv) pos"
    "overlay_depth (ov_parent pos) = length ps" "\<forall>p \<in> set ps. st_store p = None"
proof -
  from assms obtain os where os: "st_store s = Some os" "overlay_inv (dyn_inv rinv) os"
    "overlay_depth (ov_parent os) = Suc (length ps)" "\<forall>p \<in> set ps. st_store p = None"
    by (auto simp: state_ok_def)
  then obtain q ov dirty where q: "ov_parent os = Overlay_Store q ov dirty"
    by (cases "ov_parent os") auto
  let ?pos = "\<lparr>ov_parent = q, ov_overlay = ov, ov_dirty = dirty\<rparr>"
  have "ov_parent os = box_overlay ?pos" by (simp add: q box_overlay_def)
  with os q show thesis
    by (intro that [of os ?pos]) (auto simp: overlay_inv_def)
qed

lemma commit_unbox:
  assumes "kv_store rinv (ro_get R) (ro_insert R) (ro_remove R) (ro_entries R)"
    and "overlay_inv (dyn_inv rinv) os" "ov_parent os = box_overlay pos"
  obtains cos where "overlay_commit (dyn_insert R) (dyn_remove R) os = box_overlay cos"
    "ov_parent cos = ov_parent pos" "overlay_inv (dyn_inv rinv) cos"
    "overlay_get (dyn_get R) cos = overlay_get (dyn_get R) os"
proof -
  let ?c = "overlay_commit (dyn_insert R) (dyn_remove R) os"
  have "over (ov_parent pos) (ov_parent os)" using assms(3) by (simp add: over_def box_overlay_def)
  then obtain ov dirty where c: "?c = Overlay_Store (ov_parent pos) ov dirty"
    using over_commit by (metis over_def)
  let ?cos = "\<lparr>ov_parent = ov_parent pos, ov_overlay = ov, ov_dirty = dirty\<rparr>"
  have box: "?c = box_overlay ?cos" by (simp add: c box_overlay_def)
  note laws = kv_store.overlay_commit_get [OF dyn_kv_store [OF assms(1)] assms(2)]
  have "dyn_inv rinv (box_overlay ?cos)" "dyn_get R (box_overlay ?cos) = overlay_get (dyn_get R) os"
    using laws by (simp_all add: box [symmetric])
  then show thesis using that [of ?cos] box by (simp add: dyn_inv_box dyn_get_box)
qed

lemma rollback_refines:
  assumes "state_ok rinv s" "st_parents s \<noteq> []"
  obtains t where "state_rollback (overlay_ops R) s = Ok t" "state_ok rinv t"
    "state_rollback snapshot_ops (abs_state R s) = Ok (abs_state R t)"
proof -
  from assms(2) obtain p ps where ps: "st_parents s = p # ps" by (cases "st_parents s") auto
  from state_ok_unbox [OF assms(1) ps] obtain os pos where
    os: "st_store s = Some os" "ov_parent os = box_overlay pos"
    and pos: "overlay_inv (dyn_inv rinv) pos" "overlay_depth (ov_parent pos) = length ps"
      "\<forall>p \<in> set ps. st_store p = None" by metis
  let ?t = "frame.extend (put_back s (p\<lparr>st_store := Some pos\<rparr>)) (state.fields ps)"
  have "state_rollback (overlay_ops R) s = Ok ?t"
    by (simp add: state_rollback_def ps overlay_ops_def map_taken_def os overlay_rollback_def)
  moreover have "state_ok rinv ?t" using pos by (auto simp: state_ok_def frame_defs put_back_def)
  moreover have "state_rollback snapshot_ops (abs_state R s) = Ok (abs_state R ?t)"
    by (simp add: state_rollback_def ps snapshot_ops_def abs_state_def os frame_defs put_back_def
        dyn_get_box split: option.splits)
  ultimately show thesis by (rule that)
qed

lemma commit_refines:
  assumes "kv_store rinv (ro_get R) (ro_insert R) (ro_remove R) (ro_entries R)"
    and "state_ok rinv s" "st_parents s \<noteq> []"
  obtains t where "commit_inner (overlay_ops R) s = Ok t" "state_ok rinv t"
    "commit_inner snapshot_ops (abs_state R s) = Ok (abs_state R t)"
proof -
  from assms(3) obtain p ps where ps: "st_parents s = p # ps" by (cases "st_parents s") auto
  from state_ok_unbox [OF assms(2) ps] obtain os pos where
    os: "st_store s = Some os" "ov_parent os = box_overlay pos" "overlay_inv (dyn_inv rinv) os"
    and pos: "overlay_depth (ov_parent pos) = length ps" "\<forall>p \<in> set ps. st_store p = None" by metis
  from commit_unbox [OF assms(1) os(3,2)] obtain cos where
    cos: "overlay_commit (dyn_insert R) (dyn_remove R) os = box_overlay cos"
      "ov_parent cos = ov_parent pos" "overlay_inv (dyn_inv rinv) cos"
      "overlay_get (dyn_get R) cos = overlay_get (dyn_get R) os" by metis
  let ?p = "\<lambda>st. p\<lparr>st_store := st, st_messages := st_messages p @ st_messages s,
    st_events := merge_events (st_events p) (st_events s),
    st_unconditional_events := merge_events (st_unconditional_events p) (st_unconditional_events s)\<rparr>"
  let ?t = "frame.extend (put_back s (?p (Some cos))) (state.fields ps)"
  have "commit_inner (overlay_ops R) s = Ok ?t"
    by (simp add: commit_inner_def ps overlay_ops_def map_taken_def os cos)
  moreover have "state_ok rinv ?t" using pos cos by (auto simp: state_ok_def frame_defs put_back_def)
  moreover have "commit_inner snapshot_ops (abs_state R s) = Ok (abs_state R ?t)"
    by (simp add: commit_inner_def ps snapshot_ops_def abs_state_def os frame_defs put_back_def cos
        split: option.splits)
  ultimately show thesis by (rule that)
qed

text \<open>Everything but the store is the same in a state and in its contents.\<close>

lemma abs_state_fields [simp]:
  "st_env (abs_state R s) = st_env s" "st_rng (abs_state R s) = st_rng s"
  "st_hidden_rng (abs_state R s) = st_hidden_rng s" "st_block_values (abs_state R s) = st_block_values s"
  "st_hidden_block_values (abs_state R s) = st_hidden_block_values s"
  "st_always_rollback (abs_state R s) = st_always_rollback s"
  "st_events (abs_state R s) = st_events s" "st_messages (abs_state R s) = st_messages s"
  by (simp_all add: abs_state_def frame_defs split: option.splits)

lemma abs_state_updates:
  "abs_state R (s\<lparr>st_env := e\<rparr>) = (abs_state R s)\<lparr>st_env := e\<rparr>"
  "abs_state R (s\<lparr>st_rng := g\<rparr>) = (abs_state R s)\<lparr>st_rng := g\<rparr>"
  "abs_state R (s\<lparr>st_hidden_rng := g\<rparr>) = (abs_state R s)\<lparr>st_hidden_rng := g\<rparr>"
  "abs_state R (s\<lparr>st_block_values := b\<rparr>) = (abs_state R s)\<lparr>st_block_values := b\<rparr>"
  "abs_state R (s\<lparr>st_hidden_block_values := hb\<rparr>) = (abs_state R s)\<lparr>st_hidden_block_values := hb\<rparr>"
  "abs_state R (s\<lparr>st_always_rollback := a\<rparr>) = (abs_state R s)\<lparr>st_always_rollback := a\<rparr>"
  by (simp_all add: abs_state_def frame_defs split: option.splits)

lemma length_abs_parents [simp]: "length (abs_parents R d ps) = length ps"
  by (induction ps arbitrary: d) auto

lemma level_abs_state: "state_ok rinv s \<Longrightarrow> level (abs_state R s) = level s"
  by (auto simp: state_ok_def abs_state_def level_def frame_defs)

lemma abs_no_parents: "state_ok rinv s \<Longrightarrow> st_parents (abs_state R s) = [] \<longleftrightarrow> st_parents s = []"
  using level_abs_state [of rinv s R] by (simp add: level_def flip: length_0_conv)

text \<open>\<open>same_chain\<close>: an operation touched neither the store nor the parents.\<close>

definition same_chain :: "('st, 'ev, 'msg, 'bv, 'lv, 'g) state \<Rightarrow> ('st, 'ev, 'msg, 'bv, 'lv, 'g) state \<Rightarrow> bool" where
  "same_chain s t \<longleftrightarrow> st_store t = st_store s \<and> st_parents t = st_parents s \<and> st_events t = st_events s \<and>
     st_unconditional_events t = st_unconditional_events s \<and> st_messages t = st_messages s \<and>
     st_local_values t = st_local_values s"

lemma same_chain_ok: "same_chain s t \<Longrightarrow> state_ok rinv s \<Longrightarrow> state_ok rinv t"
  by (auto simp: same_chain_def state_ok_def)

lemma same_chain_trans: "same_chain s t \<Longrightarrow> same_chain t u \<Longrightarrow> same_chain s u"
  by (simp add: same_chain_def)

text \<open>
  \<open>lifts R f g\<close>: \<open>g\<close> does to the contents what \<open>f\<close>, which leaves the chain alone, does to the state.
\<close>

definition abs_outcome :: "'r root_ops \<Rightarrow> (ub, ('r dyn_store overlay_store option, 'ev, 'msg, 'bv, 'lv, 'g) state) outcome \<Rightarrow>
    (ub, (contents, 'ev, 'msg, 'bv, 'lv, 'g) state) outcome" where
  "abs_outcome R r = (case r of Ok s \<Rightarrow> Ok (abs_state R s) | Err e \<Rightarrow> Err e | Panic \<Rightarrow> Panic)"

lemma abs_outcome_simps [simp]:
  "abs_outcome R (Ok s) = Ok (abs_state R s)" "abs_outcome R (Err e) = Err e" "abs_outcome R Panic = Panic"
  by (simp_all add: abs_outcome_def)

lemma init_mode_same: "init_mode opts s = Ok t \<Longrightarrow> same_chain s t"
  by (auto simp: init_mode_def hide_block_values_def same_chain_def Let_def split: option.splits if_splits)

lemma init_tx_same: "init_tx opts s = Ok t \<Longrightarrow> same_chain s t"
  by (auto simp: init_tx_def map_rng_def same_chain_def bind_outcome_Ok split: option.splits if_splits)

lemma init_internal_same: "init_internal opts s = Ok t \<Longrightarrow> same_chain s t"
  by (auto simp: init_internal_def hide_block_values_def same_chain_def Let_def split: option.splits if_splits)

lemma init_rng_same: "init_rng entropy opts s = Ok t \<Longrightarrow> same_chain s t"
  by (auto simp: init_rng_def map_rng_def disable_rng_def same_chain_def bind_outcome_Ok
      split: option.splits if_splits)

lemma state_init_same: "state_init entropy opts s = Ok t \<Longrightarrow> same_chain s t"
  unfolding state_init_def bind_outcome_Ok
  using init_mode_same init_tx_same init_internal_same init_rng_same same_chain_trans by metis

lemma init_steps_no_err:
  "init_mode opts s \<noteq> Err e" "init_tx opts s \<noteq> Err e" "init_internal opts s \<noteq> Err e"
proof -
  have h: "hide_block_values s' \<noteq> Err e" for s' :: "('a, 'b, 'c, 'd::default, 'e, 'f) state"
    by (simp add: hide_block_values_def)
  show "init_mode opts s \<noteq> Err e" by (cases "opt_mode opts") (simp_all add: init_mode_def Let_def h)
  show "init_internal opts s \<noteq> Err e" by (cases "opt_internal opts") (simp_all add: init_internal_def Let_def h)
  show "init_tx opts s \<noteq> Err e"
    by (cases "opt_tx opts"; cases "st_rng s") (simp_all add: init_tx_def map_rng_def)
qed

lemma init_rng_no_err: "init_rng entropy opts s \<noteq> Err e"
  by (cases "st_rng s") (simp_all add: init_rng_def disable_rng_def map_rng_def)

lemma bind_outcome_Err: "bind_outcome r f = Err e \<longleftrightarrow> r = Err e \<or> (\<exists>a. r = Ok a \<and> f a = Err e)"
  by (cases r) simp_all

lemma init_no_err: "state_init entropy opts s \<noteq> Err e"
  by (simp add: state_init_def bind_outcome_Err init_steps_no_err init_rng_no_err)

lemma at_root: "st_parents s = [] \<Longrightarrow> state_rollback ops s = Panic" "st_parents s = [] \<Longrightarrow> state_commit ops s = Panic"
  by (simp_all add: state_commit_def state_rollback_def commit_inner_def)

lemma hide_abs:
  "state_ok rinv s \<Longrightarrow> hide_block_values (abs_state R s) = abs_outcome R (hide_block_values s)"
  by (simp add: hide_block_values_def abs_no_parents abs_state_updates)

lemma init_mode_abs: "state_ok rinv s \<Longrightarrow> init_mode opts (abs_state R s) = abs_outcome R (init_mode opts s)"
proof (cases "opt_mode opts")
  case (Some m)
  assume "state_ok rinv s"
  then have "state_ok rinv (s\<lparr>st_env := (st_env s)\<lparr>env_mode := m\<rparr>, st_always_rollback := True\<rparr>)"
    by (rule same_chain_ok [rotated]) (simp add: same_chain_def)
  from hide_abs [OF this] Some show ?thesis by (simp add: init_mode_def Let_def abs_state_updates)
qed (simp add: init_mode_def)

lemma init_internal_abs: "state_ok rinv s \<Longrightarrow> init_internal opts (abs_state R s) = abs_outcome R (init_internal opts s)"
proof (cases "opt_internal opts")
  case (Some b)
  assume "state_ok rinv s"
  then have "state_ok rinv (s\<lparr>st_env := (st_env s)\<lparr>env_internal := b\<rparr>\<rparr>)"
    by (rule same_chain_ok [rotated]) (simp add: same_chain_def)
  from hide_abs [OF this] Some show ?thesis
    by (cases b) (simp_all add: init_internal_def Let_def abs_state_updates)
qed (simp add: init_internal_def)

lemma map_rng_abs: "map_rng f (abs_state R s) = abs_outcome R (map_rng f s)"
  by (cases "st_rng s") (simp_all add: map_rng_def abs_state_updates)

lemma init_tx_abs: "init_tx opts (abs_state R s) = abs_outcome R (init_tx opts s)"
  by (cases "opt_tx opts"; cases "st_rng s") (simp_all add: init_tx_def map_rng_def abs_state_updates)

lemma init_rng_abs: "state_ok rinv s \<Longrightarrow> init_rng entropy opts (abs_state R s) = abs_outcome R (init_rng entropy opts s)"
  by (cases "st_rng s"; cases "opt_rng_local_entropy opts")
    (simp_all add: init_rng_def map_rng_def disable_rng_def abs_no_parents abs_state_updates)

lemma state_init_abs:
  assumes "state_ok rinv s"
  shows "state_init entropy opts (abs_state R s) = abs_outcome R (state_init entropy opts s)"
proof (cases "init_mode opts s")
  case (Ok s1)
  then have ok1: "state_ok rinv s1" using assms init_mode_same same_chain_ok by metis
  show ?thesis
  proof (cases "init_tx opts s1")
    case Ok2: (Ok s2)
    then have ok2: "state_ok rinv s2" using ok1 init_tx_same same_chain_ok by metis
    show ?thesis
    proof (cases "init_internal opts s2")
      case Ok3: (Ok s3)
      then have ok3: "state_ok rinv s3" using ok2 init_internal_same same_chain_ok by metis
      show ?thesis using Ok Ok2 Ok3 assms
        by (simp add: state_init_def init_mode_abs init_tx_abs init_internal_abs [OF ok2] init_rng_abs [OF ok3])
    qed (use Ok Ok2 assms in \<open>simp_all add: state_init_def init_mode_abs init_tx_abs init_internal_abs [OF ok2]\<close>)
  qed (use Ok assms in \<open>simp_all add: state_init_def init_mode_abs init_tx_abs\<close>)
qed (use assms in \<open>simp_all add: state_init_def init_mode_abs\<close>)

lemma state_commit_refines:
  assumes "kv_store rinv (ro_get R) (ro_insert R) (ro_remove R) (ro_entries R)"
    and "state_ok rinv s" "st_parents s \<noteq> []"
  obtains t where "state_commit (overlay_ops R) s = Ok t" "state_ok rinv t"
    "state_commit snapshot_ops (abs_state R s) = Ok (abs_state R t)"
proof (cases "st_always_rollback s")
  case True
  then show ?thesis using rollback_refines [OF assms(2,3), of R] that by (simp add: state_commit_def) metis
next
  case False
  then show ?thesis using commit_refines [OF assms] that by (simp add: state_commit_def) metis
qed

text \<open>
  \<open>refines R f g\<close>: from related states the two give the same result and related states again.
  It is closed under nesting, so whatever is proved over snapshots holds of the overlay stores.
\<close>

definition refines :: "('r \<Rightarrow> bool) \<Rightarrow> 'r root_ops \<Rightarrow>
    (('r dyn_store overlay_store option, 'ev, 'msg, 'bv, 'lv, 'g) state, ub, 'a) rust_op \<Rightarrow>
    ((contents, 'ev, 'msg, 'bv, 'lv, 'g) state, ub, 'a) rust_op \<Rightarrow> bool" where
  "refines rinv R f g \<longleftrightarrow> (\<forall>s r t. state_ok rinv s \<longrightarrow> f s = (r, t) \<longrightarrow>
     state_ok rinv t \<and> (\<forall>e. r \<noteq> Err e) \<and> g (abs_state R s) = (r, abs_state R t))"

lemma of_outcome_commit:
  assumes "kv_store rinv (ro_get R) (ro_insert R) (ro_remove R) (ro_entries R)" "state_ok rinv s"
    and "of_outcome (state_commit (overlay_ops R) s) x s = (r, t)"
  shows "state_ok rinv t \<and> (\<forall>e. r \<noteq> Err e) \<and>
    of_outcome (state_commit snapshot_ops (abs_state R s)) x (abs_state R s) = (r, abs_state R t)"
proof (cases "st_parents s = []")
  case True
  then show ?thesis using assms(2,3)
    by (auto simp: of_outcome_def at_root abs_no_parents)
next
  case False
  obtain u where "state_commit (overlay_ops R) s = Ok u" "state_ok rinv u"
    "state_commit snapshot_ops (abs_state R s) = Ok (abs_state R u)"
    by (rule state_commit_refines [OF assms(1,2) False])
  then show ?thesis using assms(3) by (auto simp: of_outcome_def)
qed

lemma of_outcome_rollback:
  assumes "state_ok rinv s" and "of_outcome (state_rollback (overlay_ops R) s) x s = (r, t)"
  shows "state_ok rinv t \<and> (\<forall>e. r \<noteq> Err e) \<and>
    of_outcome (state_rollback snapshot_ops (abs_state R s)) x (abs_state R s) = (r, abs_state R t)"
proof (cases "st_parents s = []")
  case True
  then show ?thesis using assms
    by (auto simp: of_outcome_def at_root abs_no_parents)
next
  case False
  obtain u where "state_rollback (overlay_ops R) s = Ok u" "state_ok rinv u"
    "state_rollback snapshot_ops (abs_state R s) = Ok (abs_state R u)"
    by (rule rollback_refines [OF assms(1) False])
  then show ?thesis using assms(2) by (auto simp: of_outcome_def)
qed

lemma guard_drop_refines:
  assumes "state_ok rinv s" "\<forall>e. r0 \<noteq> Err e" "guard_drop (overlay_ops R) lvl (r0, s) = (r, t)"
  shows "state_ok rinv t \<and> (\<forall>e. r \<noteq> Err e) \<and>
    guard_drop snapshot_ops lvl (r0, abs_state R s) = (r, abs_state R t)"
proof (cases "st_parents s = []")
  case True
  then show ?thesis using assms
    by (auto simp: guard_drop_def at_root abs_no_parents level_abs_state split: if_splits)
next
  case False
  obtain u where "state_rollback (overlay_ops R) s = Ok u" "state_ok rinv u"
    "state_rollback snapshot_ops (abs_state R s) = Ok (abs_state R u)"
    by (rule rollback_refines [OF assms(1) False])
  then show ?thesis using assms by (auto simp: guard_drop_def level_abs_state split: if_splits)
qed

lemma close_transaction_refines:
  assumes kv: "kv_store rinv (ro_get R) (ro_insert R) (ro_remove R) (ro_entries R)"
    and ok: "state_ok rinv s" and x: "\<forall>e. x \<noteq> Err e"
    and run: "close_transaction (overlay_ops R) lvl (x, s) = (r, t)"
  shows "state_ok rinv t \<and> (\<forall>e. r \<noteq> Err e) \<and>
    close_transaction snapshot_ops lvl (x, abs_state R s) = (r, abs_state R t)"
proof (cases x)
  case (Ok y)
  show ?thesis
  proof (cases y)
    case (Commit z)
    obtain r1 s3 where c: "of_outcome (state_commit (overlay_ops R) s) z s = (r1, s3)" by (metis surj_pair)
    note c' = of_outcome_commit [OF kv ok c]
    have "guard_drop (overlay_ops R) lvl (r1, s3) = (r, t)"
      using run c by (simp add: close_transaction_def Ok Commit)
    with c' guard_drop_refines [of rinv s3 r1 R lvl r t] show ?thesis
      by (simp add: close_transaction_def Ok Commit)
  next
    case (Rollback z)
    obtain r1 s3 where c: "of_outcome (state_rollback (overlay_ops R) s) z s = (r1, s3)" by (metis surj_pair)
    note c' = of_outcome_rollback [OF ok c]
    have "guard_drop (overlay_ops R) lvl (r1, s3) = (r, t)"
      using run c by (simp add: close_transaction_def Ok Rollback)
    with c' guard_drop_refines [of rinv s3 r1 R lvl r t] show ?thesis
      by (simp add: close_transaction_def Ok Rollback)
  qed
next
  case Panic
  have "guard_drop (overlay_ops R) lvl (Panic, s) = (r, t)" using run by (simp add: close_transaction_def Panic)
  with guard_drop_refines [OF ok, of Panic R lvl r t] show ?thesis
    by (simp add: close_transaction_def Panic)
qed (use x in simp)

lemma with_transaction_refines:
  assumes kv: "kv_store rinv (ro_get R) (ro_insert R) (ro_remove R) (ro_entries R)" and f: "refines rinv R f g"
  shows "refines rinv R (with_transaction_opts (overlay_ops R) entropy opts f)
    (with_transaction_opts snapshot_ops entropy opts g)"
  unfolding refines_def
proof (intro allI impI)
  fix s r t
  assume ok: "state_ok rinv s" and run: "with_transaction_opts (overlay_ops R) entropy opts f s = (r, t)"
  let ?s0 = "state_open (overlay_ops R) s"
  have ok0: "state_ok rinv ?s0" by (rule state_ok_open [OF ok])
  note init = state_init_abs [OF ok0, of entropy opts R, unfolded abs_open [OF ok]]
  show "state_ok rinv t \<and> (\<forall>e. r \<noteq> Err e) \<and>
      with_transaction_opts snapshot_ops entropy opts g (abs_state R s) = (r, abs_state R t)"
  proof (cases "state_init entropy opts ?s0")
    case (Ok s1)
    have ok1: "state_ok rinv s1" using same_chain_ok [OF state_init_same [OF Ok] ok0] .
    obtain x s2 where fs: "f s1 = (x, s2)" by (cases "f s1")
    have ok2: "state_ok rinv s2" and x: "\<forall>e. x \<noteq> Err e" and gs: "g (abs_state R s1) = (x, abs_state R s2)"
      using f ok1 fs unfolding refines_def by blast+
    have "close_transaction (overlay_ops R) (level s1) (x, s2) = (r, t)"
      using run by (simp add: with_transaction_opts_def Ok fs)
    from close_transaction_refines [OF kv ok2 x this] show ?thesis
      by (simp add: with_transaction_opts_def init Ok gs level_abs_state [OF ok1])
  next
    case (Err e)
    then show ?thesis using init_no_err by blast
  next
    case Panic
    then show ?thesis using run init ok0 abs_open [OF ok, of R] by (auto simp: with_transaction_opts_def)
  qed
qed

section \<open>What a transaction leaves behind\<close>

definition returned_block_values :: "('st, 'ev, 'msg, 'bv, 'lv, 'g) state \<Rightarrow> 'bv" where
  "returned_block_values s = (case st_hidden_block_values s of Some b \<Rightarrow> b | None \<Rightarrow> st_block_values s)"

definition returned_rng :: "('st, 'ev, 'msg, 'bv, 'lv, 'g) state \<Rightarrow> 'g root_rng option" where
  "returned_rng s = (if st_hidden_rng s \<noteq> None then st_hidden_rng s else st_rng s)"

text \<open>A child \<open>t\<close> of \<open>s\<close>: its parents are \<open>s\<close>, as \<open>open\<close> left it, and the parents of \<open>s\<close>.\<close>

definition child_of :: "('st, 'ev, 'msg, 'bv::default, 'lv, 'g) state \<Rightarrow> ('st, 'ev, 'msg, 'bv, 'lv, 'g) state \<Rightarrow> bool" where
  "child_of s t \<longleftrightarrow> st_parents t = (frame.truncate s)\<lparr>st_block_values := default, st_rng := None\<rparr> # st_parents s"

lemma child_of_open: "child_of s (state_open snapshot_ops s)"
  by (simp add: child_of_def state_open_def snapshot_ops_def frame.truncate_def)

lemma child_of_init: "state_init entropy opts (state_open snapshot_ops s) = Ok t \<Longrightarrow> child_of s t"
  using child_of_open [of s] by (auto simp: child_of_def same_chain_def dest: state_init_same)

lemma level_child: "child_of s t \<Longrightarrow> level t = Suc (level s)"
  by (simp add: child_of_def level_def)

lemma rollback_child:
  "child_of s t \<Longrightarrow> state_rollback snapshot_ops t =
     Ok (s\<lparr>st_block_values := returned_block_values t, st_rng := returned_rng t\<rparr>)"
  by (simp add: child_of_def state_rollback_def snapshot_ops_def put_back_def frame_defs
      returned_block_values_def returned_rng_def)

lemma commit_child:
  "child_of s t \<Longrightarrow> commit_inner snapshot_ops t =
     Ok (s\<lparr>st_store := st_store t, st_messages := st_messages s @ st_messages t,
        st_events := merge_events (st_events s) (st_events t),
        st_unconditional_events := merge_events (st_unconditional_events s) (st_unconditional_events t),
        st_block_values := returned_block_values t, st_rng := returned_rng t\<rparr>)"
  by (simp add: child_of_def commit_inner_def snapshot_ops_def put_back_def frame_defs
      returned_block_values_def returned_rng_def)

text \<open>An operation that leaves a child state as open as it found it.\<close>

definition balanced :: "(('st, 'ev, 'msg, 'bv, 'lv, 'g) state, 'e, 'a) rust_op \<Rightarrow> bool" where
  "balanced f \<longleftrightarrow> (\<forall>s r t. f s = (r, t) \<longrightarrow> st_parents t = st_parents s \<and>
     st_hidden_block_values t = st_hidden_block_values s \<and> st_always_rollback t = st_always_rollback s)"

lemma close_rollback:
  "child_of s t \<Longrightarrow> close_transaction snapshot_ops (level t) (Ok (Rollback r), t) =
     (Ok r, s\<lparr>st_block_values := returned_block_values t, st_rng := returned_rng t\<rparr>)"
  by (simp add: close_transaction_def rollback_child of_outcome_def guard_drop_def level_child)
    (simp add: level_def)

lemma close_panic:
  "child_of s t \<Longrightarrow> close_transaction snapshot_ops (level t) (Panic, t) =
     (Panic, s\<lparr>st_block_values := returned_block_values t, st_rng := returned_rng t\<rparr>)"
  by (simp add: close_transaction_def rollback_child guard_drop_def)

lemma close_commit:
  "child_of s t \<Longrightarrow> close_transaction snapshot_ops (level t) (Ok (Commit r), t) =
     (Ok r, if st_always_rollback t
        then s\<lparr>st_block_values := returned_block_values t, st_rng := returned_rng t\<rparr>
        else s\<lparr>st_store := st_store t, st_messages := st_messages s @ st_messages t,
          st_events := merge_events (st_events s) (st_events t),
          st_unconditional_events := merge_events (st_unconditional_events s) (st_unconditional_events t),
          st_block_values := returned_block_values t, st_rng := returned_rng t\<rparr>)"
  by (simp add: close_transaction_def state_commit_def rollback_child commit_child of_outcome_def
      guard_drop_def level_child) (simp add: level_def)

lemma balanced_child:
  "balanced f \<Longrightarrow> child_of s s1 \<Longrightarrow> f s1 = (x, t) \<Longrightarrow> child_of s t \<and> level t = level s1"
  by (auto simp: balanced_def child_of_def level_def)

lemma with_transaction_run:
  assumes "state_init entropy opts (state_open snapshot_ops s) = Ok s1" "balanced f" "f s1 = (x, t)"
  shows "with_transaction_opts snapshot_ops entropy opts f s = close_transaction snapshot_ops (level t) (x, t)"
    and "child_of s t"
  using balanced_child [OF assms(2) child_of_init [OF assms(1)] assms(3)] assms
  by (simp_all add: with_transaction_opts_def)

lemma init_simulated:
  assumes "state_init entropy opts (state_open snapshot_ops s) = Ok t" "opt_mode opts = Some m"
    and "m = Simulate \<or> m = PreSchedule"
  shows "st_always_rollback t \<and> st_hidden_block_values t = Some (st_block_values s)"
proof -
  let ?s = "(state_open snapshot_ops s)\<lparr>st_env := (st_env s)\<lparr>env_mode := m\<rparr>, st_always_rollback := True,
    st_hidden_block_values := Some (st_block_values s), st_block_values := default\<rparr>"
  have mode: "init_mode opts (state_open snapshot_ops s) = Ok ?s"
    using assms(2,3) by (auto simp: init_mode_def hide_block_values_def state_open_def snapshot_ops_def Let_def)
  have keep: "st_always_rollback v = st_always_rollback u \<and> st_hidden_block_values v = st_hidden_block_values u"
    if "bind_outcome (init_tx opts u) (\<lambda>s. bind_outcome (init_internal opts s) (init_rng entropy opts)) = Ok v"
      "st_hidden_block_values u \<noteq> None" for u v :: "('a, 'b, 'c, 'd, 'e, 'f) state"
    using that
    by (auto simp: bind_outcome_Ok init_tx_def init_internal_def init_rng_def map_rng_def disable_rng_def
        hide_block_values_def Let_def split: option.splits if_splits)
  show ?thesis using assms(1) mode keep [of ?s t] by (simp add: state_init_def)
qed

end
