(* ===== verification/State_Properties.thy ===== *)
theory State_Properties
  imports Runtime_State
begin

text \<open>
  Properties of nested execution states: the unsafe cast is only ever applied to overlays, overlays
  implement snapshots through any nesting of transactions, and what commit, rollback and simulation
  leave behind.
\<close>

section \<open>The state tree as a root\<close>

definition tree_ops :: "(bytes, bytes) fmap root_ops" where
  "tree_ops = \<lparr>ro_get = fmlookup, ro_insert = (\<lambda>m k v. fmupd k v m), ro_remove = (\<lambda>m k. fmdrop k m), ro_entries = fm_entries\<rparr>"

lemma tree_ops_kv:
  "kv_store (\<lambda>_. True) (ro_get tree_ops) (ro_insert tree_ops) (ro_remove tree_ops) (ro_entries tree_ops)"
  using tree_kv.kv_store_axioms by (simp add: tree_ops_def)

text \<open>The chains of boxed stores over it keep the store laws.\<close>

interpretation chain_kv: kv_store "dyn_inv (\<lambda>_. True)" "dyn_get tree_ops" "dyn_insert tree_ops" "dyn_remove tree_ops"
    "dyn_entries tree_ops"
  by (rule dyn_kv_store [OF tree_ops_kv])

section \<open>Reachable states\<close>

text \<open>
  One step of the state: opening a child (which is then initialised), reading or writing the store,
  returning to the parent, and anything that leaves stores and parents alone.
\<close>

inductive state_step ::
    "'r root_ops \<Rightarrow> ('r dyn_store overlay_store option, 'ev, 'msg, 'bv::default, 'lv::default, 'g) state \<Rightarrow>
     ('r dyn_store overlay_store option, 'ev, 'msg, 'bv, 'lv, 'g) state \<Rightarrow> bool" for R where
  step_open: "state_step R s (state_open (overlay_ops R) s)"
| step_init: "state_init entropy opts s = Ok t \<Longrightarrow> state_step R s t"
| step_insert: "state_store_insert key value s = Some t \<Longrightarrow> state_step R s t"
| step_remove: "state_store_remove key s = Some t \<Longrightarrow> state_step R s t"
| step_commit: "state_commit (overlay_ops R) s = Ok t \<Longrightarrow> state_step R s t"
| step_rollback: "state_rollback (overlay_ops R) s = Ok t \<Longrightarrow> state_step R s t"
| step_other: "st_store t = st_store s \<Longrightarrow> st_parents t = st_parents s \<Longrightarrow> state_step R s t"

inductive reachable_state ::
    "'r root_ops \<Rightarrow> 'r \<Rightarrow> ('r dyn_store overlay_store option, 'ev, 'msg, 'bv::default, 'lv::default, 'g) state \<Rightarrow> bool"
    for R r where
  reach_root: "reachable_state R r (root_state (Some (overlay_new (Root_Store r))) m)"
| reach_step: "reachable_state R r s \<Longrightarrow> state_step R s t \<Longrightarrow> reachable_state R r t"

lemma state_ok_root: "rinv r \<Longrightarrow> state_ok rinv (root_state (Some (overlay_new (Root_Store r))) m)"
  by (simp add: state_ok_def root_state_def overlay_new_def overlay_inv_def)

lemma state_ok_insert: "state_store_insert key value s = Some t \<Longrightarrow> state_ok rinv s \<Longrightarrow> state_ok rinv t"
  by (auto simp: state_store_insert_def state_ok_def overlay_insert_def overlay_inv_def split: option.splits)

lemma state_ok_remove: "state_store_remove key s = Some t \<Longrightarrow> state_ok rinv s \<Longrightarrow> state_ok rinv t"
  by (auto simp: state_store_remove_def state_ok_def overlay_remove_def overlay_inv_def split: option.splits)

lemma state_ok_step:
  assumes kv: "kv_store rinv (ro_get R) (ro_insert R) (ro_remove R) (ro_entries R)"
    and "state_step R s t" "state_ok rinv s"
  shows "state_ok rinv t"
  using assms(2)
proof cases
  case step_open
  then show ?thesis using state_ok_open [OF assms(3)] by simp
next
  case step_init
  then show ?thesis using same_chain_ok [OF state_init_same] assms(3) by blast
next
  case step_commit
  then have "st_parents s \<noteq> []" using at_root(2) by force
  from state_commit_refines [OF kv assms(3) this] step_commit show ?thesis by (metis outcome.inject(1))
next
  case step_rollback
  then have "st_parents s \<noteq> []" using at_root(1) by force
  from rollback_refines [OF assms(3) this] step_rollback show ?thesis by (metis outcome.inject(1))
next
  case step_other
  then show ?thesis using assms(3) by (simp add: state_ok_def)
qed (use assms(3) state_ok_insert state_ok_remove in blast)+

lemma reachable_ok:
  assumes "kv_store rinv (ro_get R) (ro_insert R) (ro_remove R) (ro_entries R)" "rinv r" "reachable_state R r s"
  shows "state_ok rinv s"
  using assms(3) by (induction rule: reachable_state.induct) (auto intro: state_ok_root state_ok_step [OF assms(1)] assms(2))

section \<open>Properties\<close>

text \<open>C15: in every state the runtime can reach, returning to the parent never casts a store that is no
  overlay (which would be undefined behaviour) and fails only at the root, by a panic; and the current
  state always has its store.\<close>

theorem cast_is_safe:
  assumes "kv_store rinv (ro_get R) (ro_insert R) (ro_remove R) (ro_entries R)" "rinv r" "reachable_state R r s"
  shows "st_store s \<noteq> None \<and> state_commit (overlay_ops R) s \<noteq> Err e \<and> state_rollback (overlay_ops R) s \<noteq> Err e \<and>
    (state_commit (overlay_ops R) s = Panic \<longleftrightarrow> st_parents s = []) \<and>
    (state_rollback (overlay_ops R) s = Panic \<longleftrightarrow> st_parents s = [])"
proof -
  have ok: "state_ok rinv s" by (rule reachable_ok [OF assms])
  show ?thesis
  proof (cases "st_parents s = []")
    case True
    then show ?thesis using ok by (auto simp: at_root state_ok_def)
  next
    case False
    obtain t where "state_commit (overlay_ops R) s = Ok t" by (rule state_commit_refines [OF assms(1) ok False])
    moreover obtain u where "state_rollback (overlay_ops R) s = Ok u" by (rule rollback_refines [OF ok False, of R])
    ultimately show ?thesis using ok False by (auto simp: state_ok_def)
  qed
qed

type_synonym sample_state = "((bytes, bytes) fmap dyn_store overlay_store option, nat, nat, unit, unit, unit) state"

definition sample_child :: sample_state where
  "sample_child = state_open (overlay_ops tree_ops) (root_state (Some (overlay_new (Root_Store fmempty))) Execute)"

theorem cast_is_safe_witness:
  "st_parents sample_child \<noteq> [] \<and> state_commit (overlay_ops tree_ops) sample_child \<noteq> Panic \<and>
   state_commit (overlay_ops tree_ops) sample_child \<noteq> Err Invalid_Cast"
proof -
  have "reachable_state tree_ops fmempty sample_child"
    unfolding sample_child_def by (rule reach_step [OF reach_root step_open])
  moreover have "st_parents sample_child \<noteq> []" by (simp add: sample_child_def state_open_def split: prod.splits)
  ultimately show ?thesis using cast_is_safe [OF tree_ops_kv, of fmempty sample_child Invalid_Cast] by simp
qed

text \<open>C3: a transaction over the overlay stores of the code does what the transaction over snapshots
  does, provided its body does: with the same result, from states that show the same contents it
  leads to states that show the same contents, on commit, rollback and panic, however deeply nested.\<close>

theorem transactions_refine_snapshots:
  assumes "kv_store rinv (ro_get R) (ro_insert R) (ro_remove R) (ro_entries R)" "refines rinv R f g"
  shows "refines rinv R (with_transaction_opts (overlay_ops R) entropy opts f)
    (with_transaction_opts snapshot_ops entropy opts g)"
  by (rule with_transaction_refines [OF assms])

definition write_both :: "(sample_state, ub, nat transaction_result) rust_op" where
  "write_both s = (case state_store_insert [1] [2] s of Some t \<Rightarrow> (Ok (Commit 0), t) | None \<Rightarrow> (Panic, s))"

definition write_contents :: "((contents, nat, nat, unit, unit, unit) state, ub, nat transaction_result) rust_op" where
  "write_contents s = (Ok (Commit 0), s\<lparr>st_store := (st_store s)([1] \<mapsto> [2])\<rparr>)"

lemma write_refines: "refines (\<lambda>_. True) tree_ops write_both write_contents"
  unfolding refines_def
proof (intro allI impI)
  fix s t :: sample_state and r
  assume ok: "state_ok (\<lambda>_. True) s" and run: "write_both s = (r, t)"
  then obtain os where os: "st_store s = Some os" by (auto simp: state_ok_def)
  have t: "r = Ok (Commit 0)" "t = s\<lparr>st_store := Some (overlay_insert os [1] [2])\<rparr>"
    using run os by (simp_all add: write_both_def state_store_insert_def)
  have "state_ok (\<lambda>_. True) t" using ok os t(2) by (auto simp: state_ok_def overlay_insert_def overlay_inv_def)
  moreover have "abs_state tree_ops t = (abs_state tree_ops s)\<lparr>st_store := (st_store (abs_state tree_ops s))([1] \<mapsto> [2])\<rparr>"
  proof -
    have "ov_parent (overlay_insert os [1] [2]) = ov_parent os" by (simp add: overlay_insert_def)
    then show ?thesis by (simp add: t(2) abs_state_def os overlay_get_insert frame_defs)
  qed
  ultimately show "state_ok (\<lambda>_. True) t \<and> (\<forall>e. r \<noteq> Err e) \<and> write_contents (abs_state tree_ops s) = (r, abs_state tree_ops t)"
    by (simp add: t(1) write_contents_def)
qed

theorem transactions_refine_snapshots_witness:
  "refines (\<lambda>_. True) tree_ops (with_transaction_opts (overlay_ops tree_ops) [] default_options write_both)
     (with_transaction_opts snapshot_ops [] default_options write_contents)"
  by (rule transactions_refine_snapshots [OF tree_ops_kv write_refines])

text \<open>C30: simulating or scheduling leaves no trace: whatever its body returns, commit included, and even
  when it panics, the state afterwards differs from the one before at most in the RNG.\<close>

theorem simulation_leaves_no_trace:
  assumes "opt_mode opts = Some m" "m = Simulate \<or> m = PreSchedule" "balanced f"
    and "state_init entropy opts (state_open snapshot_ops s) = Ok s1" "f s1 = (x, u)" "\<forall>e. x \<noteq> Err e"
    and "with_transaction_opts snapshot_ops entropy opts f s = (r, t)"
  shows "t\<lparr>st_rng := st_rng s\<rparr> = s"
proof -
  note run = with_transaction_run [OF assms(4,3,5)]
  have "st_always_rollback s1 \<and> st_hidden_block_values s1 = Some (st_block_values s)"
    by (rule init_simulated [OF assms(4,1,2)])
  then have u: "st_always_rollback u" "returned_block_values u = st_block_values s"
    using assms(3,5) by (auto simp: balanced_def returned_block_values_def split: option.splits)
  have "close_transaction snapshot_ops (level u) (x, u) = (r, t)" using run(1) assms(7) by simp
  moreover have "x = Panic \<or> (\<exists>y. x = Ok (Commit y)) \<or> (\<exists>y. x = Ok (Rollback y))"
    using assms(6) by (metis outcome.exhaust transaction_result.exhaust)
  ultimately have "t = s\<lparr>st_block_values := returned_block_values u, st_rng := returned_rng u\<rparr>"
    using u(1) by (auto simp: close_rollback [OF run(2)] close_panic [OF run(2)] close_commit [OF run(2)])
  then show ?thesis using u(2) by simp
qed

theorem simulation_leaves_no_trace_witness:
  "(snd (with_transaction_opts snapshot_ops [] (with_mode Simulate default_options)
      (\<lambda>s. (Ok (Commit ()), s\<lparr>st_store := 7, st_messages := [1]\<rparr>))
      (root_state 3 Execute :: (nat, nat, nat, unit, unit, unit) state)))\<lparr>st_rng := Some (rng_new Execute)\<rparr> =
   root_state 3 Execute"
proof -
  let ?s = "root_state 3 Execute :: (nat, nat, nat, unit, unit, unit) state"
  let ?opts = "with_mode Simulate default_options"
  let ?f = "\<lambda>s :: (nat, nat, nat, unit, unit, unit) state. (Ok (Commit ()), s\<lparr>st_store := 7, st_messages := [1]\<rparr>) :: (ub, _) outcome \<times> _"
  obtain s1 where s1: "state_init [] ?opts (state_open snapshot_ops ?s) = Ok s1"
    by (simp add: state_init_def init_mode_def init_tx_def init_internal_def init_rng_def map_rng_def hide_block_values_def
        state_open_def snapshot_ops_def with_mode_def default_options_def root_state_def)
  obtain r t where rt: "with_transaction_opts snapshot_ops [] ?opts ?f ?s = (r, t)" by fastforce
  have "t\<lparr>st_rng := st_rng ?s\<rparr> = ?s"
    by (rule simulation_leaves_no_trace [OF _ _ _ s1 refl _ rt, of Simulate])
      (simp_all add: with_mode_def balanced_def)
  then show ?thesis using rt by (simp add: root_state_def)
qed

text \<open>C29: what a transaction leaves behind. Rolled back or panicking, it restores the store, the events
  and the messages; committed in a mode that commits, it hands all of them to its parent in order. Block
  values survive either way.\<close>

theorem transaction_effects:
  assumes "state_init entropy opts (state_open snapshot_ops s) = Ok s1" "balanced f" "f s1 = (x, u)"
  shows "case x of
      Ok (Commit v) \<Rightarrow> with_transaction_opts snapshot_ops entropy opts f s = (Ok v, if st_always_rollback u
        then s\<lparr>st_block_values := returned_block_values u, st_rng := returned_rng u\<rparr>
        else s\<lparr>st_store := st_store u, st_messages := st_messages s @ st_messages u,
          st_events := merge_events (st_events s) (st_events u),
          st_unconditional_events := merge_events (st_unconditional_events s) (st_unconditional_events u),
          st_block_values := returned_block_values u, st_rng := returned_rng u\<rparr>)
    | Ok (Rollback v) \<Rightarrow> with_transaction_opts snapshot_ops entropy opts f s =
        (Ok v, s\<lparr>st_block_values := returned_block_values u, st_rng := returned_rng u\<rparr>)
    | Panic \<Rightarrow> with_transaction_opts snapshot_ops entropy opts f s =
        (Panic, s\<lparr>st_block_values := returned_block_values u, st_rng := returned_rng u\<rparr>)
    | Err e \<Rightarrow> True"
  using with_transaction_run [OF assms]
  by (auto simp: close_rollback close_panic close_commit split: outcome.split transaction_result.split)

theorem transaction_effects_witness:
  "\<exists>t. with_transaction_opts snapshot_ops [] default_options (\<lambda>s. (Ok (Rollback (5::nat)), s\<lparr>st_store := 7\<rparr>))
      (root_state 3 Execute :: (nat, nat, nat, unit, unit, unit) state) = (Ok 5, t) \<and> st_store t = 3"
proof -
  let ?s = "root_state 3 Execute :: (nat, nat, nat, unit, unit, unit) state"
  let ?f = "\<lambda>s :: (nat, nat, nat, unit, unit, unit) state. (Ok (Rollback (5::nat)), s\<lparr>st_store := 7\<rparr>) :: (ub, _) outcome \<times> _"
  obtain s1 where "state_init [] default_options (state_open snapshot_ops ?s) = Ok s1"
    by (simp add: state_init_def init_mode_def init_tx_def init_internal_def init_rng_def map_rng_def
        state_open_def snapshot_ops_def default_options_def root_state_def default_environment_def)
  from transaction_effects [OF this, of ?f] show ?thesis by (simp add: balanced_def root_state_def)
qed

text \<open>C34: with a limit of \<open>M\<close> messages that the current transaction's own limit does not exceed, the
  messages of a state and all its parents never exceed \<open>M\<close>: not by emitting, not by opening a child or
  returning from it, committed or not.\<close>

theorem message_limit:
  assumes "emitted_messages_count s \<le> M" "unat (emitted_messages_max ctx_max s) \<le> M"
  shows "emitted_messages_count (snd (emit_message ctx_max msg s)) \<le> M \<and>
    emitted_messages_count (state_open ops s) \<le> M \<and>
    (state_commit ops s = Ok t \<longrightarrow> emitted_messages_count t \<le> M) \<and>
    (state_rollback ops s = Ok t \<longrightarrow> emitted_messages_count t \<le> M)"
proof -
  have roll: "emitted_messages_count t \<le> emitted_messages_count s" if "state_rollback ops s = Ok t"
    using that by (auto simp: state_rollback_def emitted_messages_count_def bind_outcome_Ok put_back_def frame_defs
        split: list.splits)
  moreover have "emitted_messages_count t \<le> emitted_messages_count s" if "commit_inner ops s = Ok t"
    using that by (auto simp: commit_inner_def emitted_messages_count_def bind_outcome_Ok put_back_def frame_defs
        split: list.splits)
  moreover have "emitted_messages_count (state_open ops s) = emitted_messages_count s"
    by (simp add: state_open_def emitted_messages_count_def frame.truncate_def split: prod.splits)
  moreover have "emitted_messages_count (snd (emit_message ctx_max msg s)) \<le> M"
    using assms by (simp add: emit_message_def emitted_messages_count_def)
  ultimately show ?thesis using assms(1) by (auto simp: state_commit_def split: if_splits)
qed

theorem message_limit_witness:
  "emitted_messages_count (snd (emit_message 2 9 ((root_state 3 Execute :: (nat, nat, nat, unit, unit, unit) state)\<lparr>st_messages := [7, 8]\<rparr>))) \<le> 2"
  using message_limit [of "(root_state 3 Execute :: (nat, nat, nat, unit, unit, unit) state)\<lparr>st_messages := [7, 8]\<rparr>" 2 2 9]
  by (simp add: emitted_messages_count_def emitted_messages_max_def env_auth_info_def root_state_def default_environment_def)

end
