(* ===== verification/Fee_Manager.thy ===== *)
theory Fee_Manager
  imports Token_Types
begin

text \<open>
  The per-block fee manager (\<open>runtime-sdk/src/modules/accounts/fee.rs\<close>): what the current
  transaction was charged, what of it is to be refunded, and what the block has collected.
  A failed assertion or \<open>expect\<close> is \<open>None\<close>.
\<close>

section \<open>Definitions\<close>

record transaction_fee =
  tf_payer :: address
  tf_denomination :: denomination
  tf_charged :: u128
  tf_refunded :: u128

definition default_transaction_fee :: transaction_fee where
  "default_transaction_fee = \<lparr>tf_payer = default_address, tf_denomination = NATIVE, tf_charged = 0, tf_refunded = 0\<rparr>"

definition tx_fee_amount :: "transaction_fee \<Rightarrow> u128" where
  "tx_fee_amount f = saturating_sub (tf_charged f) (tf_refunded f)"

record fee_manager =
  mgr_tx_fee :: "transaction_fee option"
  mgr_block_fees :: "(denomination, u128) fmap"

definition fee_manager_new :: fee_manager where
  "fee_manager_new = \<lparr>mgr_tx_fee = None, mgr_block_fees = fmempty\<rparr>"

definition record_fee :: "address \<Rightarrow> base_units \<Rightarrow> fee_manager \<Rightarrow> fee_manager option" where
  "record_fee payer amt m =
     (let f = (case mgr_tx_fee m of Some f \<Rightarrow> f
               | None \<Rightarrow> default_transaction_fee\<lparr>tf_payer := payer, tf_denomination := denom amt\<rparr>) in
      if payer \<noteq> tf_payer f then None
      else if denom amt \<noteq> tf_denomination f then None
      else (case checked_add (tf_charged f) (amount amt) of
              None \<Rightarrow> None
            | Some charged \<Rightarrow> Some (m\<lparr>mgr_tx_fee := Some (f\<lparr>tf_charged := charged\<rparr>)\<rparr>)))"

definition record_refund :: "u128 \<Rightarrow> fee_manager \<Rightarrow> fee_manager" where
  "record_refund amt m =
     (case mgr_tx_fee m of None \<Rightarrow> m
      | Some f \<Rightarrow>
          if amt = 0 then m
          else m\<lparr>mgr_tx_fee := Some (f\<lparr>tf_refunded := min (saturating_add (tf_refunded f) amt) (tf_charged f)\<rparr>)\<rparr>)"

record fee_updates =
  fu_payer :: address
  fu_refund :: base_units

definition commit_tx :: "fee_manager \<Rightarrow> (fee_updates \<times> fee_manager) option" where
  "commit_tx m =
     (let f = (case mgr_tx_fee m of Some f \<Rightarrow> f | None \<Rightarrow> default_transaction_fee);
          updates = \<lparr>fu_payer = tf_payer f, fu_refund = BaseUnits (tf_refunded f) (tf_denomination f)\<rparr> in
      if tx_fee_amount f > 0
      then (case checked_add (fm_get 0 (mgr_block_fees m) (tf_denomination f)) (tx_fee_amount f) of
              None \<Rightarrow> None
            | Some fees \<Rightarrow> Some (updates,
                m\<lparr>mgr_tx_fee := None, mgr_block_fees := fmupd (tf_denomination f) fees (mgr_block_fees m)\<rparr>))
      else Some (updates, m\<lparr>mgr_tx_fee := None\<rparr>))"

definition commit_block :: "fee_manager \<Rightarrow> (denomination, u128) fmap" where
  "commit_block m = mgr_block_fees m"

section \<open>Lemmas\<close>

text \<open>The invariant: never more to be refunded than was charged.\<close>

definition fee_manager_inv :: "fee_manager \<Rightarrow> bool" where
  "fee_manager_inv m = (case mgr_tx_fee m of None \<Rightarrow> True | Some f \<Rightarrow> tf_refunded f \<le> tf_charged f)"

text \<open>What the manager holds of a denomination: charged to the open transaction, and of the block.\<close>

definition tx_held :: "fee_manager \<Rightarrow> denomination \<Rightarrow> nat" where
  "tx_held m d = (case mgr_tx_fee m of None \<Rightarrow> 0 | Some f \<Rightarrow> if tf_denomination f = d then unat (tf_charged f) else 0)"

definition block_held :: "fee_manager \<Rightarrow> denomination \<Rightarrow> nat" where
  "block_held m d = unat (fm_get 0 (mgr_block_fees m) d)"

definition held :: "fee_manager \<Rightarrow> denomination \<Rightarrow> nat" where
  "held m d = tx_held m d + block_held m d"

definition units_of :: "base_units \<Rightarrow> denomination \<Rightarrow> nat" where
  "units_of b d = (if denom b = d then unat (amount b) else 0)"

lemma fee_manager_inv_new: "fee_manager_inv fee_manager_new"
  by (simp add: fee_manager_inv_def fee_manager_new_def)

lemma held_new [simp]: "held fee_manager_new d = 0"
  by (simp add: held_def tx_held_def block_held_def fee_manager_new_def)

text \<open>The fee the manager works on: the open one, or a fresh one.\<close>

definition open_fee :: "address \<Rightarrow> base_units \<Rightarrow> fee_manager \<Rightarrow> transaction_fee" where
  "open_fee payer amt m = (case mgr_tx_fee m of Some f \<Rightarrow> f
     | None \<Rightarrow> default_transaction_fee\<lparr>tf_payer := payer, tf_denomination := denom amt\<rparr>)"

lemma record_fee_SomeE:
  assumes "record_fee payer amt m = Some m'"
  obtains c where "payer = tf_payer (open_fee payer amt m)" "denom amt = tf_denomination (open_fee payer amt m)"
    "unat c = unat (tf_charged (open_fee payer amt m)) + unat (amount amt)"
    "m' = m\<lparr>mgr_tx_fee := Some ((open_fee payer amt m)\<lparr>tf_charged := c\<rparr>)\<rparr>"
proof -
  have r: "record_fee payer amt m = (if payer \<noteq> tf_payer (open_fee payer amt m) then None
      else if denom amt \<noteq> tf_denomination (open_fee payer amt m) then None
      else map_option (\<lambda>c. m\<lparr>mgr_tx_fee := Some ((open_fee payer amt m)\<lparr>tf_charged := c\<rparr>)\<rparr>)
        (checked_add (tf_charged (open_fee payer amt m)) (amount amt)))"
    by (cases "checked_add (tf_charged (open_fee payer amt m)) (amount amt)")
      (simp_all add: record_fee_def open_fee_def Let_def)
  from assms that show thesis unfolding r
    by (simp split: if_splits) (metis checked_add_Some)
qed

lemma record_fee_inv:
  assumes "record_fee payer amt m = Some m'" "fee_manager_inv m"
  shows "fee_manager_inv m'"
proof -
  have "tf_refunded (open_fee payer amt m) \<le> tf_charged (open_fee payer amt m)"
    using assms(2) by (cases "mgr_tx_fee m")
      (simp_all add: fee_manager_inv_def open_fee_def default_transaction_fee_def)
  moreover from assms(1) obtain c where
    "unat c = unat (tf_charged (open_fee payer amt m)) + unat (amount amt)"
    "m' = m\<lparr>mgr_tx_fee := Some ((open_fee payer amt m)\<lparr>tf_charged := c\<rparr>)\<rparr>"
    by (rule record_fee_SomeE)
  ultimately show ?thesis by (simp add: fee_manager_inv_def word_le_nat_alt)
qed

lemma record_fee_held:
  assumes "record_fee payer amt m = Some m'"
  shows "held m' d = held m d + units_of amt d"
proof -
  from assms obtain c where c: "denom amt = tf_denomination (open_fee payer amt m)"
    "unat c = unat (tf_charged (open_fee payer amt m)) + unat (amount amt)"
    "m' = m\<lparr>mgr_tx_fee := Some ((open_fee payer amt m)\<lparr>tf_charged := c\<rparr>)\<rparr>"
    by (rule record_fee_SomeE)
  show ?thesis
  proof (cases "mgr_tx_fee m")
    case None
    then have "tf_charged (open_fee payer amt m) = 0" by (simp add: open_fee_def default_transaction_fee_def)
    with c None show ?thesis by (simp add: held_def tx_held_def block_held_def units_of_def)
  next
    case (Some f)
    then have "open_fee payer amt m = f" by (simp add: open_fee_def)
    with c Some show ?thesis by (simp add: held_def tx_held_def block_held_def units_of_def)
  qed
qed

text \<open>Recording a fee panics only on a change of payer or denomination, or on overflow.\<close>

lemma record_fee_fresh:
  "mgr_tx_fee m = None \<Longrightarrow> \<exists>m'. record_fee payer amt m = Some m'"
  using unat_lt [of "amount amt"]
  by (simp add: record_fee_def Let_def default_transaction_fee_def checked_add_def)

lemma record_refund_inv: "fee_manager_inv m \<Longrightarrow> fee_manager_inv (record_refund amt m)"
  by (auto simp: record_refund_def fee_manager_inv_def split: option.splits)

lemma record_refund_held [simp]: "held (record_refund amt m) d = held m d"
  by (auto simp: record_refund_def held_def tx_held_def block_held_def split: option.splits)

lemma commit_tx_inv: "commit_tx m = Some (u, m') \<Longrightarrow> fee_manager_inv m' \<and> mgr_tx_fee m' = None"
  by (auto simp: commit_tx_def fee_manager_inv_def Let_def split: option.splits if_splits)

text \<open>Committing keeps everything except the refund it reports.\<close>

lemma commit_tx_held:
  assumes "commit_tx m = Some (u, m')" "fee_manager_inv m"
  shows "held m' d + units_of (fu_refund u) d = held m d"
proof (cases "mgr_tx_fee m")
  case None
  then show ?thesis using assms(1)
    by (auto simp: commit_tx_def Let_def default_transaction_fee_def tx_fee_amount_def saturating_sub_def
        held_def tx_held_def block_held_def units_of_def)
next
  case (Some f)
  have le: "unat (tf_refunded f) \<le> unat (tf_charged f)"
    using assms(2) Some by (simp add: fee_manager_inv_def word_le_nat_alt)
  have am: "unat (tx_fee_amount f) = unat (tf_charged f) - unat (tf_refunded f)"
    by (simp add: tx_fee_amount_def unat_saturating_sub)
  show ?thesis
  proof (cases "tx_fee_amount f > 0")
    case True
    then show ?thesis using assms(1) Some le am
      by (auto simp: commit_tx_def Let_def held_def tx_held_def block_held_def units_of_def
          checked_add_Some split: option.splits)
  next
    case False
    then have "unat (tf_charged f) = unat (tf_refunded f)" using le am by (simp add: word_less_nat_alt)
    then show ?thesis using assms(1) Some False
      by (auto simp: commit_tx_def Let_def held_def tx_held_def block_held_def units_of_def)
  qed
qed

text \<open>Committing panics only if the fees of the block do not fit 128 bits.\<close>

lemma commit_tx_total:
  assumes "\<And>d. held m d < 2 ^ 128"
  shows "\<exists>u m'. commit_tx m = Some (u, m')"
proof (cases "mgr_tx_fee m")
  case None
  then show ?thesis
    by (simp add: commit_tx_def Let_def default_transaction_fee_def tx_fee_amount_def saturating_sub_def)
next
  case (Some f)
  let ?b = "fm_get 0 (mgr_block_fees m) (tf_denomination f)"
  have "unat (tx_fee_amount f) \<le> unat (tf_charged f)" by (simp add: tx_fee_amount_def unat_saturating_sub)
  moreover have "unat (tf_charged f) + unat ?b < 2 ^ 128"
    using assms [of "tf_denomination f"] Some by (simp add: held_def tx_held_def block_held_def)
  ultimately have "unat ?b + unat (tx_fee_amount f) < 2 ^ 128" by linarith
  then show ?thesis using Some by (simp add: commit_tx_def Let_def checked_add_def)
qed

end
