(* ===== verification/Consensus_Types.thy ===== *)
theory Consensus_Types
  imports Token_Types
begin

text \<open>
  Data of the consensus modules (\<open>runtime-sdk/src/modules/consensus\<close>, \<open>modules/consensus_accounts\<close>): the
  messages to the consensus layer, the parameters, the bodies of the calls, the records of delegations, undelegations and
  receipts, and the contexts that travel with a message until its result arrives.
\<close>

section \<open>Messages to the consensus layer\<close>

text \<open>\<open>roothash::Message\<close>, as far as the modules emit it: a versioned staking message. A quantity comes from a \<open>u128\<close>.\<close>

datatype staking_message =
    Staking_Transfer address u128 | Staking_Withdraw address u128 | Staking_AddEscrow address u128
  | Staking_ReclaimEscrow address u128

datatype consensus_message = Msg_Staking u16 staking_message

section \<open>Parameters of the consensus module\<close>

record consensus_params =
  csp_round_root_gas :: u64
  csp_consensus_denomination :: denomination
  csp_consensus_scaling_factor :: u64
  csp_min_delegate_amount :: u128

definition default_consensus_params :: consensus_params where
  "default_consensus_params = \<lparr>csp_round_root_gas = 0, csp_consensus_denomination = Abs_denomination (ascii ''TEST''),
     csp_consensus_scaling_factor = 1, csp_min_delegate_amount = 0\<rparr>"

datatype consensus_param_error = ZeroScalingFactor | ScalingFactorNotPowerOf10

text \<open>\<open>u64::ilog10\<close> of a positive number, and \<open>10u64.pow(log)\<close>, which cannot overflow there.\<close>

fun ilog10 :: "nat \<Rightarrow> nat" where
  "ilog10 n = (if n < 10 then 0 else Suc (ilog10 (n div 10)))"

definition consensus_validate_basic :: "consensus_params \<Rightarrow> consensus_param_error + unit" where
  "consensus_validate_basic p =
     (let factor = csp_consensus_scaling_factor p
      in if factor = 0 then Inl ZeroScalingFactor
         else if 10 ^ ilog10 (unat factor) \<noteq> factor then Inl ScalingFactorNotPowerOf10
         else Inr ())"

section \<open>The consensus accounts module\<close>

record ca_gas_costs =
  cg_tx_deposit :: u64
  cg_tx_withdraw :: u64
  cg_tx_delegate :: u64
  cg_tx_undelegate :: u64
  cg_store_receipt :: u64
  cg_take_receipt :: u64
  cg_delegation :: u64
  cg_shares_to_tokens :: u64

record consensus_accounts_params =
  cap_gas_costs :: ca_gas_costs
  cap_disable_delegate :: bool
  cap_disable_undelegate :: bool
  cap_disable_deposit :: bool
  cap_disable_withdraw :: bool

definition default_consensus_accounts_params :: consensus_accounts_params where
  "default_consensus_accounts_params =
     \<lparr>cap_gas_costs = \<lparr>cg_tx_deposit = 0, cg_tx_withdraw = 0, cg_tx_delegate = 0, cg_tx_undelegate = 0, cg_store_receipt = 0,
        cg_take_receipt = 0, cg_delegation = 0, cg_shares_to_tokens = 0\<rparr>,
      cap_disable_delegate = False, cap_disable_undelegate = False, cap_disable_deposit = False, cap_disable_withdraw = False\<rparr>"

subsection \<open>Calls\<close>

record deposit_body =
  dep_to :: "address option"
  dep_amount :: base_units

record withdraw_body =
  wd_to :: "address option"
  wd_amount :: base_units

record delegate_body =
  dlg_to :: address
  dlg_amount :: base_units
  dlg_receipt :: u64

record undelegate_body =
  udl_from :: address
  udl_shares :: u128
  udl_receipt :: u64

datatype receipt_kind = Receipt_Invalid | Receipt_Delegate | Receipt_UndelegateStart | Receipt_UndelegateDone

fun receipt_kind_u8 :: "receipt_kind \<Rightarrow> u8" where
  "receipt_kind_u8 Receipt_Invalid = 0"
| "receipt_kind_u8 Receipt_Delegate = 1"
| "receipt_kind_u8 Receipt_UndelegateStart = 2"
| "receipt_kind_u8 Receipt_UndelegateDone = 3"

definition receipt_kind_is_valid :: "receipt_kind \<Rightarrow> bool" where
  "receipt_kind_is_valid k \<longleftrightarrow> k \<noteq> Receipt_Invalid"

record take_receipt_body =
  tr_kind :: receipt_kind
  tr_id :: u64

datatype share_pool = Pool_Invalid | Pool_Active | Pool_Debonding

record shares_to_tokens_body =
  stt_address :: address
  stt_pool :: share_pool
  stt_shares :: u128

subsection \<open>Records\<close>

record consensus_failure =
  cf_module :: string
  cf_code :: u32

record receipt =
  rc_shares :: u128
  rc_epoch :: u64
  rc_receipt :: u64
  rc_amount :: u128
  rc_error :: "consensus_failure option"

definition default_receipt :: receipt where
  "default_receipt = \<lparr>rc_shares = 0, rc_epoch = 0, rc_receipt = 0, rc_amount = 0, rc_error = None\<rparr>"

record delegation_info =
  di_shares :: u128
  di_receipt :: u64

definition default_delegation_info :: delegation_info where
  "default_delegation_info = \<lparr>di_shares = 0, di_receipt = 0\<rparr>"

record undelegation =
  ud_from :: address
  ud_to :: address
  ud_epoch :: u64

subsection \<open>Contexts of message handlers\<close>

record transfer_context =
  tc_address :: address
  tc_nonce :: u64
  tc_to :: address
  tc_amount :: base_units

record withdraw_context =
  wc_from :: address
  wc_nonce :: u64
  wc_address :: address
  wc_amount :: base_units

record delegate_context =
  dc_from :: address
  dc_nonce :: u64
  dc_to :: address
  dc_amount :: base_units
  dc_receipt :: bool

record undelegate_context =
  uc_from :: address
  uc_nonce :: u64
  uc_to :: address
  uc_shares :: u128
  uc_receipt :: bool

subsection \<open>Storage\<close>

text \<open>
  The tables of \<open>consensus_accounts/state.rs\<close> by their decoded keys, in the order the keys are built: delegations by
  owner and escrow account, undelegations by receiver, escrow account and epoch, the queue by epoch, receiver and escrow account,
  receipts by owner, kind and identifier.
\<close>

record consensus_accounts_storage =
  ca_params :: consensus_accounts_params
  ca_delegations :: "(address \<times> address, delegation_info) fmap"
  ca_undelegations :: "(address \<times> address \<times> u64, delegation_info) fmap"
  ca_queue :: "(u64 \<times> address \<times> address, unit) fmap"
  ca_receipts :: "(address \<times> u8 \<times> u64, receipt) fmap"

definition empty_consensus_accounts_storage :: consensus_accounts_storage where
  "empty_consensus_accounts_storage = \<lparr>ca_params = default_consensus_accounts_params, ca_delegations = fmempty,
     ca_undelegations = fmempty, ca_queue = fmempty, ca_receipts = fmempty\<rparr>"

section \<open>Valid scaling factors\<close>

declare ilog10.simps [simp del]

lemma ilog10_power: "10 ^ ilog10 (10 ^ k) = (10 ^ k :: nat)"
  by (induction k) (subst ilog10.simps, simp)+

lemma ilog10_le: "0 < n \<Longrightarrow> 10 ^ ilog10 n \<le> n"
proof (induction n rule: ilog10.induct)
  case (1 n)
  show ?case
  proof (cases "n < 10")
    case False
    then have "10 ^ ilog10 (n div 10) \<le> n div 10" using 1 by simp
    then show ?thesis using False by (subst ilog10.simps) (simp add: mult.commute less_eq_div_iff_mult_less_eq)
  qed (use 1 in \<open>simp add: ilog10.simps\<close>)
qed

lemma consensus_validate_basic_iff:
  "consensus_validate_basic p = Inr () \<longleftrightarrow> (\<exists>k. unat (csp_consensus_scaling_factor p) = 10 ^ k)"
proof
  let ?f = "csp_consensus_scaling_factor p"
  have small: "unat ((10 :: u64) ^ ilog10 (unat ?f)) = 10 ^ ilog10 (unat ?f)" if "?f \<noteq> 0"
  proof -
    have "10 ^ ilog10 (unat ?f) \<le> unat ?f" using that by (intro ilog10_le) (simp add: unat_gt_0)
    then have "(10 :: nat) ^ ilog10 (unat ?f) < 2 ^ 64" using unat_lt [of ?f] by simp
    then have "unat (of_nat (10 ^ ilog10 (unat ?f)) :: u64) = 10 ^ ilog10 (unat ?f)"
      by (simp only: unsigned_of_nat) (simp add: take_bit_nat_eq_self)
    then show ?thesis by simp
  qed
  show "\<exists>k. unat ?f = 10 ^ k" if "consensus_validate_basic p = Inr ()"
    using that small by (auto simp: consensus_validate_basic_def Let_def split: if_splits)
  show "consensus_validate_basic p = Inr ()" if "\<exists>k. unat ?f = 10 ^ k"
  proof -
    have nz: "?f \<noteq> 0" using that by (auto simp: unat_eq_0 [symmetric])
    then have "unat ((10 :: u64) ^ ilog10 (unat ?f)) = unat ?f" using small that by (auto simp: ilog10_power)
    then show ?thesis using nz by (simp add: consensus_validate_basic_def Let_def word_unat_eq_iff)
  qed
qed

end
