(* ===== verification/Rofl_Types.thy ===== *)
theory Rofl_Types
  imports Signature_Types Token_Types
begin

text \<open>
  Data of the ROFL module (\<open>runtime-sdk/src/modules/rofl\<close>): identifiers and configurations of applications, their
  authentication policies, registrations of enclaves and what is stored about them. Types of the consensus layer that the
  module only compares or hands on (quote policies, enclave identities, encryption keys) are byte strings; of an endorsed
  TEE capability and of a node's descriptor there is what the module reads.
\<close>

section \<open>Application identifiers\<close>

type_synonym app_id = bytes

definition APP_ID_SIZE :: nat where "APP_ID_SIZE = 21"
definition APP_ID_V0_VERSION :: u8 where "APP_ID_V0_VERSION = 0"
definition APP_ID_CRI_CONTEXT :: bytes where "APP_ID_CRI_CONTEXT = ascii ''oasis-sdk/rofl: cri app id''"
definition APP_ID_CN_CONTEXT :: bytes where "APP_ID_CN_CONTEXT = ascii ''oasis-sdk/rofl: cn app id''"
definition APP_ID_GLOBAL_NAME_CONTEXT :: bytes where
  "APP_ID_GLOBAL_NAME_CONTEXT = ascii ''oasis-sdk/rofl: global name app id''"

definition default_app_id :: app_id where
  "default_app_id = replicate 21 0"

text \<open>\<open>H\<close> is \<open>Hash::digest_bytes_list\<close>.\<close>

definition app_id_new :: "(bytes list \<Rightarrow> bytes) \<Rightarrow> bytes \<Rightarrow> u8 \<Rightarrow> bytes \<Rightarrow> app_id" where
  "app_id_new H context version data = version # take 20 (H [context, [version], data])"

definition app_id_from_global_name :: "(bytes list \<Rightarrow> bytes) \<Rightarrow> string \<Rightarrow> app_id" where
  "app_id_from_global_name H name = app_id_new H APP_ID_GLOBAL_NAME_CONTEXT APP_ID_V0_VERSION (ascii name)"

definition app_id_from_creator_round_index :: "(bytes list \<Rightarrow> bytes) \<Rightarrow> address \<Rightarrow> u64 \<Rightarrow> u32 \<Rightarrow> app_id" where
  "app_id_from_creator_round_index H creator rnd index =
     app_id_new H APP_ID_CRI_CONTEXT APP_ID_V0_VERSION (address_bytes creator @ be_bytes 8 (unat rnd) @ be_bytes 4 (unat index))"

definition app_id_from_creator_nonce :: "(bytes list \<Rightarrow> bytes) \<Rightarrow> address \<Rightarrow> u64 \<Rightarrow> app_id" where
  "app_id_from_creator_nonce H creator nonce =
     app_id_new H APP_ID_CN_CONTEXT APP_ID_V0_VERSION (address_bytes creator @ be_bytes 8 (unat nonce))"

datatype app_id_error = MalformedIdentifier

definition app_id_from_bytes :: "bytes \<Rightarrow> app_id_error + app_id" where
  "app_id_from_bytes data = (if length data \<noteq> APP_ID_SIZE then Inl MalformedIdentifier else Inr data)"

section \<open>Policies\<close>

datatype allowed_endorsement =
    Endorse_Any
  | Endorse_ComputeRole
  | Endorse_ObserverRole
  | Endorse_Entity bytes
  | Endorse_Node bytes
  | Endorse_Provider address
  | Endorse_ProviderInstanceAdmin address
  | Endorse_And "allowed_endorsement list"
  | Endorse_Or "allowed_endorsement list"

datatype endorsement_operator = Op_And | Op_Or

datatype fee_policy = InstancePays | EndorsingNodePays

record app_auth_policy =
  pol_quotes :: bytes
  pol_enclaves :: "bytes list"
  pol_endorsements :: "allowed_endorsement list"
  pol_fees :: fee_policy
  pol_max_expiration :: u64

section \<open>Applications and registrations\<close>

type_synonym metadata = "(string, string) fmap"

record app_config =
  app_id_of :: app_id
  app_policy :: app_auth_policy
  app_admin :: "address option"
  app_stake :: base_units
  app_metadata :: metadata
  app_secrets :: "(string, bytes) fmap"
  app_sek :: bytes

record registration =
  reg_app :: app_id
  reg_node_id :: bytes
  reg_entity_id :: "bytes option"
  reg_rak :: bytes
  reg_rek :: bytes
  reg_expiration :: u64
  reg_extra_keys :: "public_key list"
  reg_metadata :: metadata

record key_endorsement_info =
  kei_node_id :: bytes
  kei_rak :: "bytes option"
  kei_app_id :: app_id

definition kei_for_rak :: "bytes \<Rightarrow> app_id \<Rightarrow> key_endorsement_info" where
  "kei_for_rak node_id app = \<lparr>kei_node_id = node_id, kei_rak = None, kei_app_id = app\<rparr>"

definition kei_for_extra_key :: "bytes \<Rightarrow> app_id \<Rightarrow> bytes \<Rightarrow> key_endorsement_info" where
  "kei_for_extra_key node_id app rak = \<lparr>kei_node_id = node_id, kei_rak = Some rak, kei_app_id = app\<rparr>"

text \<open>What is stored under a key's hash: the current form, or the one from before applications were recorded.\<close>

datatype stored_endorsement = Stored_Info key_endorsement_info | Stored_Legacy bytes "bytes option"

fun kei_of_stored :: "stored_endorsement \<Rightarrow> key_endorsement_info" where
  "kei_of_stored (Stored_Info kei) = kei"
| "kei_of_stored (Stored_Legacy node_id rak) = \<lparr>kei_node_id = node_id, kei_rak = rak, kei_app_id = default_app_id\<rparr>"

section \<open>From the consensus layer\<close>

text \<open>\<open>EndorsedCapabilityTEE\<close>: the keys of the enclave and of the node that endorses it, and all the rest of it.\<close>

record endorsed_capability =
  ect_rak :: bytes
  ect_rek :: "bytes option"
  ect_node :: bytes
  ect_rest :: bytes

record node_descriptor =
  node_entity_id :: bytes
  node_expiration :: u64
  node_roles :: u32
  node_rest :: bytes

section \<open>Calls\<close>

datatype identifier_scheme = CreatorRoundIndex | CreatorNonce

record rofl_create =
  cr_policy :: app_auth_policy
  cr_scheme :: identifier_scheme
  cr_metadata :: metadata

record rofl_update =
  up_id :: app_id
  up_policy :: app_auth_policy
  up_admin :: "address option"
  up_metadata :: metadata
  up_secrets :: "(string, bytes) fmap"

record rofl_register =
  rg_app :: app_id
  rg_ect :: endorsed_capability
  rg_expiration :: u64
  rg_extra_keys :: "public_key list"
  rg_metadata :: metadata

datatype key_kind = EntropyV0 | X25519

fun key_kind_u8 :: "key_kind \<Rightarrow> u8" where
  "key_kind_u8 EntropyV0 = 0"
| "key_kind_u8 X25519 = 1"

datatype key_scope = Scope_Global | Scope_Node | Scope_Entity

fun key_scope_u8 :: "key_scope \<Rightarrow> u8" where
  "key_scope_u8 Scope_Global = 0"
| "key_scope_u8 Scope_Node = 1"
| "key_scope_u8 Scope_Entity = 2"

record rofl_derive_key =
  dk_app :: app_id
  dk_kind :: key_kind
  dk_scope :: key_scope
  dk_generation :: u64
  dk_key_id :: bytes

section \<open>Storage\<close>

text \<open>
  The tables of \<open>rofl/state.rs\<close>: configurations by identifier, registrations by application and hash of the attestation
  key, endorsements by the hash of a key, and the queue of expirations by epoch, application and hash.
\<close>

record rofl_storage =
  ro_apps :: "(app_id, app_config) fmap"
  ro_registrations :: "(app_id \<times> bytes, registration) fmap"
  ro_endorsers :: "(bytes, stored_endorsement) fmap"
  ro_expirations :: "(u64 \<times> app_id \<times> bytes, unit) fmap"

definition empty_rofl_storage :: rofl_storage where
  "empty_rofl_storage = \<lparr>ro_apps = fmempty, ro_registrations = fmempty, ro_endorsers = fmempty, ro_expirations = fmempty\<rparr>"

end
