(* ===== verification/Market_Types.thy ===== *)
theory Market_Types
  imports Rofl_Types
begin

text \<open>
  Data of the ROFL market (\<open>runtime-sdk/modules/rofl-market\<close>): providers, their offers, the instances that are rented from
  them, payments, and the bodies of the calls. Identifiers, stored as eight big-endian bytes, are the numbers they stand for.
\<close>

section \<open>Identifiers\<close>

type_synonym offer_id = u64
type_synonym instance_id = u64
type_synonym command_id = u64

text \<open>\<open>increment\<close>: the previous value is returned; at the largest value the addition panics.\<close>

definition id_increment :: "u64 \<Rightarrow> (u64 \<times> u64) option" where
  "id_increment i = (case checked_add i 1 of Some j \<Rightarrow> Some (i, j) | None \<Rightarrow> None)"

section \<open>Terms, payments and resources\<close>

datatype term_length = Hour | Month | Year

fun term_as_u8 :: "term_length \<Rightarrow> u8" where
  "term_as_u8 Hour = 1"
| "term_as_u8 Month = 2"
| "term_as_u8 Year = 3"

fun term_as_secs :: "term_length \<Rightarrow> u64" where
  "term_as_secs Hour = 60 * 60"
| "term_as_secs Month = 30 * 24 * 60 * 60"
| "term_as_secs Year = 365 * 24 * 60 * 60"

datatype payment_address = PayTo_Native address | PayTo_Eth bytes

fun payment_address_of :: "(bytes list \<Rightarrow> bytes) \<Rightarrow> payment_address \<Rightarrow> address" where
  "payment_address_of H (PayTo_Native a) = a"
| "payment_address_of H (PayTo_Eth a) = address_from_eth H a"

datatype payment =
    Pay_Native (pay_denomination: denomination) (pay_terms: "(term_length, u128) fmap")
  | Pay_EvmContract bytes bytes

datatype tee_type = SGX | TDX

record gpu_resource =
  gpu_model :: "string option"
  gpu_count :: u8

record resources =
  res_tee :: tee_type
  res_memory :: u64
  res_cpus :: u16
  res_storage :: u64
  res_gpu :: "gpu_resource option"

definition gpu_validate :: "gpu_resource \<Rightarrow> string + unit" where
  "gpu_validate g =
     (case gpu_model g of
        Some model \<Rightarrow> if length model > 64 then Inl ''malformed GPU model name'' else Inr ()
      | None \<Rightarrow> Inr ())"

definition resources_validate :: "resources \<Rightarrow> string + unit" where
  "resources_validate r =
     (if res_memory r < 16 then Inl ''memory must be at least 16 MiB''
      else if res_cpus r < 1 then Inl ''there must be at least 1 vCPU''
      else case res_gpu r of Some g \<Rightarrow> gpu_validate g | None \<Rightarrow> Inr ())"

section \<open>Providers, offers and instances\<close>

record provider =
  pr_address :: address
  pr_nodes :: "bytes list"
  pr_scheduler_app :: app_id
  pr_payment_address :: payment_address
  pr_metadata :: metadata
  pr_stake :: base_units
  pr_offers_next_id :: offer_id
  pr_offers_count :: u64
  pr_instances_next_id :: instance_id
  pr_instances_count :: u64
  pr_created_at :: u64
  pr_updated_at :: u64

record offer =
  of_id :: offer_id
  of_resources :: resources
  of_payment :: payment
  of_capacity :: u64
  of_metadata :: metadata

definition offer_validate :: "offer \<Rightarrow> string + unit" where
  "offer_validate o' = resources_validate (of_resources o')"

datatype instance_status = Created | Accepted | Cancelled

record deployment =
  dpl_app_id :: app_id
  dpl_manifest_hash :: bytes
  dpl_metadata :: metadata

record market_instance =
  in_provider :: address
  in_id :: instance_id
  in_offer :: offer_id
  in_status :: instance_status
  in_creator :: address
  in_admin :: address
  in_node_id :: "bytes option"
  in_metadata :: metadata
  in_resources :: resources
  in_deployment :: "deployment option"
  in_created_at :: u64
  in_updated_at :: u64
  in_paid_from :: u64
  in_paid_until :: u64
  in_payment :: payment
  in_payment_address :: bytes
  in_refund_data :: bytes
  in_cmd_next_id :: command_id
  in_cmd_count :: u64

section \<open>Calls\<close>

record provider_create =
  pc_nodes :: "bytes list"
  pc_scheduler_app :: app_id
  pc_payment_address :: payment_address
  pc_offers :: "offer list"
  pc_metadata :: metadata

record provider_update =
  pu_provider :: address
  pu_nodes :: "bytes list"
  pu_scheduler_app :: app_id
  pu_payment_address :: payment_address
  pu_metadata :: metadata

record provider_update_offers =
  po_provider :: address
  po_add :: "offer list"
  po_update :: "offer list"
  po_remove :: "offer_id list"

record instance_create =
  ic_provider :: address
  ic_offer :: offer_id
  ic_admin :: "address option"
  ic_deployment :: "deployment option"
  ic_term :: term_length
  ic_term_count :: u64

record instance_change_admin =
  ia_provider :: address
  ia_id :: instance_id
  ia_admin :: address

record instance_topup =
  it_provider :: address
  it_id :: instance_id
  it_term :: term_length
  it_term_count :: u64

record instance_accept =
  iacc_provider :: address
  iacc_ids :: "instance_id list"
  iacc_metadata :: metadata

datatype deployment_update = Deployment_Clear | Deployment_Set deployment

fun deployment_of_update :: "deployment_update \<Rightarrow> deployment option" where
  "deployment_of_update Deployment_Clear = None"
| "deployment_of_update (Deployment_Set d) = Some d"

record instance_change =
  ich_id :: instance_id
  ich_node_id :: "bytes option"
  ich_deployment :: "deployment_update option"
  ich_metadata :: "metadata option"
  ich_last_completed_cmd :: "command_id option"

record instance_update =
  iu_provider :: address
  iu_updates :: "instance_change list"

record instance_execute_cmds =
  ie_provider :: address
  ie_id :: instance_id
  ie_cmds :: "bytes list"

section \<open>Storage\<close>

text \<open>
  The tables of \<open>rofl-market/src/state.rs\<close>: providers by the hash of their address; offers and instances by that
  hash and their identifier; queued commands by the hash, the instance and their identifier.
\<close>

record market_storage =
  mk_providers :: "(bytes, provider) fmap"
  mk_offers :: "(bytes \<times> offer_id, offer) fmap"
  mk_instances :: "(bytes \<times> instance_id, market_instance) fmap"
  mk_commands :: "(bytes \<times> instance_id \<times> command_id, bytes) fmap"

definition empty_market_storage :: market_storage where
  "empty_market_storage = \<lparr>mk_providers = fmempty, mk_offers = fmempty, mk_instances = fmempty, mk_commands = fmempty\<rparr>"

end
