(* ===== verification/Module_State.thy ===== *)
theory Module_State
  imports Runtime_State Fee_Manager Consensus_Types Market_Types
begin

text \<open>
  What the modules keep in the state: the parameters and tables of the modules, their block and local values, events and errors, and the context they run in.
  A table of \<open>TypedStore\<close> entries below a module's prefix is a finite map from decoded keys to
  decoded values; \<open>Token_Types\<close> shows that the keys of the balances decode to what they encode
  and are ordered alike. A value under a fixed key is a field. The block and local values, which
  the code keeps in maps of \<open>Box<dyn Any>\<close> under fixed string keys, are fields as well, \<open>None\<close>
  when absent.
\<close>

section \<open>Errors\<close>

text \<open>\<open>dispatcher::Error\<close>: what makes a whole batch abort.\<close>

datatype dispatcher_error =
    Aborted | MalformedTransactionInBatch string | QueryAborted string | KeyManagerFailure string | BatchOutOfGas

datatype tx_simulation_failure = TxSimulationFailure (tsf_module: string) (tsf_code: u32) (tsf_message: string)

datatype core_error =
    Core_MalformedTransaction string
  | Core_InvalidTransaction tx_error
  | Core_InvalidMethod string
  | Core_InvalidNonce
  | Core_InsufficientFeeBalance
  | Core_OutOfMessageSlots
  | Core_MessageHandlerNotInvoked
  | Core_MessageHandlerMissing u32
  | Core_InvalidArgument string
  | Core_GasOverflow
  | Core_OutOfGas u64 u64
  | Core_TooManyAuth
  | Core_MultisigTooManySigners
  | Core_InvariantViolation string
  | Core_InvalidCallFormat string
  | Core_Abort dispatcher_error
  | Core_NotAuthenticated
  | Core_GasPriceTooLow
  | Core_ForbiddenInSecureBuild
  | Core_Forbidden
  | Core_OversizedTransaction
  | Core_ExpiredTransaction
  | Core_ReadOnlyTransaction
  | Core_FutureNonce
  | Core_CallDepthExceeded u16 u16
  | Core_TxSimulationFailed tx_simulation_failure

datatype accounts_error =
    Acc_InvalidArgument | Acc_InsufficientBalance | Acc_Forbidden | Acc_NotFound | Acc_Core core_error

section \<open>Parameters\<close>

record core_gas_costs =
  gc_tx_byte :: u64
  gc_storage_byte :: u64
  gc_auth_signature :: u64
  gc_auth_multisig_signer :: u64
  gc_callformat_x25519_deoxysii :: u64

record dynamic_min_gas_price =
  dm_enabled :: bool
  dm_target_block_gas_usage_percentage :: u8
  dm_min_price_max_change_denominator :: u8

record core_params =
  cp_max_batch_gas :: u64
  cp_max_tx_size :: u32
  cp_max_tx_signers :: u32
  cp_max_multisig_signers :: u32
  cp_gas_costs :: core_gas_costs
  cp_min_gas_price :: "(denomination, u128) fmap"
  cp_dynamic_min_gas_price :: dynamic_min_gas_price

definition default_core_params :: core_params where
  "default_core_params = \<lparr>cp_max_batch_gas = 0, cp_max_tx_size = 0, cp_max_tx_signers = 0,
     cp_max_multisig_signers = 0,
     cp_gas_costs = \<lparr>gc_tx_byte = 0, gc_storage_byte = 0, gc_auth_signature = 0, gc_auth_multisig_signer = 0,
       gc_callformat_x25519_deoxysii = 0\<rparr>,
     cp_min_gas_price = fmempty,
     cp_dynamic_min_gas_price = \<lparr>dm_enabled = False, dm_target_block_gas_usage_percentage = 0,
       dm_min_price_max_change_denominator = 0\<rparr>\<rparr>"

record accounts_params =
  ap_transfers_disabled :: bool
  ap_tx_transfer_gas :: u64
  ap_debug_disable_nonce_check :: bool
  ap_denomination_infos :: "(denomination, u8) fmap"

definition default_accounts_params :: accounts_params where
  "default_accounts_params = \<lparr>ap_transfers_disabled = False, ap_tx_transfer_gas = 0,
     ap_debug_disable_nonce_check = False, ap_denomination_infos = fmempty\<rparr>"

record reward_step =
  rs_until :: u64
  rs_amount :: base_units

record rewards_params =
  rp_schedule :: "reward_step list"
  rp_participation_threshold_numerator :: u64
  rp_participation_threshold_denominator :: u64

definition default_rewards_params :: rewards_params where
  "default_rewards_params = \<lparr>rp_schedule = [], rp_participation_threshold_numerator = 0,
     rp_participation_threshold_denominator = 0\<rparr>"

datatype reward_action = Reward u64 | NoReward

section \<open>Messages\<close>

text \<open>A handler to run when the consensus layer has processed a message, and the event that reports it.\<close>

record hook_invocation =
  hi_hook_name :: string
  hi_payload :: cbor_value

record message_event =
  me_module :: string
  me_code :: u32
  me_index :: u32
  me_result :: "cbor_value option"

section \<open>Storage\<close>

record storage =
  core_params_of :: core_params
  core_last_epoch :: u64
  core_dynamic_min_gas_price :: "(denomination, u128) fmap option"
  core_message_handlers :: "(u32, hook_invocation) fmap"
  core_versions :: "(string, u32) fmap"
  acc_params :: accounts_params
  acc_accounts :: "(address, u64) fmap"
  acc_balances :: "(address \<times> denomination, u128) fmap"
  acc_total_supplies :: "(denomination, u128) fmap"
  acc_allowances :: "(address \<times> address \<times> denomination, u128) fmap"
  rew_params :: rewards_params
  rew_rewards :: "(u64, (address, reward_action) fmap) fmap"
  cons_params :: consensus_params
  consensus_accounts :: consensus_accounts_storage
  rofl :: rofl_storage
  market :: market_storage

definition empty_storage :: storage where
  "empty_storage = \<lparr>core_params_of = default_core_params, core_last_epoch = 0,
     core_dynamic_min_gas_price = None, core_message_handlers = fmempty, core_versions = fmempty,
     acc_params = default_accounts_params, acc_accounts = fmempty,
     acc_balances = fmempty, acc_total_supplies = fmempty, acc_allowances = fmempty,
     rew_params = default_rewards_params, rew_rewards = fmempty,
     cons_params = default_consensus_params, consensus_accounts = empty_consensus_accounts_storage,
     rofl = empty_rofl_storage, market = empty_market_storage\<rparr>"

record block_values =
  bv_gas_used :: "u64 option"
  bv_priority :: "u64 option"
  bv_sender_meta :: "sender_meta option"
  bv_epoch_changed :: "bool option"
  bv_refund_unused :: "bool option"
  bv_fee_manager :: "fee_manager option"

record local_values =
  lv_gas_used :: "u64 option"

instantiation block_values_ext :: (default) default
begin

definition default_block_values_ext :: "'a block_values_ext" where
  "default_block_values_ext = \<lparr>bv_gas_used = None, bv_priority = None, bv_sender_meta = None,
     bv_epoch_changed = None, bv_refund_unused = None, bv_fee_manager = None, \<dots> = default\<rparr>"

instance ..

end

instantiation local_values_ext :: (default) default
begin

definition default_local_values_ext :: "'a local_values_ext" where
  "default_local_values_ext = \<lparr>lv_gas_used = None, \<dots> = default\<rparr>"

instance ..

end

datatype sdk_event =
    Ev_Transfer address address base_units | Ev_Burn address base_units | Ev_Mint address base_units
  | Ev_GasUsed u64
  | Ev_Deposit address u64 address base_units "consensus_failure option"
  | Ev_Withdraw address u64 address base_units "consensus_failure option"
  | Ev_Delegate address u64 address base_units "consensus_failure option" "u128 option"
  | Ev_UndelegateStart address u64 address u128 u64 "consensus_failure option"
  | Ev_UndelegateDone address address u128 base_units "u64 option"
  | Ev_AppCreated app_id | Ev_AppUpdated app_id | Ev_AppRemoved app_id | Ev_InstanceRegistered app_id public_key
  | Ev_ProviderCreated address | Ev_ProviderUpdated address | Ev_ProviderRemoved address
  | Ev_InstanceCreated address instance_id | Ev_InstanceUpdated address instance_id | Ev_InstanceAccepted address instance_id
  | Ev_InstanceCancelled address instance_id | Ev_InstanceRemoved address instance_id
  | Ev_InstanceCommandQueued address instance_id

type_synonym ('m, 'g) sdk_state = "(storage, sdk_event, 'm, block_values, local_values, 'g) state"

text \<open>\<open>into_event_tag\<close>: the key of an event by its module and code.\<close>

fun sdk_event_key :: "sdk_event \<Rightarrow> bytes" where
  "sdk_event_key (Ev_Transfer _ _ _) = etag_key ''accounts'' 1"
| "sdk_event_key (Ev_Burn _ _) = etag_key ''accounts'' 2"
| "sdk_event_key (Ev_Mint _ _) = etag_key ''accounts'' 3"
| "sdk_event_key (Ev_GasUsed _) = etag_key ''core'' 1"
| "sdk_event_key (Ev_Deposit _ _ _ _ _) = etag_key ''consensus_accounts'' 1"
| "sdk_event_key (Ev_Withdraw _ _ _ _ _) = etag_key ''consensus_accounts'' 2"
| "sdk_event_key (Ev_Delegate _ _ _ _ _ _) = etag_key ''consensus_accounts'' 3"
| "sdk_event_key (Ev_UndelegateStart _ _ _ _ _ _) = etag_key ''consensus_accounts'' 4"
| "sdk_event_key (Ev_UndelegateDone _ _ _ _ _) = etag_key ''consensus_accounts'' 5"
| "sdk_event_key (Ev_AppCreated _) = etag_key ''rofl'' 1"
| "sdk_event_key (Ev_AppUpdated _) = etag_key ''rofl'' 2"
| "sdk_event_key (Ev_AppRemoved _) = etag_key ''rofl'' 3"
| "sdk_event_key (Ev_InstanceRegistered _ _) = etag_key ''rofl'' 4"
| "sdk_event_key (Ev_ProviderCreated _) = etag_key ''roflmarket'' 1"
| "sdk_event_key (Ev_ProviderUpdated _) = etag_key ''roflmarket'' 2"
| "sdk_event_key (Ev_ProviderRemoved _) = etag_key ''roflmarket'' 3"
| "sdk_event_key (Ev_InstanceCreated _ _) = etag_key ''roflmarket'' 4"
| "sdk_event_key (Ev_InstanceUpdated _ _) = etag_key ''roflmarket'' 5"
| "sdk_event_key (Ev_InstanceAccepted _ _) = etag_key ''roflmarket'' 6"
| "sdk_event_key (Ev_InstanceCancelled _ _) = etag_key ''roflmarket'' 7"
| "sdk_event_key (Ev_InstanceRemoved _ _) = etag_key ''roflmarket'' 8"
| "sdk_event_key (Ev_InstanceCommandQueued _ _) = etag_key ''roflmarket'' 9"

definition emit_event :: "sdk_event \<Rightarrow> (('m, 'g) sdk_state, 'e, unit) rust_op" where
  "emit_event ev = update_op (emit_event_raw (sdk_event_key ev) ev)"

definition emit_unconditional :: "sdk_event \<Rightarrow> (('m, 'g) sdk_state, 'e, unit) rust_op" where
  "emit_unconditional ev = update_op (emit_unconditional_event (sdk_event_key ev) ev)"

text \<open>Updating one part of a state.\<close>

definition upd_store :: "(storage \<Rightarrow> storage) \<Rightarrow> ('m, 'g) sdk_state \<Rightarrow> ('m, 'g) sdk_state" where
  "upd_store f s = s\<lparr>st_store := f (st_store s)\<rparr>"

definition upd_block :: "(block_values \<Rightarrow> block_values) \<Rightarrow> ('m, 'g) sdk_state \<Rightarrow> ('m, 'g) sdk_state" where
  "upd_block f s = s\<lparr>st_block_values := f (st_block_values s)\<rparr>"

definition upd_local :: "(local_values \<Rightarrow> local_values) \<Rightarrow> ('m, 'g) sdk_state \<Rightarrow> ('m, 'g) sdk_state" where
  "upd_local f s = s\<lparr>st_local_values := f (st_local_values s)\<rparr>"

section \<open>Context\<close>

record core_local_config =
  lc_min_gas_price :: "(denomination, u128) fmap"
  lc_max_estimated_gas :: u64
  lc_estimate_gas_search_max_iters :: u64

text \<open>
  \<open>Context\<close>, as far as the modules read it, with the associated constants of the runtime:
  epoch, round, the results of the last round, the message limit, the node's local configuration.
\<close>

record ctx =
  ctx_deps :: tx_deps
  ctx_epoch :: u64
  ctx_round :: u64
  ctx_max_messages :: u32
  ctx_is_confidential :: bool
  ctx_good_compute_entities :: "bytes list"
  ctx_bad_compute_entities :: "bytes list"
  ctx_messages :: "message_event list"
  ctx_core_local_config :: "core_local_config option"
  ctx_max_check_nonce_future_delta :: u64

text \<open>The constants of \<open>core::Config\<close>.\<close>

record core_config =
  cfg_default_local_min_gas_price :: "(denomination, u128) fmap"
  cfg_default_local_estimate_gas_search_max_iters :: u64
  cfg_estimate_gas_extra_fail :: "(string, u64) fmap"
  cfg_min_gas_price_exempt_methods :: "string fset"
  cfg_emit_gas_used_events :: bool
  cfg_allow_interactive_read_only_transactions :: bool
  cfg_gas_cost_call_calldata_public_key :: u64
  cfg_gas_cost_call_current_epoch :: u64

section \<open>Lemmas\<close>

lemma upd_store_fields [simp]:
  "st_store (upd_store f s) = f (st_store s)" "st_env (upd_store f s) = st_env s"
  "st_block_values (upd_store f s) = st_block_values s" "st_local_values (upd_store f s) = st_local_values s"
  "st_parents (upd_store f s) = st_parents s" "st_messages (upd_store f s) = st_messages s"
  "st_hidden_block_values (upd_store f s) = st_hidden_block_values s"
  "st_always_rollback (upd_store f s) = st_always_rollback s"
  by (simp_all add: upd_store_def)

lemma upd_block_fields [simp]:
  "st_store (upd_block f s) = st_store s" "st_env (upd_block f s) = st_env s"
  "st_block_values (upd_block f s) = f (st_block_values s)" "st_local_values (upd_block f s) = st_local_values s"
  "st_parents (upd_block f s) = st_parents s" "st_messages (upd_block f s) = st_messages s"
  "st_hidden_block_values (upd_block f s) = st_hidden_block_values s"
  "st_always_rollback (upd_block f s) = st_always_rollback s"
  by (simp_all add: upd_block_def)

lemma upd_local_fields [simp]:
  "st_store (upd_local f s) = st_store s" "st_env (upd_local f s) = st_env s"
  "st_block_values (upd_local f s) = st_block_values s" "st_local_values (upd_local f s) = f (st_local_values s)"
  "st_parents (upd_local f s) = st_parents s" "st_messages (upd_local f s) = st_messages s"
  "st_hidden_block_values (upd_local f s) = st_hidden_block_values s"
  "st_always_rollback (upd_local f s) = st_always_rollback s"
  by (simp_all add: upd_local_def)

lemma emit_event_fields [simp]:
  "st_store (emit_event_raw k v s) = st_store s" "st_env (emit_event_raw k v s) = st_env s"
  "st_block_values (emit_event_raw k v s) = st_block_values s"
  "st_local_values (emit_event_raw k v s) = st_local_values s"
  "st_parents (emit_event_raw k v s) = st_parents s"
  "st_store (emit_unconditional_event k v s) = st_store s" "st_env (emit_unconditional_event k v s) = st_env s"
  "st_block_values (emit_unconditional_event k v s) = st_block_values s"
  "st_local_values (emit_unconditional_event k v s) = st_local_values s"
  "st_parents (emit_unconditional_event k v s) = st_parents s"
  by (simp_all add: emit_event_raw_def emit_unconditional_event_def)

lemma emit_run [simp]:
  "emit_event ev s = (Ok (), emit_event_raw (sdk_event_key ev) ev s)"
  "emit_unconditional ev s = (Ok (), emit_unconditional_event (sdk_event_key ev) ev s)"
  by (simp_all add: emit_event_def emit_unconditional_def update_op_def)

end
