(* ===== verification/Core_Module.thy ===== *)
theory Core_Module
  imports Module_State
begin

text \<open>
  The core module (\<open>runtime-sdk/src/modules/core/mod.rs\<close>): gas accounting per transaction and per
  batch, the minimum gas price and its dynamic update, the checks of a transaction before and
  after its call, epoch changes, and the binary search of the gas estimation.
  \<open>pend\<close> stands for \<open>State::pending_store_update_byte_size\<close>, which is modelled on the overlay
  stores in \<open>Runtime_State\<close>.
\<close>

section \<open>Errors and parameters\<close>

text \<open>The module and code of an error; \<open>transparent\<close> variants report those of what they wrap.\<close>

fun dispatcher_error_code :: "dispatcher_error \<Rightarrow> u32" where
  "dispatcher_error_code Aborted = 1"
| "dispatcher_error_code (MalformedTransactionInBatch _) = 2"
| "dispatcher_error_code (QueryAborted _) = 3"
| "dispatcher_error_code (KeyManagerFailure _) = 4"
| "dispatcher_error_code BatchOutOfGas = 5"

fun core_error_code :: "core_error \<Rightarrow> string \<times> u32" where
  "core_error_code (Core_MalformedTransaction _) = (''core'', 1)"
| "core_error_code (Core_InvalidTransaction _) = (''core'', 2)"
| "core_error_code (Core_InvalidMethod _) = (''core'', 3)"
| "core_error_code Core_InvalidNonce = (''core'', 4)"
| "core_error_code Core_InsufficientFeeBalance = (''core'', 5)"
| "core_error_code Core_OutOfMessageSlots = (''core'', 6)"
| "core_error_code Core_MessageHandlerNotInvoked = (''core'', 8)"
| "core_error_code (Core_MessageHandlerMissing _) = (''core'', 9)"
| "core_error_code (Core_InvalidArgument _) = (''core'', 10)"
| "core_error_code Core_GasOverflow = (''core'', 11)"
| "core_error_code (Core_OutOfGas _ _) = (''core'', 12)"
| "core_error_code Core_TooManyAuth = (''core'', 15)"
| "core_error_code Core_MultisigTooManySigners = (''core'', 16)"
| "core_error_code (Core_InvariantViolation _) = (''core'', 17)"
| "core_error_code (Core_InvalidCallFormat _) = (''core'', 18)"
| "core_error_code (Core_Abort e) = (''dispatcher'', dispatcher_error_code e)"
| "core_error_code Core_NotAuthenticated = (''core'', 19)"
| "core_error_code Core_GasPriceTooLow = (''core'', 20)"
| "core_error_code Core_ForbiddenInSecureBuild = (''core'', 21)"
| "core_error_code Core_Forbidden = (''core'', 22)"
| "core_error_code Core_OversizedTransaction = (''core'', 23)"
| "core_error_code Core_ExpiredTransaction = (''core'', 24)"
| "core_error_code Core_ReadOnlyTransaction = (''core'', 25)"
| "core_error_code Core_FutureNonce = (''core'', 26)"
| "core_error_code (Core_CallDepthExceeded _ _) = (''core'', 27)"
| "core_error_code (Core_TxSimulationFailed f) = (tsf_module f, tsf_code f)"

definition core_out_of_gas :: "core_config \<Rightarrow> u64 \<Rightarrow> u64 \<Rightarrow> core_error" where
  "core_out_of_gas cfg limit wanted =
     (if cfg_emit_gas_used_events cfg then Core_OutOfGas limit wanted else Core_OutOfGas 0 0)"

definition is_error_core_out_of_gas :: "tx_simulation_failure \<Rightarrow> bool" where
  "is_error_core_out_of_gas f \<longleftrightarrow> tsf_module f = ''core'' \<and> tsf_code f = 12"

datatype core_param_error = InvalidTargetBlockGasUsagePercentage | InvalidMinPriceMaxChangeDenominator

definition core_params_validate_basic :: "core_params \<Rightarrow> core_param_error + unit" where
  "core_params_validate_basic p =
     (let dmgp = cp_dynamic_min_gas_price p in
      if dm_enabled dmgp then
        if dm_target_block_gas_usage_percentage dmgp < 10 \<or> dm_target_block_gas_usage_percentage dmgp > 100
        then Inl InvalidTargetBlockGasUsagePercentage
        else if dm_min_price_max_change_denominator dmgp < 1 \<or> dm_min_price_max_change_denominator dmgp > 50
        then Inl InvalidMinPriceMaxChangeDenominator
        else Inr ()
      else Inr ())"

abbreviation core_params_now :: "('m, 'g) sdk_state \<Rightarrow> core_params" where
  "core_params_now s \<equiv> core_params_of (st_store s)"

definition core_init :: "core_params \<Rightarrow> ('m, 'g) sdk_state \<Rightarrow> ('m, 'g) sdk_state" where
  "core_init p = upd_store (\<lambda>st. st\<lparr>core_params_of := p\<rparr>)"

section \<open>Gas\<close>

definition used_batch_gas :: "('m, 'g) sdk_state \<Rightarrow> u64" where
  "used_batch_gas s = (case bv_gas_used (st_block_values s) of Some g \<Rightarrow> g | None \<Rightarrow> 0)"

definition max_batch_gas :: "('m, 'g) sdk_state \<Rightarrow> u64" where
  "max_batch_gas s = cp_max_batch_gas (core_params_now s)"

definition remaining_batch_gas :: "('m, 'g) sdk_state \<Rightarrow> u64" where
  "remaining_batch_gas s = saturating_sub (max_batch_gas s) (used_batch_gas s)"

definition use_batch_gas :: "u64 \<Rightarrow> (('m, 'g) sdk_state, core_error, unit) rust_op" where
  "use_batch_gas gas s =
     (if is_check_only (st_env s) then (Ok (), s)
      else case checked_add (used_batch_gas s) gas of
        None \<Rightarrow> (Err (Core_Abort BatchOutOfGas), s)
      | Some batch_new_gas_used \<Rightarrow>
          if batch_new_gas_used > max_batch_gas s then (Err (Core_Abort BatchOutOfGas), s)
          else (Ok (), upd_block (\<lambda>b. b\<lparr>bv_gas_used := Some batch_new_gas_used\<rparr>) s))"

text \<open>\<open>local_value(..).or_default()\<close> leaves the default behind when there was no value.\<close>

definition used_tx_gas :: "('m, 'g) sdk_state \<Rightarrow> u64" where
  "used_tx_gas s = (case lv_gas_used (st_local_values s) of Some g \<Rightarrow> g | None \<Rightarrow> 0)"

definition set_used_tx_gas :: "u64 \<Rightarrow> ('m, 'g) sdk_state \<Rightarrow> ('m, 'g) sdk_state" where
  "set_used_tx_gas g = upd_local (\<lambda>l. l\<lparr>lv_gas_used := Some g\<rparr>)"

definition use_tx_gas :: "core_config \<Rightarrow> u64 \<Rightarrow> (('m, 'g) sdk_state, core_error, unit) rust_op" where
  "use_tx_gas cfg gas s =
     (case env_auth_info (st_env s) of None \<Rightarrow> (Panic, s)
      | Some ai \<Rightarrow>
          (let gas_limit = fee_gas_of (ai_fee ai); gas_used = used_tx_gas s; s1 = set_used_tx_gas gas_used s in
           case checked_add gas_used gas of
             None \<Rightarrow> (Err Core_GasOverflow, s1)
           | Some wanted \<Rightarrow>
               if wanted > gas_limit then (Err (core_out_of_gas cfg gas_limit wanted), s1)
               else seq_op (use_batch_gas gas) (update_op (set_used_tx_gas wanted)) s1))"

definition remaining_tx_gas :: "(('m, 'g) sdk_state, core_error, u64) rust_op" where
  "remaining_tx_gas s =
     (case env_auth_info (st_env s) of None \<Rightarrow> (Panic, s)
      | Some ai \<Rightarrow>
          (let gas_limit = fee_gas_of (ai_fee ai); gas_used = used_tx_gas s; s1 = set_used_tx_gas gas_used s;
               remaining_tx = saturating_sub gas_limit gas_used
           in (Ok (min remaining_tx (remaining_batch_gas s1)), s1)))"

section \<open>Block values\<close>

definition set_priority :: "u64 \<Rightarrow> ('m, 'g) sdk_state \<Rightarrow> ('m, 'g) sdk_state" where
  "set_priority p = upd_block (\<lambda>b. b\<lparr>bv_priority := Some p\<rparr>)"

definition take_priority :: "('m, 'g) sdk_state \<Rightarrow> u64 \<times> ('m, 'g) sdk_state" where
  "take_priority s =
     ((case bv_priority (st_block_values s) of Some p \<Rightarrow> p | None \<Rightarrow> 0), upd_block (\<lambda>b. b\<lparr>bv_priority := None\<rparr>) s)"

definition set_sender_meta :: "sender_meta \<Rightarrow> ('m, 'g) sdk_state \<Rightarrow> ('m, 'g) sdk_state" where
  "set_sender_meta m = upd_block (\<lambda>b. b\<lparr>bv_sender_meta := Some m\<rparr>)"

definition take_sender_meta :: "('m, 'g) sdk_state \<Rightarrow> sender_meta \<times> ('m, 'g) sdk_state" where
  "take_sender_meta s =
     ((case bv_sender_meta (st_block_values s) of Some m \<Rightarrow> m | None \<Rightarrow> default_sender_meta),
      upd_block (\<lambda>b. b\<lparr>bv_sender_meta := None\<rparr>) s)"

definition has_epoch_changed :: "('m, 'g) sdk_state \<Rightarrow> bool" where
  "has_epoch_changed s = (case bv_epoch_changed (st_block_values s) of Some b \<Rightarrow> b | None \<Rightarrow> False)"

section \<open>Gas prices\<close>

definition min_gas_prices :: "('m, 'g) sdk_state \<Rightarrow> (denomination, u128) fmap" where
  "min_gas_prices s =
     (if dm_enabled (cp_dynamic_min_gas_price (core_params_now s))
      then (case core_dynamic_min_gas_price (st_store s) of
              Some mgp \<Rightarrow> mgp | None \<Rightarrow> cp_min_gas_price (core_params_now s))
      else cp_min_gas_price (core_params_now s))"

definition min_gas_price :: "denomination \<Rightarrow> ('m, 'g) sdk_state \<Rightarrow> u128 option" where
  "min_gas_price d s = fmlookup (min_gas_prices s) d"

definition get_local_min_gas_price :: "core_config \<Rightarrow> ctx \<Rightarrow> denomination \<Rightarrow> u128" where
  "get_local_min_gas_price cfg c d =
     (case (case ctx_core_local_config c of
              Some lc \<Rightarrow> fmlookup (lc_min_gas_price lc) d
            | None \<Rightarrow> fmlookup (cfg_default_local_min_gas_price cfg) d) of
        Some p \<Rightarrow> p | None \<Rightarrow> 0)"

definition get_local_max_estimated_gas :: "ctx \<Rightarrow> u64" where
  "get_local_max_estimated_gas c =
     (case ctx_core_local_config c of Some lc \<Rightarrow> lc_max_estimated_gas lc | None \<Rightarrow> 0)"

definition estimate_gas_search_max_iters :: "core_config \<Rightarrow> ctx \<Rightarrow> u64" where
  "estimate_gas_search_max_iters cfg c =
     (case ctx_core_local_config c of Some lc \<Rightarrow> lc_estimate_gas_search_max_iters lc
      | None \<Rightarrow> cfg_default_local_estimate_gas_search_max_iters cfg)"

definition query_min_gas_price :: "core_config \<Rightarrow> ctx \<Rightarrow> ('m, 'g) sdk_state \<Rightarrow> (denomination, u128) fmap" where
  "query_min_gas_price cfg c s =
     fmmap_keys (\<lambda>d price. let local_mgp = get_local_min_gas_price cfg c d in
       if local_mgp > price then local_mgp else price) (min_gas_prices s)"

definition enforce_min_gas_price :: "core_config \<Rightarrow> ctx \<Rightarrow> call \<Rightarrow> (('m, 'g) sdk_state, core_error, unit) rust_op" where
  "enforce_min_gas_price cfg c cl s =
     (if call_method cl |\<in>| cfg_min_gas_price_exempt_methods cfg then (Ok (), s)
      else case env_auth_info (st_env s) of None \<Rightarrow> (Panic, s)
      | Some ai \<Rightarrow>
          (let fee = ai_fee ai; d = denom (fee_amount_of fee) in
           case min_gas_price d s of
             None \<Rightarrow> (Err Core_GasPriceTooLow, s)
           | Some mgp \<Rightarrow>
               if is_check_only (st_env s) \<and> gas_price fee < get_local_min_gas_price cfg c d
               then (Err Core_GasPriceTooLow, s)
               else if gas_price fee < mgp then (Err Core_GasPriceTooLow, s)
               else (Ok (), s)))"

fun count_signers :: "signer_info list \<Rightarrow> u64 \<Rightarrow> u64 \<Rightarrow> (u64 \<times> u64) option" where
  "count_signers [] num_signature num_multisig_signer = Some (num_signature, num_multisig_signer)"
| "count_signers (si # rest) num_signature num_multisig_signer =
     (case si_address_spec si of
        Spec_Signature _ \<Rightarrow>
          (case checked_add num_signature 1 of None \<Rightarrow> None
           | Some n \<Rightarrow> count_signers rest n num_multisig_signer)
      | Spec_Multisig config \<Rightarrow>
          (case checked_add num_multisig_signer (of_nat (length (mc_signers config))) of None \<Rightarrow> None
           | Some n \<Rightarrow> count_signers rest num_signature n)
      | Spec_Internal _ \<Rightarrow> count_signers rest num_signature num_multisig_signer)"

definition compute_signature_verification_cost :: "core_params \<Rightarrow> signer_info list \<Rightarrow> u64 option" where
  "compute_signature_verification_cost p sis =
     (case count_signers sis 0 0 of None \<Rightarrow> None
      | Some (num_signature, num_multisig_signer) \<Rightarrow>
          (case checked_mul num_signature (gc_auth_signature (cp_gas_costs p)) of None \<Rightarrow> None
           | Some signature_cost \<Rightarrow>
               (case checked_mul num_multisig_signer (gc_auth_multisig_signer (cp_gas_costs p)) of None \<Rightarrow> None
                | Some multisig_signer_cost \<Rightarrow> checked_add signature_cost multisig_signer_cost)))"

section \<open>Transaction hooks\<close>

datatype auth_decision = Continue | Stop

definition approve_raw_tx :: "bytes \<Rightarrow> (('m, 'g) sdk_state, core_error, unit) rust_op" where
  "approve_raw_tx tx s =
     (if length tx > unat (cp_max_tx_size (core_params_now s)) then (Err Core_OversizedTransaction, s)
      else (Ok (), s))"

fun check_proof_sizes :: "u32 \<Rightarrow> auth_proof list \<Rightarrow> core_error + unit" where
  "check_proof_sizes limit [] = Inr ()"
| "check_proof_sizes limit (aproof # rest) =
     (case aproof of
        Proof_Multisig config \<Rightarrow>
          if length config > unat limit then Inl Core_MultisigTooManySigners else check_proof_sizes limit rest
      | _ \<Rightarrow> check_proof_sizes limit rest)"

definition approve_unverified_tx :: "unverified_transaction \<Rightarrow> (('m, 'g) sdk_state, core_error, unit) rust_op" where
  "approve_unverified_tx utx s =
     (if length (ut_proofs utx) > unat (cp_max_tx_signers (core_params_now s)) then (Err Core_TooManyAuth, s)
      else case check_proof_sizes (cp_max_multisig_signers (core_params_now s)) (ut_proofs utx) of
        Inl e \<Rightarrow> (Err e, s) | Inr _ \<Rightarrow> (Ok (), s))"

definition core_authenticate_tx :: "ctx \<Rightarrow> transaction \<Rightarrow> (('m, 'g) sdk_state, core_error, auth_decision) rust_op" where
  "core_authenticate_tx c tx s =
     (if (case ai_not_before (tx_auth_info tx) of Some not_before \<Rightarrow> ctx_round c < not_before | None \<Rightarrow> False)
      then (Err Core_ExpiredTransaction, s)
      else if (case ai_not_after (tx_auth_info tx) of Some not_after \<Rightarrow> ctx_round c > not_after | None \<Rightarrow> False)
      then (Err Core_ExpiredTransaction, s)
      else (Ok Continue, s))"

definition charge_tx_size :: "core_config \<Rightarrow> core_params \<Rightarrow> (('m, 'g) sdk_state, core_error, unit) rust_op" where
  "charge_tx_size cfg p s =
     (case tx_size (st_env s) of None \<Rightarrow> (Panic, s)
      | Some sz \<Rightarrow>
          bind_op (ok_or_op Core_GasOverflow (checked_mul (gc_tx_byte (cp_gas_costs p)) (ucast sz))) (use_tx_gas cfg) s)"

definition charge_signatures :: "core_config \<Rightarrow> core_params \<Rightarrow> (('m, 'g) sdk_state, core_error, unit) rust_op" where
  "charge_signatures cfg p s =
     (case env_auth_info (st_env s) of None \<Rightarrow> (Panic, s)
      | Some ai \<Rightarrow>
          bind_op (ok_or_op Core_GasOverflow (compute_signature_verification_cost p (ai_signer_info ai))) (use_tx_gas cfg) s)"

definition core_before_handle_call :: "core_config \<Rightarrow> ctx \<Rightarrow> call \<Rightarrow> (('m, 'g) sdk_state, core_error, unit) rust_op" where
  "core_before_handle_call cfg c cl s =
     (let p = core_params_now s in
      case env_auth_info (st_env s) of None \<Rightarrow> (Panic, s)
      | Some ai \<Rightarrow>
          if fee_gas_of (ai_fee ai) > cp_max_batch_gas p then (Err Core_GasOverflow, s)
          else if fee_consensus_messages (ai_fee ai) > ctx_max_messages c then (Err Core_OutOfMessageSlots, s)
          else if env_internal (st_env s) then (Ok (), s)
          else seq_op (enforce_min_gas_price cfg c cl)
                (seq_op (charge_tx_size cfg p)
                  (seq_op (charge_signatures cfg p)
                    (case call_format_of cl of
                       Plain \<Rightarrow> return_op ()
                     | EncryptedX25519DeoxysII \<Rightarrow> use_tx_gas cfg (gc_callformat_x25519_deoxysii (cp_gas_costs p))))) s)"

definition storage_gas :: "core_params \<Rightarrow> nat \<Rightarrow> u64" where
  "storage_gas p storage_update_bytes =
     (if gc_storage_byte (cp_gas_costs p) > 0
      then saturating_mul (gc_storage_byte (cp_gas_costs p)) (of_nat storage_update_bytes) else 0)"

definition message_gas :: "core_params \<Rightarrow> u32 \<Rightarrow> nat \<Rightarrow> u64" where
  "message_gas p max_messages emitted_message_count =
     (let message_gas_cost = (case checked_div (cp_max_batch_gas p) (ucast max_messages) of Some g \<Rightarrow> g | None \<Rightarrow> - 1)
      in saturating_mul message_gas_cost (of_nat emitted_message_count))"

definition core_after_handle_call ::
    "core_config \<Rightarrow> (('m, 'g) sdk_state \<Rightarrow> nat) \<Rightarrow> ctx \<Rightarrow> (('m, 'g) sdk_state, core_error, unit) rust_op" where
  "core_after_handle_call cfg pend c s =
     (if env_internal (st_env s) then (Ok (), s)
      else
        let p = core_params_now s;
            sg = storage_gas p (pend s);
            mg = message_gas p (ctx_max_messages c) (emitted_messages_local_count s);
            used_gas = used_tx_gas s;
            s = set_used_tx_gas used_gas s;
            max_gas = max used_gas (max sg mg)
        in case use_tx_gas cfg (max_gas - used_gas) s of
             (Panic, s) \<Rightarrow> (Panic, s)
           | (maybe_out_of_gas, s) \<Rightarrow>
               (maybe_out_of_gas,
                if cfg_emit_gas_used_events cfg
                then (let g = used_tx_gas s; s = set_used_tx_gas g s
                      in emit_unconditional_event (sdk_event_key (Ev_GasUsed g)) (Ev_GasUsed g) s)
                else s))"

section \<open>Block hooks\<close>

definition min_gas_price_update :: "u128 \<Rightarrow> u128 \<Rightarrow> u128 \<Rightarrow> u128 \<Rightarrow> u128" where
  "min_gas_price_update gas_used target_gas_used min_price_max_change_denominator current_price =
     (if target_gas_used = 0 \<or> min_price_max_change_denominator = 0 then current_price
      else
        let delta = saturating_mul (max gas_used target_gas_used - min gas_used target_gas_used) 100 div target_gas_used;
            price_change = (saturating_mul current_price delta div 100) div min_price_max_change_denominator
        in if gas_used > target_gas_used then saturating_add current_price price_change
           else saturating_sub current_price price_change)"

definition core_begin_block :: "ctx \<Rightarrow> ('m, 'g) sdk_state \<Rightarrow> ('m, 'g) sdk_state" where
  "core_begin_block c s =
     (let epoch = ctx_epoch c; previous_epoch = core_last_epoch (st_store s);
          s = (if epoch \<noteq> previous_epoch then upd_store (\<lambda>st. st\<lparr>core_last_epoch := epoch\<rparr>) s else s)
      in upd_block (\<lambda>b. b\<lparr>bv_epoch_changed := Some (epoch \<noteq> previous_epoch)\<rparr>) s)"

definition new_min_price :: "core_params \<Rightarrow> u128 \<Rightarrow> u128 \<Rightarrow> denomination \<Rightarrow> u128 \<Rightarrow> u128" where
  "new_min_price p gas_used target_gas_used d price =
     (let new_min_price = min_gas_price_update gas_used target_gas_used
            (ucast (dm_min_price_max_change_denominator (cp_dynamic_min_gas_price p))) price
      in case fmlookup (cp_min_gas_price p) d of
           Some min_price \<Rightarrow> if new_min_price < min_price then min_price else new_min_price
         | None \<Rightarrow> new_min_price)"

definition core_end_block :: "('m, 'g) sdk_state \<Rightarrow> ('m, 'g) sdk_state" where
  "core_end_block s =
     (let p = core_params_now s in
      if \<not> dm_enabled (cp_dynamic_min_gas_price p) then s
      else
        let gas_used = ucast (used_batch_gas s);
            max_gas = ucast (max_batch_gas s);
            target_gas_used = saturating_mul max_gas
              (ucast (dm_target_block_gas_usage_percentage (cp_dynamic_min_gas_price p))) div 100;
            mgp = fmmap_keys (new_min_price p gas_used target_gas_used) (min_gas_prices s)
        in upd_store (\<lambda>st. st\<lparr>core_dynamic_min_gas_price := Some mgp\<rparr>) s)"

section \<open>The search of the gas estimation\<close>

text \<open>
  The loop of \<open>query_estimate_gas\<close>. \<open>sim gas\<close> simulates the transaction with a gas limit and reports
  failures; \<open>n\<close> is the number of iterations left (\<open>bs_max_iters\<close> at the start). The result is
  the upper end of the interval, or the error that is returned early.
\<close>

definition sim_out_of_gas :: "core_error \<Rightarrow> bool" where
  "sim_out_of_gas e = (case e of Core_TxSimulationFailed failure \<Rightarrow> is_error_core_out_of_gas failure | _ \<Rightarrow> False)"

fun estimate_loop ::
    "(u64 \<Rightarrow> 's \<Rightarrow> (core_error + u64) \<times> 's) \<Rightarrow> u64 \<Rightarrow> bool \<Rightarrow> nat \<Rightarrow> u128 \<Rightarrow> u128 \<Rightarrow> bool \<Rightarrow> bool \<Rightarrow> bool \<Rightarrow>
     's \<Rightarrow> (core_error + u128) \<times> 's" where
  "estimate_loop sim cap propagate_failures 0 lo hi fast_path_tried has_succeeded tried_with_max_gas s = (Inr hi, s)"
| "estimate_loop sim cap propagate_failures (Suc n) lo hi fast_path_tried has_succeeded tried_with_max_gas s =
     (if \<not> lo + 1 < hi then (Inr hi, s)
      else
        let mid = (hi + lo) div 2 in
        case sim (ucast mid) s of
          (Inr r, s1) \<Rightarrow>
            if \<not> fast_path_tried \<and> lo + 1 < mid then
              (case sim r s1 of
                 (Inl _, s2) \<Rightarrow> estimate_loop sim cap propagate_failures n lo mid True True tried_with_max_gas s2
               | (Inr _, s2) \<Rightarrow>
                   (case sim (r - 1) s2 of
                      (Inl _, s3) \<Rightarrow> (Inr (ucast r), s3)
                    | (Inr _, s3) \<Rightarrow> estimate_loop sim cap propagate_failures n lo (ucast r) True True tried_with_max_gas s3))
            else estimate_loop sim cap propagate_failures n lo mid fast_path_tried True tried_with_max_gas s1
        | (Inl e, s1) \<Rightarrow>
            if has_succeeded \<or> sim_out_of_gas e
            then estimate_loop sim cap propagate_failures n mid hi fast_path_tried has_succeeded tried_with_max_gas s1
            else
              (case (if \<not> tried_with_max_gas then sim cap s1 else (Inl e, s1)) of
                 (Inr _, s2) \<Rightarrow> estimate_loop sim cap propagate_failures n mid hi fast_path_tried True True s2
               | (Inl e', s2) \<Rightarrow> if propagate_failures then (Inl e', s2) else (Inr hi, s2)))"

text \<open>The search and what follows it: \<open>final\<close> is the last simulation with the whole cap.\<close>

definition estimate_search ::
    "(u64 \<Rightarrow> 's \<Rightarrow> (core_error + u64) \<times> 's) \<Rightarrow> (u64 \<Rightarrow> bool \<Rightarrow> 's \<Rightarrow> (core_error + u64) \<times> 's) \<Rightarrow>
     u64 \<Rightarrow> bool \<Rightarrow> u64 \<Rightarrow> u64 \<Rightarrow> 's \<Rightarrow> (core_error + u64) \<times> 's" where
  "estimate_search sim final cap propagate_failures bs_max_iters extra_gas s =
     (case estimate_loop sim cap propagate_failures (unat bs_max_iters) 10 (ucast cap) False False False s of
        (Inl e, s1) \<Rightarrow> (Inl e, s1)
      | (Inr hi, s1) \<Rightarrow>
          (case (if hi = ucast cap then final cap propagate_failures s1 else (Inr (ucast hi), s1)) of
             (Inl e, s2) \<Rightarrow> (Inl e, s2)
           | (Inr est, s2) \<Rightarrow> (Inr (min (saturating_add est extra_gas) cap), s2)))"

section \<open>Gas accounting\<close>

text \<open>What the gas operations leave alone.\<close>

definition only_gas :: "('m, 'g) sdk_state \<Rightarrow> ('m, 'g) sdk_state \<Rightarrow> bool" where
  "only_gas s t \<longleftrightarrow> st_store t = st_store s \<and> st_env t = st_env s \<and> st_parents t = st_parents s \<and>
     st_messages t = st_messages s \<and> st_events t = st_events s \<and>
     (\<exists>g. st_block_values t = (st_block_values s)\<lparr>bv_gas_used := g\<rparr>)"

lemma only_gas_refl [simp]: "only_gas s s"
  by (auto simp: only_gas_def intro: exI [of _ "bv_gas_used (st_block_values s)"])

lemma only_gas_trans: "only_gas s t \<Longrightarrow> only_gas t u \<Longrightarrow> only_gas s u"
  by (auto simp: only_gas_def)

lemma only_gas_local [simp]: "only_gas s (set_used_tx_gas g t) \<longleftrightarrow> only_gas s t"
  by (simp add: only_gas_def set_used_tx_gas_def upd_local_def)

lemma used_gas_simps [simp]:
  "used_tx_gas (set_used_tx_gas g s) = g" "used_batch_gas (set_used_tx_gas g s) = used_batch_gas s"
  "used_tx_gas (upd_block f s) = used_tx_gas s" "max_batch_gas (set_used_tx_gas g s) = max_batch_gas s"
  "st_env (set_used_tx_gas g s) = st_env s" "max_batch_gas (upd_block f s) = max_batch_gas s"
  by (simp_all add: used_tx_gas_def used_batch_gas_def set_used_tx_gas_def max_batch_gas_def)

lemma use_batch_gas_only: "use_batch_gas gas s = (r, t) \<Longrightarrow> only_gas s t \<and> used_tx_gas t = used_tx_gas s"
  by (auto simp: use_batch_gas_def only_gas_def upd_block_def used_tx_gas_def
      split: if_splits option.splits intro: exI [of _ "bv_gas_used (st_block_values s)"])

lemma use_batch_gas_Ok:
  assumes "use_batch_gas gas s = (Ok (), t)" "\<not> is_check_only (st_env s)"
  shows "unat (used_batch_gas t) = unat (used_batch_gas s) + unat gas" "used_batch_gas t \<le> max_batch_gas s"
proof -
  from assms obtain g where g: "checked_add (used_batch_gas s) gas = Some g" "\<not> g > max_batch_gas s"
      "t = upd_block (\<lambda>b. b\<lparr>bv_gas_used := Some g\<rparr>) s"
    by (auto simp: use_batch_gas_def split: if_splits option.splits)
  then show "unat (used_batch_gas t) = unat (used_batch_gas s) + unat gas" "used_batch_gas t \<le> max_batch_gas s"
    by (simp_all add: checked_add_Some used_batch_gas_def)
qed

lemma use_batch_gas_check: "is_check_only (st_env s) \<Longrightarrow> use_batch_gas gas s = (Ok (), s)"
  by (simp add: use_batch_gas_def)

lemma use_batch_gas_Err: "use_batch_gas gas s = (Err e, t) \<Longrightarrow> t = s \<and> e = Core_Abort BatchOutOfGas"
  by (auto simp: use_batch_gas_def split: if_splits option.splits)

lemma use_batch_gas_Panic: "use_batch_gas gas s \<noteq> (Panic, t)"
  by (auto simp: use_batch_gas_def split: if_splits option.splits)

text \<open>The three ways \<open>use_tx_gas\<close> can go inside a transaction.\<close>

lemma use_tx_gas_cases:
  assumes "env_auth_info (st_env s) = Some ai" "use_tx_gas cfg gas s = (r, t)"
  obtains (overflow) "r = Err Core_GasOverflow" "t = set_used_tx_gas (used_tx_gas s) s"
      "2 ^ 64 \<le> unat (used_tx_gas s) + unat gas"
    | (limit) wanted where "r = Err (core_out_of_gas cfg (fee_gas_of (ai_fee ai)) wanted)"
      "t = set_used_tx_gas (used_tx_gas s) s" "unat wanted = unat (used_tx_gas s) + unat gas"
      "wanted > fee_gas_of (ai_fee ai)"
    | (batch) "r = Err (Core_Abort BatchOutOfGas)" "t = set_used_tx_gas (used_tx_gas s) s"
    | (used) wanted u where "r = Ok ()" "unat wanted = unat (used_tx_gas s) + unat gas"
      "wanted \<le> fee_gas_of (ai_fee ai)" "use_batch_gas gas (set_used_tx_gas (used_tx_gas s) s) = (Ok (), u)"
      "t = set_used_tx_gas wanted u"
proof (cases "checked_add (used_tx_gas s) gas")
  case None
  then have "2 ^ 64 \<le> unat (used_tx_gas s) + unat gas" by (simp add: checked_add_None)
  then show ?thesis using overflow assms None by (simp add: use_tx_gas_def Let_def)
next
  case (Some wanted)
  then have w: "unat wanted = unat (used_tx_gas s) + unat gas" by (simp add: checked_add_Some)
  let ?s = "set_used_tx_gas (used_tx_gas s) s"
  obtain rb u where b: "use_batch_gas gas ?s = (rb, u)" by (cases "use_batch_gas gas ?s")
  show ?thesis
  proof (cases "wanted > fee_gas_of (ai_fee ai)")
    case True
    then show ?thesis using limit [of wanted] w assms Some by (simp add: use_tx_gas_def Let_def)
  next
    case False
    show ?thesis
    proof (cases rb)
      case (Ok x)
      then show ?thesis using used [of wanted u] w False assms Some b
        by (simp add: use_tx_gas_def Let_def seq_op_def update_op_def)
    next
      case (Err e)
      then have "u = ?s" "e = Core_Abort BatchOutOfGas" using b use_batch_gas_Err by blast+
      then show ?thesis using batch False assms Some b Err by (simp add: use_tx_gas_def Let_def seq_op_def)
    next
      case Panic
      then show ?thesis using b use_batch_gas_Panic by blast
    qed
  qed
qed

lemma use_tx_gas_no_tx: "env_auth_info (st_env s) = None \<Longrightarrow> use_tx_gas cfg gas s = (Panic, s)"
  by (simp add: use_tx_gas_def)

lemma use_tx_gas_Ok:
  assumes "use_tx_gas cfg gas s = (Ok (), t)"
  obtains ai where "env_auth_info (st_env s) = Some ai"
    "unat (used_tx_gas t) = unat (used_tx_gas s) + unat gas" "used_tx_gas t \<le> fee_gas_of (ai_fee ai)"
    "is_check_only (st_env s) \<longrightarrow> used_batch_gas t = used_batch_gas s"
    "\<not> is_check_only (st_env s) \<longrightarrow> unat (used_batch_gas t) = unat (used_batch_gas s) + unat gas \<and>
       used_batch_gas t \<le> max_batch_gas s"
    "only_gas s t"
proof (cases "env_auth_info (st_env s)")
  case None
  then show ?thesis using assms by (simp add: use_tx_gas_def)
next
  case (Some ai)
  from Some assms show ?thesis
  proof (cases rule: use_tx_gas_cases)
    case (used wanted u)
    have og: "only_gas s u" using use_batch_gas_only [OF used(4)] only_gas_trans [of s "set_used_tx_gas (used_tx_gas s) s" u]
      by simp
    show ?thesis
    proof (cases "is_check_only (st_env s)")
      case True
      then have "u = set_used_tx_gas (used_tx_gas s) s"
        using used(4) by (simp add: use_batch_gas_check)
      then show ?thesis using that [OF Some] used True og by simp
    next
      case False
      then show ?thesis using that [OF Some] used og use_batch_gas_Ok [OF used(4)] by simp
    qed
  qed simp_all
qed

lemma use_tx_gas_spec:
  assumes "use_tx_gas cfg gas s = (Ok (), t)" "env_auth_info (st_env s) = Some ai"
  shows "unat (used_tx_gas t) = unat (used_tx_gas s) + unat gas" "used_tx_gas t \<le> fee_gas_of (ai_fee ai)"
  using assms(2) by (auto intro: use_tx_gas_Ok [OF assms(1)])

lemma use_tx_gas_Err:
  assumes "use_tx_gas cfg gas s = (Err e, t)"
  shows "t = set_used_tx_gas (used_tx_gas s) s" "env_auth_info (st_env s) \<noteq> None"
    "e = Core_GasOverflow \<or> e = Core_Abort BatchOutOfGas \<or> (\<exists>l w. e = Core_OutOfGas l w)"
proof -
  show ai: "env_auth_info (st_env s) \<noteq> None" using assms use_tx_gas_no_tx [of s cfg gas] by auto
  then obtain ai where "env_auth_info (st_env s) = Some ai" by blast
  from this assms have "t = set_used_tx_gas (used_tx_gas s) s \<and>
      (e = Core_GasOverflow \<or> e = Core_Abort BatchOutOfGas \<or> (\<exists>l w. e = Core_OutOfGas l w))"
    by (cases rule: use_tx_gas_cases) (auto simp: core_out_of_gas_def)
  then show "t = set_used_tx_gas (used_tx_gas s) s"
    "e = Core_GasOverflow \<or> e = Core_Abort BatchOutOfGas \<or> (\<exists>l w. e = Core_OutOfGas l w)" by auto
qed

lemma use_tx_gas_Panic: "use_tx_gas cfg gas s = (Panic, t) \<Longrightarrow> env_auth_info (st_env s) = None \<and> t = s"
proof (cases "env_auth_info (st_env s)")
  case (Some ai)
  assume "use_tx_gas cfg gas s = (Panic, t)"
  from Some this show ?thesis by (cases rule: use_tx_gas_cases) auto
qed (simp add: use_tx_gas_def)

lemma use_tx_gas_only:
  assumes "use_tx_gas cfg gas s = (r, t)"
  shows "only_gas s t"
proof (cases r)
  case (Ok x)
  with assms show ?thesis by (cases x) (auto elim: use_tx_gas_Ok)
next
  case (Err e)
  with assms use_tx_gas_Err(1) [of cfg gas s e t] show ?thesis by simp
next
  case Panic
  with assms use_tx_gas_Panic [of cfg gas s t] show ?thesis by simp
qed

text \<open>The invariant of the batch: its limit is never exceeded.\<close>

definition batch_gas_inv :: "('m, 'g) sdk_state \<Rightarrow> bool" where
  "batch_gas_inv s \<longleftrightarrow> used_batch_gas s \<le> max_batch_gas s"

lemma use_tx_gas_batch_inv: "keeps batch_gas_inv (use_tx_gas cfg gas)"
proof (rule keepsI)
  fix s t :: "('a, 'b) sdk_state" and r
  assume run: "use_tx_gas cfg gas s = (r, t)" and i: "batch_gas_inv s"
  have m: "max_batch_gas t = max_batch_gas s"
    using use_tx_gas_only [OF run] by (simp add: only_gas_def max_batch_gas_def)
  show "batch_gas_inv t"
  proof (cases r)
    case (Ok x)
    then show ?thesis using run i m by (cases x) (auto elim!: use_tx_gas_Ok simp: batch_gas_inv_def)
  next
    case (Err e)
    then show ?thesis using run i use_tx_gas_Err(1) [of cfg gas s e t] by (simp add: batch_gas_inv_def)
  next
    case Panic
    then show ?thesis using run i use_tx_gas_Panic [of cfg gas s t] by simp
  qed
qed

section \<open>Gas prices\<close>

lemma change_le:
  assumes "d \<le> t"
  shows "min (p * (min (d * 100) m div t)) m div 100 div e \<le> p div (e::nat)"
proof -
  have "min (d * 100) m div t \<le> 100"
  proof (cases "t = 0")
    case False
    have "min (d * 100) m \<le> t * 100" using assms by simp
    then have "min (d * 100) m div t \<le> (t * 100) div t" by (rule div_le_mono)
    then show ?thesis using False by simp
  qed simp
  then have "min (p * (min (d * 100) m div t)) m \<le> p * 100"
    by (meson min.coboundedI1 mult_le_mono2)
  then have "min (p * (min (d * 100) m div t)) m div 100 \<le> (p * 100) div 100" by (rule div_le_mono)
  then show ?thesis by (simp add: div_le_mono)
qed

text \<open>The change of price in one block, on numbers.\<close>

definition price_change :: "u128 \<Rightarrow> u128 \<Rightarrow> u128 \<Rightarrow> u128 \<Rightarrow> nat" where
  "price_change gas_used target den price =
     (let diff = max (unat gas_used) (unat target) - min (unat gas_used) (unat target);
          delta = min (diff * 100) (2 ^ LENGTH(128) - 1) div unat target
      in min (unat price * delta) (2 ^ LENGTH(128) - 1) div 100 div unat den)"

lemma unat_100: "unat (100 :: u128) = 100"
  by simp

lemma min_gas_price_update_nat:
  assumes "target \<noteq> 0" "den \<noteq> 0"
  shows "unat (min_gas_price_update gas_used target den price) =
    (if gas_used > target then min (unat price + price_change gas_used target den price) (2 ^ LENGTH(128) - 1)
     else unat price - price_change gas_used target den price)"
proof (cases "gas_used > target")
  case True
  then have "unat target \<le> unat gas_used" "max gas_used target = gas_used" "min gas_used target = target"
    "unat (gas_used - target) = unat gas_used - unat target"
    by (simp_all add: word_less_nat_alt unat_sub word_le_nat_alt max_def min_def)
  with True assms show ?thesis
    by (simp only: min_gas_price_update_def price_change_def Let_def if_False if_True de_Morgan_disj simp_thms
        unat_saturating_add unat_div unat_saturating_mul max_absorb1 min_absorb2 unat_100)
next
  case False
  then have "unat gas_used \<le> unat target" "max gas_used target = target" "min gas_used target = gas_used"
    "unat (target - gas_used) = unat target - unat gas_used"
    by (auto simp: word_less_nat_alt unat_sub word_le_nat_alt max_def min_def word_unat_eq_iff)
  with False assms show ?thesis
    by (simp only: min_gas_price_update_def price_change_def Let_def if_False if_True de_Morgan_disj simp_thms
        unat_saturating_sub unat_div unat_saturating_mul max_absorb2 min_absorb1 unat_100)
qed

lemma price_change_le:
  assumes "max (unat gas_used) (unat target) - min (unat gas_used) (unat target) \<le> unat target"
  shows "price_change gas_used target den price \<le> unat price div unat den"
  unfolding price_change_def Let_def by (rule change_le [OF assms])

lemma min_gas_price_update_down:
  assumes "gas_used \<le> target"
  shows "unat price - unat price div unat den \<le> unat (min_gas_price_update gas_used target den price)"
    and "unat (min_gas_price_update gas_used target den price) \<le> unat price"
proof -
  have "max (unat gas_used) (unat target) - min (unat gas_used) (unat target) \<le> unat target"
    using assms by (simp add: word_le_nat_alt)
  note price_change_le [OF this, of den price]
  moreover have "unat (min_gas_price_update gas_used target den price) =
      (if target = 0 \<or> den = 0 then unat price else unat price - price_change gas_used target den price)"
    using assms min_gas_price_update_nat [of target den gas_used price]
    by (auto simp: min_gas_price_update_def)
  ultimately show "unat price - unat price div unat den \<le> unat (min_gas_price_update gas_used target den price)"
    "unat (min_gas_price_update gas_used target den price) \<le> unat price"
    by (auto intro: diff_le_mono2)
qed

lemma min_gas_price_update_up:
  assumes "target < gas_used"
  shows "unat price \<le> unat (min_gas_price_update gas_used target den price)"
    and "unat gas_used \<le> 2 * unat target \<Longrightarrow>
      unat (min_gas_price_update gas_used target den price) \<le> unat price + unat price div unat den"
proof -
  have eq: "unat (min_gas_price_update gas_used target den price) =
      (if target = 0 \<or> den = 0 then unat price
       else min (unat price + price_change gas_used target den price) (2 ^ LENGTH(128) - 1))"
    using assms min_gas_price_update_nat [of target den gas_used price]
    by (auto simp: min_gas_price_update_def)
  have "unat price \<le> 2 ^ LENGTH(128) - 1" using unat_lt [of price] by linarith
  then show "unat price \<le> unat (min_gas_price_update gas_used target den price)"
    unfolding eq by (simp only: if_split min.bounded_iff le_add1 order_refl simp_thms)
  assume "unat gas_used \<le> 2 * unat target"
  then have "max (unat gas_used) (unat target) - min (unat gas_used) (unat target) \<le> unat target"
    using assms by (simp add: word_less_nat_alt)
  then have "price_change gas_used target den price \<le> unat price div unat den" by (rule price_change_le)
  then have "unat price + price_change gas_used target den price \<le> unat price + unat price div unat den" by simp
  then show "unat (min_gas_price_update gas_used target den price) \<le> unat price + unat price div unat den"
    unfolding eq by (cases "target = 0 \<or> den = 0") (simp_all only: if_True if_False le_add1 min.coboundedI1)
qed

text \<open>After a block with dynamic prices no price is below the configured minimum.\<close>

lemma new_min_price_ge:
  "fmlookup (cp_min_gas_price p) d = Some m \<Longrightarrow> m \<le> new_min_price p gas_used target d price"
  by (auto simp: new_min_price_def Let_def)

lemma core_end_block_prices:
  assumes "dm_enabled (cp_dynamic_min_gas_price (core_params_now s))"
  obtains gas_used target where "min_gas_prices (core_end_block s) =
    fmmap_keys (new_min_price (core_params_now s) gas_used target) (min_gas_prices s)"
  using that assms by (simp add: min_gas_prices_def core_end_block_def Let_def)

section \<open>Checks around a call\<close>

fun num_signature :: "signer_info list \<Rightarrow> nat" where
  "num_signature [] = 0"
| "num_signature (si # rest) = (case si_address_spec si of Spec_Signature _ \<Rightarrow> 1 | _ \<Rightarrow> 0) + num_signature rest"

fun num_multisig :: "signer_info list \<Rightarrow> nat" where
  "num_multisig [] = 0"
| "num_multisig (si # rest) =
     (case si_address_spec si of Spec_Multisig c \<Rightarrow> length (mc_signers c) mod 2 ^ 64 | _ \<Rightarrow> 0) + num_multisig rest"

lemma count_signers_Some:
  "count_signers sis a b = Some (x, y) \<Longrightarrow>
     unat x = unat a + num_signature sis \<and> unat y = unat b + num_multisig sis"
proof (induction sis arbitrary: a b)
  case (Cons si sis)
  show ?case
  proof (cases "si_address_spec si")
    case (Spec_Signature spec)
    with Cons.prems obtain n where "checked_add a 1 = Some n" "count_signers sis n b = Some (x, y)"
      by (auto split: option.splits)
    then show ?thesis using Cons.IH Spec_Signature by (auto simp: checked_add_Some)
  next
    case (Spec_Multisig c)
    with Cons.prems obtain n where "checked_add b (of_nat (length (mc_signers c))) = Some n"
        "count_signers sis a n = Some (x, y)"
      by (auto split: option.splits)
    then show ?thesis using Cons.IH Spec_Multisig by (auto simp: checked_add_Some unat_of_nat)
  next
    case (Spec_Internal i)
    then show ?thesis using Cons by simp
  qed
qed simp

lemma signature_cost_nat:
  assumes "compute_signature_verification_cost p sis = Some cost"
  shows "unat cost = num_signature sis * unat (gc_auth_signature (cp_gas_costs p)) +
    num_multisig sis * unat (gc_auth_multisig_signer (cp_gas_costs p))"
proof -
  from assms obtain x y a b where "count_signers sis 0 0 = Some (x, y)"
    "checked_mul x (gc_auth_signature (cp_gas_costs p)) = Some a"
    "checked_mul y (gc_auth_multisig_signer (cp_gas_costs p)) = Some b" "checked_add a b = Some cost"
    by (auto simp: compute_signature_verification_cost_def split: option.splits)
  then show ?thesis using count_signers_Some [of sis 0 0 x y] by (simp add: checked_add_Some checked_mul_Some)
qed

lemma enforce_min_gas_price_Ok:
  assumes "enforce_min_gas_price cfg c cl s = (Ok (), t)"
  shows "t = s" and "call_method cl |\<in>| cfg_min_gas_price_exempt_methods cfg \<or>
    (\<exists>ai p. env_auth_info (st_env s) = Some ai \<and> min_gas_price (denom (fee_amount_of (ai_fee ai))) s = Some p \<and>
       p \<le> gas_price (ai_fee ai) \<and>
       (is_check_only (st_env s) \<longrightarrow> get_local_min_gas_price cfg c (denom (fee_amount_of (ai_fee ai))) \<le> gas_price (ai_fee ai)))"
  using assms by (auto simp: enforce_min_gas_price_def Let_def split: if_splits option.splits)

lemma bind_ok_or_use_gas:
  "bind_op (ok_or_op Core_GasOverflow x) (use_tx_gas cfg) s = (Ok (), t) \<Longrightarrow>
   \<exists>g. x = Some g \<and> use_tx_gas cfg g s = (Ok (), t)"
  by (cases x) (auto simp: ok_or_op_def throw_op_def return_op_def bind_op_def)

text \<open>A call that passed \<open>before_handle_call\<close> has paid for its size, signatures and call format.\<close>

lemma core_before_handle_call_Ok:
  assumes "core_before_handle_call cfg c cl s = (Ok (), t)" "\<not> env_internal (st_env s)"
  obtains ai sz cost where "env_auth_info (st_env s) = Some ai" "tx_size (st_env s) = Some sz"
    "fee_gas_of (ai_fee ai) \<le> cp_max_batch_gas (core_params_now s)"
    "fee_consensus_messages (ai_fee ai) \<le> ctx_max_messages c"
    "call_method cl |\<notin>| cfg_min_gas_price_exempt_methods cfg \<longrightarrow>
       (\<exists>p. min_gas_price (denom (fee_amount_of (ai_fee ai))) s = Some p \<and> p \<le> gas_price (ai_fee ai))"
    "compute_signature_verification_cost (core_params_now s) (ai_signer_info ai) = Some cost"
    "unat (used_tx_gas t) = unat (used_tx_gas s) + unat (gc_tx_byte (cp_gas_costs (core_params_now s))) * unat sz +
       unat cost + (if is_encrypted (call_format_of cl)
         then unat (gc_callformat_x25519_deoxysii (cp_gas_costs (core_params_now s))) else 0)"
    "used_tx_gas t \<le> fee_gas_of (ai_fee ai)"
proof -
  let ?p = "core_params_now s"
  from assms(1) obtain ai where ai: "env_auth_info (st_env s) = Some ai"
    by (auto simp: core_before_handle_call_def Let_def split: option.splits)
  from assms ai obtain s1 s2 where limits: "fee_gas_of (ai_fee ai) \<le> cp_max_batch_gas ?p"
      "fee_consensus_messages (ai_fee ai) \<le> ctx_max_messages c"
    and e: "enforce_min_gas_price cfg c cl s = (Ok (), s)"
    and z: "charge_tx_size cfg ?p s = (Ok (), s1)" and g: "charge_signatures cfg ?p s1 = (Ok (), s2)"
    and f: "(case call_format_of cl of Plain \<Rightarrow> return_op ()
        | EncryptedX25519DeoxysII \<Rightarrow> use_tx_gas cfg (gc_callformat_x25519_deoxysii (cp_gas_costs ?p))) s2 = (Ok (), t)"
    using enforce_min_gas_price_Ok(1)
    by (fastforce simp: core_before_handle_call_def Let_def seq_op_def bind_op_Ok_iff split: if_splits)
  from z obtain sz b where sz: "tx_size (st_env s) = Some sz"
      "checked_mul (gc_tx_byte (cp_gas_costs ?p)) (ucast sz) = Some b" "use_tx_gas cfg b s = (Ok (), s1)"
    by (auto simp: charge_tx_size_def split: option.splits dest!: bind_ok_or_use_gas)
  note u1 = use_tx_gas_only [OF sz(3)]
  from g u1 ai obtain cost where cost: "compute_signature_verification_cost ?p (ai_signer_info ai) = Some cost"
      "use_tx_gas cfg cost s1 = (Ok (), s2)"
    by (auto simp: charge_signatures_def only_gas_def dest!: bind_ok_or_use_gas)
  note u2 = use_tx_gas_only [OF cost(2)]
  have env: "st_env s1 = st_env s" "st_env s2 = st_env s" using u1 u2 by (simp_all add: only_gas_def)
  have size: "unat b = unat (gc_tx_byte (cp_gas_costs ?p)) * unat sz"
    using sz(2) by (simp add: checked_mul_Some unat_ucast_up)
  have used2: "unat (used_tx_gas s2) = unat (used_tx_gas s) + unat b + unat cost" "used_tx_gas s2 \<le> fee_gas_of (ai_fee ai)"
    using use_tx_gas_spec [OF sz(3) ai] use_tx_gas_spec [OF cost(2), of ai] ai env by simp_all
  have used: "unat (used_tx_gas t) = unat (used_tx_gas s2) + (if is_encrypted (call_format_of cl)
      then unat (gc_callformat_x25519_deoxysii (cp_gas_costs ?p)) else 0) \<and> used_tx_gas t \<le> fee_gas_of (ai_fee ai)"
  proof (cases "call_format_of cl")
    case Plain
    then show ?thesis using f used2(2) by (simp add: return_op_def)
  next
    case EncryptedX25519DeoxysII
    with f have "use_tx_gas cfg (gc_callformat_x25519_deoxysii (cp_gas_costs ?p)) s2 = (Ok (), t)" by simp
    from use_tx_gas_spec [OF this, of ai] show ?thesis using ai env EncryptedX25519DeoxysII by simp
  qed
  show thesis
    using that [OF ai sz(1) limits _ cost(1)] enforce_min_gas_price_Ok(2) [OF e] ai size used used2 by auto
qed

lemma unat_diff_max: "unat (max a b - a) = max (unat a) (unat b) - unat (a :: 'a::len word)"
  by (simp add: unat_sub unat_max word_le_nat_alt max_def)

text \<open>After the call the transaction has paid for the most expensive of computation, storage and messages.\<close>

lemma core_after_handle_call_Ok:
  assumes "core_after_handle_call cfg pend c s = (Ok (), t)" "\<not> env_internal (st_env s)"
  shows "used_tx_gas t = max (used_tx_gas s)
      (max (storage_gas (core_params_now s) (pend s))
        (message_gas (core_params_now s) (ctx_max_messages c) (emitted_messages_local_count s)))"
    and "st_store t = st_store s"
proof -
  let ?s = "set_used_tx_gas (used_tx_gas s) s"
  let ?m = "max (storage_gas (core_params_now s) (pend s))
    (message_gas (core_params_now s) (ctx_max_messages c) (emitted_messages_local_count s))"
  from assms obtain u where u: "use_tx_gas cfg (max (used_tx_gas s) ?m - used_tx_gas s) ?s = (Ok (), u)"
      "used_tx_gas t = used_tx_gas u" "st_store t = st_store u"
    by (auto simp: core_after_handle_call_def Let_def used_tx_gas_def set_used_tx_gas_def
        split: if_splits prod.splits outcome.splits)
  from use_tx_gas_Ok [OF u(1)] have "unat (used_tx_gas u) = unat (used_tx_gas s) + unat (max (used_tx_gas s) ?m - used_tx_gas s)"
    by (metis used_gas_simps(1))
  then have "unat (used_tx_gas u) = unat (max (used_tx_gas s) ?m)"
    by (simp add: unat_diff_max unat_max)
  then show "used_tx_gas t = max (used_tx_gas s) ?m" using u(2) by (simp add: word_unat_eq_iff)
  show "st_store t = st_store s"
    using use_tx_gas_only [OF u(1)] u(3) by (simp add: only_gas_def set_used_tx_gas_def)
qed

section \<open>The gas estimation\<close>

text \<open>Whatever the search returns below the cap was simulated successfully.\<close>

lemma ucast_back: "ucast (ucast (r :: u64) :: u128) = r"
  by transfer simp

lemma estimate_loop_simulated:
  "estimate_loop sim cap pf n lo hi fast succ tried s = (Inr h, t) \<Longrightarrow>
   h = hi \<or> (\<exists>s' r s''. sim (ucast h) s' = (Inr r, s''))"
proof (induction n arbitrary: lo hi fast succ tried s)
  case (Suc n)
  show ?case
  proof (cases "lo + 1 < hi")
    case False
    then show ?thesis using Suc.prems by simp
  next
    case True
    let ?mid = "(hi + lo) div 2"
    obtain x s1 where x: "sim (ucast ?mid) s = (x, s1)" by (cases "sim (ucast ?mid) s")
    show ?thesis
    proof (cases x)
      case (Inl e)
      then show ?thesis using Suc.prems Suc.IH x True
        by (auto simp: Let_def split: if_splits prod.splits sum.splits)
    next
      case (Inr r)
      have mid: "\<exists>s' r s''. sim (ucast ?mid) s' = (Inr r, s'')" using x Inr by blast
      have r: "\<exists>s' q s''. sim (ucast (ucast r :: u128)) s' = (Inr q, s'')" if "sim r s1 = (Inr q, s2)" for q s2
        using that by (auto simp: ucast_back)
      from Suc.prems show ?thesis using x Inr True Suc.IH mid r
        by (simp add: Let_def split: if_splits prod.splits sum.splits) (metis | blast)+
    qed
  qed
qed simp

text \<open>
  The search is exact for a transaction that needs a fixed amount of gas: it succeeds from
  \<open>need\<close> on and runs out of gas below. \<open>use\<close> is the gas it reports, at most its limit.
\<close>

definition needs_gas :: "(u64 \<Rightarrow> 's \<Rightarrow> (core_error + u64) \<times> 's) \<Rightarrow> u64 \<Rightarrow> bool" where
  "needs_gas sim need \<longleftrightarrow> (\<forall>g s. (\<exists>x t. sim g s = (x, t) \<and>
     (case x of Inr r \<Rightarrow> need \<le> g \<and> r \<le> g | Inl e \<Rightarrow> g < need \<and> sim_out_of_gas e)))"

lemma needs_gas_fail: "needs_gas sim need \<Longrightarrow> sim g s = (Inl e, t) \<Longrightarrow> g < need \<and> sim_out_of_gas e"
  unfolding needs_gas_def by (metis (mono_tags, lifting) old.sum.simps(5) prod.inject)

lemma needs_gas_success: "needs_gas sim need \<Longrightarrow> sim g s = (Inr r, t) \<Longrightarrow> need \<le> g \<and> r \<le> g"
  unfolding needs_gas_def by (metis (mono_tags, lifting) old.sum.simps(6) prod.inject)

lemma mid_nat:
  assumes "unat lo < unat hi" "unat hi < 2 ^ 64"
  shows "unat ((hi + lo) div 2 :: u128) = (unat hi + unat lo) div 2"
    and "unat (ucast ((hi + lo) div 2) :: u64) = (unat hi + unat lo) div 2"
proof -
  have "unat hi + unat lo < 2 ^ 128" using assms by simp
  then show m: "unat ((hi + lo) div 2 :: u128) = (unat hi + unat lo) div 2"
    by (simp add: unat_div unat_word_ariths)
  have "(unat hi + unat lo) div 2 < 2 ^ 64" using assms by linarith
  then show "unat (ucast ((hi + lo) div 2) :: u64) = (unat hi + unat lo) div 2"
    by (simp add: unsigned_ucast_eq m take_bit_nat_eq_self)
qed

lemma estimate_loop_exact:
  assumes sim: "needs_gas sim need"
  shows "unat lo < unat need \<Longrightarrow> unat need \<le> unat hi \<Longrightarrow> unat hi < 2 ^ 64 \<Longrightarrow> unat hi - unat lo \<le> 2 ^ n \<Longrightarrow>
    fst (estimate_loop sim cap pf n lo hi fast succ tried s) = Inr (ucast need)"
proof (induction n arbitrary: lo hi fast succ tried s)
  case 0
  then have "unat hi = unat need" by simp
  then have "hi = ucast need" by (simp add: word_unat_eq_iff unat_ucast_up)
  then show ?case by simp
next
  case (Suc n)
  have one: "lo + 1 < hi \<longleftrightarrow> unat lo + 1 < unat hi"
    using Suc.prems by (simp add: word_less_nat_alt unat_word_ariths)
  show ?case
  proof (cases "lo + 1 < hi")
    case False
    with one Suc.prems have "unat hi = unat need" by simp
    then have "hi = ucast need" by (simp add: word_unat_eq_iff unat_ucast_up)
    with False show ?thesis by simp
  next
    case True
    let ?mid = "(hi + lo) div 2"
    have lt: "unat lo < unat hi" using Suc.prems by simp
    note mid = mid_nat [OF lt Suc.prems(3)]
    obtain x s1 where x: "sim (ucast ?mid) s = (x, s1)" by (cases "sim (ucast ?mid) s")
    show ?thesis
    proof (cases x)
      case (Inl e)
      then have e: "ucast ?mid < need" "sim_out_of_gas e" using needs_gas_fail [OF sim] x by blast+
      then have "unat ?mid < unat need" by (simp add: word_less_nat_alt mid)
      moreover have "unat hi - unat ?mid \<le> 2 ^ n" using Suc.prems(4) lt by (simp add: mid)
      ultimately show ?thesis using Suc.IH [of ?mid hi] Suc.prems True x Inl e(2) by (simp add: Let_def)
    next
      case (Inr r)
      then have ok: "need \<le> ucast ?mid" "r \<le> ucast ?mid" using needs_gas_success [OF sim] x by blast+
      then have hi: "unat need \<le> unat ?mid" "unat r \<le> unat ?mid" by (simp_all add: word_le_nat_alt mid)
      have len: "unat ?mid - unat lo \<le> 2 ^ n" "unat ?mid < 2 ^ 64"
        using Suc.prems(3,4) lt by (simp_all add: mid)
      have rec: "fst (estimate_loop sim cap pf n lo ?mid f' True tried s') = Inr (ucast need)" for f' s'
        using Suc.IH [of lo ?mid] Suc.prems(1) hi(1) len by simp
      show ?thesis
      proof (cases "\<not> fast \<and> lo + 1 < ?mid")
        case False
        then show ?thesis using True x Inr rec by (auto simp: Let_def)
      next
        case fp: True
        obtain y s2 where y: "sim r s1 = (y, s2)" by (cases "sim r s1")
        show ?thesis
        proof (cases y)
          case (Inl e)
          then show ?thesis using True x Inr y fp rec by (simp add: Let_def)
        next
          case q: (Inr q)
          then have need: "unat need \<le> unat r" using needs_gas_success [OF sim] y by (simp add: word_le_nat_alt)
          then have r1: "unat (r - 1) = unat r - 1" using Suc.prems(1) by (simp add: unat_minus_one word_unat_eq_iff)
          obtain z s3 where z: "sim (r - 1) s2 = (z, s3)" by (cases "sim (r - 1) s2")
          show ?thesis
          proof (cases z)
            case (Inl e)
            then have "r - 1 < need" using needs_gas_fail [OF sim] z by blast
            then have "r = need" using need r1 Suc.prems(1) by (simp add: word_less_nat_alt word_unat_eq_iff)
            then show ?thesis using True x Inr y q z Inl fp by (simp add: Let_def)
          next
            case (Inr w)
            have "fst (estimate_loop sim cap pf n lo (ucast r) True True tried s3) = Inr (ucast need)"
              by (rule Suc.IH) (use Suc.prems(1) need hi len in \<open>simp_all add: unat_ucast_up\<close>)
            then show ?thesis using True x \<open>x = Inr r\<close> y q z Inr fp by (simp add: Let_def)
          qed
        qed
      qed
    qed
  qed
qed

end
