(* ===== verification/Accounts_Module.thy ===== *)
theory Accounts_Module
  imports Core_Module
begin

text \<open>
  The accounts module (\<open>runtime-sdk/src/modules/accounts/mod.rs\<close>): balances, total supplies,
  nonces and allowances, the transfer call, fees charged to transactions and disbursed at the end
  of a block, genesis, and the module's own invariant check.
  Sums that the code computes with a plain \<open>+=\<close> are word additions here.
\<close>

section \<open>Balances and supplies\<close>

definition balance_of :: "('m, 'g) sdk_state \<Rightarrow> address \<Rightarrow> denomination \<Rightarrow> u128" where
  "balance_of s a d = fm_get 0 (acc_balances (st_store s)) (a, d)"

definition supply_of :: "('m, 'g) sdk_state \<Rightarrow> denomination \<Rightarrow> u128" where
  "supply_of s d = fm_get 0 (acc_total_supplies (st_store s)) d"

definition put_balance :: "address \<Rightarrow> denomination \<Rightarrow> u128 \<Rightarrow> ('m, 'g) sdk_state \<Rightarrow> ('m, 'g) sdk_state" where
  "put_balance a d v = upd_store (\<lambda>st. st\<lparr>acc_balances := fmupd (a, d) v (acc_balances st)\<rparr>)"

definition put_supply :: "denomination \<Rightarrow> u128 \<Rightarrow> ('m, 'g) sdk_state \<Rightarrow> ('m, 'g) sdk_state" where
  "put_supply d v = upd_store (\<lambda>st. st\<lparr>acc_total_supplies := fmupd d v (acc_total_supplies st)\<rparr>)"

definition add_amount :: "address \<Rightarrow> base_units \<Rightarrow> (('m, 'g) sdk_state, accounts_error, unit) rust_op" where
  "add_amount addr amt s =
     (if amount amt = 0 then (Ok (), s)
      else case checked_add (balance_of s addr (denom amt)) (amount amt) of
        None \<Rightarrow> (Err Acc_InvalidArgument, s)
      | Some v \<Rightarrow> (Ok (), put_balance addr (denom amt) v s))"

definition sub_amount :: "address \<Rightarrow> base_units \<Rightarrow> (('m, 'g) sdk_state, accounts_error, unit) rust_op" where
  "sub_amount addr amt s =
     (if amount amt = 0 then (Ok (), s)
      else case checked_sub (balance_of s addr (denom amt)) (amount amt) of
        None \<Rightarrow> (Err Acc_InsufficientBalance, s)
      | Some v \<Rightarrow> (Ok (), put_balance addr (denom amt) v s))"

definition inc_total_supply :: "base_units \<Rightarrow> (('m, 'g) sdk_state, accounts_error, unit) rust_op" where
  "inc_total_supply amt s =
     (if amount amt = 0 then (Ok (), s)
      else case checked_add (supply_of s (denom amt)) (amount amt) of
        None \<Rightarrow> (Err Acc_InvalidArgument, s)
      | Some v \<Rightarrow> (Ok (), put_supply (denom amt) v s))"

definition dec_total_supply :: "base_units \<Rightarrow> (('m, 'g) sdk_state, accounts_error, unit) rust_op" where
  "dec_total_supply amt s =
     (if amount amt = 0 then (Ok (), s)
      else case checked_sub (supply_of s (denom amt)) (amount amt) of
        None \<Rightarrow> (Err Acc_InsufficientBalance, s)
      | Some v \<Rightarrow> (Ok (), put_supply (denom amt) v s))"

text \<open>
  \<open>get_all_balances\<close> regroups the flat table by address; \<open>and_modify(|a| *a += amt)\<close> never fires,
  because every pair of address and denomination occurs once.
\<close>

definition add_entry :: "'k \<Rightarrow> u128 \<Rightarrow> ('k, u128) fmap \<Rightarrow> ('k, u128) fmap" where
  "add_entry k v m = fmupd k (case fmlookup m k of Some a \<Rightarrow> a + v | None \<Rightarrow> v) m"

fun regroup :: "((address \<times> denomination) \<times> u128) list \<Rightarrow> (address, (denomination, u128) fmap) fmap \<Rightarrow>
    (address, (denomination, u128) fmap) fmap" where
  "regroup [] b = b"
| "regroup (((addr, den), amt) # rest) b =
     regroup rest (fmupd addr (add_entry den amt (fm_get fmempty b addr)) b)"

definition get_all_balances :: "('m, 'g) sdk_state \<Rightarrow> (address, (denomination, u128) fmap) fmap" where
  "get_all_balances s = regroup (fm_entries (acc_balances (st_store s))) fmempty"

section \<open>The interface to other modules\<close>

definition transfer_silent :: "address \<Rightarrow> address \<Rightarrow> base_units \<Rightarrow> (('m, 'g) sdk_state, accounts_error, unit) rust_op" where
  "transfer_silent from_addr to_addr amt = seq_op (sub_amount from_addr amt) (add_amount to_addr amt)"

definition transfer :: "address \<Rightarrow> address \<Rightarrow> base_units \<Rightarrow> (('m, 'g) sdk_state, accounts_error, unit) rust_op" where
  "transfer from_addr to_addr amt s =
     (if is_check_only (st_env s) \<or> amount amt = 0 then (Ok (), s)
      else seq_op (transfer_silent from_addr to_addr amt) (emit_event (Ev_Transfer from_addr to_addr amt)) s)"

definition mint :: "address \<Rightarrow> base_units \<Rightarrow> (('m, 'g) sdk_state, accounts_error, unit) rust_op" where
  "mint to_addr amt s =
     (if is_check_only (st_env s) \<or> amount amt = 0 then (Ok (), s)
      else seq_op (add_amount to_addr amt) (seq_op (inc_total_supply amt) (emit_event (Ev_Mint to_addr amt))) s)"

definition burn :: "address \<Rightarrow> base_units \<Rightarrow> (('m, 'g) sdk_state, accounts_error, unit) rust_op" where
  "burn from_addr amt s =
     (if is_check_only (st_env s) \<or> amount amt = 0 then (Ok (), s)
      else seq_op (sub_amount from_addr amt)
        (seq_op (expect_op (dec_total_supply amt)) (emit_event (Ev_Burn from_addr amt))) s)"

definition get_nonce :: "address \<Rightarrow> ('m, 'g) sdk_state \<Rightarrow> u64" where
  "get_nonce a s = fm_get 0 (acc_accounts (st_store s)) a"

definition set_nonce :: "address \<Rightarrow> u64 \<Rightarrow> ('m, 'g) sdk_state \<Rightarrow> ('m, 'g) sdk_state" where
  "set_nonce a nonce = upd_store (\<lambda>st. st\<lparr>acc_accounts := fmupd a nonce (acc_accounts st)\<rparr>)"

definition inc_nonce :: "address \<Rightarrow> ('m, 'g) sdk_state \<Rightarrow> ('m, 'g) sdk_state" where
  "inc_nonce a s = set_nonce a (saturating_add (get_nonce a s) 1) s"

definition set_balance :: "address \<Rightarrow> base_units \<Rightarrow> ('m, 'g) sdk_state \<Rightarrow> ('m, 'g) sdk_state" where
  "set_balance a amt = put_balance a (denom amt) (amount amt)"

definition get_balance :: "address \<Rightarrow> denomination \<Rightarrow> ('m, 'g) sdk_state \<Rightarrow> u128" where
  "get_balance a d s = balance_of s a d"

definition ensure_balance :: "address \<Rightarrow> base_units \<Rightarrow> (('m, 'g) sdk_state, accounts_error, unit) rust_op" where
  "ensure_balance a amt s =
     (if get_balance a (denom amt) s < amount amt then (Err Acc_InsufficientBalance, s) else (Ok (), s))"

text \<open>\<open>account.iter().collect()\<close> below the prefix of one address.\<close>

definition get_balances :: "address \<Rightarrow> ('m, 'g) sdk_state \<Rightarrow> (denomination \<times> u128) list" where
  "get_balances a s =
     map (\<lambda>((_, d), v). (d, v)) (filter (\<lambda>((a', _), _). a' = a) (fm_entries (acc_balances (st_store s))))"

definition get_allowance :: "address \<Rightarrow> address \<Rightarrow> denomination \<Rightarrow> ('m, 'g) sdk_state \<Rightarrow> u128" where
  "get_allowance owner beneficiary d s = fm_get 0 (acc_allowances (st_store s)) (owner, beneficiary, d)"

definition set_allowance :: "address \<Rightarrow> address \<Rightarrow> base_units \<Rightarrow> ('m, 'g) sdk_state \<Rightarrow> ('m, 'g) sdk_state" where
  "set_allowance owner beneficiary amt =
     upd_store (\<lambda>st. st\<lparr>acc_allowances := fmupd (owner, beneficiary, denom amt) (amount amt) (acc_allowances st)\<rparr>)"

definition get_addresses :: "denomination \<Rightarrow> ('m, 'g) sdk_state \<Rightarrow> address list" where
  "get_addresses d s =
     map (\<lambda>((a, _), _). a) (filter (\<lambda>((_, d'), _). d' = d) (fm_entries (acc_balances (st_store s))))"

definition get_total_supplies :: "('m, 'g) sdk_state \<Rightarrow> (denomination, u128) fmap" where
  "get_total_supplies s = acc_total_supplies (st_store s)"

definition get_total_supply :: "denomination \<Rightarrow> ('m, 'g) sdk_state \<Rightarrow> u128" where
  "get_total_supply d s = supply_of s d"

definition set_total_supply :: "base_units \<Rightarrow> ('m, 'g) sdk_state \<Rightarrow> ('m, 'g) sdk_state" where
  "set_total_supply amt = put_supply (denom amt) (amount amt)"

definition get_denomination_info :: "denomination \<Rightarrow> (('m, 'g) sdk_state, accounts_error, u8) rust_op" where
  "get_denomination_info d s =
     (case fmlookup (ap_denomination_infos (acc_params (st_store s))) d of
        Some info \<Rightarrow> (Ok info, s) | None \<Rightarrow> (Err Acc_NotFound, s))"

section \<open>Fees\<close>

definition fee_manager_now :: "('m, 'g) sdk_state \<Rightarrow> fee_manager" where
  "fee_manager_now s = (case bv_fee_manager (st_block_values s) of Some m \<Rightarrow> m | None \<Rightarrow> fee_manager_new)"

definition put_fee_manager :: "fee_manager \<Rightarrow> ('m, 'g) sdk_state \<Rightarrow> ('m, 'g) sdk_state" where
  "put_fee_manager m = upd_block (\<lambda>b. b\<lparr>bv_fee_manager := Some m\<rparr>)"

definition record_fee_op :: "address \<Rightarrow> base_units \<Rightarrow> (('m, 'g) sdk_state, core_error, unit) rust_op" where
  "record_fee_op payer amt s =
     (case record_fee payer amt (fee_manager_now s) of
        None \<Rightarrow> (Panic, s) | Some m \<Rightarrow> (Ok (), put_fee_manager m s))"

definition charge_tx_fee :: "address \<Rightarrow> base_units \<Rightarrow> (('m, 'g) sdk_state, core_error, unit) rust_op" where
  "charge_tx_fee from_addr amt s =
     (if is_simulation (st_env s) then (Ok (), s)
      else seq_op (map_err_op (\<lambda>_. Core_InsufficientFeeBalance) (sub_amount from_addr amt))
        (record_fee_op from_addr amt) s)"

definition set_refund_unused_tx_fee :: "bool \<Rightarrow> ('m, 'g) sdk_state \<Rightarrow> ('m, 'g) sdk_state" where
  "set_refund_unused_tx_fee refund s =
     (if is_simulation (st_env s) then s else upd_block (\<lambda>b. b\<lparr>bv_refund_unused := Some refund\<rparr>) s)"

definition take_refund_unused_tx_fee :: "('m, 'g) sdk_state \<Rightarrow> bool \<times> ('m, 'g) sdk_state" where
  "take_refund_unused_tx_fee s =
     (if is_simulation (st_env s) then (False, s)
      else ((case bv_refund_unused (st_block_values s) of Some b \<Rightarrow> b | None \<Rightarrow> False),
            upd_block (\<lambda>b. b\<lparr>bv_refund_unused := None\<rparr>) s))"

section \<open>Nonces\<close>

text \<open>
  One signer of \<open>check_signer_nonces\<close>; in the future, a transaction may wait in the pool
  (\<open>Check\<close>), is skipped when scheduling, and is invalid otherwise.
\<close>

definition check_nonce :: "mode \<Rightarrow> u64 \<Rightarrow> u64 \<Rightarrow> u64 \<Rightarrow> core_error + unit" where
  "check_nonce m max_delta nonce account_nonce =
     (if nonce < account_nonce then Inl Core_InvalidNonce
      else if nonce = account_nonce then Inr ()
      else if m = PreSchedule then Inl Core_FutureNonce
      else if m \<noteq> Check then Inl Core_InvalidNonce
      else if nonce - account_nonce > max_delta then Inl Core_InvalidNonce
      else Inr ())"

fun check_nonces :: "ctx \<Rightarrow> mode \<Rightarrow> bool \<Rightarrow> (address \<Rightarrow> u64) \<Rightarrow> signer_info list \<Rightarrow> sender_meta option \<Rightarrow>
    core_error + sender_meta option" where
  "check_nonces c m disabled nonces [] sender = Inr sender"
| "check_nonces c m disabled nonces (si # rest) sender =
     (let address = address_spec_address (ctx_deps c) (si_address_spec si);
          sender = (case sender of Some x \<Rightarrow> Some x
            | None \<Rightarrow> Some \<lparr>sm_address = address, sm_tx_nonce = si_nonce si, sm_state_nonce = nonces address\<rparr>)
      in if disabled then check_nonces c m disabled nonces rest sender
         else bind_result (check_nonce m (ctx_max_check_nonce_future_delta c) (si_nonce si) (nonces address))
           (\<lambda>_. check_nonces c m disabled nonces rest sender))"

definition check_signer_nonces :: "ctx \<Rightarrow> auth_info \<Rightarrow> (('m, 'g) sdk_state, core_error, address) rust_op" where
  "check_signer_nonces c ai s =
     (let m = env_mode (st_env s) in
      case check_nonces c m (ap_debug_disable_nonce_check (acc_params (st_store s))) (\<lambda>a. get_nonce a s)
          (ai_signer_info ai) None of
        Inl e \<Rightarrow> (Err e, s)
      | Inr None \<Rightarrow> (Panic, s)
      | Inr (Some sender) \<Rightarrow> (Ok (sm_address sender), if m = Check then set_sender_meta sender s else s))"

fun update_nonces :: "ctx \<Rightarrow> signer_info list \<Rightarrow> (('m, 'g) sdk_state, core_error, unit) rust_op" where
  "update_nonces c [] s = (Ok (), s)"
| "update_nonces c (si # rest) s =
     (let address = address_spec_address (ctx_deps c) (si_address_spec si) in
      case checked_add (get_nonce address s) 1 of
        None \<Rightarrow> (Err Core_InvalidNonce, s)
      | Some nonce \<Rightarrow> update_nonces c rest (set_nonce address nonce s))"

definition update_signer_nonces :: "ctx \<Rightarrow> auth_info \<Rightarrow> (('m, 'g) sdk_state, core_error, unit) rust_op" where
  "update_signer_nonces c ai = update_nonces c (ai_signer_info ai)"

section \<open>Genesis\<close>

record accounts_genesis =
  gen_parameters :: accounts_params
  gen_accounts :: "(address, u64) fmap"
  gen_balances :: "(address, (denomination, u128) fmap) fmap"
  gen_total_supplies :: "(denomination, u128) fmap"

datatype accounts_param_error = DebugOptionUsed string

text \<open>Without the feature \<open>unsafe-allow-debug\<close>.\<close>

definition accounts_params_validate_basic :: "accounts_params \<Rightarrow> accounts_param_error + unit" where
  "accounts_params_validate_basic p =
     (if ap_debug_disable_nonce_check p then Inl (DebugOptionUsed ''debug_disable_nonce_check'') else Inr ())"

fun genesis_account :: "address \<Rightarrow> (denomination \<times> u128) list \<Rightarrow>
    (address \<times> denomination, u128) fmap \<times> (denomination, u128) fmap \<Rightarrow>
    (address \<times> denomination, u128) fmap \<times> (denomination, u128) fmap" where
  "genesis_account a [] acc = acc"
| "genesis_account a ((d, v) # rest) (bals, computed) =
     genesis_account a rest (fmupd (a, d) v bals, add_entry d v computed)"

fun genesis_balances :: "(address \<times> (denomination, u128) fmap) list \<Rightarrow>
    (address \<times> denomination, u128) fmap \<times> (denomination, u128) fmap \<Rightarrow>
    (address \<times> denomination, u128) fmap \<times> (denomination, u128) fmap" where
  "genesis_balances [] acc = acc"
| "genesis_balances ((a, ds) # rest) acc = genesis_balances rest (genesis_account a (fm_entries ds) acc)"

text \<open>\<open>None\<close> is a panic: an unexpected, a wrong or a missing total supply.\<close>

fun genesis_supplies :: "(denomination \<times> u128) list \<Rightarrow> (denomination, u128) fmap \<Rightarrow> (denomination, u128) fmap \<Rightarrow>
    ((denomination, u128) fmap \<times> (denomination, u128) fmap) option" where
  "genesis_supplies [] computed supplies = Some (computed, supplies)"
| "genesis_supplies ((d, total_supply) # rest) computed supplies =
     (case fmlookup computed d of None \<Rightarrow> None
      | Some v \<Rightarrow>
          if v = total_supply
          then genesis_supplies rest (fmdrop d computed) (fmupd d total_supply supplies) else None)"

definition accounts_init :: "accounts_genesis \<Rightarrow> (('m, 'g) sdk_state, accounts_error, unit) rust_op" where
  "accounts_init g s =
     (let st = st_store s;
          accounts = fmadd (acc_accounts st) (gen_accounts g);
          (bals, computed) = genesis_balances (fm_entries (gen_balances g)) (acc_balances st, fmempty)
      in case genesis_supplies (fm_entries (gen_total_supplies g)) computed (acc_total_supplies st) of
           None \<Rightarrow> (Panic, s)
         | Some (missing, supplies) \<Rightarrow>
             if missing \<noteq> fmempty then (Panic, s)
             else case accounts_params_validate_basic (gen_parameters g) of
               Inl _ \<Rightarrow> (Panic, s)
             | Inr _ \<Rightarrow> (Ok (), upd_store (\<lambda>st. st\<lparr>acc_accounts := accounts, acc_balances := bals,
                 acc_total_supplies := supplies, acc_params := gen_parameters g\<rparr>) s))"

section \<open>Calls and hooks\<close>

definition ADDRESS_COMMON_POOL :: "ctx \<Rightarrow> address" where
  "ADDRESS_COMMON_POOL c = address_from_module (dep_hash (ctx_deps c)) ''accounts'' ''common-pool''"

definition ADDRESS_FEE_ACCUMULATOR :: "ctx \<Rightarrow> address" where
  "ADDRESS_FEE_ACCUMULATOR c = address_from_module (dep_hash (ctx_deps c)) ''accounts'' ''fee-accumulator''"

definition tx_transfer :: "core_config \<Rightarrow> ctx \<Rightarrow> address \<Rightarrow> base_units \<Rightarrow> (('m, 'g) sdk_state, accounts_error, unit) rust_op" where
  "tx_transfer cfg c to_addr amt s =
     (if ap_transfers_disabled (acc_params (st_store s)) then (Err Acc_Forbidden, s)
      else seq_op (map_err_op Acc_Core (use_tx_gas cfg (ap_tx_transfer_gas (acc_params (st_store s)))))
        (\<lambda>s. case tx_caller_address (ctx_deps c) (st_env s) of
           None \<Rightarrow> (Panic, s)
         | Some caller \<Rightarrow> transfer caller to_addr amt s) s)"

text \<open>\<open>resolve\<close> is \<open>FeeProxy::resolve_payer\<close> of the runtime.\<close>

definition charge_fees :: "transaction \<Rightarrow> address \<Rightarrow> (('m, 'g) sdk_state, core_error, unit) rust_op" where
  "charge_fees tx payer s =
     (let amt = fee_amount tx in
      if amount amt = 0 then (Ok (), s)
      else seq_op
        (if is_check_only (st_env s)
         then seq_op (map_err_op (\<lambda>_. Core_InsufficientFeeBalance) (ensure_balance payer amt)) (record_fee_op payer amt)
         else charge_tx_fee payer amt)
        (update_op (set_priority (let p = gas_price (ai_fee (tx_auth_info tx)) in
           if unat p < 2 ^ 64 then ucast p else - 1))) s)"

definition accounts_authenticate_tx ::
    "ctx \<Rightarrow> (transaction \<Rightarrow> (('m, 'g) sdk_state, core_error, address option) rust_op) \<Rightarrow> transaction \<Rightarrow>
     (('m, 'g) sdk_state, core_error, auth_decision) rust_op" where
  "accounts_authenticate_tx c resolve tx =
     bind_op (check_signer_nonces c (tx_auth_info tx)) (\<lambda>default_payer.
     bind_op (resolve tx) (\<lambda>proxy.
     seq_op (charge_fees tx (case proxy of Some p \<Rightarrow> p | None \<Rightarrow> default_payer))
     (seq_op (\<lambda>s. if \<not> is_check_only (st_env s) then update_signer_nonces c (tx_auth_info tx) s else (Ok (), s))
     (return_op Continue))))"

definition refund_fee :: "(('m, 'g) sdk_state, core_error, u128) rust_op" where
  "refund_fee s =
     (case take_refund_unused_tx_fee s of (refund, s) \<Rightarrow>
        if refund
        then bind_op remaining_tx_gas (\<lambda>remaining_gas s.
          case env_auth_info (st_env s) of None \<Rightarrow> (Panic, s)
          | Some ai \<Rightarrow> (Ok (saturating_mul (gas_price (ai_fee ai)) (ucast remaining_gas)), s)) s
        else (Ok 0, s))"

definition accounts_after_handle_call :: "ctx \<Rightarrow> (('m, 'g) sdk_state, core_error, unit) rust_op" where
  "accounts_after_handle_call c =
     bind_op refund_fee (\<lambda>refund s.
       let m = record_refund refund (fee_manager_now s);
           s = put_fee_manager m s;
           f = (case mgr_tx_fee m of Some f \<Rightarrow> f | None \<Rightarrow> default_transaction_fee)
       in if tx_fee_amount f > 0
          then emit_unconditional (Ev_Transfer (tf_payer f) (ADDRESS_FEE_ACCUMULATOR c)
            (BaseUnits (tx_fee_amount f) (tf_denomination f))) s
          else (Ok (), s))"

text \<open>\<open>ok\<close>: whether the call result is \<open>Ok\<close>. The two \<open>unwrap\<close>s panic on an error.\<close>

definition accounts_after_dispatch_tx :: "auth_info \<Rightarrow> bool \<Rightarrow> (('m, 'g) sdk_state, core_error, unit) rust_op" where
  "accounts_after_dispatch_tx ai ok s =
     (case commit_tx (fee_manager_now s) of None \<Rightarrow> (Panic, s)
      | Some (u, m) \<Rightarrow>
          seq_op (expect_op (add_amount (fu_payer u) (fu_refund u)))
            (\<lambda>s. if \<not> is_check_only (st_env s) then (Ok (), s)
                 else if \<not> ok then (Ok (), s)
                 else expect_op (sub_amount (fu_payer u) (fee_amount_of (ai_fee ai))) s)
            (put_fee_manager m s))"

section \<open>End of a block\<close>

text \<open>\<open>drain\<close>: the accumulator is emptied of what it held.\<close>

definition drain :: "address \<Rightarrow> (denomination \<times> u128) list \<Rightarrow> (('m, 'g) sdk_state, accounts_error, unit) rust_op" where
  "drain acc = for_op (\<lambda>(d, remainder). expect_op (sub_amount acc (BaseUnits remainder d)))"

definition disburse_amounts :: "(denomination \<times> u128) list \<Rightarrow> nat \<Rightarrow> base_units list" where
  "disburse_amounts fees n =
     concat (map (\<lambda>(d, fee). let share = fee div of_nat n in if share = 0 then [] else [BaseUnits share d]) fees)"

text \<open>One payment: the local \<open>previous_fees\<close> is the first component of the state.\<close>

definition disburse_one :: "address \<Rightarrow> address \<Rightarrow> base_units \<Rightarrow>
    ((denomination, u128) fmap \<times> ('m, 'g) sdk_state, accounts_error, unit) rust_op" where
  "disburse_one acc a amt = (\<lambda>(fees, s).
     case fmlookup fees (denom amt) of None \<Rightarrow> (Panic, (fees, s))
     | Some remaining \<Rightarrow>
         (case checked_sub remaining (amount amt) of None \<Rightarrow> (Panic, (fees, s))
          | Some r \<Rightarrow>
              (case add_amount a amt s of
                 (Ok _, s) \<Rightarrow> (Ok (), (fmupd (denom amt) r fees,
                   emit_event_raw (sdk_event_key (Ev_Transfer acc a amt)) (Ev_Transfer acc a amt) s))
               | (_, s) \<Rightarrow> (Panic, (fees, s)))))"

definition disburse :: "address \<Rightarrow> address list \<Rightarrow> base_units list \<Rightarrow>
    ((denomination, u128) fmap \<times> ('m, 'g) sdk_state, accounts_error, unit) rust_op" where
  "disburse acc addrs amounts = for_op (\<lambda>a. for_op (disburse_one acc a) amounts) addrs"

definition pool_remainder :: "address \<Rightarrow> address \<Rightarrow> (denomination \<times> u128) list \<Rightarrow> (('m, 'g) sdk_state, accounts_error, unit) rust_op" where
  "pool_remainder acc pool = for_op (\<lambda>(d, remainder).
     if remainder = 0 then return_op ()
     else seq_op (expect_op (add_amount pool (BaseUnits remainder d)))
       (emit_event (Ev_Transfer acc pool (BaseUnits remainder d))))"

definition collect_block_fees :: "address \<Rightarrow> (('m, 'g) sdk_state, accounts_error, unit) rust_op" where
  "collect_block_fees acc s =
     (let m = fee_manager_now s; s = upd_block (\<lambda>b. b\<lparr>bv_fee_manager := None\<rparr>) s
      in for_op (\<lambda>(d, amt). expect_op (add_amount acc (BaseUnits amt d))) (fm_entries (commit_block m)) s)"

definition accounts_end_block :: "ctx \<Rightarrow> (('m, 'g) sdk_state, accounts_error, unit) rust_op" where
  "accounts_end_block c s =
     (let acc = ADDRESS_FEE_ACCUMULATOR c; pool = ADDRESS_COMMON_POOL c;
          previous_fees = get_balances acc s;
          addrs = map (\<lambda>pk. from_sigspec (ctx_deps c) (Spec_Ed25519 pk)) (ctx_good_compute_entities c)
      in seq_op (drain acc previous_fees)
          (\<lambda>s. case (if addrs \<noteq> [] then disburse acc addrs (disburse_amounts previous_fees (length addrs))
                     else return_op ()) (fmap_of_list previous_fees, s) of
             (Ok _, (fees, s)) \<Rightarrow> seq_op (pool_remainder acc pool (fm_entries fees)) (collect_block_fees acc) s
           | (Err e, (_, s)) \<Rightarrow> (Err e, s)
           | (Panic, (_, s)) \<Rightarrow> (Panic, s)) s)"

section \<open>The invariant check\<close>

fun sum_denominations :: "(denomination \<times> u128) list \<Rightarrow> (denomination, u128) fmap \<Rightarrow> (denomination, u128) fmap" where
  "sum_denominations [] computed = computed"
| "sum_denominations ((d, amt) # rest) computed = sum_denominations rest (add_entry d amt computed)"

definition computed_supplies :: "('m, 'g) sdk_state \<Rightarrow> (denomination, u128) fmap" where
  "computed_supplies s =
     fold (\<lambda>(_, bals). sum_denominations (fm_entries bals)) (fm_entries (get_all_balances s)) fmempty"

fun match_supplies :: "(denomination \<times> u128) list \<Rightarrow> (denomination, u128) fmap \<Rightarrow> core_error + (denomination, u128) fmap" where
  "match_supplies [] computed = Inr computed"
| "match_supplies ((d, ts) # rest) computed =
     (case fmlookup computed d of
        None \<Rightarrow> Inl (Core_InvariantViolation ''unexpected denomination'')
      | Some v \<Rightarrow>
          if v \<noteq> ts then Inl (Core_InvariantViolation ''computed and actual total supplies don't match'')
          else match_supplies rest (fmdrop d computed))"

definition check_invariants :: "('m, 'g) sdk_state \<Rightarrow> core_error + unit" where
  "check_invariants s =
     bind_result (match_supplies (fm_entries (get_total_supplies s)) (computed_supplies s)) (\<lambda>rest.
       if rest = fmempty then Inr ()
       else Inl (Core_InvariantViolation ''encountered denomination that isn't present in total supplies table''))"

section \<open>Where the tokens are\<close>

text \<open>
  \<open>total_balance\<close> is the exact sum of all balances of a denomination; \<open>circulating\<close> adds what the
  fee manager holds between charging a transaction and the end of the block.
\<close>

definition total_balance :: "('m, 'g) sdk_state \<Rightarrow> denomination \<Rightarrow> nat" where
  "total_balance s d = fm_total (\<lambda>(a, d') v. if d' = d then unat v else 0) (acc_balances (st_store s))"

definition circulating :: "('m, 'g) sdk_state \<Rightarrow> denomination \<Rightarrow> nat" where
  "circulating s d = total_balance s d + held (fee_manager_now s) d"

text \<open>The invariant of the module: the books balance.\<close>

definition accounts_inv :: "('m, 'g) sdk_state \<Rightarrow> bool" where
  "accounts_inv s \<longleftrightarrow> (\<forall>d. circulating s d = unat (supply_of s d)) \<and> fee_manager_inv (fee_manager_now s)"

named_theorems acc_simps \<open>what the basic updates do to what the module looks at\<close>

lemma put_balance_simps [acc_simps]:
  "balance_of (put_balance a d v s) a' d' = (if a' = a \<and> d' = d then v else balance_of s a' d')"
  "supply_of (put_balance a d v s) d' = supply_of s d'"
  "fee_manager_now (put_balance a d v s) = fee_manager_now s"
  "get_nonce a' (put_balance a d v s) = get_nonce a' s"
  "st_env (put_balance a d v s) = st_env s" "st_parents (put_balance a d v s) = st_parents s"
  by (auto simp: put_balance_def balance_of_def supply_of_def fee_manager_now_def get_nonce_def)

lemma put_supply_simps [acc_simps]:
  "supply_of (put_supply d v s) d' = (if d' = d then v else supply_of s d')"
  "balance_of (put_supply d v s) a' d' = balance_of s a' d'"
  "total_balance (put_supply d v s) d' = total_balance s d'"
  "fee_manager_now (put_supply d v s) = fee_manager_now s"
  "st_env (put_supply d v s) = st_env s" "st_parents (put_supply d v s) = st_parents s"
  by (auto simp: put_supply_def supply_of_def balance_of_def fee_manager_now_def total_balance_def)

lemma emit_event_simps [acc_simps]:
  "balance_of (emit_event_raw k v s) a d = balance_of s a d" "supply_of (emit_event_raw k v s) d = supply_of s d"
  "total_balance (emit_event_raw k v s) d = total_balance s d"
  "fee_manager_now (emit_event_raw k v s) = fee_manager_now s"
  "balance_of (emit_unconditional_event k v s) a d = balance_of s a d"
  "supply_of (emit_unconditional_event k v s) d = supply_of s d"
  "total_balance (emit_unconditional_event k v s) d = total_balance s d"
  "fee_manager_now (emit_unconditional_event k v s) = fee_manager_now s"
  by (simp_all add: balance_of_def supply_of_def total_balance_def fee_manager_now_def)

lemma upd_block_simps [acc_simps]:
  "balance_of (upd_block f s) a d = balance_of s a d" "supply_of (upd_block f s) d = supply_of s d"
  "total_balance (upd_block f s) d = total_balance s d"
  by (simp_all add: balance_of_def supply_of_def total_balance_def)

lemma put_fee_manager_simps [acc_simps]:
  "fee_manager_now (put_fee_manager m s) = m" "balance_of (put_fee_manager m s) a d = balance_of s a d"
  "supply_of (put_fee_manager m s) d = supply_of s d" "total_balance (put_fee_manager m s) d = total_balance s d"
  "st_env (put_fee_manager m s) = st_env s" "st_parents (put_fee_manager m s) = st_parents s"
  by (simp_all add: put_fee_manager_def fee_manager_now_def acc_simps)

lemma set_nonce_simps [acc_simps]:
  "get_nonce a' (set_nonce a n s) = (if a' = a then n else get_nonce a' s)"
  "balance_of (set_nonce a n s) a' d = balance_of s a' d" "supply_of (set_nonce a n s) d = supply_of s d"
  "total_balance (set_nonce a n s) d = total_balance s d" "fee_manager_now (set_nonce a n s) = fee_manager_now s"
  "st_env (set_nonce a n s) = st_env s" "st_parents (set_nonce a n s) = st_parents s"
  by (auto simp: set_nonce_def get_nonce_def balance_of_def supply_of_def total_balance_def fee_manager_now_def)

lemma total_put_balance:
  "total_balance (put_balance a d v s) d' + (if d' = d then unat (balance_of s a d) else 0) =
   total_balance s d' + (if d' = d then unat v else 0)"
proof -
  have "(case fmlookup (acc_balances (st_store s)) (a, d) of Some w \<Rightarrow> if d = d' then unat w else 0 | None \<Rightarrow> 0) =
      (if d' = d then unat (balance_of s a d) else 0)"
    by (auto simp: balance_of_def split: option.splits)
  then show ?thesis
    using fm_total_upd [of "\<lambda>(a, e) v. if e = d' then unat v else 0" "(a, d)" v "acc_balances (st_store s)"]
    by (auto simp: total_balance_def put_balance_def split: if_splits)
qed

lemma balance_le_total: "unat (balance_of s a d) \<le> total_balance s d"
proof (cases "fmlookup (acc_balances (st_store s)) (a, d)")
  case (Some v)
  then show ?thesis
    using fm_total_lookup_le [of "acc_balances (st_store s)" "(a, d)" v "\<lambda>(a, e) v. if e = d then unat v else 0"]
    by (simp add: balance_of_def total_balance_def)
qed (simp add: balance_of_def)

lemma total_le_supply: "accounts_inv s \<Longrightarrow> total_balance s d \<le> unat (supply_of s d)"
  by (metis accounts_inv_def circulating_def le_add1)

subsection \<open>The basic operations\<close>

text \<open>\<open>books s t\<close>: neither supplies nor the fee manager nor the environment changed.\<close>

definition books :: "('m, 'g) sdk_state \<Rightarrow> ('m, 'g) sdk_state \<Rightarrow> bool" where
  "books s t \<longleftrightarrow> supply_of t = supply_of s \<and> fee_manager_now t = fee_manager_now s \<and> st_env t = st_env s"

lemma books_refl [simp]: "books s s"
  by (simp add: books_def)

lemma books_trans: "books s t \<Longrightarrow> books t u \<Longrightarrow> books s u"
  by (simp add: books_def)

lemma books_put_balance [simp]: "books s (put_balance a d v t) \<longleftrightarrow> books s t"
  by (simp add: books_def acc_simps fun_eq_iff)

lemma books_emit [simp]: "books s (emit_event_raw k v t) \<longleftrightarrow> books s t"
  by (simp add: books_def acc_simps fun_eq_iff)

lemma sub_amount_Ok:
  assumes "sub_amount a amt s = (Ok (), t)"
  shows "total_balance t d + units_of amt d = total_balance s d" "books s t"
    "unat (balance_of s a (denom amt)) = unat (balance_of t a (denom amt)) + unat (amount amt)"
proof -
  have "t = s \<and> amount amt = 0 \<or> (\<exists>v. checked_sub (balance_of s a (denom amt)) (amount amt) = Some v \<and>
      t = put_balance a (denom amt) v s)"
    using assms by (auto simp: sub_amount_def split: if_splits option.splits)
  then consider "t = s" "amount amt = 0" | v where "checked_sub (balance_of s a (denom amt)) (amount amt) = Some v"
      "t = put_balance a (denom amt) v s"
    by blast
  then have "total_balance t d + units_of amt d = total_balance s d \<and> books s t \<and>
    unat (balance_of s a (denom amt)) = unat (balance_of t a (denom amt)) + unat (amount amt)"
  proof cases
    case (2 v)
    then have "unat (balance_of s a (denom amt)) = unat v + unat (amount amt)" by (auto simp: checked_sub_Some)
    with 2(2) total_put_balance [of a "denom amt" v s d] show ?thesis
      by (simp add: units_of_def acc_simps split: if_splits)
  qed (simp add: units_of_def)
  then show "total_balance t d + units_of amt d = total_balance s d" "books s t"
    "unat (balance_of s a (denom amt)) = unat (balance_of t a (denom amt)) + unat (amount amt)" by auto
qed

lemma add_amount_Ok:
  assumes "add_amount a amt s = (Ok (), t)"
  shows "total_balance t d = total_balance s d + units_of amt d" "books s t"
    "unat (balance_of t a (denom amt)) = unat (balance_of s a (denom amt)) + unat (amount amt)"
proof -
  have "t = s \<and> amount amt = 0 \<or> (\<exists>v. checked_add (balance_of s a (denom amt)) (amount amt) = Some v \<and>
      t = put_balance a (denom amt) v s)"
    using assms by (auto simp: add_amount_def split: if_splits option.splits)
  then consider "t = s" "amount amt = 0" | v where "checked_add (balance_of s a (denom amt)) (amount amt) = Some v"
      "t = put_balance a (denom amt) v s"
    by blast
  then have "total_balance t d = total_balance s d + units_of amt d \<and> books s t \<and>
    unat (balance_of t a (denom amt)) = unat (balance_of s a (denom amt)) + unat (amount amt)"
  proof cases
    case (2 v)
    then have "unat v = unat (balance_of s a (denom amt)) + unat (amount amt)" by (simp add: checked_add_Some)
    with 2(2) total_put_balance [of a "denom amt" v s d] show ?thesis
      by (simp add: units_of_def acc_simps split: if_splits)
  qed (simp add: units_of_def)
  then show "total_balance t d = total_balance s d + units_of amt d" "books s t"
    "unat (balance_of t a (denom amt)) = unat (balance_of s a (denom amt)) + unat (amount amt)" by blast+
qed

lemma sub_amount_Err:
  "sub_amount a amt s = (Err e, t) \<Longrightarrow>
   t = s \<and> e = Acc_InsufficientBalance \<and> unat (balance_of s a (denom amt)) < unat (amount amt)"
  by (auto simp: sub_amount_def checked_sub_None split: if_splits option.splits)

lemma add_amount_Err: "add_amount a amt s = (Err e, t) \<Longrightarrow>
   t = s \<and> e = Acc_InvalidArgument \<and> 2 ^ 128 \<le> unat (balance_of s a (denom amt)) + unat (amount amt)"
  by (auto simp: add_amount_def checked_add_None split: if_splits option.splits)

lemma amount_no_panic: "sub_amount a amt s \<noteq> (Panic, t)" "add_amount a amt s \<noteq> (Panic, t)"
  by (auto simp: sub_amount_def add_amount_def split: if_splits option.splits)

text \<open>There is always room for tokens that are part of the supply.\<close>

lemma add_amount_fits:
  assumes "total_balance s (denom amt) + unat (amount amt) < 2 ^ 128"
  shows "\<exists>t. add_amount a amt s = (Ok (), t)"
proof -
  have "unat (balance_of s a (denom amt)) + unat (amount amt) < 2 ^ 128"
    using assms balance_le_total [of s a "denom amt"] by linarith
  then show ?thesis by (auto simp: add_amount_def checked_add_def)
qed

lemma sub_amount_enough:
  "amount amt \<le> balance_of s a (denom amt) \<Longrightarrow> \<exists>t. sub_amount a amt s = (Ok (), t)"
  by (auto simp: sub_amount_def checked_sub_def)

subsection \<open>Transfers, minting, burning\<close>

lemma transfer_silent_Ok:
  assumes "transfer_silent f to amt s = (Ok (), t)"
  shows "total_balance t d = total_balance s d" "books s t"
proof -
  from assms obtain u where u: "sub_amount f amt s = (Ok (), u)" "add_amount to amt u = (Ok (), t)"
    by (auto simp: transfer_silent_def seq_op_def bind_op_Ok_iff)
  show "total_balance t d = total_balance s d"
    using sub_amount_Ok(1) [OF u(1), of d] add_amount_Ok(1) [OF u(2), of d] by simp
  show "books s t" using sub_amount_Ok(2) [OF u(1)] add_amount_Ok(2) [OF u(2)] by (rule books_trans)
qed

lemma accounts_inv_books:
  "accounts_inv s \<Longrightarrow> books s t \<Longrightarrow> (\<And>d. total_balance t d = total_balance s d) \<Longrightarrow> accounts_inv t"
  by (simp add: accounts_inv_def books_def circulating_def)

lemma transfer_Ok:
  assumes "transfer f to amt s = (Ok (), t)"
  shows "total_balance t d = total_balance s d" "books s t"
  using assms transfer_silent_Ok [of f to amt s]
  by (auto simp: transfer_def seq_op_def bind_op_Ok_iff acc_simps split: if_splits)

text \<open>With balanced books a transfer fails only for lack of funds, and then changes nothing.\<close>

lemma transfer_Err:
  assumes "transfer f to amt s = (Err e, t)" "accounts_inv s"
  shows "e = Acc_InsufficientBalance" "t = s" "balance_of s f (denom amt) < amount amt"
proof -
  from assms(1) consider "sub_amount f amt s = (Err e, t)"
    | u where "sub_amount f amt s = (Ok (), u)" "add_amount to amt u = (Err e, t)"
    by (auto simp: transfer_def transfer_silent_def seq_op_def bind_op_Err_iff bind_op_Ok_iff split: if_splits)
  then have "e = Acc_InsufficientBalance \<and> t = s \<and> balance_of s f (denom amt) < amount amt"
  proof cases
    case 1
    then show ?thesis using sub_amount_Err [of f amt s e t] by (simp add: word_less_nat_alt)
  next
    case (2 u)
    have "total_balance u (denom amt) + unat (amount amt) = total_balance s (denom amt)"
      using sub_amount_Ok(1) [OF 2(1), of "denom amt"] by (simp add: units_of_def)
    also have "\<dots> < 2 ^ 128" using total_le_supply [OF assms(2), of "denom amt"] unat_lt [of "supply_of s (denom amt)"] by simp
    finally show ?thesis using add_amount_fits [of u amt to] 2(2) by auto
  qed
  then show "e = Acc_InsufficientBalance" "t = s" "balance_of s f (denom amt) < amount amt" by auto
qed

lemma transfer_no_panic: "transfer f to amt s \<noteq> (Panic, t)"
  by (auto simp: transfer_def transfer_silent_def seq_op_def bind_op_Panic_iff amount_no_panic split: if_splits)

lemma supply_step:
  "inc_total_supply amt s = (Ok (), t) \<Longrightarrow>
     unat (supply_of t d) = unat (supply_of s d) + units_of amt d \<and> total_balance t d = total_balance s d \<and>
     fee_manager_now t = fee_manager_now s \<and> st_env t = st_env s"
  "dec_total_supply amt s = (Ok (), t) \<Longrightarrow>
     unat (supply_of t d) + units_of amt d = unat (supply_of s d) \<and> total_balance t d = total_balance s d \<and>
     fee_manager_now t = fee_manager_now s \<and> st_env t = st_env s"
  by (auto simp: inc_total_supply_def dec_total_supply_def units_of_def checked_add_Some checked_sub_Some
      acc_simps split: if_splits option.splits)

lemma mint_inv: "keeps_ok accounts_inv (mint to amt)"
proof (rule keeps_okI)
  fix s t :: "('a, 'b) sdk_state" and x
  assume run: "mint to amt s = (Ok x, t)" and i: "accounts_inv s"
  show "accounts_inv t"
  proof (cases "is_check_only (st_env s) \<or> amount amt = 0")
    case True
    then show ?thesis using run i by (auto simp: mint_def)
  next
    case False
    from run False obtain u v where u: "add_amount to amt s = (Ok (), u)" "inc_total_supply amt u = (Ok (), v)"
        "t = emit_event_raw (sdk_event_key (Ev_Mint to amt)) (Ev_Mint to amt) v"
      by (auto simp: mint_def seq_op_def bind_op_Ok_iff)
    have b: "books s u" by (rule add_amount_Ok(2) [OF u(1)])
    have "circulating t d = unat (supply_of t d)" for d
      using i add_amount_Ok(1) [OF u(1), of d] supply_step(1) [OF u(2), of d] b
      by (simp add: u(3) accounts_inv_def circulating_def books_def acc_simps)
    moreover have "fee_manager_inv (fee_manager_now t)"
      using i supply_step(1) [OF u(2)] b by (simp add: u(3) accounts_inv_def books_def acc_simps)
    ultimately show ?thesis by (simp add: accounts_inv_def)
  qed
qed

text \<open>Burning: the supply covers what the account held, so the \<open>expect\<close> never panics.\<close>

lemma burn_cases:
  assumes "burn f amt s = (r, t)" "accounts_inv s"
  shows "accounts_inv t \<and> r \<noteq> Panic"
proof (cases "is_check_only (st_env s) \<or> amount amt = 0")
  case True
  then show ?thesis using assms by (auto simp: burn_def)
next
  case False
  obtain x u where x: "sub_amount f amt s = (x, u)" by (cases "sub_amount f amt s")
  show ?thesis
  proof (cases x)
    case (Ok y)
    have b: "books s u" and tot: "\<And>d. total_balance u d + units_of amt d = total_balance s d"
      using sub_amount_Ok [of f amt s u] x Ok by auto
    have "unat (amount amt) \<le> unat (supply_of u (denom amt))"
      using tot [of "denom amt"] total_le_supply [OF assms(2), of "denom amt"] b
      by (simp add: units_of_def books_def)
    then obtain v where v: "dec_total_supply amt u = (Ok (), v)"
      by (cases "amount amt = 0") (simp_all add: dec_total_supply_def checked_sub_def word_le_nat_alt)
    have t: "r = Ok ()" "t = emit_event_raw (sdk_event_key (Ev_Burn f amt)) (Ev_Burn f amt) v"
      using assms(1) False x Ok v by (auto simp: burn_def seq_op_def expect_op_def)
    have "circulating t d = unat (supply_of t d)" for d
      using assms(2) tot [of d] supply_step(2) [OF v, of d] b
      by (simp add: t(2) accounts_inv_def circulating_def books_def acc_simps) (metis add.commute add_right_cancel group_cancel.add1)
    moreover have "fee_manager_inv (fee_manager_now t)"
      using assms(2) supply_step(2) [OF v] b by (simp add: t(2) accounts_inv_def books_def acc_simps)
    ultimately show ?thesis using t by (simp add: accounts_inv_def)
  next
    case (Err e)
    then show ?thesis using assms False x sub_amount_Err [of f amt s e u] by (auto simp: burn_def seq_op_def)
  next
    case Panic
    then show ?thesis using x amount_no_panic by auto
  qed
qed

end
