(* ===== verification/Accounts_Books.thy ===== *)
theory Accounts_Books
  imports Accounts_Module
begin

text \<open>
  The books of the accounts module balance: fees, the end of a block, genesis and the module's own
  check. Tokens are in balances, or with the fee manager between charging and the end of the block;
  no hook creates or destroys any.
\<close>

section \<open>Conservation\<close>

definition conserved :: "('m, 'g) sdk_state \<Rightarrow> ('m, 'g) sdk_state \<Rightarrow> bool" where
  "conserved s t \<longleftrightarrow> circulating t = circulating s \<and> supply_of t = supply_of s \<and>
     (fee_manager_inv (fee_manager_now s) \<longrightarrow> fee_manager_inv (fee_manager_now t))"

lemma conserved_refl [simp]: "conserved s s"
  by (simp add: conserved_def)

lemma conserved_trans: "conserved s t \<Longrightarrow> conserved t u \<Longrightarrow> conserved s u"
  by (simp add: conserved_def)

lemma conserved_inv: "conserved s t \<Longrightarrow> accounts_inv s \<Longrightarrow> accounts_inv t"
  by (simp add: conserved_def accounts_inv_def)

text \<open>Whatever touches neither balances nor supplies nor the fee manager.\<close>

lemma conserved_same:
  "total_balance t = total_balance s \<Longrightarrow> supply_of t = supply_of s \<Longrightarrow> fee_manager_now t = fee_manager_now s \<Longrightarrow>
   conserved s t"
  by (simp add: conserved_def circulating_def fun_eq_iff)

lemma conserved_books: "books s t \<Longrightarrow> (\<And>d. total_balance t d = total_balance s d) \<Longrightarrow> conserved s t"
  by (rule conserved_same) (auto simp: books_def)

lemma conserved_emit: "conserved s (emit_event_raw k v s)" "conserved s (emit_unconditional_event k v s)"
  by (auto intro!: conserved_same simp: acc_simps)

lemma conserved_set_nonce: "conserved s (set_nonce a n s)"
  by (auto intro!: conserved_same simp: acc_simps)

lemma conserved_upd_block:
  "(\<And>b. bv_fee_manager (f b) = bv_fee_manager b) \<Longrightarrow> conserved s (upd_block f s)"
  by (rule conserved_same) (auto simp: acc_simps fee_manager_now_def)

lemma conserved_upd_local: "conserved s (upd_local f s)"
  by (rule conserved_same) (auto simp: balance_of_def supply_of_def total_balance_def fee_manager_now_def)

lemma conserved_set_priority: "conserved s (set_priority p s)"
  unfolding set_priority_def by (rule conserved_upd_block) simp

text \<open>Operations that conserve when they return, with a value or an error.\<close>

definition conserves :: "(('m, 'g) sdk_state, 'e, 'a) rust_op \<Rightarrow> bool" where
  "conserves m \<longleftrightarrow> (\<forall>s r t. m s = (r, t) \<longrightarrow> r \<noteq> Panic \<longrightarrow> conserved s t)"

lemma conservesI: "(\<And>s r t. m s = (r, t) \<Longrightarrow> r \<noteq> Panic \<Longrightarrow> conserved s t) \<Longrightarrow> conserves m"
  by (auto simp: conserves_def)

lemma conservesD: "conserves m \<Longrightarrow> m s = (r, t) \<Longrightarrow> r \<noteq> Panic \<Longrightarrow> conserved s t"
  by (auto simp: conserves_def)

named_theorems conserves_intros \<open>which operations conserve\<close>

lemma conserves_return [conserves_intros]: "conserves (return_op a)"
  by (auto simp: conserves_def return_op_def)

lemma conserves_update [conserves_intros]: "(\<And>s. conserved s (f s)) \<Longrightarrow> conserves (update_op f)"
  by (auto simp: conserves_def update_op_def)

lemma conserves_bind [conserves_intros]: "conserves m \<Longrightarrow> (\<And>a. conserves (f a)) \<Longrightarrow> conserves (bind_op m f)"
  unfolding conserves_def bind_op_def
  by (auto split: prod.splits outcome.splits) (metis conserved_trans outcome.distinct(3))

lemma conserves_seq [conserves_intros]: "conserves m \<Longrightarrow> conserves n \<Longrightarrow> conserves (seq_op m n)"
  by (simp add: seq_op_def conserves_bind)

lemma conserves_map_err [conserves_intros]: "conserves m \<Longrightarrow> conserves (map_err_op g m)"
  unfolding conserves_def map_err_op_def by (auto split: prod.splits outcome.splits)

lemma conserves_inv: "conserves m \<Longrightarrow> m s = (r, t) \<Longrightarrow> r \<noteq> Panic \<Longrightarrow> accounts_inv s \<Longrightarrow> accounts_inv t"
  using conservesD conserved_inv by blast

section \<open>Fees of a transaction\<close>

lemma charge_tx_fee_conserves [conserves_intros]: "conserves (charge_tx_fee a amt)"
proof (rule conservesI)
  fix s t :: "('a, 'b) sdk_state" and r
  assume run: "charge_tx_fee a amt s = (r, t)" "r \<noteq> Panic"
  show "conserved s t"
  proof (cases "is_simulation (st_env s)")
    case True
    then show ?thesis using run by (simp add: charge_tx_fee_def)
  next
    case False
    obtain x u where x: "sub_amount a amt s = (x, u)" by (cases "sub_amount a amt s")
    show ?thesis
    proof (cases x)
      case (Ok y)
      with run x False obtain m where m: "record_fee a amt (fee_manager_now u) = Some m" "t = put_fee_manager m u"
        by (auto simp: charge_tx_fee_def seq_op_def map_err_op_def record_fee_op_def split: option.splits)
      have b: "books s u" and tot: "\<And>d. total_balance u d + units_of amt d = total_balance s d"
        using sub_amount_Ok [of a amt s u] x Ok by auto
      have "circulating t d = circulating s d" for d
        using b tot [of d] record_fee_held [OF m(1), of d]
        by (simp add: circulating_def m(2) acc_simps books_def)
      then show ?thesis using b record_fee_inv [OF m(1)]
        by (simp add: conserved_def m(2) acc_simps books_def fun_eq_iff)
    next
      case (Err e)
      then have "u = s" using x sub_amount_Err [of a amt s e u] by simp
      then show ?thesis using run x Err False by (simp add: charge_tx_fee_def seq_op_def map_err_op_def bind_op_def)
    next
      case Panic
      then show ?thesis using x amount_no_panic by auto
    qed
  qed
qed

lemma check_signer_nonces_conserves [conserves_intros]: "conserves (check_signer_nonces c ai)"
proof -
  have "conserved s (set_sender_meta m s)" for m and s :: "('a, 'b) sdk_state"
    unfolding set_sender_meta_def by (rule conserved_upd_block) simp
  then show ?thesis by (auto intro!: conservesI simp: check_signer_nonces_def Let_def split: sum.splits option.splits if_splits)
qed

lemma update_nonces_conserved: "update_nonces c sis s = (r, t) \<Longrightarrow> conserved s t"
proof (induction sis arbitrary: s)
  case (Cons si sis)
  then show ?case
    by (auto simp: Let_def split: option.splits intro: conserved_trans [OF conserved_set_nonce])
qed simp

lemma accounts_after_handle_call_conserves [conserves_intros]: "conserves (accounts_after_handle_call c)"
proof -
  have take: "conserved s (snd (take_refund_unused_tx_fee s))" for s :: "('a, 'b) sdk_state"
    unfolding take_refund_unused_tx_fee_def by (auto intro!: conserved_upd_block)
  have set: "conserved s (set_used_tx_gas g s)" for g and s :: "('a, 'b) sdk_state"
    unfolding set_used_tx_gas_def by (rule conserved_upd_local)
  have gas: "conserves (remaining_tx_gas :: (('a, 'b) sdk_state, core_error, u64) rust_op)"
    by (auto intro!: conservesI simp: remaining_tx_gas_def Let_def set split: option.splits)
  have refund: "conserves (refund_fee :: (('a, 'b) sdk_state, core_error, u128) rust_op)"
  proof (rule conservesI)
    fix s t :: "('a, 'b) sdk_state" and r
    assume run: "refund_fee s = (r, t)" "r \<noteq> Panic"
    obtain b u where u: "take_refund_unused_tx_fee s = (b, u)" by (cases "take_refund_unused_tx_fee s")
    have "conserved u t"
    proof (cases b)
      case True
      obtain x v where x: "(remaining_tx_gas :: (('a, 'b) sdk_state, core_error, u64) rust_op) u = (x, v)"
        by (cases "(remaining_tx_gas :: (('a, 'b) sdk_state, core_error, u64) rust_op) u")
      then have "t = v \<and> x \<noteq> Panic" using run u True
        by (cases x) (auto simp: refund_fee_def split: option.splits)
      then show ?thesis using conservesD [OF gas x] by simp
    qed (use run u in \<open>simp add: refund_fee_def\<close>)
    then show "conserved s t" using take [of s] u conserved_trans by force
  qed
  have put: "conserved s (put_fee_manager (record_refund amt (fee_manager_now s)) s)" for amt and s :: "('a, 'b) sdk_state"
    by (simp add: conserved_def circulating_def fun_eq_iff acc_simps record_refund_inv)
  show ?thesis unfolding accounts_after_handle_call_def
    by (intro conserves_bind refund conservesI)
      (auto simp: Let_def emit_unconditional_def update_op_def split: if_splits
        intro: conserved_trans [OF put] conserved_emit put)
qed

text \<open>Outside transaction checks, authentication moves the fee from the payer to the fee manager.\<close>

lemma charge_fees_conserved:
  assumes "charge_fees tx payer s = (r, t)" "r \<noteq> Panic" "\<not> is_check_only (st_env s)"
  shows "conserved s t"
proof (cases "amount (fee_amount tx) = 0")
  case True
  then show ?thesis using assms by (simp add: charge_fees_def)
next
  case False
  let ?m = "seq_op (charge_tx_fee payer (fee_amount tx))
    (update_op (set_priority (let p = gas_price (ai_fee (tx_auth_info tx)) in if unat p < 2 ^ 64 then ucast p else - 1)))"
  have "conserves (?m :: (('a, 'b) sdk_state, core_error, unit) rust_op)"
    by (intro conserves_intros conserved_set_priority)
  moreover have "?m s = (r, t)" using assms(1,3) False by (simp add: charge_fees_def Let_def)
  ultimately show ?thesis using assms(2) by (rule conservesD)
qed

text \<open>Committing the fee of a transaction: the refund goes back, the rest stays for the block.\<close>

lemma after_dispatch_execute:
  assumes "accounts_inv s" "\<not> is_check_only (st_env s)"
  obtains t where "accounts_after_dispatch_tx ai ok s = (Ok (), t)" "conserved s t" "mgr_tx_fee (fee_manager_now t) = None"
proof -
  have fm: "fee_manager_inv (fee_manager_now s)" using assms(1) by (simp add: accounts_inv_def)
  have circ: "circulating s d < 2 ^ 128" for d
    using assms(1) unat_lt [of "supply_of s d"] by (simp add: accounts_inv_def)
  then have "\<And>d. held (fee_manager_now s) d < 2 ^ 128" by (metis circulating_def add_lessD1 add.commute)
  then obtain u m where c: "commit_tx (fee_manager_now s) = Some (u, m)" using commit_tx_total by blast
  note h = commit_tx_held [OF c fm]
  have "total_balance (put_fee_manager m s) (denom (fu_refund u)) + unat (amount (fu_refund u)) < 2 ^ 128"
    using h [of "denom (fu_refund u)"] circ [of "denom (fu_refund u)"]
    by (simp add: acc_simps circulating_def units_of_def)
  then obtain t where t: "add_amount (fu_payer u) (fu_refund u) (put_fee_manager m s) = (Ok (), t)"
    using add_amount_fits by blast
  have b: "books (put_fee_manager m s) t" by (rule add_amount_Ok(2) [OF t])
  have "\<not> is_check_only (st_env t)" using b assms(2) by (simp add: books_def acc_simps)
  then have run: "accounts_after_dispatch_tx ai ok s = (Ok (), t)"
    using c t by (simp add: accounts_after_dispatch_tx_def seq_op_def expect_op_def)
  have "circulating t d = circulating s d" for d
    using add_amount_Ok(1) [OF t, of d] b h [of d] by (simp add: circulating_def books_def acc_simps)
  then have "conserved s t"
    using b commit_tx_inv [OF c] by (simp add: conserved_def books_def acc_simps fun_eq_iff)
  moreover have "mgr_tx_fee (fee_manager_now t) = None"
    using b commit_tx_inv [OF c] by (simp add: books_def acc_simps)
  ultimately show thesis using that run by blast
qed

section \<open>The end of a block\<close>

text \<open>What a list of amounts holds of a denomination.\<close>

definition entries_of :: "(denomination \<times> u128) list \<Rightarrow> denomination \<Rightarrow> nat" where
  "entries_of es d = (\<Sum>(d', v) \<leftarrow> es. if d' = d then unat v else 0)"

lemma entries_of_simps [simp]:
  "entries_of [] d = 0" "entries_of ((d', v) # es) d = (if d' = d then unat v else 0) + entries_of es d"
  by (simp_all add: entries_of_def)

lemma entries_of_distinct:
  "distinct (map fst es) \<Longrightarrow> entries_of es d = (case map_of es d of Some v \<Rightarrow> unat v | None \<Rightarrow> 0)"
proof (induction es)
  case (Cons e es)
  obtain d' v where e: "e = (d', v)" by (cases e)
  have "d' = d \<Longrightarrow> map_of es d = None" using Cons.prems by (auto simp: e map_of_eq_None_iff)
  then show ?case using Cons by (auto simp: e)
qed simp

lemma entries_of_fm: "entries_of (fm_entries m) d = unat (fm_get 0 m d)"
  by (simp add: entries_of_distinct distinct_fm_entries map_of_fm_entries fm_get_def split: option.splits)

lemma get_balances_lookup: "map_of (get_balances a s) d = fmlookup (acc_balances (st_store s)) (a, d)"
proof -
  have "map_of (map (\<lambda>((_, d), v). (d, v)) (filter (\<lambda>((a', _), _). a' = a) es)) d = map_of es (a, d)"
    for es :: "((address \<times> denomination) \<times> u128) list"
    by (induction es) auto
  then show ?thesis by (simp add: get_balances_def map_of_fm_entries)
qed

lemma get_balances_distinct: "distinct (map fst (get_balances a s))"
proof -
  have "distinct (map fst es) \<Longrightarrow> distinct (map fst (map (\<lambda>((_, d), v). (d, v)) (filter (\<lambda>((a', _), _). a' = a) es)))"
    for es :: "((address \<times> denomination) \<times> u128) list"
    by (induction es) force+
  then show ?thesis by (simp add: get_balances_def distinct_fm_entries)
qed

lemma get_balances_entries: "entries_of (get_balances a s) d = unat (balance_of s a d)"
  by (simp add: entries_of_distinct get_balances_distinct get_balances_lookup balance_of_def fm_get_def split: option.splits)

text \<open>Emptying an account: every amount is what the account has.\<close>

lemma sub_amount_other: "sub_amount a amt s = (Ok (), t) \<Longrightarrow> d \<noteq> denom amt \<Longrightarrow> balance_of t a d = balance_of s a d"
  by (auto simp: sub_amount_def acc_simps split: if_splits option.splits)

lemma drain_run:
  "distinct (map fst es) \<Longrightarrow> (\<And>d v. (d, v) \<in> set es \<Longrightarrow> balance_of s acc d = v) \<Longrightarrow>
   \<exists>t. drain acc es s = (Ok (), t) \<and> books s t \<and> (\<forall>d. total_balance t d + entries_of es d = total_balance s d)"
proof (induction es arbitrary: s)
  case (Cons e es)
  obtain d v where e: "e = (d, v)" by (cases e)
  have "balance_of s acc d = v" using Cons.prems(2) e by simp
  then obtain u where u: "sub_amount acc (BaseUnits v d) s = (Ok (), u)"
    using sub_amount_enough [of "BaseUnits v d" s acc] by auto
  have "balance_of u acc d' = w" if "(d', w) \<in> set es" for d' w
    using that Cons.prems e sub_amount_other [OF u, of d'] by force
  then obtain t where t: "drain acc es u = (Ok (), t)" "books u t"
      "\<forall>d. total_balance t d + entries_of es d = total_balance u d"
    using Cons.IH [of u] Cons.prems(1) by auto
  have "drain acc (e # es) s = (Ok (), t)" using t(1) u e by (simp add: drain_def seq_op_def expect_op_def)
  moreover have "books s t" using sub_amount_Ok(2) [OF u] t(2) by (rule books_trans)
  moreover have "total_balance t d' + entries_of (e # es) d' = total_balance s d'" for d'
    using t(3) [rule_format, of d'] sub_amount_Ok(1) [OF u, of d'] e by (auto simp: units_of_def)
  ultimately show ?case by blast
qed (simp add: drain_def return_op_def)

text \<open>Disbursing: what is left to pay and what was paid add up.\<close>

definition pot :: "('m, 'g) sdk_state \<Rightarrow> (denomination \<Rightarrow> nat) \<Rightarrow> (denomination, u128) fmap \<times> ('m, 'g) sdk_state \<Rightarrow> bool" where
  "pot s0 K = (\<lambda>(fees, s). books s0 s \<and> (\<forall>d. total_balance s d + unat (fm_get 0 fees d) = K d))"

definition amounts_of :: "base_units list \<Rightarrow> denomination \<Rightarrow> nat" where
  "amounts_of amts d = (\<Sum>amt \<leftarrow> amts. units_of amt d)"

lemma amounts_of_simps [simp]:
  "amounts_of [] d = 0" "amounts_of (amt # amts) d = units_of amt d + amounts_of amts d"
  by (simp_all add: amounts_of_def)

text \<open>A payment of \<open>amts\<close> in all, out of a pot that has them.\<close>

definition pays :: "('m, 'g) sdk_state \<Rightarrow> (denomination \<Rightarrow> nat) \<Rightarrow> (denomination \<Rightarrow> nat) \<Rightarrow>
    ((denomination, u128) fmap \<times> ('m, 'g) sdk_state, 'e, unit) rust_op \<Rightarrow> bool" where
  "pays s0 K w m \<longleftrightarrow> (\<forall>fees s. pot s0 K (fees, s) \<longrightarrow> (\<forall>d. w d \<le> unat (fm_get 0 fees d)) \<longrightarrow>
     (\<exists>fees' t. m (fees, s) = (Ok (), (fees', t)) \<and> pot s0 K (fees', t) \<and>
        (\<forall>d. unat (fm_get 0 fees' d) + w d = unat (fm_get 0 fees d))))"

lemma disburse_one_pays:
  assumes "\<And>d. K d < 2 ^ 128" "0 < amount amt"
  shows "pays s0 K (units_of amt) (disburse_one acc a amt)"
proof -
  have "\<exists>fees' t. disburse_one acc a amt (fees, s) = (Ok (), (fees', t)) \<and> pot s0 K (fees', t) \<and>
      (\<forall>d. unat (fm_get 0 fees' d) + units_of amt d = unat (fm_get 0 fees d))"
    if p: "pot s0 K (fees, s)" and le: "\<forall>d. units_of amt d \<le> unat (fm_get 0 fees d)" for fees and s :: "('a, 'b) sdk_state"
  proof -
    have am: "unat (amount amt) \<le> unat (fm_get 0 fees (denom amt))"
      using le [rule_format, of "denom amt"] by (simp add: units_of_def)
    then obtain rem where rem: "fmlookup fees (denom amt) = Some rem"
      using assms(2) by (cases "fmlookup fees (denom amt)") (auto simp: word_less_nat_alt)
    obtain r where r: "checked_sub rem (amount amt) = Some r" "unat rem = unat r + unat (amount amt)"
      using am rem by (metis checked_sub_None checked_sub_Some fm_get_Some leD not_Some_eq)
    have "total_balance s (denom amt) + unat (amount amt) < 2 ^ 128"
      using p assms(1) [of "denom amt"] am by (auto simp: pot_def dest!: spec [of _ "denom amt"])
    then obtain t where t: "add_amount a amt s = (Ok (), t)" using add_amount_fits by blast
    let ?t = "emit_event_raw (sdk_event_key (Ev_Transfer acc a amt)) (Ev_Transfer acc a amt) t"
    have run: "disburse_one acc a amt (fees, s) = (Ok (), (fmupd (denom amt) r fees, ?t))"
      using rem r t by (simp add: disburse_one_def)
    have f: "unat (fm_get 0 (fmupd (denom amt) r fees) d) + units_of amt d = unat (fm_get 0 fees d)" for d
      using rem r by (auto simp: units_of_def)
    have "books s0 ?t" using p add_amount_Ok(2) [OF t] books_trans by (auto simp: pot_def)
    moreover have "total_balance ?t d + unat (fm_get 0 (fmupd (denom amt) r fees) d) = K d" for d
      using p f [of d] add_amount_Ok(1) [OF t, of d] by (auto simp: pot_def acc_simps dest!: spec [of _ d])
    ultimately have "pot s0 K (fmupd (denom amt) r fees, ?t)" by (simp add: pot_def)
    with run f show ?thesis by blast
  qed
  then show ?thesis by (simp add: pays_def)
qed

lemma pays_skip: "pays s0 K (\<lambda>_. 0) (return_op ())"
  by (simp add: pays_def return_op_def)

lemma pays_seq:
  assumes "pays s0 K v m" "pays s0 K w n"
  shows "pays s0 K (\<lambda>d. v d + w d) (seq_op m n)"
  unfolding pays_def
proof (intro allI impI)
  fix fees s
  assume p: "pot s0 K (fees, s)" and le: "\<forall>d. v d + w d \<le> unat (fm_get 0 fees d)"
  then have "\<forall>d. v d \<le> unat (fm_get 0 fees d)" by (meson add_leE)
  then obtain fees1 s1 where 1: "m (fees, s) = (Ok (), (fees1, s1))" "pot s0 K (fees1, s1)"
      "\<forall>d. unat (fm_get 0 fees1 d) + v d = unat (fm_get 0 fees d)"
    using assms(1) p unfolding pays_def by blast
  have "\<forall>d. w d \<le> unat (fm_get 0 fees1 d)" using le 1(3) by (metis add.commute nat_add_left_cancel_le)
  then obtain fees2 s2 where 2: "n (fees1, s1) = (Ok (), (fees2, s2))" "pot s0 K (fees2, s2)"
      "\<forall>d. unat (fm_get 0 fees2 d) + w d = unat (fm_get 0 fees1 d)"
    using assms(2) 1(2) unfolding pays_def by blast
  have "unat (fm_get 0 fees2 d) + (v d + w d) = unat (fm_get 0 fees d)" for d
    using 1(3) [rule_format, of d] 2(3) [rule_format, of d] by linarith
  then show "\<exists>fees' t. seq_op m n (fees, s) = (Ok (), (fees', t)) \<and> pot s0 K (fees', t) \<and>
      (\<forall>d. unat (fm_get 0 fees' d) + (v d + w d) = unat (fm_get 0 fees d))"
    using 1(1) 2(1,2) by (simp add: seq_op_def)
qed

lemma pays_for:
  "(\<And>x. x \<in> set xs \<Longrightarrow> pays s0 K (w x) (f x)) \<Longrightarrow> pays s0 K (\<lambda>d. \<Sum>x \<leftarrow> xs. w x d) (for_op f xs)"
  by (induction xs) (simp_all add: pays_skip pays_seq)

lemma disburse_pays:
  assumes "\<And>d. K d < 2 ^ 128" "\<And>amt. amt \<in> set amts \<Longrightarrow> 0 < amount amt"
  shows "pays s0 K (\<lambda>d. length addrs * amounts_of amts d) (disburse acc addrs amts)"
proof -
  have "pays s0 K (amounts_of amts) (for_op (disburse_one acc a) amts)" for a
    unfolding amounts_of_def using assms by (intro pays_for disburse_one_pays)
  then have "pays s0 K (\<lambda>d. \<Sum>a \<leftarrow> addrs. amounts_of amts d) (disburse acc addrs amts)"
    unfolding disburse_def by (rule pays_for)
  then show ?thesis by (simp add: sum_list_triv)
qed

text \<open>The shares of all addresses together are at most the fee.\<close>

lemma disburse_amounts_positive: "amt \<in> set (disburse_amounts fees n) \<Longrightarrow> 0 < amount amt"
  by (auto simp: disburse_amounts_def Let_def word_gt_0 split: if_splits)

lemma disburse_amounts_le:
  assumes "0 < n" "n < 2 ^ 128"
  shows "n * amounts_of (disburse_amounts fees n) d \<le> entries_of fees d"
proof (induction fees)
  case (Cons e fees)
  obtain d' v where e: "e = (d', v)" by (cases e)
  have "unat (of_nat n :: u128) = n" using assms(2) by (simp add: unsigned_of_nat take_bit_nat_eq_self)
  then have "unat (v div of_nat n) = unat v div n" by (simp add: unat_div)
  then have "n * unat (v div of_nat n) \<le> unat v" by simp
  then show ?case using Cons.IH
    by (auto simp: e disburse_amounts_def Let_def units_of_def distrib_left intro: add_le_mono)
qed (simp add: disburse_amounts_def)

text \<open>Crediting a list of amounts that fit.\<close>

abbreviation credit_all :: "address \<Rightarrow> (denomination \<times> u128) list \<Rightarrow> (('m, 'g) sdk_state, accounts_error, unit) rust_op" where
  "credit_all acc \<equiv> for_op (\<lambda>(d, v). expect_op (add_amount acc (BaseUnits v d)))"

lemma credit_run:
  "(\<And>d. total_balance s d + entries_of es d < 2 ^ 128) \<Longrightarrow>
   \<exists>t. credit_all acc es s = (Ok (), t) \<and> books s t \<and>
     (\<forall>d. total_balance t d = total_balance s d + entries_of es d)"
proof (induction es arbitrary: s)
  case (Cons e es)
  obtain d v where e: "e = (d, v)" by (cases e)
  have "total_balance s d + unat v < 2 ^ 128" using Cons.prems [of d] e by simp
  then obtain u where u: "add_amount acc (BaseUnits v d) s = (Ok (), u)"
    using add_amount_fits [of s "BaseUnits v d" acc] by auto
  have tot: "total_balance u d' + entries_of es d' = total_balance s d' + entries_of (e # es) d'" for d'
    using add_amount_Ok(1) [OF u, of d'] e by (auto simp: units_of_def)
  then obtain t where t: "credit_all acc es u = (Ok (), t)" "books u t"
      "\<forall>d. total_balance t d = total_balance u d + entries_of es d"
    using Cons.IH [of u] Cons.prems unfolding tot by blast
  have "credit_all acc (e # es) s = (Ok (), t)"
    using t(1) u e by (simp add: seq_op_def expect_op_def)
  moreover have "books s t" using add_amount_Ok(2) [OF u] t(2) by (rule books_trans)
  moreover have "total_balance t d' = total_balance s d' + entries_of (e # es) d'" for d'
    using t(3) [rule_format, of d'] tot [of d'] by linarith
  ultimately show ?case by blast
qed (simp add: return_op_def)

lemma pool_remainder_run:
  "(\<And>d. total_balance s d + entries_of es d < 2 ^ 128) \<Longrightarrow>
   \<exists>t. pool_remainder acc pool es s = (Ok (), t) \<and> books s t \<and>
     (\<forall>d. total_balance t d = total_balance s d + entries_of es d)"
proof (induction es arbitrary: s)
  case (Cons e es)
  obtain d v where e: "e = (d, v)" by (cases e)
  show ?case
  proof (cases "v = 0")
    case True
    then have z: "entries_of (e # es) d' = entries_of es d'" for d' using e by simp
    have "pool_remainder acc pool (e # es) s = pool_remainder acc pool es s"
      using True e by (simp add: pool_remainder_def seq_op_def return_op_def)
    then show ?thesis using Cons.IH [of s] Cons.prems unfolding z by simp
  next
    case False
    let ?ev = "Ev_Transfer acc pool (BaseUnits v d)"
    have "total_balance s d + unat v < 2 ^ 128" using Cons.prems [of d] e by simp
    then obtain u where u: "add_amount pool (BaseUnits v d) s = (Ok (), u)"
      using add_amount_fits [of s "BaseUnits v d" pool] by auto
    let ?u = "emit_event_raw (sdk_event_key ?ev) ?ev u"
    have tot: "total_balance ?u d' + entries_of es d' = total_balance s d' + entries_of (e # es) d'" for d'
      using add_amount_Ok(1) [OF u, of d'] e by (auto simp: units_of_def acc_simps)
    have b: "books s ?u" using add_amount_Ok(2) [OF u] by simp
    obtain t where t: "pool_remainder acc pool es ?u = (Ok (), t)" "books ?u t"
        "\<forall>d. total_balance t d = total_balance ?u d + entries_of es d"
      using Cons.IH [of ?u] Cons.prems unfolding tot by blast
    then have "pool_remainder acc pool (e # es) s = (Ok (), t)"
      using u e False by (simp add: pool_remainder_def seq_op_def expect_op_def)
    moreover have "books s t" using b t(2) by (rule books_trans)
    moreover have "total_balance t d' = total_balance s d' + entries_of (e # es) d'" for d'
      using t(3) [rule_format, of d'] tot [of d'] by linarith
    ultimately show ?thesis by blast
  qed
qed (simp add: pool_remainder_def return_op_def)

lemma fmlookup_get_balances: "fm_get 0 (fmap_of_list (get_balances a s)) d = balance_of s a d"
  by (simp add: fm_get_def fmlookup_of_list get_balances_lookup balance_of_def)

text \<open>Draining the accumulator, paying the committee and pooling the rest conserves the balances.\<close>

lemma disburse_previous:
  assumes bound: "\<And>d. total_balance s d < 2 ^ 128" and len: "length addrs < 2 ^ 128"
  shows "\<exists>u fees v. drain acc (get_balances acc s) s = (Ok (), u) \<and>
    (if addrs \<noteq> [] then disburse acc addrs (disburse_amounts (get_balances acc s) (length addrs)) else return_op ())
       (fmap_of_list (get_balances acc s), u) = (Ok (), (fees, v)) \<and>
    books s v \<and> (\<forall>d. total_balance v d + unat (fm_get 0 fees d) = total_balance s d)"
proof -
  let ?es = "get_balances acc s"
  have "balance_of s acc d = v" if "(d, v) \<in> set ?es" for d v
    using that get_balances_distinct [of acc s] by (simp add: balance_of_def fm_get_def flip: get_balances_lookup)
  then obtain u where u: "drain acc ?es s = (Ok (), u)" "books s u"
      "\<forall>d. total_balance u d + entries_of ?es d = total_balance s d"
    using drain_run [OF get_balances_distinct] by blast
  have p: "pot s (total_balance s) (fmap_of_list ?es, u)"
    using u(2,3) by (simp add: pot_def fmlookup_get_balances get_balances_entries)
  let ?m = "if addrs \<noteq> [] then disburse acc addrs (disburse_amounts ?es (length addrs)) else return_op ()"
  have "\<exists>fees v. ?m (fmap_of_list ?es, u) = (Ok (), (fees, v)) \<and> pot s (total_balance s) (fees, v)"
  proof (cases "addrs = []")
    case False
    have "pays s (total_balance s) (\<lambda>d. length addrs * amounts_of (disburse_amounts ?es (length addrs)) d)
        (disburse acc addrs (disburse_amounts ?es (length addrs)))"
      by (intro disburse_pays bound disburse_amounts_positive)
    moreover have "length addrs * amounts_of (disburse_amounts ?es (length addrs)) d \<le> unat (fm_get 0 (fmap_of_list ?es) d)" for d
      using disburse_amounts_le [of "length addrs" ?es d] False len
      by (simp add: fmlookup_get_balances get_balances_entries)
    ultimately show ?thesis using p False unfolding pays_def by simp blast
  qed (simp add: return_op_def p)
  then show ?thesis using u(1) by (auto simp: pot_def)
qed

lemma accounts_end_block_run:
  assumes "accounts_inv s" "mgr_tx_fee (fee_manager_now s) = None" "length (ctx_good_compute_entities c) < 2 ^ 128"
  obtains t where "accounts_end_block c s = (Ok (), t)" "accounts_inv t" "supply_of t = supply_of s"
    "fee_manager_now t = fee_manager_new"
proof -
  let ?acc = "ADDRESS_FEE_ACCUMULATOR c" and ?pool = "ADDRESS_COMMON_POOL c"
  let ?addrs = "map (\<lambda>pk. from_sigspec (ctx_deps c) (Spec_Ed25519 pk)) (ctx_good_compute_entities c)"
  have lt: "circulating s d < 2 ^ 128" for d
    using assms(1) unat_lt [of "supply_of s d"] by (simp add: accounts_inv_def)
  then have ts: "\<And>d. total_balance s d < 2 ^ 128" by (metis circulating_def add_lessD1)
  have len: "length ?addrs < 2 ^ 128" using assms(3) by simp
  obtain u fees v where u: "drain ?acc (get_balances ?acc s) s = (Ok (), u)"
    "(if ?addrs \<noteq> [] then disburse ?acc ?addrs (disburse_amounts (get_balances ?acc s) (length ?addrs)) else return_op ())
       (fmap_of_list (get_balances ?acc s), u) = (Ok (), (fees, v))"
    and v: "books s v" "\<forall>d. total_balance v d + unat (fm_get 0 fees d) = total_balance s d"
    using disburse_previous [OF ts len, of ?acc] by blast
  have "total_balance v d + entries_of (fm_entries fees) d < 2 ^ 128" for d
    using v(2) lt [of d] by (simp add: entries_of_fm circulating_def)
  then obtain w where w: "pool_remainder ?acc ?pool (fm_entries fees) v = (Ok (), w)" "books v w"
      "\<forall>d. total_balance w d = total_balance v d + entries_of (fm_entries fees) d"
    using pool_remainder_run by blast
  have bw: "books s w" and tw: "\<And>d. total_balance w d = total_balance s d"
    using v w books_trans by (auto simp: entries_of_fm)
  let ?w = "upd_block (\<lambda>b. b\<lparr>bv_fee_manager := None\<rparr>) w"
  let ?blk = "fm_entries (commit_block (fee_manager_now s))"
  have held: "entries_of ?blk d = held (fee_manager_now s) d" for d
    using assms(2) by (simp add: entries_of_fm commit_block_def held_def tx_held_def block_held_def)
  have "total_balance ?w d + entries_of ?blk d < 2 ^ 128" for d
    using lt [of d] tw [of d] held [of d] by (simp add: acc_simps circulating_def)
  then obtain t where t: "credit_all ?acc ?blk ?w = (Ok (), t)" "books ?w t"
      "\<forall>d. total_balance t d = total_balance ?w d + entries_of ?blk d"
    using credit_run by blast
  have "collect_block_fees ?acc w = (Ok (), t)"
    using t(1) bw by (simp add: collect_block_fees_def Let_def books_def)
  then have run: "accounts_end_block c s = (Ok (), t)"
    using u w(1)
    by (simp add: accounts_end_block_def Let_def seq_op_def del: length_map map_is_Nil_conv from_sigspec.simps split del: if_split)
  have fm: "fee_manager_now t = fee_manager_new" "supply_of t = supply_of s"
    using t(2) bw by (auto simp: books_def acc_simps fee_manager_now_def fun_eq_iff)
  have "circulating t d = circulating s d" for d
    using t(3) tw [of d] held [of d] by (simp add: circulating_def fm acc_simps)
  then show thesis using that run fm assms(1) by (simp add: accounts_inv_def fee_manager_inv_new)
qed

end
