(* ===== verification/Accounts_Check.thy ===== *)
theory Accounts_Check
  imports Accounts_Books
begin

text \<open>
  The module's own check (\<open>check_invariants\<close>) and genesis: the check passes exactly when the table of
  total supplies is what the balances add up to, and it passes after every block.
\<close>

section \<open>All balances, by address\<close>

definition group_get :: "(address, (denomination, u128) fmap) fmap \<Rightarrow> address \<Rightarrow> denomination \<Rightarrow> u128 option" where
  "group_get b a d = fmlookup (fm_get fmempty b a) d"

lemma group_get_upd:
  "group_get (fmupd a (add_entry d v (fm_get fmempty b a)) b) a' d' =
     (if a' = a \<and> d' = d then Some (case group_get b a d of Some w \<Rightarrow> w + v | None \<Rightarrow> v) else group_get b a' d')"
  by (simp add: group_get_def add_entry_def)

lemma regroup_get:
  "distinct (map fst es) \<Longrightarrow> (\<And>k v. (k, v) \<in> set es \<Longrightarrow> group_get b (fst k) (snd k) = None) \<Longrightarrow>
   group_get (regroup es b) a d = (case map_of es (a, d) of Some v \<Rightarrow> Some v | None \<Rightarrow> group_get b a d)"
proof (induction es arbitrary: b)
  case (Cons e es)
  obtain a' d' v where e: "e = ((a', d'), v)" by (cases e) auto
  let ?b = "fmupd a' (add_entry d' v (fm_get fmempty b a')) b"
  have new: "(a', d') \<notin> fst ` set es" using Cons.prems(1) e by auto
  have "group_get ?b (fst k) (snd k) = None" if "(k, w) \<in> set es" for k w
    using Cons.prems(2) [of k w] that new by (cases k) (force simp: group_get_upd)
  then have "group_get (regroup es ?b) a d = (case map_of es (a, d) of Some v \<Rightarrow> Some v | None \<Rightarrow> group_get ?b a d)"
    using Cons.IH [of ?b] Cons.prems(1) by simp
  moreover have "group_get b a' d' = None" using Cons.prems(2) [of "(a', d')" v] e by simp
  moreover have "map_of es (a', d') = None" using new by (simp add: map_of_eq_None_iff)
  ultimately show ?case using e by (cases "a = a' \<and> d = d'") (auto simp: group_get_upd cong: option.case_cong)
qed simp

lemma all_balances_get: "group_get (get_all_balances s) a d = fmlookup (acc_balances (st_store s)) (a, d)"
  using regroup_get [OF distinct_fm_entries [of "acc_balances (st_store s)"], of fmempty a d]
  by (simp add: get_all_balances_def map_of_fm_entries group_get_def split: option.splits)

section \<open>The supplies computed from the balances\<close>

lemma add_entry_get:
  "fmlookup (add_entry k v m) k' = (if k' = k then Some (fm_get 0 m k + v) else fmlookup m k')"
  by (auto simp: add_entry_def fm_get_def split: option.splits)

lemma sum_denominations_get:
  "fm_get 0 (sum_denominations es c) d = fm_get 0 c d + (\<Sum>(d', v :: u128) \<leftarrow> es. if d' = d then v else 0)"
  "fmdom' (sum_denominations es c) = fmdom' c \<union> fst ` set es"
  by (induction es c rule: sum_denominations.induct)
    (auto simp: fm_get_def add_entry_get add_entry_def split: option.splits)

lemma sum_entries_word:
  "(\<Sum>(d' :: denomination, v) \<leftarrow> fm_entries m. if d' = d then v else 0) = fm_get (0 :: u128) m d"
proof -
  have "distinct (map fst es) \<Longrightarrow>
      (\<Sum>(d', v :: u128) \<leftarrow> es. if d' = d then v else 0) = (case map_of es d of Some v \<Rightarrow> v | None \<Rightarrow> (0 :: u128))"
    for es :: "(denomination \<times> u128) list"
  proof (induction es)
    case (Cons e es)
    have "fst e = d \<Longrightarrow> map_of es d = None" using Cons.prems by (auto simp: map_of_eq_None_iff)
    then show ?case using Cons by (cases e) auto
  qed simp
  then show ?thesis by (simp add: distinct_fm_entries map_of_fm_entries fm_get_def)
qed

lemma fold_supplies:
  "fm_get 0 (fold (\<lambda>(_, bals). sum_denominations (fm_entries bals)) gs c) d =
     fm_get 0 c d + (\<Sum>(_, bals) \<leftarrow> gs. fm_get 0 bals d)"
  "fmdom' (fold (\<lambda>(_, bals). sum_denominations (fm_entries bals)) gs c) =
     fmdom' c \<union> (\<Union>(_, bals) \<in> set gs. fmdom' bals)"
proof (induction gs arbitrary: c)
  case (Cons g gs)
  obtain a bals where g: "g = (a, bals)" by (cases g)
  { case 1 then show ?case using Cons.IH(1) by (simp add: g sum_denominations_get(1) sum_entries_word add.assoc) }
  { case 2 then show ?case using Cons.IH(2) by (simp add: g sum_denominations_get(2) Un_assoc fst_fm_entries) }
qed simp_all

text \<open>The sum over grouped balances, whatever the grouping \<open>G\<close> of the table \<open>B\<close>.\<close>

abbreviation denom_total :: "(address \<times> denomination, u128) fmap \<Rightarrow> denomination \<Rightarrow> nat" where
  "denom_total B d \<equiv> fm_total (\<lambda>(a, d') v. if d' = d then unat v else 0) B"

lemma of_nat_total: "of_nat (denom_total B d) = (\<Sum>a \<in> fst ` fmdom' B. fm_get (0 :: u128) B (a, d))"
proof -
  let ?D = "fmdom' B"
  have "(of_nat (denom_total B d) :: u128) = (\<Sum>k \<in> ?D. if snd k = d then fm_get 0 B (fst k, d) else 0)"
    unfolding fm_total_def of_nat_sum by (rule sum.cong) (auto simp: fm_get_def fmlookup_dom'_iff)
  also have "\<dots> = (\<Sum>k \<in> {k \<in> ?D. snd k = d}. fm_get 0 B (fst k, d))"
    by (simp add: sum.inter_filter)
  also have "\<dots> = (\<Sum>a \<in> fst ` {k \<in> ?D. snd k = d}. fm_get 0 B (a, d))"
    by (subst sum.reindex) (auto simp: inj_on_def prod_eq_iff)
  also have "\<dots> = (\<Sum>a \<in> fst ` ?D. fm_get 0 B (a, d))"
    by (rule sum.mono_neutral_left) (auto simp: fm_get_def fmlookup_dom'_iff image_iff split: option.splits)
  finally show ?thesis .
qed

definition group_supplies :: "(address, (denomination, u128) fmap) fmap \<Rightarrow> (denomination, u128) fmap" where
  "group_supplies G = fold (\<lambda>(_, bals). sum_denominations (fm_entries bals)) (fm_entries G) fmempty"

lemma group_supplies_get:
  assumes grp: "\<And>a d. group_get G a d = fmlookup B (a, d)"
  shows "fmlookup (group_supplies G) d = (if \<exists>a. (a, d) \<in> fmdom' B then Some (of_nat (denom_total B d)) else None)"
proof -
  have ent: "\<And>a bals. (a, bals) \<in> set (fm_entries G) \<Longrightarrow> fmlookup bals d = fmlookup B (a, d)"
    by (metis grp fm_get_Some group_get_def set_fm_entries)
  have sub: "fst ` fmdom' B \<subseteq> fmdom' G"
    using grp by (force simp: group_get_def fm_get_def fmlookup_dom'_iff split: option.splits)
  have "(\<Sum>(_, bals) \<leftarrow> fm_entries G. fm_get 0 bals d) = (\<Sum>(a, _) \<leftarrow> fm_entries G. fm_get 0 B (a, d))"
    using ent by (intro arg_cong [where f = sum_list] map_cong) (auto simp: fm_get_def)
  also have "\<dots> = (\<Sum>a \<in> fmdom' G. fm_get 0 B (a, d))"
    by (simp add: fm_entries_def comp_def sum_list_distinct_conv_sum_set sorted_list_of_fset.rep_eq fmdom'_alt_def)
  also have "\<dots> = (\<Sum>a \<in> fst ` fmdom' B. fm_get 0 B (a, d))"
  proof (rule sum.mono_neutral_right)
    have "fmlookup B (a, d) = None" if "a \<notin> fst ` fmdom' B" for a
      using that by (metis fmdom'_notD fst_conv image_eqI)
    then show "\<forall>a \<in> fmdom' G - fst ` fmdom' B. fm_get 0 B (a, d) = 0" by simp
  qed (simp_all add: sub)
  finally have get: "fm_get 0 (group_supplies G) d = of_nat (denom_total B d)"
    by (simp add: group_supplies_def fold_supplies(1) of_nat_total)
  have "d \<in> fmdom' (group_supplies G) \<longleftrightarrow> (\<exists>a bals. (a, bals) \<in> set (fm_entries G) \<and> d \<in> fmdom' bals)"
    by (auto simp: group_supplies_def fold_supplies(2))
  also have "\<dots> \<longleftrightarrow> (\<exists>a. group_get G a d \<noteq> None)"
    by (auto simp: set_fm_entries group_get_def fm_get_def fmlookup_dom'_iff split: option.splits) blast
  finally have "d \<in> fmdom' (group_supplies G) \<longleftrightarrow> (\<exists>a. (a, d) \<in> fmdom' B)" by (simp add: grp fmlookup_dom'_iff)
  with get show ?thesis
    by (cases "fmlookup (group_supplies G) d") (auto simp: fmlookup_dom'_iff fmdom'_notI)
qed

text \<open>What the check computes: the sum modulo \<open>2 ^ 128\<close> of every denomination that some account has.\<close>

lemma computed_supplies_get:
  "fmlookup (computed_supplies s) d =
     (if \<exists>a. (a, d) \<in> fmdom' (acc_balances (st_store s)) then Some (of_nat (total_balance s d)) else None)"
  using group_supplies_get [of "get_all_balances s" "acc_balances (st_store s)" d]
  by (simp add: all_balances_get group_supplies_def computed_supplies_def total_balance_def)

section \<open>The check\<close>

text \<open>Both the check and genesis compare tables by removing what matches and seeing what is left.\<close>

lemma drop_checked:
  assumes "d \<notin> fst ` set es"
  shows "(\<forall>(d', w) \<in> set es. fmlookup (fmdrop d c) d' = Some w) \<longleftrightarrow> (\<forall>(d', w) \<in> set es. fmlookup c d' = Some w)"
    and "fmdrop_set (fst ` set es) (fmdrop d c) = fmdrop_set (insert d (fst ` set es)) c"
  using assms by (auto intro!: ball_cong fmap_ext simp: image_iff)

lemma matched_tables:
  "(\<forall>(d, v) \<in> set (fm_entries m). fmlookup c d = Some v) \<and> fmempty = fmdrop_set (fst ` set (fm_entries m)) c \<longleftrightarrow> m = c"
  (is "?match \<longleftrightarrow> _")
proof
  assume a: ?match
  have "fmlookup m d = fmlookup c d" for d
  proof (cases "fmlookup m d")
    case None
    then have "fmlookup (fmdrop_set (fmdom' m) c) d = fmlookup c d" by (simp add: fmlookup_dom'_iff)
    then show ?thesis using a None by (metis fmempty_lookup fst_fm_entries)
  next
    case (Some v)
    then have "(d, v) \<in> set (fm_entries m)" by (simp add: set_fm_entries)
    then show ?thesis using a Some by auto
  qed
  then show "m = c" by (rule fmap_ext)
next
  assume eq: "m = c"
  have "fmempty = fmdrop_set (fmdom' c) c" by (rule fmap_ext) (auto simp: fmlookup_dom'_iff)
  then show ?match by (auto simp: eq fst_fm_entries set_fm_entries)
qed

lemma match_supplies_Inr:
  "distinct (map fst es) \<Longrightarrow>
   match_supplies es c = Inr rest \<longleftrightarrow> (\<forall>(d, v) \<in> set es. fmlookup c d = Some v) \<and> rest = fmdrop_set (fst ` set es) c"
proof (induction es arbitrary: c)
  case (Cons e es)
  obtain d v where e: "e = (d, v)" by (cases e)
  have new: "d \<notin> fst ` set es" using Cons.prems e by simp
  show ?case
  proof (cases "fmlookup c d = Some v")
    case True
    then show ?thesis using Cons.IH [of "fmdrop d c"] Cons.prems e drop_checked [OF new] by simp
  next
    case False
    then show ?thesis using e by (cases "fmlookup c d") simp_all
  qed
qed auto

lemma check_invariants_iff: "check_invariants s = Inr () \<longleftrightarrow> get_total_supplies s = computed_supplies s"
proof -
  let ?T = "get_total_supplies s" and ?C = "computed_supplies s"
  have "check_invariants s = Inr () \<longleftrightarrow> match_supplies (fm_entries ?T) ?C = Inr fmempty"
    by (auto simp: check_invariants_def bind_result_def split: sum.splits if_splits)
  also have "\<dots> \<longleftrightarrow> ?T = ?C" unfolding match_supplies_Inr [OF distinct_fm_entries] by (rule matched_tables)
  finally show ?thesis .
qed

section \<open>Which denominations are in the tables\<close>

definition tables_ok :: "('m, 'g) sdk_state \<Rightarrow> bool" where
  "tables_ok s \<longleftrightarrow> fmdom' (acc_total_supplies (st_store s)) = snd ` fmdom' (acc_balances (st_store s))"

lemma check_passes:
  assumes "tables_ok s" "\<And>d. total_balance s d = unat (supply_of s d)"
  shows "check_invariants s = Inr ()"
  unfolding check_invariants_iff
proof (rule fmap_ext)
  fix d
  have "(\<exists>a. (a, d) \<in> fmdom' (acc_balances (st_store s))) \<longleftrightarrow> d \<in> fmdom' (acc_total_supplies (st_store s))"
    using assms(1) by (force simp: tables_ok_def)
  then show "fmlookup (get_total_supplies s) d = fmlookup (computed_supplies s) d"
    using assms(2) [of d] unfolding computed_supplies_get
    by (auto simp: get_total_supplies_def supply_of_def fmlookup_dom'_iff fmdom'_notI)
qed

text \<open>
  No balance outside the denominations \<open>S\<close>, the keys \<open>B\<close> still there and the fee manager as it was; kept by every operation
  that credits only what is supplied.
\<close>

definition within :: "denomination set \<Rightarrow> (address \<times> denomination) set \<Rightarrow> fee_manager \<Rightarrow> ('m, 'g) sdk_state \<Rightarrow> bool" where
  "within S B F s \<longleftrightarrow> fmdom' (acc_total_supplies (st_store s)) = S \<and> B \<subseteq> fmdom' (acc_balances (st_store s)) \<and>
     snd ` fmdom' (acc_balances (st_store s)) \<subseteq> S \<and> fee_manager_now s = F"

lemma within_start: "tables_ok s \<Longrightarrow> within (fmdom' (acc_total_supplies (st_store s))) (fmdom' (acc_balances (st_store s))) (fee_manager_now s) s"
  by (simp add: tables_ok_def within_def)

lemma within_end:
  "tables_ok s \<Longrightarrow> within (fmdom' (acc_total_supplies (st_store s))) (fmdom' (acc_balances (st_store s))) F t \<Longrightarrow> tables_ok t"
  by (auto simp: tables_ok_def within_def)

lemma within_emit: "within S B F s \<Longrightarrow> within S B F (emit_event_raw k v s)"
  by (simp add: within_def acc_simps)

lemma keeps_within_sub: "keeps (within S B F) (sub_amount a amt)"
proof -
  have "within S B F (put_balance a (denom amt) v s)"
    if "within S B F s" "checked_sub (balance_of s a (denom amt)) (amount amt) = Some v" "amount amt \<noteq> 0"
    for s :: "('a, 'b) sdk_state" and v
  proof -
    have "0 < unat (amount amt)" using that(3) by (simp add: unat_gt_0)
    then have "balance_of s a (denom amt) \<noteq> 0" using that(2) by (auto simp: checked_sub_Some)
    then have "(a, denom amt) \<in> fmdom' (acc_balances (st_store s))"
      by (auto simp: balance_of_def fm_get_def fmlookup_dom'_iff split: option.splits)
    then show ?thesis using that(1) by (auto simp: within_def put_balance_def fee_manager_now_def)
  qed
  then show ?thesis by (auto intro!: keepsI simp: sub_amount_def split: if_splits option.splits)
qed

lemma keeps_within_add: "amount amt = 0 \<or> denom amt \<in> S \<Longrightarrow> keeps (within S B F) (add_amount a amt)"
  by (auto intro!: keepsI simp: add_amount_def within_def put_balance_def fee_manager_now_def split: if_splits option.splits)

lemma keeps_within_emit: "keeps (within S B F) (emit_event ev)"
  by (auto intro!: keepsI intro: within_emit)

text \<open>The same through the end of a block; \<open>previous_fees\<close> only has denominations of the accumulator.\<close>

definition pot_within :: "denomination set \<Rightarrow> (address \<times> denomination) set \<Rightarrow> fee_manager \<Rightarrow> (denomination, u128) fmap \<times> ('m, 'g) sdk_state \<Rightarrow> bool" where
  "pot_within S B F = (\<lambda>(fees, s). within S B F s \<and> fmdom' fees \<subseteq> S)"

lemma keeps_disburse_one: "keeps (pot_within S B F) (disburse_one acc a amt)"
proof (rule keepsI, clarsimp simp: pot_within_def)
  fix fees s r fees' t
  assume run: "disburse_one acc a amt (fees, s) = (r, fees', t)" and w: "within S B F s" and f: "fmdom' fees \<subseteq> S"
  show "within S B F t \<and> fmdom' fees' \<subseteq> S"
  proof (cases "fmlookup fees (denom amt)")
    case None
    then show ?thesis using run w f by (simp add: disburse_one_def)
  next
    case (Some rem)
    then have d: "denom amt \<in> S" using f by (auto simp: fmlookup_dom'_iff)
    obtain x u where x: "add_amount a amt s = (x, u)" by (cases "add_amount a amt s")
    have u: "within S B F u" using keepsD [OF keeps_within_add x w] d by simp
    note u' = within_emit [OF u]
    then show ?thesis using run w f Some d x u
      by (auto simp: disburse_one_def split: option.splits outcome.splits)
  qed
qed

lemma keeps_disburse: "keeps (pot_within S B F) (disburse acc addrs amts)"
  unfolding disburse_def by (intro keeps_for keeps_disburse_one)

lemma keeps_pool_remainder:
  assumes "fst ` set es \<subseteq> S"
  shows "keeps (within S B F) (pool_remainder acc pool es)"
proof -
  have "keeps (within S B F) (case e of (d, r) \<Rightarrow> if r = 0 then return_op ()
      else seq_op (expect_op (add_amount pool (BaseUnits r d))) (emit_event (Ev_Transfer acc pool (BaseUnits r d))))"
    if "e \<in> set es" for e
    using assms that by (cases e) (auto intro!: keeps_intros keeps_within_add keeps_within_emit)
  then show ?thesis unfolding pool_remainder_def by (rule keeps_for)
qed

lemma keeps_drain: "keeps (within S B F) (drain acc es)"
  unfolding drain_def by (intro keeps_for) (auto intro!: keeps_intros keeps_within_sub split: prod.split)

lemma keeps_credit_all: "(\<And>d v. (d, v) \<in> set es \<Longrightarrow> v = 0 \<or> d \<in> S) \<Longrightarrow> keeps (within S B F) (credit_all acc es)"
  by (intro keeps_for) (auto intro!: keeps_intros keeps_within_add split: prod.split; blast)

lemma end_block_within:
  assumes run: "accounts_end_block c s = (Ok (), t)" and w: "within S B (fee_manager_now s) s"
    and blk: "\<And>d. block_held (fee_manager_now s) d \<noteq> 0 \<Longrightarrow> d \<in> S"
  shows "within S B fee_manager_new t"
proof -
  let ?F = "fee_manager_now s" and ?acc = "ADDRESS_FEE_ACCUMULATOR c"
  let ?addrs = "map (\<lambda>pk. from_sigspec (ctx_deps c) (Spec_Ed25519 pk)) (ctx_good_compute_entities c)"
  let ?m = "if ?addrs \<noteq> [] then disburse ?acc ?addrs (disburse_amounts (get_balances ?acc s) (length ?addrs)) else return_op ()"
  obtain y u where u: "drain ?acc (get_balances ?acc s) s = (Ok y, u)"
    and rest: "(case ?m (fmap_of_list (get_balances ?acc s), u) of
        (Ok _, (fees, s)) \<Rightarrow> seq_op (pool_remainder ?acc (ADDRESS_COMMON_POOL c) (fm_entries fees)) (collect_block_fees ?acc) s
      | (Err e, (_, s)) \<Rightarrow> (Err e, s) | (Panic, (_, s)) \<Rightarrow> (Panic, s)) = (Ok (), t)"
    using run unfolding accounts_end_block_def Let_def seq_op_def bind_op_Ok_iff by blast
  have "fst ` set (get_balances ?acc s) \<subseteq> S"
  proof -
    have "(?acc, d) \<in> fmdom' (acc_balances (st_store s))" if "d \<in> fst ` set (get_balances ?acc s)" for d
      using that by (metis get_balances_lookup fmdom'_notD map_of_eq_None_iff)
    then show ?thesis using w by (force simp: within_def)
  qed
  then have p: "pot_within S B ?F (fmap_of_list (get_balances ?acc s), u)"
    using keepsD [OF keeps_drain u w] by (fastforce simp: pot_within_def fmdom'_alt_def fmdom_of_list fset_of_list_elem)
  obtain x fees v where x: "?m (fmap_of_list (get_balances ?acc s), u) = (x, (fees, v))" by (metis prod.exhaust)
  have "keeps (pot_within S B ?F) ?m" by (simp add: keeps_disburse keeps_return)
  from keepsD [OF this x p] have v: "within S B ?F v" "fmdom' fees \<subseteq> S" by (simp_all add: pot_within_def)
  from rest x obtain w' where w': "pool_remainder ?acc (ADDRESS_COMMON_POOL c) (fm_entries fees) v = (Ok (), w')"
      "collect_block_fees ?acc w' = (Ok (), t)"
    by (auto simp: seq_op_def bind_op_Ok_iff split: outcome.splits)
  have ww: "within S B ?F w'"
    using keepsD [OF keeps_pool_remainder w'(1) v(1)] v(2) by (simp add: fst_fm_entries)
  let ?w = "upd_block (\<lambda>b. b\<lparr>bv_fee_manager := None\<rparr>) w'"
  have "within S B fee_manager_new ?w" using ww by (simp add: within_def fee_manager_now_def)
  moreover have "credit_all ?acc (fm_entries (commit_block ?F)) ?w = (Ok (), t)"
    using w'(2) ww by (simp add: collect_block_fees_def Let_def within_def)
  moreover have "v = 0 \<or> d \<in> S" if "(d, v) \<in> set (fm_entries (commit_block ?F))" for d v
    using that blk [of d] by (auto simp: set_fm_entries commit_block_def block_held_def unat_eq_zero)
  ultimately show ?thesis using keepsD [OF keeps_credit_all] by blast
qed

section \<open>Genesis\<close>

lemma genesis_account_eq:
  "genesis_account a es (b, c) = (fold (\<lambda>(d, v). fmupd (a, d) v) es b, sum_denominations es c)"
  by (induction es arbitrary: b c) auto

lemma fold_account_get:
  "distinct (map fst es) \<Longrightarrow> fmlookup (fold (\<lambda>(d, v). fmupd (a, d) v) es b) (a', d) =
     (if a' = a \<and> d \<in> fst ` set es then map_of es d else fmlookup b (a', d))"
proof (induction es arbitrary: b)
  case (Cons e es)
  obtain d' v where e: "e = (d', v)" by (cases e)
  have "d' \<notin> fst ` set es" using Cons.prems e by simp
  then show ?case using Cons.IH [of "fmupd (a, d') v b"] Cons.prems e by (simp add: map_of_eq_None_iff) blast
qed simp

lemma genesis_balances_eq:
  "snd (genesis_balances gs (b, c)) = fold (\<lambda>(_, bals). sum_denominations (fm_entries bals)) gs c"
  by (induction gs arbitrary: b c) (auto simp: genesis_account_eq)

lemma genesis_balances_get:
  "distinct (map fst gs) \<Longrightarrow> fmlookup (fst (genesis_balances gs (b, c))) (a, d) =
     (case map_of gs a of None \<Rightarrow> fmlookup b (a, d)
      | Some bals \<Rightarrow> (case fmlookup bals d of None \<Rightarrow> fmlookup b (a, d) | Some v \<Rightarrow> Some v))"
proof (induction gs arbitrary: b c)
  case (Cons g gs)
  obtain a' bals where g: "g = (a', bals)" by (cases g)
  have none: "map_of gs a' = None" using Cons.prems g by (simp add: map_of_eq_None_iff)
  note acc = fold_account_get [OF distinct_fm_entries [of bals], of a' b a d]
  have "fmlookup (fst (genesis_balances (g # gs) (b, c))) (a, d) =
      (case map_of gs a of None \<Rightarrow> fmlookup (fold (\<lambda>(d, v). fmupd (a', d) v) (fm_entries bals) b) (a, d)
       | Some bals' \<Rightarrow> (case fmlookup bals' d of
           None \<Rightarrow> fmlookup (fold (\<lambda>(d, v). fmupd (a', d) v) (fm_entries bals) b) (a, d) | Some v \<Rightarrow> Some v))"
    using Cons g by (simp add: genesis_account_eq)
  then show ?case using none g acc
    by (cases "a = a'") (auto simp: fst_fm_entries map_of_fm_entries fmlookup_dom'_iff split: option.splits)
qed simp

lemma genesis_supplies_Some:
  "distinct (map fst es) \<Longrightarrow> genesis_supplies es c tab = Some (missing, tab') \<longleftrightarrow>
     (\<forall>(d, v) \<in> set es. fmlookup c d = Some v) \<and> missing = fmdrop_set (fst ` set es) c \<and>
     tab' = fold (\<lambda>(d, v). fmupd d v) es tab"
proof (induction es arbitrary: c tab)
  case (Cons e es)
  obtain d v where e: "e = (d, v)" by (cases e)
  have new: "d \<notin> fst ` set es" using Cons.prems e by simp
  show ?case
  proof (cases "fmlookup c d = Some v")
    case True
    then show ?thesis using Cons.IH [of "fmdrop d c" "fmupd d v tab"] Cons.prems e drop_checked [OF new] by simp
  next
    case False
    then show ?thesis using e by (cases "fmlookup c d") simp_all
  qed
qed auto

lemma fold_supplies_add: "fold (\<lambda>(d, v). fmupd d v) (fm_entries m) fmempty = m"
proof (rule fmap_ext)
  fix d
  have "distinct (map fst es) \<Longrightarrow> fmlookup (fold (\<lambda>(d, v). fmupd d v) es b) d =
      (case map_of es d of Some v \<Rightarrow> Some v | None \<Rightarrow> fmlookup b d)" for es :: "('a \<times> 'b) list" and b
  proof (induction es arbitrary: b)
    case (Cons e es)
    obtain d' v where e: "e = (d', v)" by (cases e)
    have "map_of es d' = None" using Cons.prems e by (simp add: map_of_eq_None_iff)
    then show ?case using Cons e by (auto split: option.splits)
  qed simp
  from this [OF distinct_fm_entries, of m fmempty]
  show "fmlookup (fold (\<lambda>(d, v). fmupd d v) (fm_entries m) fmempty) d = fmlookup m d"
    by (simp add: map_of_fm_entries split: option.splits)
qed

text \<open>From empty tables, genesis succeeds exactly when the supplies are what the balances add up to.\<close>

lemma accounts_init_run:
  assumes "acc_balances (st_store s) = fmempty" "acc_total_supplies (st_store s) = fmempty"
  shows "accounts_init g s =
    (if gen_total_supplies g = group_supplies (gen_balances g) \<and> \<not> ap_debug_disable_nonce_check (gen_parameters g)
     then (Ok (), upd_store (\<lambda>st. st\<lparr>acc_accounts := fmadd (acc_accounts (st_store s)) (gen_accounts g),
       acc_balances := fst (genesis_balances (fm_entries (gen_balances g)) (fmempty, fmempty)),
       acc_total_supplies := gen_total_supplies g, acc_params := gen_parameters g\<rparr>) s)
     else (Panic, s))"
proof -
  let ?T = "gen_total_supplies g"
  obtain B C where BC: "genesis_balances (fm_entries (gen_balances g)) (fmempty, fmempty) = (B, C)" by fastforce
  have C: "C = group_supplies (gen_balances g)"
    using genesis_balances_eq [of "fm_entries (gen_balances g)" fmempty fmempty] BC by (simp add: group_supplies_def)
  have res: "genesis_supplies (fm_entries ?T) C fmempty = Some (missing, tab) \<longleftrightarrow>
      (\<forall>(d, v) \<in> set (fm_entries ?T). fmlookup C d = Some v) \<and> missing = fmdrop_set (fst ` set (fm_entries ?T)) C \<and> tab = ?T"
    for missing tab by (simp add: genesis_supplies_Some [OF distinct_fm_entries] fold_supplies_add)
  show ?thesis
  proof (cases "?T = C")
    case True
    then have "genesis_supplies (fm_entries ?T) C fmempty = Some (fmempty, ?T)"
      using res [of fmempty ?T] matched_tables [of ?T C] by simp
    then show ?thesis using True BC C assms by (simp add: accounts_init_def accounts_params_validate_basic_def)
  next
    case False
    then have "case genesis_supplies (fm_entries ?T) C fmempty of None \<Rightarrow> True | Some (missing, _) \<Rightarrow> missing \<noteq> fmempty"
      using res matched_tables [of ?T C] by (auto split: option.splits)
    then show ?thesis using False BC C assms by (auto simp: accounts_init_def split: option.splits)
  qed
qed

end
