(* ===== verification/Accounts_Api.thy ===== *)
theory Accounts_Api
  imports Accounts_Check
begin

text \<open>
  The interface other modules use (\<open>trait API\<close> of \<open>modules/accounts/mod.rs\<close>), as a locale: what a
  caller may rely on when it moves, creates or destroys tokens. The accounts module provides it.
\<close>

section \<open>The interface\<close>

text \<open>
  \<open>bal\<close> and \<open>sup\<close> are what a caller sees of balances and supplies, \<open>good\<close> the invariant of the provider,
  \<open>dry\<close> the modes in which the operations do nothing, and \<open>rest\<close> whatever they leave alone.
\<close>

definition moved :: "(address \<Rightarrow> denomination \<Rightarrow> nat) \<Rightarrow> address \<Rightarrow> address \<Rightarrow> base_units \<Rightarrow> (address \<Rightarrow> denomination \<Rightarrow> nat) \<Rightarrow> bool" where
  "moved b f to amt b' \<longleftrightarrow> (\<forall>a d. b' a d + (if a = f then units_of amt d else 0) = b a d + (if a = to then units_of amt d else 0))"

locale accounts_api =
  fixes good :: "'s \<Rightarrow> bool" and bal :: "'s \<Rightarrow> address \<Rightarrow> denomination \<Rightarrow> nat" and sup :: "'s \<Rightarrow> denomination \<Rightarrow> nat"
    and dry :: "'s \<Rightarrow> bool" and rest :: "'s \<Rightarrow> 'r"
    and xfer :: "address \<Rightarrow> address \<Rightarrow> base_units \<Rightarrow> ('s, accounts_error, unit) rust_op"
  assumes xfer_Ok: "good s \<Longrightarrow> xfer f to amt s = (Ok x, t) \<Longrightarrow>
      good t \<and> sup t = sup s \<and> rest t = rest s \<and> (dry t \<longleftrightarrow> dry s) \<and>
      (if dry s then bal t = bal s else moved (bal s) f to amt (bal t) \<and> unat (amount amt) \<le> bal s f (denom amt))"
    and xfer_Err: "good s \<Longrightarrow> xfer f to amt s = (Err e, t) \<Longrightarrow>
      e = Acc_InsufficientBalance \<and> t = s \<and> \<not> dry s \<and> bal s f (denom amt) < unat (amount amt)"
    and xfer_no_panic: "xfer f to amt s \<noteq> (Panic, t)"

text \<open>With the operations that change supplies.\<close>

locale accounts_supply_api = accounts_api +
  fixes mnt :: "address \<Rightarrow> base_units \<Rightarrow> ('s, accounts_error, unit) rust_op"
    and brn :: "address \<Rightarrow> base_units \<Rightarrow> ('s, accounts_error, unit) rust_op"
  assumes mnt_Ok: "good s \<Longrightarrow> mnt to amt s = (Ok x, t) \<Longrightarrow>
      good t \<and> rest t = rest s \<and> (dry t \<longleftrightarrow> dry s) \<and>
      (if dry s then bal t = bal s \<and> sup t = sup s
       else (\<forall>a d. bal t a d = bal s a d + (if a = to then units_of amt d else 0)) \<and> (\<forall>d. sup t d = sup s d + units_of amt d))"
    and mnt_fits: "good s \<Longrightarrow> sup s (denom amt) + unat (amount amt) < 2 ^ 128 \<Longrightarrow> \<exists>t. mnt to amt s = (Ok (), t)"
    and mnt_no_panic: "mnt to amt s \<noteq> (Panic, t)"
    and brn_Ok: "good s \<Longrightarrow> brn f amt s = (Ok x, t) \<Longrightarrow>
      good t \<and> rest t = rest s \<and> (dry t \<longleftrightarrow> dry s) \<and>
      (if dry s then bal t = bal s \<and> sup t = sup s
       else (\<forall>a d. bal t a d + (if a = f then units_of amt d else 0) = bal s a d) \<and> (\<forall>d. sup t d + units_of amt d = sup s d))"
    and brn_Err: "good s \<Longrightarrow> brn f amt s = (Err e, t) \<Longrightarrow>
      e = Acc_InsufficientBalance \<and> t = s \<and> \<not> dry s \<and> bal s f (denom amt) < unat (amount amt)"
    and brn_no_panic: "good s \<Longrightarrow> brn f amt s \<noteq> (Panic, t)"

section \<open>The accounts module provides it\<close>

text \<open>Everything of a state but balances, supplies and events.\<close>

definition besides_tokens :: "('m, 'g) sdk_state \<Rightarrow> ('m, 'g) sdk_state" where
  "besides_tokens s = s\<lparr>st_store := (st_store s)\<lparr>acc_balances := fmempty, acc_total_supplies := fmempty\<rparr>, st_events := fmempty\<rparr>"

lemma besides_tokens_simps [acc_simps]:
  "besides_tokens (put_balance a d v s) = besides_tokens s" "besides_tokens (put_supply d v s) = besides_tokens s"
  "besides_tokens (emit_event_raw k ev s) = besides_tokens s"
  by (simp_all add: besides_tokens_def put_balance_def put_supply_def upd_store_def emit_event_raw_def)

lemma besides_tokens_env: "besides_tokens t = besides_tokens s \<Longrightarrow> st_env t = st_env s"
  by (drule arg_cong [where f = st_env]) (simp add: besides_tokens_def)

lemma amount_besides:
  "sub_amount a amt s = (Ok x, t) \<Longrightarrow> besides_tokens t = besides_tokens s"
  "add_amount a amt s = (Ok x, t) \<Longrightarrow> besides_tokens t = besides_tokens s"
  "inc_total_supply amt s = (Ok x, t) \<Longrightarrow> besides_tokens t = besides_tokens s"
  "dec_total_supply amt s = (Ok x, t) \<Longrightarrow> besides_tokens t = besides_tokens s"
  by (auto simp: sub_amount_def add_amount_def inc_total_supply_def dec_total_supply_def acc_simps split: if_splits option.splits)

lemma sub_amount_balances:
  assumes "sub_amount x amt s = (Ok (), t)"
  shows "unat (balance_of t a d) + (if a = x then units_of amt d else 0) = unat (balance_of s a d)"
  using assms by (auto simp: sub_amount_def units_of_def checked_sub_Some acc_simps split: if_splits option.splits)

lemma add_amount_balances:
  assumes "add_amount x amt s = (Ok (), t)"
  shows "unat (balance_of t a d) = unat (balance_of s a d) + (if a = x then units_of amt d else 0)"
  using assms by (auto simp: add_amount_def units_of_def checked_add_Some acc_simps split: if_splits option.splits)

abbreviation balances_nat :: "('m, 'g) sdk_state \<Rightarrow> address \<Rightarrow> denomination \<Rightarrow> nat" where
  "balances_nat s \<equiv> \<lambda>a d. unat (balance_of s a d)"

abbreviation supplies_nat :: "('m, 'g) sdk_state \<Rightarrow> denomination \<Rightarrow> nat" where
  "supplies_nat s \<equiv> \<lambda>d. unat (supply_of s d)"

abbreviation check_state :: "('m, 'g) sdk_state \<Rightarrow> bool" where
  "check_state s \<equiv> is_check_only (st_env s)"

lemma transfer_moves:
  assumes "transfer f to amt s = (Ok (), t)" "\<not> is_check_only (st_env s)"
  shows "moved (balances_nat s) f to amt (balances_nat t) \<and> amount amt \<le> balance_of s f (denom amt)"
proof (cases "amount amt = 0")
  case True
  then show ?thesis using assms by (simp add: transfer_def moved_def units_of_def)
next
  case False
  with assms obtain u v where u: "sub_amount f amt s = (Ok (), u)" "add_amount to amt u = (Ok (), v)"
      and t: "\<forall>a d. balance_of t a d = balance_of v a d"
    by (auto simp: transfer_def transfer_silent_def seq_op_def bind_op_Ok_iff acc_simps)
  have "unat (balance_of t a d) + (if a = f then units_of amt d else 0) =
      unat (balance_of s a d) + (if a = to then units_of amt d else 0)" for a d
    using sub_amount_balances [OF u(1), of a d] add_amount_balances [OF u(2), of a d] t by simp
  then show ?thesis using sub_amount_Ok(3) [OF u(1)] by (simp add: moved_def word_le_nat_alt)
qed

lemma transfer_besides: "transfer f to amt s = (Ok (), t) \<Longrightarrow> besides_tokens t = besides_tokens s"
  by (auto simp: transfer_def transfer_silent_def seq_op_def bind_op_Ok_iff acc_simps split: if_splits dest!: amount_besides(1,2))

lemma mint_steps:
  assumes "mint to amt s = (Ok (), t)" "\<not> is_check_only (st_env s)"
  shows "besides_tokens t = besides_tokens s"
    "unat (balance_of t a d) = unat (balance_of s a d) + (if a = to then units_of amt d else 0)"
    "unat (supply_of t d) = unat (supply_of s d) + units_of amt d"
proof -
  have "besides_tokens t = besides_tokens s \<and>
      unat (balance_of t a d) = unat (balance_of s a d) + (if a = to then units_of amt d else 0) \<and>
      unat (supply_of t d) = unat (supply_of s d) + units_of amt d"
  proof (cases "amount amt = 0")
    case True
    then show ?thesis using assms by (simp add: mint_def units_of_def)
  next
    case False
    with assms obtain v w where v: "add_amount to amt s = (Ok (), v)" "inc_total_supply amt v = (Ok (), w)"
        and t: "t = emit_event_raw (sdk_event_key (Ev_Mint to amt)) (Ev_Mint to amt) w"
      by (auto simp: mint_def seq_op_def bind_op_Ok_iff)
    have "balance_of w a d = balance_of v a d"
      using v(2) by (auto simp: inc_total_supply_def acc_simps split: if_splits option.splits)
    then show ?thesis
      using t amount_besides(2) [OF v(1)] amount_besides(3) [OF v(2)] add_amount_balances [OF v(1), of a d] supply_step(1) [OF v(2), of d]
        add_amount_Ok(2) [OF v(1)] by (simp add: acc_simps books_def)
  qed
  then show "besides_tokens t = besides_tokens s"
    "unat (balance_of t a d) = unat (balance_of s a d) + (if a = to then units_of amt d else 0)"
    "unat (supply_of t d) = unat (supply_of s d) + units_of amt d" by blast+
qed

lemma burn_steps:
  assumes "burn f amt s = (Ok (), t)" "\<not> is_check_only (st_env s)"
  shows "besides_tokens t = besides_tokens s"
    "unat (balance_of t a d) + (if a = f then units_of amt d else 0) = unat (balance_of s a d)"
    "unat (supply_of t d) + units_of amt d = unat (supply_of s d)"
proof -
  have "besides_tokens t = besides_tokens s \<and>
      unat (balance_of t a d) + (if a = f then units_of amt d else 0) = unat (balance_of s a d) \<and>
      unat (supply_of t d) + units_of amt d = unat (supply_of s d)"
  proof (cases "amount amt = 0")
    case True
    then show ?thesis using assms by (simp add: burn_def units_of_def)
  next
    case False
    with assms obtain v w where v: "sub_amount f amt s = (Ok (), v)" "dec_total_supply amt v = (Ok (), w)"
        and t: "t = emit_event_raw (sdk_event_key (Ev_Burn f amt)) (Ev_Burn f amt) w"
      by (auto simp: burn_def seq_op_def bind_op_Ok_iff expect_op_iff)
    have "balance_of w a d = balance_of v a d"
      using v(2) by (auto simp: dec_total_supply_def acc_simps split: if_splits option.splits)
    then show ?thesis
      using t amount_besides(1) [OF v(1)] amount_besides(4) [OF v(2)] sub_amount_balances [OF v(1), of a d] supply_step(2) [OF v(2), of d]
        sub_amount_Ok(2) [OF v(1)] by (simp add: acc_simps books_def)
  qed
  then show "besides_tokens t = besides_tokens s"
    "unat (balance_of t a d) + (if a = f then units_of amt d else 0) = unat (balance_of s a d)"
    "unat (supply_of t d) + units_of amt d = unat (supply_of s d)" by blast+
qed

lemma mint_fits:
  assumes "accounts_inv s" "unat (supply_of s (denom amt)) + unat (amount amt) < 2 ^ 128"
  shows "\<exists>t. mint to amt s = (Ok (), t)"
proof (cases "is_check_only (st_env s) \<or> amount amt = 0")
  case True
  then show ?thesis by (simp add: mint_def)
next
  case False
  have "total_balance s (denom amt) + unat (amount amt) < 2 ^ 128"
    using assms(2) total_le_supply [OF assms(1), of "denom amt"] by linarith
  then obtain u where u: "add_amount to amt s = (Ok (), u)" using add_amount_fits by blast
  have "supply_of u (denom amt) = supply_of s (denom amt)" using add_amount_Ok(2) [OF u] by (simp add: books_def)
  then have "\<exists>v. inc_total_supply amt u = (Ok (), v)"
    using assms(2) False by (simp add: inc_total_supply_def checked_add_def)
  then show ?thesis using False u by (auto simp: mint_def seq_op_def bind_op_def)
qed

lemma mint_no_panic: "mint to amt s \<noteq> (Panic, t)"
  by (auto simp: mint_def seq_op_def bind_op_Panic_iff amount_no_panic inc_total_supply_def split: if_splits option.splits)

lemma burn_Err:
  assumes "burn f amt s = (Err e, t)"
  shows "e = Acc_InsufficientBalance \<and> t = s \<and> \<not> is_check_only (st_env s) \<and>
    unat (balance_of s f (denom amt)) < unat (amount amt)"
  using assms sub_amount_Err [of f amt s e t]
  by (auto simp: burn_def seq_op_def bind_op_Err_iff expect_op_iff split: if_splits)

text \<open>In a check the operations do nothing.\<close>

lemma check_state_idle:
  assumes "is_check_only (st_env s)"
  shows "transfer f to amt s = (Ok (), s)" "mint to amt s = (Ok (), s)" "burn f amt s = (Ok (), s)"
  using assms by (simp_all add: transfer_def mint_def burn_def)

interpretation acc: accounts_supply_api accounts_inv balances_nat supplies_nat check_state besides_tokens transfer mint burn
proof (unfold_locales, goal_cases)
  case (1 s f to amt x t)
  then have run: "transfer f to amt s = (Ok (), t)" by simp
  have inv: "accounts_inv t" by (rule accounts_inv_books [OF 1(1) transfer_Ok(2) [OF run] transfer_Ok(1) [OF run]])
  show ?case
  proof (cases "is_check_only (st_env s)")
    case True
    then show ?thesis using run check_state_idle(1) [OF True, of f to amt] 1(1) by simp
  next
    case False
    then show ?thesis
      using transfer_moves [OF run False] transfer_besides [OF run] transfer_Ok(2) [OF run] inv
      by (simp add: books_def word_le_nat_alt)
  qed
next
  case (2 s f to amt e t)
  then show ?case using transfer_Err [OF 2(2,1)] check_state_idle(1) [of s f to amt] by (auto simp: word_less_nat_alt)
next
  case (3 f to amt s t)
  show ?case by (rule transfer_no_panic)
next
  case (4 s to amt x t)
  then have run: "mint to amt s = (Ok (), t)" by simp
  have inv: "accounts_inv t" by (rule keeps_okD [OF mint_inv run 4(1)])
  show ?case
  proof (cases "is_check_only (st_env s)")
    case True
    then show ?thesis using run check_state_idle(2) [OF True, of to amt] 4(1) by simp
  next
    case False
    then show ?thesis using mint_steps [OF run False] inv besides_tokens_env by force
  qed
next
  case (5 s amt to)
  then show ?case by (rule mint_fits)
next
  case (6 to amt s t)
  show ?case by (rule mint_no_panic)
next
  case (7 s f amt x t)
  then have run: "burn f amt s = (Ok (), t)" by simp
  have inv: "accounts_inv t" using burn_cases [OF run 7(1)] by simp
  show ?case
  proof (cases "is_check_only (st_env s)")
    case True
    then show ?thesis using run check_state_idle(3) [OF True, of f amt] 7(1) by simp
  next
    case False
    then show ?thesis using burn_steps [OF run False] inv besides_tokens_env by force
  qed
next
  case (8 s f amt e t)
  then show ?case using burn_Err by blast
next
  case (9 s f amt t)
  then show ?case using burn_cases [of f amt s Panic t] by blast
qed

end
