(* ===== verification/Rewards_Module.thy ===== *)
theory Rewards_Module
  imports Accounts_Api
begin

text \<open>
  The rewards module (\<open>runtime-sdk/src/modules/rewards\<close>): the schedule, the participation of the
  committee's entities within an epoch, and their rewards when the epoch changes. As in the code, the accounts
  module behind it is generic: \<open>xfer\<close> is the \<open>transfer\<close> of the runtime's \<open>Accounts\<close>.
  The migration from version 1 removes a key this state does not have.
\<close>

section \<open>Schedule and parameters\<close>

datatype reward_schedule_error = StepsNotSorted

fun validate_steps :: "u64 \<Rightarrow> reward_step list \<Rightarrow> reward_schedule_error + unit" where
  "validate_steps last_epoch [] = Inr ()"
| "validate_steps last_epoch (step # steps) =
     (if rs_until step \<le> last_epoch then Inl StepsNotSorted else validate_steps (rs_until step) steps)"

definition schedule_validate_basic :: "reward_step list \<Rightarrow> reward_schedule_error + unit" where
  "schedule_validate_basic steps = validate_steps 0 steps"

fun schedule_for_epoch :: "reward_step list \<Rightarrow> u64 \<Rightarrow> base_units" where
  "schedule_for_epoch [] epoch = default_base_units"
| "schedule_for_epoch (step # steps) epoch =
     (if epoch < rs_until step then rs_amount step else schedule_for_epoch steps epoch)"

datatype rewards_param_error = InvalidParticipationThreshold | InvalidSchedule reward_schedule_error

definition rewards_params_validate_basic :: "rewards_params \<Rightarrow> rewards_param_error + unit" where
  "rewards_params_validate_basic p =
     (case schedule_validate_basic (rp_schedule p) of
        Inl e \<Rightarrow> Inl (InvalidSchedule e)
      | Inr _ \<Rightarrow>
          if rp_participation_threshold_numerator p > rp_participation_threshold_denominator p then Inl InvalidParticipationThreshold
          else if rp_participation_threshold_denominator p = 0 then Inl InvalidParticipationThreshold
          else Inr ())"

definition rewards_init :: "rewards_params \<Rightarrow> (('m, 'g) sdk_state, accounts_error, unit) rust_op" where
  "rewards_init p s =
     (case rewards_params_validate_basic p of
        Inl _ \<Rightarrow> (Panic, s)
      | Inr _ \<Rightarrow> (Ok (), upd_store (\<lambda>st. st\<lparr>rew_params := p\<rparr>) s))"

section \<open>Participation\<close>

definition default_reward_action :: reward_action where
  "default_reward_action = Reward 0"

fun reward_increment :: "reward_action \<Rightarrow> reward_action" where
  "reward_increment (Reward v) = Reward (v + 1)"
| "reward_increment NoReward = NoReward"

definition reward_forbid :: "reward_action \<Rightarrow> reward_action" where
  "reward_forbid a = NoReward"

fun reward_value :: "reward_action \<Rightarrow> u64" where
  "reward_value (Reward v) = v"
| "reward_value NoReward = 0"

fun reward_action_to_cbor :: "reward_action \<Rightarrow> cbor_value" where
  "reward_action_to_cbor (Reward r) = Cbor_Unsigned r"
| "reward_action_to_cbor NoReward = Cbor_Null"

fun reward_action_of_cbor :: "cbor_value \<Rightarrow> cbor_error + reward_action" where
  "reward_action_of_cbor (Cbor_Unsigned v) = Inr (Reward v)"
| "reward_action_of_cbor Cbor_Null = Inr NoReward"
| "reward_action_of_cbor _ = Inl UnexpectedType"

type_synonym epoch_rewards = "(address, reward_action) fmap"

definition max_participation :: "epoch_rewards \<Rightarrow> u64" where
  "max_participation pending = fold (\<lambda>(_, action) acc. max acc (reward_value action)) (fm_entries pending) 0"

definition reward_threshold :: "u64 \<Rightarrow> u64 \<Rightarrow> u64 \<Rightarrow> u64" where
  "reward_threshold numerator denominator max_v =
     (if checked_mul numerator max_v = None
      then saturating_mul (case checked_div max_v denominator of Some q \<Rightarrow> q | None \<Rightarrow> 0) numerator
      else (case checked_div (saturating_mul numerator max_v) denominator of Some q \<Rightarrow> q | None \<Rightarrow> 0))"

definition for_disbursement :: "u64 \<Rightarrow> u64 \<Rightarrow> epoch_rewards \<Rightarrow> address list" where
  "for_disbursement numerator denominator pending =
     (let threshold = reward_threshold numerator denominator (max_participation pending)
      in map fst (filter (\<lambda>(_, action). case action of Reward v \<Rightarrow> \<not> v < threshold | NoReward \<Rightarrow> False) (fm_entries pending)))"

text \<open>\<open>pending.entry(address).or_default()\<close>, then an update in place.\<close>

definition reward_entry :: "(reward_action \<Rightarrow> reward_action) \<Rightarrow> address \<Rightarrow> epoch_rewards \<Rightarrow> epoch_rewards" where
  "reward_entry f a pending = fmupd a (f (fm_get default_reward_action pending a)) pending"

definition entity_address :: "ctx \<Rightarrow> bytes \<Rightarrow> address" where
  "entity_address c entity_id = from_sigspec (ctx_deps c) (Spec_Ed25519 entity_id)"

definition record_round :: "ctx \<Rightarrow> epoch_rewards \<Rightarrow> epoch_rewards" where
  "record_round c pending =
     fold (reward_entry reward_forbid \<circ> entity_address c) (ctx_bad_compute_entities c)
       (fold (reward_entry reward_increment \<circ> entity_address c) (ctx_good_compute_entities c) pending)"

section \<open>Storage keys\<close>

definition to_storage_key :: "u64 \<Rightarrow> bytes" where
  "to_storage_key e = be_bytes 8 (unat e)"

definition epoch_of_key :: "bytes \<Rightarrow> u64 option" where
  "epoch_of_key k = (if length k = 8 then Some (of_nat (be_value k)) else None)"

section \<open>The end of a block\<close>

definition ADDRESS_REWARD_POOL :: "ctx \<Rightarrow> address" where
  "ADDRESS_REWARD_POOL c = address_from_module (dep_hash (ctx_deps c)) ''rewards'' ''reward-pool''"

text \<open>Paying one epoch: when the pool has too little, the epoch is given up; other errors panic.\<close>

fun reward_all ::
    "(address \<Rightarrow> address \<Rightarrow> base_units \<Rightarrow> ('s, accounts_error, unit) rust_op) \<Rightarrow> address \<Rightarrow> base_units \<Rightarrow> address list \<Rightarrow>
     ('s, accounts_error, unit) rust_op" where
  "reward_all xfer pool reward [] s = (Ok (), s)"
| "reward_all xfer pool reward (a # rest) s =
     (case xfer pool a reward s of
        (Ok _, s) \<Rightarrow> reward_all xfer pool reward rest s
      | (Err e, s) \<Rightarrow> if e = Acc_InsufficientBalance then (Ok (), s) else (Panic, s)
      | (Panic, s) \<Rightarrow> (Panic, s))"

definition reward_epoch ::
    "(address \<Rightarrow> address \<Rightarrow> base_units \<Rightarrow> ('s, accounts_error, unit) rust_op) \<Rightarrow> address \<Rightarrow> rewards_params \<Rightarrow>
     u64 \<times> epoch_rewards \<Rightarrow> ('s, accounts_error, unit) rust_op" where
  "reward_epoch xfer pool p = (\<lambda>(epoch, rewards).
     let reward = schedule_for_epoch (rp_schedule p) epoch
     in if amount reward = 0 then return_op ()
        else reward_all xfer pool reward
          (for_disbursement (rp_participation_threshold_numerator p) (rp_participation_threshold_denominator p) rewards))"

definition rewards_end_block ::
    "(address \<Rightarrow> address \<Rightarrow> base_units \<Rightarrow> (('m, 'g) sdk_state, accounts_error, unit) rust_op) \<Rightarrow> ctx \<Rightarrow>
     (('m, 'g) sdk_state, accounts_error, unit) rust_op" where
  "rewards_end_block xfer c s =
     (let epoch = ctx_epoch c;
          rewards = record_round c (fm_get fmempty (rew_rewards (st_store s)) epoch);
          finish = update_op (upd_store (\<lambda>st. st\<lparr>rew_rewards := fmupd epoch rewards (rew_rewards st)\<rparr>))
      in if has_epoch_changed s
         then
           let epochs = fm_entries (rew_rewards (st_store s));
               s = upd_store (\<lambda>st. st\<lparr>rew_rewards := fold (\<lambda>(e, _). fmdrop e) epochs (rew_rewards st)\<rparr>) s
           in seq_op (for_op (reward_epoch xfer (ADDRESS_REWARD_POOL c) (rew_params (st_store s))) epochs) finish s
         else finish s)"

section \<open>Keys and codec\<close>

lemma be_bytes_less:
  "m < 256 ^ k \<Longrightarrow> n < 256 ^ k \<Longrightarrow> be_bytes k m < be_bytes k n \<longleftrightarrow> m < n"
proof (induction k arbitrary: m n)
  case (Suc k)
  have lt: "m div 256 < 256 ^ k" "n div 256 < 256 ^ k"
    using Suc.prems by (simp_all add: less_mult_imp_div_less mult.commute)
  have digit: "(of_nat m :: u8) < of_nat n \<longleftrightarrow> m mod 256 < n mod 256"
    by (simp add: word_less_nat_alt unsigned_of_nat take_bit_nat_def)
  have split: "m < n \<longleftrightarrow> m div 256 < n div 256 \<or> (m div 256 = n div 256 \<and> m mod 256 < n mod 256)"
  proof -
    have "256 * (m div 256) + m mod 256 = m" "256 * (n div 256) + n mod 256 = n" "m mod 256 < 256" "n mod 256 < 256"
      by simp_all
    then show ?thesis by (cases "m div 256" "n div 256" rule: linorder_cases) linarith+
  qed
  show ?case using Suc.IH [OF lt] be_bytes_inject [OF lt] digit split by (simp add: append_less_same_length)
qed simp

lemma storage_keys:
  "epoch_of_key (to_storage_key e) = Some e" "to_storage_key e < to_storage_key e' \<longleftrightarrow> e < e'"
proof -
  have b: "unat e < 256 ^ 8" for e :: u64 using unat_lt [of e] by simp
  show "epoch_of_key (to_storage_key e) = Some e"
    using b [of e] by (simp add: epoch_of_key_def to_storage_key_def be_value_bytes mod_less del: be_bytes.simps)
  show "to_storage_key e < to_storage_key e' \<longleftrightarrow> e < e'"
    unfolding to_storage_key_def be_bytes_less [OF b b] by (simp add: word_less_nat_alt)
qed

lemma reward_action_cbor: "reward_action_of_cbor (reward_action_to_cbor a) = Inr a"
  by (cases a) simp_all

section \<open>Who is rewarded\<close>

lemma max_participation_ge:
  assumes "fmlookup pending a = Some (Reward v)"
  shows "v \<le> max_participation pending"
proof -
  let ?f = "\<lambda>(_ :: address, action) acc. max acc (reward_value action)"
  have mono: "x \<le> fold ?f es x" for es and x
  proof (induction es arbitrary: x)
    case (Cons e es)
    have "x \<le> ?f e x" by (cases e) simp
    also have "\<dots> \<le> fold ?f es (?f e x)" by (rule Cons.IH)
    finally show ?case by simp
  qed simp
  have "(a, act) \<in> set es \<Longrightarrow> reward_value act \<le> fold ?f es x" for act es x
  proof (induction es arbitrary: x)
    case (Cons e es)
    show ?case
    proof (cases "e = (a, act)")
      case True
      have "reward_value act \<le> ?f e x" using True by simp
      also have "\<dots> \<le> fold ?f es (?f e x)" by (rule mono)
      finally show ?thesis by simp
    next
      case False
      then show ?thesis using Cons by simp
    qed
  qed simp
  from this [of "Reward v" "fm_entries pending" 0] show ?thesis
    using assms by (simp add: max_participation_def set_fm_entries)
qed

lemma reward_threshold_le:
  assumes "numerator \<le> denominator" "denominator \<noteq> 0"
  shows "reward_threshold numerator denominator max_v \<le> max_v"
proof -
  have n: "unat numerator \<le> unat denominator" "0 < unat denominator"
    using assms by (simp_all add: word_le_nat_alt unat_gt_0)
  have 1: "unat max_v div unat denominator * unat numerator \<le> unat max_v"
    using n(1) by (meson div_times_less_eq_dividend le_trans mult_le_mono2)
  have 2: "unat numerator * unat max_v div unat denominator \<le> unat max_v"
    using n by (metis div_le_mono mult_le_mono1 nonzero_mult_div_cancel_left not_gr_zero)
  have lt: "unat max_v < 2 ^ LENGTH(64)" by (rule unat_lt)
  show ?thesis
  proof (cases "checked_mul numerator max_v")
    case None
    then show ?thesis using 1 assms(2) by (simp add: reward_threshold_def checked_div_def word_le_nat_alt unat_saturating_mul unat_div)
  next
    case (Some p)
    then have "saturating_mul numerator max_v = p" by (auto simp: saturating_mul_def checked_mul_def split: if_splits)
    moreover have "unat p = unat numerator * unat max_v" using Some by (simp add: checked_mul_Some)
    ultimately show ?thesis using 2 Some assms(2) by (simp add: reward_threshold_def checked_div_def word_le_nat_alt unat_div)
  qed
qed

lemma for_disbursement_iff:
  "a \<in> set (for_disbursement n d pending) \<longleftrightarrow>
     (\<exists>v. fmlookup pending a = Some (Reward v) \<and> reward_threshold n d (max_participation pending) \<le> v)"
proof -
  have "a \<in> set (for_disbursement n d pending) \<longleftrightarrow> (\<exists>act. (a, act) \<in> set (fm_entries pending) \<and>
      (case act of Reward v \<Rightarrow> reward_threshold n d (max_participation pending) \<le> v | NoReward \<Rightarrow> False))"
    by (auto simp: for_disbursement_def Let_def image_iff not_less)
  also have "\<dots> \<longleftrightarrow> (\<exists>v. (a, Reward v) \<in> set (fm_entries pending) \<and> reward_threshold n d (max_participation pending) \<le> v)"
  proof -
    have "(case act of Reward v \<Rightarrow> P v | NoReward \<Rightarrow> False) \<longleftrightarrow> (\<exists>v. act = Reward v \<and> P v)" for act and P :: "u64 \<Rightarrow> bool"
      by (cases act) simp_all
    then show ?thesis by auto
  qed
  finally show ?thesis by (simp add: set_fm_entries)
qed

lemma for_disbursement_distinct: "distinct (for_disbursement n d pending)"
  unfolding for_disbursement_def Let_def using distinct_fm_entries [of pending] by (simp add: distinct_map_filter)

section \<open>Punishment\<close>

lemma reward_entry_get:
  "fmlookup (reward_entry f a pending) b =
     (if b = a then Some (f (fm_get default_reward_action pending a)) else fmlookup pending b)"
  by (simp add: reward_entry_def)

lemma increments_keep_NoReward:
  "fmlookup pending b = Some NoReward \<Longrightarrow> fmlookup (fold (reward_entry reward_increment \<circ> f) ids pending) b = Some NoReward"
proof (induction ids arbitrary: pending)
  case (Cons i ids)
  have "fmlookup (reward_entry reward_increment (f i) pending) b = Some NoReward"
    using Cons.prems by (cases "b = f i") (simp_all add: reward_entry_get fm_get_def)
  then show ?case using Cons.IH by simp
qed simp

lemma forbids_get:
  "fmlookup (fold (reward_entry reward_forbid \<circ> f) ids pending) b = (if b \<in> f ` set ids then Some NoReward else fmlookup pending b)"
  by (induction ids arbitrary: pending) (auto simp: reward_entry_get reward_forbid_def)

text \<open>Whoever misbehaves in a round, or did so before in the epoch, gets nothing for the epoch.\<close>

lemma record_round_forbidden:
  "entity_address c entity_id = a \<Longrightarrow> entity_id \<in> set (ctx_bad_compute_entities c) \<Longrightarrow>
     fmlookup (record_round c pending) a = Some NoReward"
  "fmlookup pending a = Some NoReward \<Longrightarrow> fmlookup (record_round c pending) a = Some NoReward"
  by (auto simp: record_round_def forbids_get increments_keep_NoReward)

section \<open>Payments\<close>

text \<open>What paying an epoch should do to balances: the entities that are entitled to the reward get it, in the order of their addresses, as
  far as the pool goes.\<close>

definition entitled :: "rewards_params \<Rightarrow> epoch_rewards \<Rightarrow> address list" where
  "entitled p rewards = sorted_list_of_set {a. \<exists>v. fmlookup rewards a = Some (Reward v) \<and>
     reward_threshold (rp_participation_threshold_numerator p) (rp_participation_threshold_denominator p) (max_participation rewards) \<le> v}"

definition paid_epoch :: "address \<Rightarrow> rewards_params \<Rightarrow> u64 \<times> epoch_rewards \<Rightarrow> (address \<Rightarrow> denomination \<Rightarrow> nat) \<Rightarrow> address \<Rightarrow> denomination \<Rightarrow> nat" where
  "paid_epoch pool p e b =
     (let reward = schedule_for_epoch (rp_schedule p) (fst e);
          payable = (if amount reward = 0 then 0 else b pool (denom reward) div unat (amount reward));
          paid = take payable (entitled p (snd e))
      in (\<lambda>a d. if a = pool then b a d - length paid * units_of reward d
                else b a d + (if a \<in> set paid then units_of reward d else 0)))"

lemma for_disbursement_entitled:
  "for_disbursement (rp_participation_threshold_numerator p) (rp_participation_threshold_denominator p) rewards = entitled p rewards"
proof -
  let ?l = "for_disbursement (rp_participation_threshold_numerator p) (rp_participation_threshold_denominator p) rewards"
  have "sorted ?l" using sorted_fm_entries [of rewards] by (simp add: for_disbursement_def Let_def sorted_filter)
  moreover have "set ?l = {a. \<exists>v. fmlookup rewards a = Some (Reward v) \<and>
     reward_threshold (rp_participation_threshold_numerator p) (rp_participation_threshold_denominator p) (max_participation rewards) \<le> v}"
    using for_disbursement_iff by auto
  ultimately show ?thesis unfolding entitled_def by (metis for_disbursement_distinct sorted_list_of_set.idem_if_sorted_distinct)
qed

text \<open>Proved over the accounts interface.\<close>

context accounts_api begin

lemma reward_all_run:
  "good s \<Longrightarrow> \<exists>t. reward_all xfer pool reward addrs s = (Ok (), t) \<and> good t \<and> sup t = sup s \<and> rest t = rest s \<and> (dry t \<longleftrightarrow> dry s)"
proof (induction addrs arbitrary: s)
  case (Cons a addrs)
  obtain r u where x: "xfer pool a reward s = (r, u)" by (cases "xfer pool a reward s")
  show ?case
  proof (cases r)
    case (Ok y)
    then have "good u" "sup u = sup s" "rest u = rest s" "dry u \<longleftrightarrow> dry s" using xfer_Ok [OF Cons.prems] x by blast+
    then show ?thesis using Cons.IH [of u] x Ok by auto
  next
    case (Err e)
    then have "e = Acc_InsufficientBalance" "u = s" using xfer_Err [OF Cons.prems] x by blast+
    then show ?thesis using x Err Cons.prems by auto
  next
    case Panic
    then show ?thesis using xfer_no_panic x by auto
  qed
qed simp

lemma reward_all_paid:
  "good s \<Longrightarrow> \<not> dry s \<Longrightarrow> pool \<notin> set addrs \<Longrightarrow> distinct addrs \<Longrightarrow> 0 < unat (amount reward) \<Longrightarrow>
   k = min (length addrs) (bal s pool (denom reward) div unat (amount reward)) \<Longrightarrow>
   reward_all xfer pool reward addrs s = (Ok (), t) \<Longrightarrow>
   bal t pool d + k * units_of reward d = bal s pool d \<and>
   (\<forall>a. a \<noteq> pool \<longrightarrow> bal t a d = bal s a d + (if a \<in> set (take k addrs) then units_of reward d else 0))"
proof (induction addrs arbitrary: s k)
  case (Cons a addrs)
  let ?n = "unat (amount reward)"
  obtain r u where x: "xfer pool a reward s = (r, u)" by (cases "xfer pool a reward s")
  show ?case
  proof (cases r)
    case (Ok y)
    have u: "good u" "\<not> dry u" "moved (bal s) pool a reward (bal u)" "?n \<le> bal s pool (denom reward)"
      using xfer_Ok [OF Cons.prems(1)] x Ok Cons.prems(2) by (auto split: if_splits)
    have diff: "pool \<noteq> a" using Cons.prems(3) by auto
    have b: "bal u pool d' + units_of reward d' = bal s pool d'" "bal u a d' = bal s a d' + units_of reward d'"
        "b \<noteq> pool \<Longrightarrow> b \<noteq> a \<Longrightarrow> bal u b d' = bal s b d'" for b d'
      using u(3) diff by (auto simp: moved_def dest: spec [of _ pool] spec [of _ a] spec [of _ b])
    define k' where "k' = min (length addrs) (bal u pool (denom reward) div ?n)"
    have "bal s pool (denom reward) div ?n = Suc (bal u pool (denom reward) div ?n)"
      using b(1) [of "denom reward"] Cons.prems(5) by (metis div_add_self2 units_of_def Suc_eq_plus1 less_not_refl)
    then have k: "k = Suc k'" using Cons.prems(6) by (simp add: k'_def)
    have "reward_all xfer pool reward addrs u = (Ok (), t)" using Cons.prems(7) x Ok by simp
    note ih = Cons.IH [OF u(1,2) _ _ Cons.prems(5) k'_def this]
    have a: "a \<notin> set (take k' addrs)" using Cons.prems(4) by (auto dest: in_set_takeD)
    show ?thesis
    proof (intro conjI allI impI)
      show "bal t pool d + k * units_of reward d = bal s pool d" using ih Cons.prems(3,4) b(1) [of d] k by simp
      fix b
      assume "b \<noteq> pool"
      then show "bal t b d = bal s b d + (if b \<in> set (take k (a # addrs)) then units_of reward d else 0)"
        using ih Cons.prems(3,4) b(2) [of d] b(3) [of b d] k a by (cases "b = a") simp_all
    qed
  next
    case (Err e)
    then have e: "e = Acc_InsufficientBalance" "u = s" "bal s pool (denom reward) < ?n"
      using xfer_Err [OF Cons.prems(1)] x by blast+
    then have "k = 0" "t = s" using Cons.prems(6,7) x Err by simp_all
    then show ?thesis by simp
  next
    case Panic
    then show ?thesis using xfer_no_panic x by auto
  qed
qed simp

lemma reward_epoch_paid:
  assumes "good s" "\<not> dry s" "pool \<notin> fmdom' (snd e)" "reward_epoch xfer pool p e s = (Ok (), t)"
  shows "bal t = paid_epoch pool p e (bal s)"
proof -
  let ?reward = "schedule_for_epoch (rp_schedule p) (fst e)" and ?addrs = "entitled p (snd e)"
  have addrs: "pool \<notin> set ?addrs" "distinct ?addrs"
    using assms(3) for_disbursement_distinct for_disbursement_iff unfolding for_disbursement_entitled [symmetric] by (auto simp: fmdom'I)
  show ?thesis
  proof (cases "amount ?reward = 0")
    case True
    then have "t = s" using assms(4) by (simp add: reward_epoch_def case_prod_unfold Let_def return_op_def)
    then show ?thesis using True by (simp add: paid_epoch_def fun_eq_iff Let_def)
  next
    case False
    let ?k = "min (length ?addrs) (bal s pool (denom ?reward) div unat (amount ?reward))"
    have run: "reward_all xfer pool ?reward ?addrs s = (Ok (), t)"
      using assms(4) False by (simp add: reward_epoch_def case_prod_unfold Let_def for_disbursement_entitled)
    have pos: "0 < unat (amount ?reward)" using False by (simp add: unat_gt_0)
    have "take ?k ?addrs = take (bal s pool (denom ?reward) div unat (amount ?reward)) ?addrs" by (simp add: min_def)
    with reward_all_paid [OF assms(1,2) addrs pos refl run] False show ?thesis
      by (auto simp: paid_epoch_def Let_def fun_eq_iff) (metis diff_add_inverse2)
  qed
qed

lemma reward_epochs_run:
  "good s \<Longrightarrow> \<exists>t. for_op (reward_epoch xfer pool p) epochs s = (Ok (), t) \<and> good t \<and> sup t = sup s \<and> rest t = rest s \<and>
     (\<not> dry s \<and> (\<forall>e \<in> set epochs. pool \<notin> fmdom' (snd e)) \<longrightarrow> bal t = fold (paid_epoch pool p) epochs (bal s))"
proof (induction epochs arbitrary: s)
  case Nil
  then show ?case by (simp add: return_op_def)
next
  case (Cons e epochs)
  obtain epoch rewards where e: "e = (epoch, rewards)" by (cases e)
  let ?reward = "schedule_for_epoch (rp_schedule p) epoch"
  let ?addrs = "for_disbursement (rp_participation_threshold_numerator p) (rp_participation_threshold_denominator p) rewards"
  have "\<exists>u. reward_epoch xfer pool p e s = (Ok (), u) \<and> good u \<and> sup u = sup s \<and> rest u = rest s \<and> (dry u \<longleftrightarrow> dry s)"
    using reward_all_run [OF Cons.prems, of pool ?reward ?addrs] Cons.prems
    by (cases "amount ?reward = 0") (simp_all add: reward_epoch_def Let_def return_op_def e)
  then obtain u where u: "reward_epoch xfer pool p e s = (Ok (), u)" "good u" "sup u = sup s" "rest u = rest s" "dry u \<longleftrightarrow> dry s" by blast
  have "bal u = paid_epoch pool p e (bal s)" if "\<not> dry s" "pool \<notin> fmdom' (snd e)"
    by (rule reward_epoch_paid [OF Cons.prems that u(1)])
  then show ?case using Cons.IH [OF u(2)] u by (auto simp: seq_op_def bind_op_def)
qed

end

section \<open>The end of a block\<close>

lemma upd_store_accounts [acc_simps]:
  assumes "\<And>st. acc_balances (f st) = acc_balances st" "\<And>st. acc_total_supplies (f st) = acc_total_supplies st"
  shows "accounts_inv (upd_store f s) \<longleftrightarrow> accounts_inv s" "supply_of (upd_store f s) = supply_of s"
    "balance_of (upd_store f s) = balance_of s"
  by (simp_all add: accounts_inv_def circulating_def total_balance_def supply_of_def balance_of_def fee_manager_now_def
      assms fun_eq_iff)

lemma fmdrop_entries: "fold (\<lambda>(e, _). fmdrop e) (fm_entries m) m = fmempty" for m :: "('k::linorder, 'v) fmap"
proof -
  have "fold (\<lambda>(e, _). fmdrop e) es m' = fmdrop_set (fst ` set es) m'" for es :: "('k \<times> 'v) list" and m' :: "('k, 'v) fmap"
  proof (induction es arbitrary: m')
    case (Cons e es)
    have "fmdrop_set (fst ` set es) (fmdrop (fst e) m') = fmdrop_set (fst ` set (e # es)) m'" by (rule fmap_ext) auto
    then show ?case using Cons.IH [of "fmdrop (fst e) m'"] by (cases e) simp
  qed (auto intro: fmap_ext)
  then have "fold (\<lambda>(e, _). fmdrop e) (fm_entries m) m = fmdrop_set (fmdom' m) m" by (simp add: fst_fm_entries)
  also have "\<dots> = fmempty" by (rule fmap_ext) (simp add: fmlookup_dom'_iff)
  finally show ?thesis .
qed

text \<open>
  At the end of a block the round is recorded for the epoch; when the epoch has changed, all that was
  pending has been paid out, epoch by epoch and as far as the pool goes, and is gone. The pool itself takes part in no epoch.
\<close>

definition settled_balances :: "ctx \<Rightarrow> ('m, 'g) sdk_state \<Rightarrow> address \<Rightarrow> denomination \<Rightarrow> nat" where
  "settled_balances c s =
     (if has_epoch_changed s
      then fold (paid_epoch (ADDRESS_REWARD_POOL c) (rew_params (st_store s))) (fm_entries (rew_rewards (st_store s))) (balances_nat s)
      else balances_nat s)"

definition pool_unrewarded :: "ctx \<Rightarrow> ('m, 'g) sdk_state \<Rightarrow> bool" where
  "pool_unrewarded c s \<longleftrightarrow> (\<forall>e rewards. fmlookup (rew_rewards (st_store s)) e = Some rewards \<longrightarrow> fmlookup rewards (ADDRESS_REWARD_POOL c) = None)"

lemma rewards_end_block_run:
  assumes "accounts_inv s"
  obtains t where "rewards_end_block transfer c s = (Ok (), t)" "accounts_inv t" "supply_of t = supply_of s"
    "rew_rewards (st_store t) = fmupd (ctx_epoch c) (record_round c (fm_get fmempty (rew_rewards (st_store s)) (ctx_epoch c)))
       (if has_epoch_changed s then fmempty else rew_rewards (st_store s))"
    "\<not> is_check_only (st_env s) \<and> pool_unrewarded c s \<longrightarrow> balances_nat t = settled_balances c s"
proof (cases "has_epoch_changed s")
  let ?f = "\<lambda>st. st\<lparr>rew_rewards := fmupd (ctx_epoch c)
    (record_round c (fm_get fmempty (rew_rewards (st_store s)) (ctx_epoch c))) (rew_rewards st)\<rparr>"
  case True
  let ?epochs = "fm_entries (rew_rewards (st_store s))"
  let ?s = "upd_store (\<lambda>st. st\<lparr>rew_rewards := fold (\<lambda>(e, _). fmdrop e) ?epochs (rew_rewards st)\<rparr>) s"
  have "accounts_inv ?s" using assms by (subst upd_store_accounts(1)) simp_all
  from acc.reward_epochs_run [OF this, of "ADDRESS_REWARD_POOL c" "rew_params (st_store ?s)" ?epochs]
  obtain u where u: "for_op (reward_epoch transfer (ADDRESS_REWARD_POOL c) (rew_params (st_store ?s))) ?epochs ?s = (Ok (), u)"
      "accounts_inv u" "supplies_nat u = supplies_nat ?s" "besides_tokens u = besides_tokens ?s"
      "\<not> check_state ?s \<and> (\<forall>e \<in> set ?epochs. ADDRESS_REWARD_POOL c \<notin> fmdom' (snd e)) \<longrightarrow>
         balances_nat u = fold (paid_epoch (ADDRESS_REWARD_POOL c) (rew_params (st_store ?s))) ?epochs (balances_nat ?s)"
    by blast
  have "rew_rewards (st_store u) = rew_rewards (st_store ?s)"
    using arg_cong [OF u(4), of "rew_rewards \<circ> st_store"] by (simp add: besides_tokens_def)
  then have r: "rew_rewards (st_store u) = fmempty" by (simp add: fmdrop_entries)
  have sup: "supply_of u = supply_of s"
    using u(3) by (simp add: fun_eq_iff word_unat_eq_iff upd_store_accounts(2))
  have "balances_nat u = settled_balances c s" if "\<not> is_check_only (st_env s)" "pool_unrewarded c s"
  proof -
    have "\<forall>e \<in> set ?epochs. ADDRESS_REWARD_POOL c \<notin> fmdom' (snd e)"
      using that(2) by (auto simp: pool_unrewarded_def set_fm_entries fmlookup_dom'_iff)
    then show ?thesis using u(5) that(1) True by (simp add: settled_balances_def upd_store_accounts)
  qed
  then show ?thesis
    by (intro that [of "upd_store ?f u"]) (use True u(1,2) r sup in \<open>simp_all add: rewards_end_block_def Let_def seq_op_def bind_op_def update_op_def upd_store_accounts\<close>)
next
  let ?f = "\<lambda>st. st\<lparr>rew_rewards := fmupd (ctx_epoch c)
    (record_round c (fm_get fmempty (rew_rewards (st_store s)) (ctx_epoch c))) (rew_rewards st)\<rparr>"
  case False
  show ?thesis
    by (rule that [of "upd_store ?f s"])
      (use False assms in \<open>simp_all add: rewards_end_block_def Let_def update_op_def upd_store_accounts settled_balances_def\<close>)
qed

end
