(* ===== verification/Transaction_Properties.thy ===== *)
theory Transaction_Properties
  imports Transaction_Types
begin

text \<open>
  Properties of tokens, signatures and transactions, with a concrete environment to evaluate them:
  hashes and signatures that are simple functions of their arguments.
\<close>

section \<open>Concrete values\<close>

definition sample_schemes :: sig_schemes where
  "sample_schemes = \<lparr>sch_key = (\<lambda>_. None),
     sch_verify = (\<lambda>pk context message sig.
       if sig = pk_as_bytes pk @ message then Inr () else Inl VerificationFailed),
     sch_raw = (\<lambda>pk message sig. if sig = pk_as_bytes pk @ message then Inr () else Inl VerificationFailed),
     sch_digest = (\<lambda>pk digest sig. if sig = pk_as_bytes pk @ digest then Inr () else Inl VerificationFailed),
     sch_sr_raw = (\<lambda>pk context message sig. if sig = pk @ message then Inr () else Inl VerificationFailed)\<rparr>"

definition sample_config :: multisig_config where
  "sample_config = \<lparr>mc_signers = [\<lparr>ms_public_key = Pk_Ed25519 [1], ms_weight = 1\<rparr>,
     \<lparr>ms_public_key = Pk_Ed25519 [2], ms_weight = 1\<rparr>, \<lparr>ms_public_key = Pk_Secp256k1 [3], ms_weight = 2\<rparr>],
     mc_threshold = 2\<rparr>"

definition sample_tx :: transaction where
  "sample_tx = append_auth_multisig sample_config 0
     (append_auth_signature (Spec_Ed25519 [9]) 5 (transaction_new ''accounts.Transfer'' (Cbor_ByteString [1, 2])))"

definition sample_deps :: tx_deps where
  "sample_deps = \<lparr>dep_hash = (\<lambda>bs. take 32 (rev (concat bs) @ replicate 32 0)), dep_keccak = (\<lambda>b. take 32 (rev b @ replicate 32 0)),
     dep_uncompressed = (\<lambda>pk. 4 # pk @ pk), dep_cbor_config = (\<lambda>c. concat (map (pk_as_bytes \<circ> ms_public_key) (mc_signers c))),
     dep_cbor_tx = (\<lambda>tx. [7, ucast (tx_version tx)]),
     dep_uncbor_tx = (\<lambda>b. if b = [7, 1] then Some sample_tx else None),
     dep_chain_context = [], dep_schemes = sample_schemes\<rparr>"

definition sample_signer :: "public_key \<Rightarrow> tx_signer" where
  "sample_signer pk = \<lparr>sg_public_key = pk, sg_sign = (\<lambda>context message. Inr (pk_as_bytes pk @ message))\<rparr>"

section \<open>Properties\<close>

text \<open>C16: a transaction is accepted exactly when its body decodes to it, it has the current version and
  some signer, and signers and proofs pair up one to one with every proof authorizing: a valid signature
  of the signer's key, or signatures of the members of a valid multisig configuration whose weights,
  added without overflow, reach the threshold.\<close>

theorem verification_characterised:
  "unverified_transaction_verify D ut = Inr tx \<longleftrightarrow>
     dep_uncbor_tx D (ut_body ut) = Some tx \<and> tx_version tx = LATEST_TRANSACTION_VERSION \<and>
     ai_signer_info (tx_auth_info tx) \<noteq> [] \<and>
     list_all2 (authorizes D (ut_body ut)) (ai_signer_info (tx_auth_info tx)) (ut_proofs ut)"
  by (rule verify_iff)

text \<open>C17: signing with keys that cover every signer of a transaction succeeds for each of them, and
  the result verifies to the transaction that was signed.\<close>

theorem sign_verify_roundtrip:
  assumes "dep_uncbor_tx D (dep_cbor_tx D tx) = Some tx" "transaction_validate_basic tx = Inr ()"
    and "\<forall>signer \<in> set signers. can_sign D (dep_cbor_tx D tx) signer \<and>
      (\<exists>si \<in> set (ai_signer_info (tx_auth_info tx)). sg_public_key signer \<in> spec_keys (si_address_spec si))"
    and "\<forall>si \<in> set (ai_signer_info (tx_auth_info tx)). covered (sg_public_key ` set signers) (si_address_spec si)"
  shows "\<exists>ts. for_op (append_sign D) signers (transaction_signer_new D tx) = (Ok (), ts) \<and>
    unverified_transaction_verify D (transaction_signer_finalize ts) = Inr tx"
  by (rule signed_transaction_verifies [OF assms])

lemmas sample_tx_simps = sample_tx_def sample_config_def sample_deps_def sample_schemes_def sample_signer_def
  append_auth_multisig_def append_auth_signature_def append_signer_info_def transaction_new_def
  signer_info_new_multisig_def signer_info_new_sigspec_def default_auth_info_def

theorem sign_verify_roundtrip_witness:
  "\<exists>ts. for_op (append_sign sample_deps)
      [sample_signer (Pk_Ed25519 [9]), sample_signer (Pk_Ed25519 [1]), sample_signer (Pk_Ed25519 [2])]
      (transaction_signer_new sample_deps sample_tx) = (Ok (), ts) \<and>
    unverified_transaction_verify sample_deps (transaction_signer_finalize ts) = Inr sample_tx"
proof (rule sign_verify_roundtrip)
  show "transaction_validate_basic sample_tx = Inr ()"
    by (simp add: sample_tx_simps transaction_validate_basic_def LATEST_TRANSACTION_VERSION_def)
qed (auto simp: sample_tx_simps can_sign_def covered_def spec_keys_def multisig_valid_def total_weight_def
    LATEST_TRANSACTION_VERSION_def)

text \<open>Signatures are collected from a set exactly when the configuration is valid (a positive threshold
  within the total weight, no overflow, distinct keys, no zero weight), the set has one slot per signer and
  those that signed reach the threshold; the result is their keys and signatures in order.\<close>

theorem multisig_batch_characterised:
  "multisig_batch c sigs = Inr r \<longleftrightarrow>
     multisig_valid c \<and> length sigs = length (mc_signers c) \<and>
     unat (mc_threshold c) \<le> signed_weight (mc_signers c) sigs \<and>
     r = (map (ms_public_key \<circ> fst) (signed_part (mc_signers c) sigs), map snd (signed_part (mc_signers c) sigs))"
  by (rule multisig_batch_Inr)

text \<open>The numbers of signature types decode to the type they came from and to no other.\<close>

theorem signature_type_numbers: "signature_type_try_from v = Inr t \<longleftrightarrow> v = as_int t"
  using signature_type_roundtrip signature_type_try_from_Inr by metis

text \<open>The storage key of a balance decodes to its address and denomination, and the order of
  the keys in the store is the order of the pairs, so iteration visits the balances address by address.\<close>

theorem balance_keys:
  "awd_try_from (balance_key (a, d)) = Some (Inr (a, d)) \<and> (balance_key p < balance_key q \<longleftrightarrow> p < q)"
proof
  show "awd_try_from (balance_key (a, d)) = Some (Inr (a, d))"
    using length_denomination_bytes [of d]
    by (simp add: awd_try_from_def balance_key_def address_from_bytes_roundtrip denomination_try_from_roundtrip
        address_size_defs)
qed (rule balance_key_less)

end
