(* ===== verification/Core_Properties.thy ===== *)
theory Core_Properties
  imports Core_Module Transaction_Properties
begin

text \<open>
  Properties of the core module: gas is accounted exactly, calls are charged before and after they run,
  prices follow the load within their bounds, and the search for a gas limit finds it.
\<close>

section \<open>Concrete values\<close>

definition sample_core_params :: core_params where
  "sample_core_params = default_core_params\<lparr>cp_max_batch_gas := 1000, cp_max_tx_size := 100,
     cp_gas_costs := \<lparr>gc_tx_byte = 1, gc_storage_byte = 2, gc_auth_signature = 10, gc_auth_multisig_signer = 5,
       gc_callformat_x25519_deoxysii = 50\<rparr>,
     cp_min_gas_price := fmap_of_list [(NATIVE, 2)],
     cp_dynamic_min_gas_price := \<lparr>dm_enabled = True, dm_target_block_gas_usage_percentage = 50,
       dm_min_price_max_change_denominator = 8\<rparr>\<rparr>"

text \<open>Four signatures' worth of authentication, and a fee of 600 units for 200 units of gas.\<close>

definition sample_paid_tx :: transaction where
  "sample_paid_tx = set_fee_amount (base_units_native 600) (set_fee_gas 200 sample_tx)"

definition sample_env :: environment where
  "sample_env = \<lparr>env_mode = Execute,
     env_tx = Some \<lparr>txm_data = sample_paid_tx, txm_size = 30, txm_index = 0, txm_hash = []\<rparr>, env_internal = False\<rparr>"

definition sample_running :: "(unit, unit) sdk_state" where
  "sample_running = (root_state (empty_storage\<lparr>core_params_of := sample_core_params\<rparr>) Execute)\<lparr>st_env := sample_env\<rparr>"

definition sample_ctx :: ctx where
  "sample_ctx = \<lparr>ctx_deps = sample_deps, ctx_epoch = 3, ctx_round = 40, ctx_max_messages = 4, ctx_is_confidential = False,
     ctx_good_compute_entities = [[11], [12]], ctx_bad_compute_entities = [[13]], ctx_messages = [], ctx_core_local_config = None,
     ctx_max_check_nonce_future_delta = 2\<rparr>"

definition sample_core_config :: core_config where
  "sample_core_config = \<lparr>cfg_default_local_min_gas_price = fmempty, cfg_default_local_estimate_gas_search_max_iters = 64,
     cfg_estimate_gas_extra_fail = fmempty, cfg_min_gas_price_exempt_methods = {||}, cfg_emit_gas_used_events = True,
     cfg_allow_interactive_read_only_transactions = False, cfg_gas_cost_call_calldata_public_key = 20,
     cfg_gas_cost_call_current_epoch = 10\<rparr>"

lemmas sample_simps = sample_core_params_def sample_paid_tx_def sample_env_def sample_running_def sample_ctx_def
  sample_core_config_def default_core_params_def empty_storage_def root_state_def set_fee_amount_def set_fee_gas_def
  set_fee_def base_units_native_def default_fee_def

lemma sample_auth_info: "env_auth_info (st_env sample_running) = Some (tx_auth_info sample_paid_tx)"
  by (simp add: sample_running_def sample_env_def env_auth_info_def)

section \<open>Properties\<close>

text \<open>C8: charging gas to a transaction. When it succeeds the transaction has used exactly that much more,
  within its limit, and outside checks so has the batch, within its limit. When it fails, neither counter
  has moved. It never panics inside a transaction.\<close>

theorem gas_accounting:
  assumes "use_tx_gas cfg gas s = (r, t)" "env_auth_info (st_env s) = Some ai" "batch_gas_inv s"
  shows "batch_gas_inv t \<and>
    (case r of
       Ok _ \<Rightarrow> unat (used_tx_gas t) = unat (used_tx_gas s) + unat gas \<and> used_tx_gas t \<le> fee_gas_of (ai_fee ai) \<and>
         unat (used_batch_gas t) = unat (used_batch_gas s) + (if is_check_only (st_env s) then 0 else unat gas)
     | Err e \<Rightarrow> used_tx_gas t = used_tx_gas s \<and> used_batch_gas t = used_batch_gas s
     | Panic \<Rightarrow> False)"
proof -
  have "batch_gas_inv t" by (rule keepsD [OF use_tx_gas_batch_inv assms(1,3)])
  moreover have "unat (used_batch_gas t) = unat (used_batch_gas s) + (if is_check_only (st_env s) then 0 else unat gas)"
    if "r = Ok ()"
    using assms(1) that by (auto elim: use_tx_gas_Ok)
  ultimately show ?thesis using assms use_tx_gas_spec [of cfg gas s t ai] use_tx_gas_Err(1) [of cfg gas s _ t]
      use_tx_gas_Panic [of cfg gas s t]
    by (cases r) auto
qed

theorem gas_accounting_witness:
  "\<exists>t. use_tx_gas sample_core_config 150 sample_running = (Ok (), t) \<and> used_tx_gas t = 150 \<and> used_batch_gas t = 150"
proof -
  obtain r t where run: "use_tx_gas sample_core_config 150 sample_running = (r, t)" by fastforce
  have inv: "batch_gas_inv sample_running"
    by (simp add: batch_gas_inv_def used_batch_gas_def max_batch_gas_def sample_simps default_block_values_ext_def)
  have "r = Ok ()" using run
    by (simp add: use_tx_gas_def env_auth_info_def use_batch_gas_def used_tx_gas_def used_batch_gas_def max_batch_gas_def
        checked_add_def set_used_tx_gas_def seq_op_def update_op_def sample_simps sample_tx_simps
        default_block_values_ext_def default_local_values_ext_def is_check_only_def Let_def upd_local_def upd_block_def
        split: if_splits)
  with gas_accounting [OF run sample_auth_info inv] run show ?thesis
    by (simp add: used_tx_gas_def used_batch_gas_def sample_simps is_check_only_def word_unat_eq_iff
        default_block_values_ext_def default_local_values_ext_def)
qed

text \<open>C27: a call that passes the checks before it runs asks for no more gas than a batch has and no more
  messages than a round has, pays the minimum gas price of its denomination unless its method is exempt,
  and has been charged exactly for its size, its signatures and its encryption, within its limit.\<close>

theorem call_charged_before:
  assumes "core_before_handle_call cfg c cl s = (Ok (), t)" "\<not> env_internal (st_env s)"
  shows "\<exists>ai sz. env_auth_info (st_env s) = Some ai \<and> tx_size (st_env s) = Some sz \<and>
    fee_gas_of (ai_fee ai) \<le> max_batch_gas s \<and> fee_consensus_messages (ai_fee ai) \<le> ctx_max_messages c \<and>
    (call_method cl |\<notin>| cfg_min_gas_price_exempt_methods cfg \<longrightarrow>
      (\<exists>p. min_gas_price (denom (fee_amount_of (ai_fee ai))) s = Some p \<and>
         unat p \<le> unat (amount (fee_amount_of (ai_fee ai))) div unat (fee_gas_of (ai_fee ai)))) \<and>
    unat (used_tx_gas t) = unat (used_tx_gas s) + unat (gc_tx_byte (cp_gas_costs (core_params_of (st_store s)))) * unat sz +
      num_signature (ai_signer_info ai) * unat (gc_auth_signature (cp_gas_costs (core_params_of (st_store s)))) +
      num_multisig (ai_signer_info ai) * unat (gc_auth_multisig_signer (cp_gas_costs (core_params_of (st_store s)))) +
      (if is_encrypted (call_format_of cl)
       then unat (gc_callformat_x25519_deoxysii (cp_gas_costs (core_params_of (st_store s)))) else 0) \<and>
    used_tx_gas t \<le> fee_gas_of (ai_fee ai)"
proof -
  from assms obtain ai sz cost where 1: "env_auth_info (st_env s) = Some ai" "tx_size (st_env s) = Some sz"
    "fee_gas_of (ai_fee ai) \<le> cp_max_batch_gas (core_params_of (st_store s))"
    "fee_consensus_messages (ai_fee ai) \<le> ctx_max_messages c"
    and 2: "call_method cl |\<notin>| cfg_min_gas_price_exempt_methods cfg \<longrightarrow>
       (\<exists>p. min_gas_price (denom (fee_amount_of (ai_fee ai))) s = Some p \<and> p \<le> gas_price (ai_fee ai))"
    and cost: "compute_signature_verification_cost (core_params_of (st_store s)) (ai_signer_info ai) = Some cost"
    and 3: "unat (used_tx_gas t) = unat (used_tx_gas s) + unat (gc_tx_byte (cp_gas_costs (core_params_of (st_store s)))) * unat sz +
       unat cost + (if is_encrypted (call_format_of cl)
         then unat (gc_callformat_x25519_deoxysii (cp_gas_costs (core_params_of (st_store s)))) else 0)"
      "used_tx_gas t \<le> fee_gas_of (ai_fee ai)"
    by (rule core_before_handle_call_Ok)
  show ?thesis using 1 2 3 signature_cost_nat [OF cost]
    by (auto simp: max_batch_gas_def word_le_nat_alt unat_gas_price)
qed

text \<open>The sample transaction: 30 bytes, one signature and three multisig signers, plain.\<close>

theorem call_charged_before_witness:
  "\<exists>t. core_before_handle_call sample_core_config sample_ctx (tx_call sample_paid_tx) sample_running = (Ok (), t) \<and>
     used_tx_gas t = 30 + 10 + 15"
proof -
  obtain r t where run: "core_before_handle_call sample_core_config sample_ctx (tx_call sample_paid_tx) sample_running = (r, t)"
    by fastforce
  have "r = Ok ()" using run
    by (simp add: core_before_handle_call_def enforce_min_gas_price_def charge_tx_size_def charge_signatures_def
        compute_signature_verification_cost_def min_gas_price_def min_gas_prices_def tx_size_def gas_price_def
        use_tx_gas_def use_batch_gas_def used_tx_gas_def used_batch_gas_def max_batch_gas_def checked_add_def checked_mul_def
        checked_div_def seq_op_def ok_or_op_def return_op_def update_op_def set_used_tx_gas_def sample_simps sample_tx_simps
        env_auth_info_def default_call_def default_block_values_ext_def default_local_values_ext_def is_check_only_def
        Let_def upd_local_def upd_block_def fmlookup_of_list split: if_splits)
  then have "unat (used_tx_gas t) = 55"
    using call_charged_before [of sample_core_config sample_ctx "tx_call sample_paid_tx" sample_running t] run sample_auth_info
    by (auto simp: sample_simps sample_tx_simps tx_size_def used_tx_gas_def default_local_values_ext_def default_call_def)
  then show ?thesis using run \<open>r = Ok ()\<close> by (simp add: word_unat_eq_iff)
qed

text \<open>The minimum gas price follows the load of the block. Below the target it never rises and falls by
  at most the configured fraction; above it never falls, and rises by at most that fraction as long
  as the block used no more than twice the target.\<close>

theorem price_follows_load:
  "(gas_used \<le> target \<longrightarrow>
      unat price - unat price div unat den \<le> unat (min_gas_price_update gas_used target den price) \<and>
      min_gas_price_update gas_used target den price \<le> price) \<and>
   (target < gas_used \<longrightarrow> price \<le> min_gas_price_update gas_used target den price \<and>
      (unat gas_used \<le> 2 * unat target \<longrightarrow>
        unat (min_gas_price_update gas_used target den price) \<le> unat price + unat price div unat den))"
  using min_gas_price_update_down(1) [of gas_used target price den] min_gas_price_update_down(2) [of gas_used target den price]
    min_gas_price_update_up(1) [of target gas_used price den] min_gas_price_update_up(2) [of target gas_used den price]
  by (simp add: word_le_nat_alt)

theorem price_follows_load_witness:
  "min_gas_price_update 0 50 8 1000 = 875 \<and> min_gas_price_update 100 50 8 1000 = 1125 \<and>
   (875 :: u128) \<le> 1000 \<and> unat (1125 :: u128) \<le> 1000 + 1000 div 8"
proof -
  have 1: "min_gas_price_update 0 50 8 1000 = 875" "min_gas_price_update 100 50 8 1000 = 1125"
    by (simp_all add: min_gas_price_update_def saturating_mul_def saturating_add_def saturating_sub_def checked_mul_def
        checked_add_def Let_def)
  show ?thesis
    using price_follows_load [of 0 50 1000 8] price_follows_load [of 100 50 1000 8] 1 by simp
qed

text \<open>The bound on a rise is lost when a block uses more than twice the target: with the target at 10\% of the
  batch and a denominator of 8, a full block raises the price by 112.5\%.\<close>

theorem price_rise_exceeds_fraction: "min_gas_price_update 1000 100 8 1000 = 2125 \<and> (2125 :: u128) > 1000 + 1000 div 8"
  by (simp add: min_gas_price_update_def saturating_mul_def saturating_add_def checked_mul_def checked_add_def Let_def)

text \<open>After a block with dynamic prices, the same denominations are priced as before, none below its
  configured minimum, and each at its configured minimum or at the updated price.\<close>

theorem dynamic_prices_bounded:
  assumes "dm_enabled (cp_dynamic_min_gas_price (core_params_of (st_store s)))"
  shows "fmdom' (min_gas_prices (core_end_block s)) = fmdom' (min_gas_prices s) \<and>
    (\<forall>d m p. fmlookup (cp_min_gas_price (core_params_of (st_store s))) d = Some m \<longrightarrow>
       min_gas_price d (core_end_block s) = Some p \<longrightarrow> m \<le> p)"
proof -
  obtain g t where e: "min_gas_prices (core_end_block s) =
      fmmap_keys (new_min_price (core_params_of (st_store s)) g t) (min_gas_prices s)"
    using assms by (rule core_end_block_prices)
  show ?thesis using new_min_price_ge by (fastforce simp: e min_gas_price_def fmdom'_alt_def)
qed

theorem dynamic_prices_bounded_witness:
  "fmdom' (min_gas_prices (core_end_block sample_running)) = {NATIVE} \<and>
   (\<exists>p. min_gas_price NATIVE (core_end_block sample_running) = Some p \<and> 2 \<le> p)"
proof -
  have en: "dm_enabled (cp_dynamic_min_gas_price (core_params_of (st_store sample_running)))"
    by (simp add: sample_simps)
  have now: "min_gas_prices sample_running = fmap_of_list [(NATIVE, 2)]"
    by (simp add: min_gas_prices_def sample_simps)
  have conf: "fmlookup (cp_min_gas_price (core_params_of (st_store sample_running))) NATIVE = Some 2"
    by (simp add: sample_simps)
  have dom: "fmdom' (min_gas_prices (core_end_block sample_running)) = {NATIVE}"
    using dynamic_prices_bounded [OF en] unfolding now by auto
  then obtain p where "min_gas_price NATIVE (core_end_block sample_running) = Some p"
    by (auto simp: min_gas_price_def fmlookup_dom'_iff set_eq_iff)
  then show ?thesis using dynamic_prices_bounded [OF en] conf dom by blast
qed

text \<open>C28: after a call outside of an internal context, the transaction has paid for the most expensive of what
  it computed, what it stored and the messages it emitted, and nothing was written to the store.\<close>

theorem call_charged_after:
  assumes "core_after_handle_call cfg pend c s = (Ok (), t)" "\<not> env_internal (st_env s)"
  shows "st_store t = st_store s \<and> used_tx_gas t = max (used_tx_gas s)
    (max (storage_gas (core_params_of (st_store s)) (pend s))
      (message_gas (core_params_of (st_store s)) (ctx_max_messages c) (emitted_messages_local_count s)))"
  using core_after_handle_call_Ok [OF assms] by simp

text \<open>Seventy bytes of pending updates at two units of gas each, where forty units were used before.\<close>

theorem call_charged_after_witness:
  "\<exists>t. core_after_handle_call sample_core_config (\<lambda>_. 70) sample_ctx (set_used_tx_gas 40 sample_running) = (Ok (), t) \<and>
     used_tx_gas t = 140"
proof -
  let ?s = "set_used_tx_gas 40 sample_running"
  obtain r t where run: "core_after_handle_call sample_core_config (\<lambda>_. 70) sample_ctx ?s = (r, t)" by fastforce
  have "r = Ok ()" using run
    by (simp add: core_after_handle_call_def storage_gas_def message_gas_def emitted_messages_local_count_def
        use_tx_gas_def env_auth_info_def use_batch_gas_def used_tx_gas_def used_batch_gas_def max_batch_gas_def
        checked_add_def checked_mul_def checked_div_def saturating_mul_def seq_op_def update_op_def set_used_tx_gas_def
        sample_simps sample_tx_simps default_block_values_ext_def default_local_values_ext_def is_check_only_def Let_def
        upd_local_def upd_block_def split: if_splits)
  then show ?thesis
    using call_charged_after [of sample_core_config "\<lambda>_. 70" sample_ctx ?s t] run
    by (simp add: set_used_tx_gas_def sample_simps storage_gas_def message_gas_def emitted_messages_local_count_def
        used_tx_gas_def saturating_mul_def checked_mul_def checked_div_def max_def)
qed

text \<open>C33: the gas estimation is exact. For a transaction that fails for lack of gas below some limit and succeeds
  from it on, the search finds that limit, whatever the simulations report and whatever state they leave
  behind, once it may take as many steps as the logarithm of the interval; the result is the
  limit plus the surcharge for signatures, at most the cap.\<close>

theorem estimate_exact:
  assumes "needs_gas sim need" "10 < need" "need < cap" "unat cap - 10 \<le> 2 ^ unat iters"
  shows "fst (estimate_search sim final cap propagate iters extra s) = Inr (min (saturating_add need extra) cap)"
proof -
  obtain x t where run: "estimate_loop sim cap propagate (unat iters) 10 (ucast cap) False False False s = (x, t)"
    by fastforce
  have "unat (ucast cap :: u128) = unat cap" by (rule unat_ucast_up) simp
  then have "fst (estimate_loop sim cap propagate (unat iters) 10 (ucast cap) False False False s) = Inr (ucast need)"
    using assms unat_lt [of cap] by (intro estimate_loop_exact) (simp_all add: word_less_nat_alt)
  then have "x = Inr (ucast need)" using run by simp
  moreover have "(ucast need :: u128) \<noteq> ucast cap" using assms(3) by (metis ucast_back less_irrefl)
  ultimately show ?thesis using run by (simp add: estimate_search_def ucast_back)
qed

text \<open>A transaction that needs 25 units of gas, reports 20, and is estimated under a cap of 1000.\<close>

theorem estimate_exact_witness:
  "fst (estimate_search (\<lambda>g s :: nat. if g < 25 then (Inl (Core_TxSimulationFailed (TxSimulationFailure ''core'' 12 [])), s + 1)
      else (Inr 20, s + 1)) (\<lambda>_ _ s. (Inr 0, s)) 1000 False 10 7 0) = Inr (32 :: u64)"
proof -
  have "(20 :: u64) \<le> g \<and> 25 \<le> g" if "\<not> g < 25" for g using that by (simp add: word_less_nat_alt word_le_nat_alt)
  then have "needs_gas (\<lambda>g s :: nat. if g < 25 then (Inl (Core_TxSimulationFailed (TxSimulationFailure ''core'' 12 [])), s + 1)
      else (Inr 20, s + 1)) 25"
    by (auto simp: needs_gas_def sim_out_of_gas_def is_error_core_out_of_gas_def)
  from estimate_exact [OF this, of 1000 10] show ?thesis by (simp add: saturating_add_def checked_add_def)
qed

end
