(* ===== verification/Accounts_Properties.thy ===== *)
theory Accounts_Properties
  imports Accounts_Api Core_Properties
begin

text \<open>
  Properties of the accounts module: what transfers, minting, burning, fees and the end of a block do to
  the books, when the invariant check and genesis accept, and that a transaction cannot be replayed.
\<close>

section \<open>Concrete values\<close>

definition alice :: address where "alice = test_address 1"
definition bob :: address where "bob = test_address 2"

text \<open>A thousand units minted to an account, in the middle of a transaction.\<close>

definition sample_books :: "(unit, unit) sdk_state" where
  "sample_books = snd (mint alice (BaseUnits 1000 NATIVE) sample_running)"

lemma names [simp]: "alice \<noteq> bob" "bob \<noteq> alice"
  by (simp_all add: alice_def bob_def)

lemma sample_mode [simp]: "is_check_only (st_env sample_running) = False"
  by (simp add: sample_running_def sample_env_def is_check_only_def)

lemma sample_not_simulated [simp]: "is_simulation (st_env sample_running) = False"
  by (simp add: sample_running_def sample_env_def is_simulation_def)

lemma sample_fee [simp]: "fee_amount sample_paid_tx = BaseUnits 600 NATIVE"
  by (simp add: fee_amount_def sample_simps sample_tx_simps)

lemma sample_running_books:
  "balance_of sample_running a d = 0" "supply_of sample_running d = 0" "fee_manager_now sample_running = fee_manager_new"
  "acc_balances (st_store sample_running) = fmempty" "acc_total_supplies (st_store sample_running) = fmempty"
  "accounts_inv sample_running"
  by (simp_all add: sample_simps balance_of_def supply_of_def fee_manager_now_def accounts_inv_def circulating_def
      total_balance_def fee_manager_inv_new default_block_values_ext_def)

lemma sample_books_eq:
  "mint alice (BaseUnits 1000 NATIVE) sample_running = (Ok (), sample_books)"
  "sample_books = emit_event_raw (sdk_event_key (Ev_Mint alice (BaseUnits 1000 NATIVE))) (Ev_Mint alice (BaseUnits 1000 NATIVE))
     (put_supply NATIVE 1000 (put_balance alice NATIVE 1000 sample_running))"
  by (simp_all add: sample_books_def mint_def seq_op_def add_amount_def inc_total_supply_def sample_running_books
      checked_add_def acc_simps)

lemma sample_books_simps [simp]:
  "balance_of sample_books a d = (if a = alice \<and> d = NATIVE then 1000 else 0)"
  "supply_of sample_books d = (if d = NATIVE then 1000 else 0)" "fee_manager_now sample_books = fee_manager_new"
  "st_env sample_books = st_env sample_running" "is_check_only (st_env sample_books) = False"
  by (simp_all add: sample_books_eq(2) acc_simps sample_running_books)

lemma sample_books_inv: "accounts_inv sample_books" "tables_ok sample_books"
proof -
  show "accounts_inv sample_books"
    using keeps_okD [OF mint_inv sample_books_eq(1)] sample_running_books(6) by simp
  show "tables_ok sample_books"
    by (simp add: tables_ok_def sample_books_eq(2) put_supply_def put_balance_def sample_running_books)
qed

lemma module_address_byte: "(\<forall>bs. length (H bs) = 32) \<Longrightarrow> hd (address_bytes (address_from_module H m k)) = 0"
  by (simp add: address_from_module_def address_from_module_raw_def address_new_def Let_def Abs_address_inverse ADDRESS_DATA_SIZE_def ADDRESS_V0_VERSION_def)

section \<open>Transfers, minting and burning\<close>

text \<open>C1: a transfer outside of checks, on balanced books, either moves exactly the amount and changes no other
  balance, or fails because the sender has too little and changes nothing. The books stay balanced,
  the supplies as they were, and it never panics.\<close>

theorem transfer_correct:
  assumes "transfer f to amt s = (r, t)" "accounts_inv s" "\<not> is_check_only (st_env s)"
  shows "accounts_inv t \<and> supply_of t = supply_of s \<and>
    (case r of
       Ok _ \<Rightarrow> amount amt \<le> balance_of s f (denom amt) \<and>
         (\<forall>a d. unat (balance_of t a d) + (if a = f then units_of amt d else 0) =
                unat (balance_of s a d) + (if a = to then units_of amt d else 0))
     | Err e \<Rightarrow> e = Acc_InsufficientBalance \<and> balance_of s f (denom amt) < amount amt \<and> t = s
     | Panic \<Rightarrow> False)"
proof (cases r)
  case (Ok x)
  then show ?thesis using acc.xfer_Ok [of s f to amt x t] assms
    by (simp add: moved_def word_le_nat_alt fun_eq_iff word_unat_eq_iff)
next
  case (Err e)
  then show ?thesis using acc.xfer_Err [of s f to amt e t] assms by (simp add: word_less_nat_alt)
next
  case Panic
  then show ?thesis using acc.xfer_no_panic [of f to amt s t] assms(1) by simp
qed

theorem transfer_correct_witness:
  "\<exists>t. transfer alice bob (BaseUnits 300 NATIVE) sample_books = (Ok (), t) \<and>
     balance_of t alice NATIVE = 700 \<and> balance_of t bob NATIVE = 300 \<and> accounts_inv t"
proof -
  obtain r t where run: "transfer alice bob (BaseUnits 300 NATIVE) sample_books = (r, t)" by fastforce
  have "r = Ok ()" using run
    by (simp add: transfer_def transfer_silent_def seq_op_def sub_amount_def add_amount_def checked_sub_def checked_add_def acc_simps)
  then have "accounts_inv t \<and> (\<forall>a d. unat (balance_of t a d) + (if a = alice then units_of (BaseUnits 300 NATIVE) d else 0) =
      unat (balance_of sample_books a d) + (if a = bob then units_of (BaseUnits 300 NATIVE) d else 0))"
    using transfer_correct [OF run sample_books_inv(1)] by simp
  then have "accounts_inv t" "unat (balance_of t alice NATIVE) = 700" "unat (balance_of t bob NATIVE) = 300"
    by (simp_all add: units_of_def split: if_splits)
  then show ?thesis using run \<open>r = Ok ()\<close> by (simp add: word_unat_eq_iff)
qed

text \<open>C26: minting and burning outside of checks keep the books balanced and move the supply by exactly the amount
  when they succeed; burning never runs into its assertion on the supply.\<close>

theorem mint_and_burn:
  assumes "accounts_inv s" "\<not> is_check_only (st_env s)"
  shows "(mint to amt s = (Ok (), t) \<longrightarrow> accounts_inv t \<and> (\<forall>d. unat (supply_of t d) = unat (supply_of s d) + units_of amt d)) \<and>
    (burn f amt s = (Ok (), u) \<longrightarrow> accounts_inv u \<and> (\<forall>d. unat (supply_of u d) + units_of amt d = unat (supply_of s d))) \<and>
    fst (burn f amt s) \<noteq> Panic"
proof (intro conjI impI)
  show "fst (burn f amt s) \<noteq> Panic" using burn_cases [of f amt s _ "snd (burn f amt s)"] assms(1) by (metis prod.collapse)
next
  assume run: "mint to amt s = (Ok (), t)"
  show "accounts_inv t" by (rule keeps_okD [OF mint_inv run assms(1)])
  show "\<forall>d. unat (supply_of t d) = unat (supply_of s d) + units_of amt d" using mint_steps(3) [OF run assms(2)] by simp
next
  assume run: "burn f amt s = (Ok (), u)"
  show "accounts_inv u" using burn_cases [OF run assms(1)] by simp
  show "\<forall>d. unat (supply_of u d) + units_of amt d = unat (supply_of s d)" using burn_steps(3) [OF run assms(2)] by simp
qed

theorem mint_and_burn_witness:
  "\<exists>t. burn alice (BaseUnits 400 NATIVE) sample_books = (Ok (), t) \<and> supply_of t NATIVE = 600 \<and> accounts_inv t"
proof -
  obtain r t where run: "burn alice (BaseUnits 400 NATIVE) sample_books = (r, t)" by fastforce
  have "r = Ok ()" using run
    by (simp add: burn_def seq_op_def sub_amount_def dec_total_supply_def checked_sub_def acc_simps expect_op_def)
  with mint_and_burn [OF sample_books_inv(1), of alice "BaseUnits 400 NATIVE" sample_books alice t] run
  have "accounts_inv t" "unat (supply_of t NATIVE) + 400 = 1000" by (auto dest: spec [of _ NATIVE] simp: units_of_def)
  then show ?thesis using run \<open>r = Ok ()\<close> by (simp add: word_unat_eq_iff)
qed

section \<open>Fees\<close>

lemma charge_fees_no_panic:
  assumes "mgr_tx_fee (fee_manager_now s) = None"
  shows "fst (charge_fees tx payer s) \<noteq> Panic"
proof -
  have rec: "fst (record_fee_op payer amt u) \<noteq> Panic" if "fee_manager_now u = fee_manager_now s" for amt and u :: "('a, 'b) sdk_state"
    using record_fee_fresh [OF assms, of payer amt] that by (auto simp: record_fee_op_def)
  have sub: "fee_manager_now u = fee_manager_now s" if "sub_amount payer amt s = (Ok (), u)" for amt u
    using sub_amount_Ok(2) [OF that] by (simp add: books_def)
  show ?thesis
    using rec sub amount_no_panic(1) [of payer "fee_amount tx" s]
    by (auto simp: charge_fees_def charge_tx_fee_def Let_def seq_op_def bind_op_def map_err_op_def ensure_balance_def update_op_def
        split: prod.splits outcome.splits if_splits) (metis fst_conv | fastforce)+
qed

text \<open>C10: outside of checks a transaction's fee never leaves the books. Charging it moves it from the payer to the
  fee manager, and closing the transaction moves what is left after the refund to the block; neither
  panics, neither changes the circulating amount or the supply of any denomination, and afterwards no
  fee is open.\<close>

theorem fees_conserved:
  assumes "accounts_inv s" "\<not> is_check_only (st_env s)"
  shows "(mgr_tx_fee (fee_manager_now s) = None \<longrightarrow> charge_fees tx payer s = (r, t) \<longrightarrow>
       r \<noteq> Panic \<and> accounts_inv t \<and> circulating t = circulating s \<and> supply_of t = supply_of s) \<and>
    (\<exists>u. accounts_after_dispatch_tx ai ok s = (Ok (), u) \<and> accounts_inv u \<and> circulating u = circulating s \<and>
       supply_of u = supply_of s \<and> mgr_tx_fee (fee_manager_now u) = None)"
proof (intro conjI impI)
  assume f: "mgr_tx_fee (fee_manager_now s) = None" and run: "charge_fees tx payer s = (r, t)"
  show p: "r \<noteq> Panic" using charge_fees_no_panic [OF f, of tx payer] run by simp
  have "conserved s t" by (rule charge_fees_conserved [OF run p assms(2)])
  then show "accounts_inv t" "circulating t = circulating s" "supply_of t = supply_of s"
    using conserved_inv assms(1) by (auto simp: conserved_def)
next
  obtain u where "accounts_after_dispatch_tx ai ok s = (Ok (), u)" "conserved s u" "mgr_tx_fee (fee_manager_now u) = None"
    using assms by (rule after_dispatch_execute)
  then show "\<exists>u. accounts_after_dispatch_tx ai ok s = (Ok (), u) \<and> accounts_inv u \<and> circulating u = circulating s \<and>
       supply_of u = supply_of s \<and> mgr_tx_fee (fee_manager_now u) = None"
    using conserved_inv assms(1) by (auto simp: conserved_def)
qed

text \<open>The sample transaction's fee of 600 units, paid out of the thousand.\<close>

theorem fees_conserved_witness:
  "\<exists>t u. charge_fees sample_paid_tx alice sample_books = (Ok (), t) \<and> circulating t NATIVE = 1000 \<and>
     accounts_after_dispatch_tx (tx_auth_info sample_paid_tx) True t = (Ok (), u) \<and> circulating u NATIVE = 1000"
proof -
  obtain r t where run: "charge_fees sample_paid_tx alice sample_books = (r, t)" by fastforce
  have ok: "r = Ok ()" using run
    by (simp add: charge_fees_def charge_tx_fee_def Let_def seq_op_def bind_op_def map_err_op_def sub_amount_def checked_sub_def
        record_fee_op_def record_fee_def fee_manager_new_def default_transaction_fee_def checked_add_def acc_simps update_op_def
        split: if_splits)
  have circ: "circulating sample_books NATIVE = 1000" using sample_books_inv(1) by (simp add: accounts_inv_def)
  have t: "accounts_inv t" "circulating t = circulating sample_books"
    using fees_conserved [OF sample_books_inv(1), of sample_paid_tx alice r t] run by (auto simp: fee_manager_new_def)
  have "\<not> is_check_only (st_env t)"
    using run sample_books_simps(5)
    by (auto simp: charge_fees_def charge_tx_fee_def Let_def seq_op_def bind_op_def map_err_op_def update_op_def sub_amount_def
        record_fee_op_def acc_simps set_priority_def split: prod.splits outcome.splits if_splits option.splits)
  from fees_conserved [OF t(1) this, of undefined undefined undefined undefined "tx_auth_info sample_paid_tx" True]
  show ?thesis using run ok circ t(2) by auto
qed

section \<open>The end of a block and the invariant check\<close>

text \<open>C2: with no transaction open, the end of a block distributes the fees without a panic: the books stay balanced,
  supplies do not change, and nothing is left in the fee manager. If in addition the tables of balances and
  supplies have the same denominations and fees were only collected in those, the module's own check of
  its invariants then passes.\<close>

theorem end_block_passes_check:
  assumes "accounts_inv s" "mgr_tx_fee (fee_manager_now s) = None" "length (ctx_good_compute_entities c) < 2 ^ 128"
    and "tables_ok s" "\<forall>d. block_held (fee_manager_now s) d \<noteq> 0 \<longrightarrow> d \<in> fmdom' (acc_total_supplies (st_store s))"
  shows "\<exists>t. accounts_end_block c s = (Ok (), t) \<and> accounts_inv t \<and> supply_of t = supply_of s \<and>
    fee_manager_now t = fee_manager_new \<and> tables_ok t \<and> check_invariants t = Inr ()"
proof -
  obtain t where t: "accounts_end_block c s = (Ok (), t)" "accounts_inv t" "supply_of t = supply_of s"
      "fee_manager_now t = fee_manager_new"
    using assms(1-3) by (rule accounts_end_block_run)
  have "tables_ok t"
    using end_block_within [OF t(1) within_start [OF assms(4)]] assms(5) by (intro within_end [OF assms(4)]) blast
  moreover have "total_balance t d = unat (supply_of t d)" for d
    using t(2,4) by (simp add: accounts_inv_def circulating_def)
  ultimately show ?thesis using t check_passes by blast
qed

text \<open>A block that has collected a hundred units of fees.\<close>

definition sample_fees :: "(unit, unit) sdk_state" where
  "sample_fees = put_fee_manager (fee_manager_new\<lparr>mgr_block_fees := fmupd NATIVE 100 fmempty\<rparr>) (put_balance alice NATIVE 900 sample_books)"

lemma sample_fees_simps:
  "fee_manager_now sample_fees = fee_manager_new\<lparr>mgr_block_fees := fmupd NATIVE 100 fmempty\<rparr>" "tables_ok sample_fees" "accounts_inv sample_fees"
  "fmdom' (acc_total_supplies (st_store sample_fees)) = {NATIVE}"
proof -
  have tables: "acc_balances (st_store sample_fees) = fmupd (alice, NATIVE) 900 fmempty" "acc_total_supplies (st_store sample_fees) = fmupd NATIVE 1000 fmempty"
    by (simp_all add: sample_fees_def sample_books_eq(2) put_fee_manager_def put_balance_def put_supply_def upd_store_def upd_block_def emit_event_raw_def sample_running_books)
  show mgr: "fee_manager_now sample_fees = fee_manager_new\<lparr>mgr_block_fees := fmupd NATIVE 100 fmempty\<rparr>" by (simp add: sample_fees_def acc_simps)
  show "tables_ok sample_fees" "fmdom' (acc_total_supplies (st_store sample_fees)) = {NATIVE}" by (simp_all add: tables_ok_def tables)
  show "accounts_inv sample_fees"
    by (simp add: accounts_inv_def circulating_def total_balance_def supply_of_def tables mgr held_def tx_held_def block_held_def fee_manager_inv_def fee_manager_new_def fm_total_def fm_get_def)
qed

theorem end_block_passes_check_witness:
  "block_held (fee_manager_now sample_fees) NATIVE = 100 \<and>
   (\<exists>t. accounts_end_block sample_ctx sample_fees = (Ok (), t) \<and> check_invariants t = Inr () \<and> supply_of t NATIVE = 1000 \<and> fee_manager_now t = fee_manager_new)"
proof -
  have held: "block_held (fee_manager_now sample_fees) d = (if d = NATIVE then 100 else 0)" for d
    by (simp add: sample_fees_simps fee_manager_new_def block_held_def fm_get_def)
  have "supply_of sample_fees NATIVE = 1000" by (simp add: sample_fees_def acc_simps)
  moreover have "mgr_tx_fee (fee_manager_now sample_fees) = None" "length (ctx_good_compute_entities sample_ctx) < 2 ^ 128"
    "\<forall>d. block_held (fee_manager_now sample_fees) d \<noteq> 0 \<longrightarrow> d \<in> fmdom' (acc_total_supplies (st_store sample_fees))"
    using held by (simp_all add: sample_fees_simps(1,4) fee_manager_new_def sample_ctx_def)
  note end_block_passes_check [OF sample_fees_simps(3) this(1,2) sample_fees_simps(2) this(3)]
  ultimately show ?thesis using held by auto
qed

lemma check_tables:
  assumes "\<forall>d. total_balance s d < 2 ^ 128" "check_invariants s = Inr ()"
  shows "tables_ok s \<and> (\<forall>d. total_balance s d = unat (supply_of s d))"
proof -
  have eq: "fmlookup (acc_total_supplies (st_store s)) d =
      (if \<exists>a. (a, d) \<in> fmdom' (acc_balances (st_store s)) then Some (of_nat (total_balance s d)) else None)" for d
    using assms(2) unfolding check_invariants_iff get_total_supplies_def by (simp add: computed_supplies_get)
  have "tables_ok s"
    unfolding tables_ok_def by (rule set_eqI) (force simp: fmlookup_dom'_iff eq image_iff split: if_splits)
  moreover have "total_balance s d = unat (supply_of s d)" for d
  proof (cases "\<exists>a. (a, d) \<in> fmdom' (acc_balances (st_store s))")
    case True
    then show ?thesis using assms(1) eq [of d]
      by (simp add: supply_of_def fm_get_def unsigned_of_nat take_bit_nat_eq_self)
  next
    case False
    then have "total_balance s d = 0" unfolding total_balance_def fm_total_def by (intro sum.neutral) auto
    then show ?thesis using False eq [of d] by (simp add: supply_of_def fm_get_def)
  qed
  ultimately show "tables_ok s \<and> (\<forall>d. total_balance s d = unat (supply_of s d))" by blast
qed

text \<open>C31: the invariant check passes exactly on states where balances and supplies name the same denominations and,
  in each, the balances add up to the supply, provided no sum of balances overflows: the code adds
  them with a plain addition.\<close>

theorem check_invariants_exact:
  assumes "\<forall>d. total_balance s d < 2 ^ 128"
  shows "check_invariants s = Inr () \<longleftrightarrow> tables_ok s \<and> (\<forall>d. total_balance s d = unat (supply_of s d))"
  using check_tables [OF assms] check_passes by blast

theorem check_invariants_exact_witness: "check_invariants sample_books = Inr ()"
proof -
  have tot: "total_balance sample_books d = unat (supply_of sample_books d)" for d
    using sample_books_inv(1) by (simp add: accounts_inv_def circulating_def)
  then show ?thesis using check_invariants_exact [of sample_books] sample_books_inv(2) unat_lt by simp
qed

section \<open>Genesis\<close>

text \<open>What the balances of a genesis add up to, as a natural number.\<close>

definition genesis_total :: "(address, (denomination, u128) fmap) fmap \<Rightarrow> denomination \<Rightarrow> nat" where
  "genesis_total G d = (\<Sum>a \<in> fmdom' G. unat (fm_get 0 (the (fmlookup G a)) d))"

definition supplies_add_up :: "accounts_genesis \<Rightarrow> bool" where
  "supplies_add_up g \<longleftrightarrow> (\<forall>d. map_option unat (fmlookup (gen_total_supplies g) d) =
     (if \<exists>a bals. fmlookup (gen_balances g) a = Some bals \<and> fmlookup bals d \<noteq> None then Some (genesis_total (gen_balances g) d) else None))"

lemma genesis_total_eq:
  assumes grp: "\<And>a d. group_get G a d = fmlookup B (a, d)"
  shows "denom_total B d = genesis_total G d"
proof -
  have "denom_total B d = (\<Sum>k \<in> (\<lambda>a. (a, d)) ` fmdom' G. unat (fm_get 0 B k))"
    unfolding fm_total_def
  proof (rule sum.mono_neutral_cong)
    fix k
    assume k: "k \<in> fmdom' B - (\<lambda>a. (a, d)) ` fmdom' G"
    then obtain v where "group_get G (fst k) (snd k) = Some v" by (auto simp: grp fmlookup_dom'_iff)
    then have "fst k \<in> fmdom' G" by (auto simp: group_get_def fm_get_def fmlookup_dom'_iff split: option.splits)
    then show "(case k of (a, d') \<Rightarrow> \<lambda>v. if d' = d then unat v else 0) (the (fmlookup B k)) = 0" using k by (cases k) auto
  qed (auto simp: fm_get_def fmlookup_dom'_iff split: option.splits)
  also have "\<dots> = (\<Sum>a \<in> fmdom' G. unat (fm_get 0 B (a, d)))" by (subst sum.reindex) (auto simp: inj_on_def)
  also have "\<dots> = genesis_total G d"
    unfolding genesis_total_def by (intro sum.cong) (auto simp: fm_get_def [of 0] grp [symmetric] group_get_def fm_get_def [of fmempty] fmlookup_dom'_iff)
  finally show ?thesis .
qed

lemma genesis_table:
  "group_get (gen_balances g) a d = fmlookup (fst (genesis_balances (fm_entries (gen_balances g)) (fmempty, fmempty))) (a, d)"
  by (simp add: genesis_balances_get [OF distinct_fm_entries] map_of_fm_entries group_get_def fm_get_def split: option.splits)

lemma supplies_add_up_iff:
  assumes "\<And>d. genesis_total (gen_balances g) d < 2 ^ 128"
  shows "gen_total_supplies g = group_supplies (gen_balances g) \<longleftrightarrow> supplies_add_up g"
proof -
  let ?G = "gen_balances g" and ?T = "gen_total_supplies g"
  let ?B = "fst (genesis_balances (fm_entries ?G) (fmempty, fmempty))"
  have some: "(\<exists>a. (a, d) \<in> fmdom' ?B) \<longleftrightarrow> (\<exists>a bals. fmlookup ?G a = Some bals \<and> fmlookup bals d \<noteq> None)" for d
    unfolding fmlookup_dom'_iff genesis_table [symmetric] group_get_def fm_get_def
    by (intro ex_cong1) (simp split: option.split)
  have "fmlookup ?T d = fmlookup (group_supplies ?G) d \<longleftrightarrow> map_option unat (fmlookup ?T d) =
      (if \<exists>a bals. fmlookup ?G a = Some bals \<and> fmlookup bals d \<noteq> None then Some (genesis_total ?G d) else None)" for d
    using assms [of d] unfolding group_supplies_get [of ?G ?B, OF genesis_table] genesis_total_eq [of ?G ?B, OF genesis_table] some
    by (cases "fmlookup ?T d") (auto simp: word_unat_eq_iff unsigned_of_nat take_bit_nat_eq_self)
  moreover have "?T = group_supplies ?G \<longleftrightarrow> (\<forall>d. fmlookup ?T d = fmlookup (group_supplies ?G) d)" using fmap_ext by metis
  ultimately show ?thesis by (simp add: supplies_add_up_def)
qed

text \<open>C32: from empty tables, and as long as the balances of no denomination add up to \<open>2 ^ 128\<close> or more, genesis succeeds exactly when
  debug options are off and the total supplies name exactly the denominations that some account has, each with the sum of its balances as
  a natural number; otherwise it panics. When it succeeds the books are balanced and every balance is the one of the genesis document.\<close>

theorem genesis_exact:
  assumes "acc_balances (st_store s) = fmempty" "acc_total_supplies (st_store s) = fmempty" "fee_manager_now s = fee_manager_new"
    and "\<forall>d. genesis_total (gen_balances g) d < 2 ^ 128"
  shows "fst (accounts_init g s) = (if supplies_add_up g \<and> \<not> ap_debug_disable_nonce_check (gen_parameters g) then Ok () else Panic) \<and>
    (\<forall>t. accounts_init g s = (Ok (), t) \<longrightarrow> accounts_inv t \<and> tables_ok t \<and>
       (\<forall>a d. balance_of t a d = fm_get 0 (fm_get fmempty (gen_balances g) a) d))"
proof (intro conjI allI impI)
  fix t
  assume run: "accounts_init g s = (Ok (), t)"
  let ?B = "fst (genesis_balances (fm_entries (gen_balances g)) (fmempty, fmempty))"
  have eq: "gen_total_supplies g = group_supplies (gen_balances g)"
    and t: "acc_balances (st_store t) = ?B" "acc_total_supplies (st_store t) = gen_total_supplies g"
      "fee_manager_now t = fee_manager_new"
    using run assms(3) unfolding accounts_init_run [OF assms(1,2)]
    by (auto simp: fee_manager_now_def split: if_splits)
  note get = group_supplies_get [of "gen_balances g" ?B, OF genesis_table]
  have "get_total_supplies t = computed_supplies t"
    by (rule fmap_ext) (simp add: get_total_supplies_def t eq get computed_supplies_get total_balance_def)
  then have "check_invariants t = Inr ()" by (simp add: check_invariants_iff)
  moreover have "\<forall>d. total_balance t d < 2 ^ 128"
    using assms(4) genesis_total_eq [of "gen_balances g" ?B, OF genesis_table] by (simp add: total_balance_def t)
  ultimately have "tables_ok t \<and> (\<forall>d. total_balance t d = unat (supply_of t d))" by (intro check_tables)
  then show "accounts_inv t" "tables_ok t"
    by (simp_all add: accounts_inv_def circulating_def t(3) fee_manager_inv_new)
  show "balance_of t a d = fm_get 0 (fm_get fmempty (gen_balances g) a) d" for a d
    by (simp add: balance_of_def t fm_get_def [of 0] genesis_table [symmetric] group_get_def)
qed (use supplies_add_up_iff [of g] assms(4) in \<open>simp add: accounts_init_run [OF assms(1,2)]\<close>)

definition sample_genesis :: accounts_genesis where
  "sample_genesis = \<lparr>gen_parameters = default_accounts_params, gen_accounts = fmempty,
     gen_balances = fmupd alice (fmupd NATIVE 1000 fmempty) fmempty, gen_total_supplies = fmupd NATIVE 1000 fmempty\<rparr>"

lemma sample_genesis_total: "genesis_total (gen_balances sample_genesis) d = (if d = NATIVE then 1000 else 0)"
  by (simp add: genesis_total_def sample_genesis_def fm_get_def)

text \<open>A genesis that adds up, and the same with a wrong total.\<close>

theorem genesis_exact_witness:
  "fst (accounts_init sample_genesis sample_running) = Ok () \<and>
   fst (accounts_init (sample_genesis\<lparr>gen_total_supplies := fmupd NATIVE 999 fmempty\<rparr>) sample_running) = Panic"
proof -
  have "supplies_add_up sample_genesis" "\<not> supplies_add_up (sample_genesis\<lparr>gen_total_supplies := fmupd NATIVE 999 fmempty\<rparr>)"
    using sample_genesis_total by (auto simp: supplies_add_up_def sample_genesis_def intro!: exI [of _ NATIVE] split: if_splits)
  then show ?thesis
    using genesis_exact [of sample_running sample_genesis] genesis_exact [of sample_running "sample_genesis\<lparr>gen_total_supplies := fmupd NATIVE 999 fmempty\<rparr>"]
      sample_running_books sample_genesis_total
    by (simp add: sample_genesis_def default_accounts_params_def)
qed

section \<open>Nonces\<close>

lemma update_nonces_grow:
  "update_nonces c sis s = (Ok (), t) \<Longrightarrow> get_nonce a s \<le> get_nonce a t \<and>
     (a \<in> (\<lambda>si. address_spec_address (ctx_deps c) (si_address_spec si)) ` set sis \<longrightarrow> get_nonce a s < get_nonce a t)"
proof (induction sis arbitrary: s)
  case (Cons si sis)
  let ?a = "address_spec_address (ctx_deps c) (si_address_spec si)"
  from Cons.prems obtain n where n: "checked_add (get_nonce ?a s) 1 = Some n" and rest: "update_nonces c sis (set_nonce ?a n s) = (Ok (), t)"
    by (auto simp: Let_def split: option.splits)
  have "get_nonce ?a s < n" using n by (simp add: checked_add_Some word_less_nat_alt)
  then show ?case using Cons.IH [OF rest] by (auto simp: acc_simps split: if_splits)
qed simp

lemma charge_fees_nonces:
  "charge_fees tx payer s = (Ok (), t) \<Longrightarrow> get_nonce a t = get_nonce a s \<and> st_env t = st_env s"
  by (auto simp: charge_fees_def charge_tx_fee_def Let_def seq_op_def bind_op_Ok_iff map_err_op_def update_op_def sub_amount_def
      ensure_balance_def record_fee_op_def put_balance_def put_fee_manager_def set_priority_def get_nonce_def
      split: prod.splits outcome.splits if_splits option.splits)

text \<open>C9: a transaction that was authenticated outside of checks cannot be authenticated again: in every later
  state, in which nonces have not gone back, it is rejected because of its nonce, in every mode, and
  nothing changes. The hypothesis on the fee proxy says that resolving a payer changes neither
  nonces nor the environment.\<close>

theorem no_replay:
  assumes run: "accounts_authenticate_tx c resolve tx s = (Ok dec, t)" and mode: "\<not> is_check_only (st_env s)"
    and on: "\<not> ap_debug_disable_nonce_check (acc_params (st_store s))" "\<not> ap_debug_disable_nonce_check (acc_params (st_store u))"
    and proxy: "\<forall>v x w. resolve tx v = (Ok x, w) \<longrightarrow> acc_accounts (st_store w) = acc_accounts (st_store v) \<and> st_env w = st_env v"
    and later: "\<forall>a. get_nonce a t \<le> get_nonce a u"
  shows "accounts_authenticate_tx c resolve' tx u = (Err Core_InvalidNonce, u)"
proof -
  from run obtain payer v x w y where 1: "check_signer_nonces c (tx_auth_info tx) s = (Ok payer, v)"
      "resolve tx v = (Ok x, w)" "charge_fees tx (case x of Some p \<Rightarrow> p | None \<Rightarrow> payer) w = (Ok (), y)"
    and upd: "(if \<not> is_check_only (st_env y) then update_signer_nonces c (tx_auth_info tx) y else (Ok (), y)) = (Ok (), t)"
    by (auto simp: accounts_authenticate_tx_def seq_op_def bind_op_Ok_iff return_op_def)
  have v: "v = s" using 1(1) mode
    by (auto simp: check_signer_nonces_def Let_def is_check_only_def split: sum.splits option.splits if_splits)
  have w: "get_nonce a w = get_nonce a s" "st_env w = st_env s" for a
    using proxy 1(2) v by (auto simp: get_nonce_def)
  have y: "get_nonce a y = get_nonce a s" "st_env y = st_env s" for a
    using charge_fees_nonces [OF 1(3), of a] w by auto
  from upd mode y have grow: "update_nonces c (ai_signer_info (tx_auth_info tx)) y = (Ok (), t)"
    by (simp add: update_signer_nonces_def)
  obtain si rest where si: "ai_signer_info (tx_auth_info tx) = si # rest"
    using 1(1) by (cases "ai_signer_info (tx_auth_info tx)") (auto simp: check_signer_nonces_def)
  let ?a = "address_spec_address (ctx_deps c) (si_address_spec si)"
  have "si_nonce si = get_nonce ?a s"
    using 1(1) si mode on(1)
    by (auto simp: check_signer_nonces_def check_nonce_def bind_result_def Let_def is_check_only_def
        split: sum.splits option.splits if_splits)
  also have "\<dots> < get_nonce ?a u"
    using update_nonces_grow [OF grow, of ?a] si y(1) later by (auto intro: less_le_trans)
  finally show ?thesis using si on(2)
    by (simp add: accounts_authenticate_tx_def check_signer_nonces_def check_nonce_def bind_result_def bind_op_def Let_def)
qed

definition sample_free_tx :: transaction where
  "sample_free_tx = append_auth_signature (Spec_Ed25519 [9]) 0 (transaction_new ''accounts.Transfer'' (Cbor_ByteString [1, 2]))"

theorem no_replay_witness:
  "\<exists>t. accounts_authenticate_tx sample_ctx (\<lambda>_. return_op None) sample_free_tx sample_running = (Ok Continue, t) \<and>
     accounts_authenticate_tx sample_ctx (\<lambda>_. return_op None) sample_free_tx t = (Err Core_InvalidNonce, t)"
proof -
  let ?a = "address_spec_address sample_deps (Spec_Signature (Spec_Ed25519 [9]))"
  have si: "ai_signer_info (tx_auth_info sample_free_tx) = [\<lparr>si_address_spec = Spec_Signature (Spec_Ed25519 [9]), si_nonce = 0\<rparr>]"
      "amount (fee_amount sample_free_tx) = 0"
    by (simp_all add: sample_free_tx_def append_auth_signature_def append_signer_info_def transaction_new_def fee_amount_def
        default_fee_def default_auth_info_def default_base_units_def)
  have nonce: "get_nonce a sample_running = 0" for a by (simp add: get_nonce_def sample_simps)
  have on: "\<not> ap_debug_disable_nonce_check (acc_params (st_store sample_running))"
    by (simp add: sample_simps default_accounts_params_def)
  have deps: "ctx_deps sample_ctx = sample_deps" by (simp add: sample_ctx_def)
  have not_check: "env_mode (st_env sample_running) \<noteq> Check" by (simp add: sample_running_def sample_env_def)
  have run: "accounts_authenticate_tx sample_ctx (\<lambda>_. return_op None) sample_free_tx sample_running =
      (Ok Continue, set_nonce ?a 1 sample_running)"
    by (simp add: accounts_authenticate_tx_def check_signer_nonces_def check_nonce_def bind_result_def seq_op_def bind_op_def si on
        Let_def nonce deps not_check charge_fees_def return_op_def update_signer_nonces_def checked_add_def del: address_spec_address.simps)
  have "accounts_authenticate_tx sample_ctx (\<lambda>_. return_op None) sample_free_tx (set_nonce ?a 1 sample_running) =
      (Err Core_InvalidNonce, set_nonce ?a 1 sample_running)"
    by (rule no_replay [OF run]) (use on in \<open>simp_all add: return_op_def set_nonce_def\<close>)
  with run show ?thesis by blast
qed

end
