(* ===== verification/Rewards_Properties.thy ===== *)
theory Rewards_Properties
  imports Rewards_Module Accounts_Properties
begin

text \<open>
  Properties of the rewards module: who is rewarded, what they are paid, and that the end of a block
  always goes through.
\<close>

section \<open>Concrete values\<close>

text \<open>A schedule that pays 300 units until epoch 10, to whoever took part in at least half of the rounds.\<close>

definition sample_rewards :: rewards_params where
  "sample_rewards = \<lparr>rp_schedule = [\<lparr>rs_until = 10, rs_amount = BaseUnits 300 NATIVE\<rparr>],
     rp_participation_threshold_numerator = 1, rp_participation_threshold_denominator = 2\<rparr>"

definition sample_pending :: epoch_rewards where
  "sample_pending = fmupd alice (Reward 8) (fmupd bob (Reward 3) fmempty)"

section \<open>Properties\<close>

text \<open>With validated parameters, an entity is rewarded for an epoch exactly when it was not punished and took part
  in at least the threshold of rounds, once; entities that took part most always are, and one that was punished
  in any round of the epoch never is, whatever it does in later rounds.\<close>

theorem participation_rewarded:
  assumes "rewards_params_validate_basic p = Inr ()"
  shows "distinct (for_disbursement (rp_participation_threshold_numerator p) (rp_participation_threshold_denominator p) pending) \<and>
    (\<forall>a. a \<in> set (for_disbursement (rp_participation_threshold_numerator p) (rp_participation_threshold_denominator p) pending) \<longleftrightarrow>
       (\<exists>v. fmlookup pending a = Some (Reward v) \<and> reward_threshold (rp_participation_threshold_numerator p)
          (rp_participation_threshold_denominator p) (max_participation pending) \<le> v)) \<and>
    (\<forall>a. fmlookup pending a = Some (Reward (max_participation pending)) \<longrightarrow>
       a \<in> set (for_disbursement (rp_participation_threshold_numerator p) (rp_participation_threshold_denominator p) pending)) \<and>
    (\<forall>a. (\<exists>i \<in> set (ctx_bad_compute_entities c). entity_address c i = a) \<or> fmlookup pending a = Some NoReward \<longrightarrow>
       fmlookup (record_round c' (record_round c pending)) a = Some NoReward)"
proof -
  have le: "rp_participation_threshold_numerator p \<le> rp_participation_threshold_denominator p"
    "rp_participation_threshold_denominator p \<noteq> 0"
    using assms by (auto simp: rewards_params_validate_basic_def split: sum.splits if_splits)
  show ?thesis
    using for_disbursement_distinct for_disbursement_iff reward_threshold_le [OF le] record_round_forbidden
    by (intro conjI allI impI) (simp_all, metis+)
qed

theorem participation_rewarded_witness:
  "alice \<in> set (for_disbursement 1 2 sample_pending) \<and> bob \<notin> set (for_disbursement 1 2 sample_pending)"
proof -
  have v: "rewards_params_validate_basic sample_rewards = Inr ()"
    by (simp add: sample_rewards_def rewards_params_validate_basic_def schedule_validate_basic_def)
  have max: "max_participation sample_pending = 8"
    by (simp add: max_participation_def sample_pending_def fm_entries_def sorted_list_of_fset.rep_eq alice_def bob_def max_def)
  show ?thesis using participation_rewarded [OF v, of sample_pending] max
    by (simp add: sample_rewards_def sample_pending_def reward_threshold_def checked_mul_def checked_div_def saturating_mul_def)
qed

text \<open>C39: paying an epoch's rewards out of the pool, outside of checks: as many of the addresses as the pool can
  pay are paid exactly the reward, in order; the pool loses exactly that, and no other balance changes.\<close>

theorem rewards_paid_exactly:
  assumes "accounts_inv s" "\<not> is_check_only (st_env s)" "pool \<notin> set addrs" "distinct addrs" "0 < unat (amount reward)"
    and "k = min (length addrs) (unat (balance_of s pool (denom reward)) div unat (amount reward))"
  shows "\<exists>t. reward_all transfer pool reward addrs s = (Ok (), t) \<and> accounts_inv t \<and>
    unat (balance_of t pool d) + k * units_of reward d = unat (balance_of s pool d) \<and>
    (\<forall>a. a \<noteq> pool \<longrightarrow> unat (balance_of t a d) = unat (balance_of s a d) +
       (if a \<in> set (take k addrs) then units_of reward d else 0))"
proof -
  obtain t where t: "reward_all transfer pool reward addrs s = (Ok (), t)" "accounts_inv t"
    using acc.reward_all_run [OF assms(1)] by blast
  from acc.reward_all_paid [OF assms t(1)] show ?thesis using t by blast
qed

text \<open>A pool of a thousand units that pays 600 to the first of two.\<close>

theorem rewards_paid_exactly_witness:
  "\<exists>t. reward_all transfer alice (BaseUnits 600 NATIVE) [bob, test_address 3] sample_books = (Ok (), t) \<and>
     unat (balance_of t alice NATIVE) = 400 \<and> unat (balance_of t bob NATIVE) = 600 \<and>
     unat (balance_of t (test_address 3) NATIVE) = 0"
proof -
  have "\<exists>t. reward_all transfer alice (BaseUnits 600 NATIVE) [bob, test_address 3] sample_books = (Ok (), t) \<and> accounts_inv t \<and>
      unat (balance_of t alice NATIVE) + 1 * units_of (BaseUnits 600 NATIVE) NATIVE = unat (balance_of sample_books alice NATIVE) \<and>
      (\<forall>a. a \<noteq> alice \<longrightarrow> unat (balance_of t a NATIVE) = unat (balance_of sample_books a NATIVE) +
         (if a \<in> set (take 1 [bob, test_address 3]) then units_of (BaseUnits 600 NATIVE) NATIVE else 0))"
    by (rule rewards_paid_exactly [OF sample_books_inv(1)]) (simp_all add: alice_def bob_def)
  then show ?thesis by (auto simp: units_of_def alice_def bob_def)
qed

text \<open>C40: the end of a block in the rewards module never panics on balanced books, keeps them balanced and the supplies
  unchanged, and leaves as pending exactly the round just recorded on top of its epoch. When the epoch has changed, all
  epochs that were pending are paid, in their order: each pays its scheduled reward out of the pool to the entities that were never punished and
  took part often enough, in the order of their addresses, as far as the pool goes, and nobody else's balance changes. The
  payments are stated outside of checks and with the pool itself not among the entities.\<close>

theorem rewards_end_block_settles:
  assumes "accounts_inv s"
  shows "\<exists>t. rewards_end_block transfer c s = (Ok (), t) \<and> accounts_inv t \<and> supply_of t = supply_of s \<and>
    rew_rewards (st_store t) = fmupd (ctx_epoch c) (record_round c (fm_get fmempty (rew_rewards (st_store s)) (ctx_epoch c)))
      (if has_epoch_changed s then fmempty else rew_rewards (st_store s)) \<and>
    (\<not> is_check_only (st_env s) \<and> pool_unrewarded c s \<longrightarrow> balances_nat t = settled_balances c s)"
proof -
  obtain t where "rewards_end_block transfer c s = (Ok (), t)" "accounts_inv t" "supply_of t = supply_of s"
    "rew_rewards (st_store t) = fmupd (ctx_epoch c) (record_round c (fm_get fmempty (rew_rewards (st_store s)) (ctx_epoch c)))
       (if has_epoch_changed s then fmempty else rew_rewards (st_store s))"
    "\<not> is_check_only (st_env s) \<and> pool_unrewarded c s \<longrightarrow> balances_nat t = settled_balances c s"
    by (rule rewards_end_block_run [OF assms, of c])
  then show ?thesis by blast
qed

text \<open>An epoch with two entities is pending when the epoch changes; the pool holds a thousand units.\<close>

definition sample_rewarding :: "(unit, unit) sdk_state" where
  "sample_rewarding = upd_block (\<lambda>b. b\<lparr>bv_epoch_changed := Some True\<rparr>) (upd_store (\<lambda>st. st\<lparr>rew_params := sample_rewards, rew_rewards := fmupd 2 sample_pending fmempty\<rparr>)
     (snd (mint (ADDRESS_REWARD_POOL sample_ctx) (BaseUnits 1000 NATIVE) sample_running)))"

lemma pool_apart: "alice \<noteq> ADDRESS_REWARD_POOL sample_ctx" "bob \<noteq> ADDRESS_REWARD_POOL sample_ctx"
proof -
  have "\<forall>bs. length (dep_hash sample_deps bs) = 32" by (auto simp: sample_deps_def min_def)
  from module_address_byte [OF this] have "hd (address_bytes (ADDRESS_REWARD_POOL sample_ctx)) = 0" by (simp add: ADDRESS_REWARD_POOL_def sample_ctx_def)
  moreover have "hd (address_bytes alice) = 1" "hd (address_bytes bob) = 2" by (simp_all add: alice_def bob_def test_address_bytes)
  ultimately show "alice \<noteq> ADDRESS_REWARD_POOL sample_ctx" "bob \<noteq> ADDRESS_REWARD_POOL sample_ctx" by auto
qed

lemma rewarding_simps:
  "accounts_inv sample_rewarding" "has_epoch_changed sample_rewarding" "\<not> is_check_only (st_env sample_rewarding)"
  "pool_unrewarded sample_ctx sample_rewarding" "rew_params (st_store sample_rewarding) = sample_rewards"
  "rew_rewards (st_store sample_rewarding) = fmupd 2 sample_pending fmempty"
  "balances_nat sample_rewarding a d = (if a = ADDRESS_REWARD_POOL sample_ctx \<and> d = NATIVE then 1000 else 0)"
proof -
  let ?pool = "ADDRESS_REWARD_POOL sample_ctx"
  obtain t where t: "mint ?pool (BaseUnits 1000 NATIVE) sample_running = (Ok (), t)"
    using acc.mnt_fits [of sample_running "BaseUnits 1000 NATIVE" ?pool] sample_running_books by auto
  have inv: "accounts_inv t" by (rule keeps_okD [OF mint_inv t]) (rule sample_running_books)
  have bal: "balances_nat t a d = (if a = ?pool \<and> d = NATIVE then 1000 else 0)" for a d
    using mint_steps(2) [OF t, of a d] sample_running_books by (simp add: units_of_def)
  have env: "st_env t = st_env sample_running" using mint_steps(1) [OF t] besides_tokens_env by auto
  have s: "sample_rewarding = upd_block (\<lambda>b. b\<lparr>bv_epoch_changed := Some True\<rparr>)
      (upd_store (\<lambda>st. st\<lparr>rew_params := sample_rewards, rew_rewards := fmupd 2 sample_pending fmempty\<rparr>) t)" by (simp add: sample_rewarding_def t)
  show "accounts_inv sample_rewarding" using inv unfolding s
    by (simp add: accounts_inv_def circulating_def total_balance_def supply_of_def fee_manager_now_def upd_store_def upd_block_def)
  show "has_epoch_changed sample_rewarding" "\<not> is_check_only (st_env sample_rewarding)" "rew_params (st_store sample_rewarding) = sample_rewards"
    "rew_rewards (st_store sample_rewarding) = fmupd 2 sample_pending fmempty"
    using sample_mode env unfolding s by (simp_all add: has_epoch_changed_def upd_block_def upd_store_def)
  then show "pool_unrewarded sample_ctx sample_rewarding"
    using pool_apart by (auto simp: pool_unrewarded_def sample_pending_def split: if_splits)
  show "balances_nat sample_rewarding a d = (if a = ?pool \<and> d = NATIVE then 1000 else 0)"
    using bal [of a d] unfolding s by (simp add: balance_of_def upd_block_def upd_store_def)
qed

lemma sample_entitled: "entitled sample_rewards sample_pending = [alice]"
proof -
  have "max_participation sample_pending = 8"
    by (simp add: max_participation_def sample_pending_def fm_entries_def sorted_list_of_fset.rep_eq alice_def bob_def max_def)
  then have "{a. \<exists>v. fmlookup sample_pending a = Some (Reward v) \<and>
      reward_threshold (rp_participation_threshold_numerator sample_rewards) (rp_participation_threshold_denominator sample_rewards) (max_participation sample_pending) \<le> v} = {alice}"
    by (auto simp: sample_rewards_def sample_pending_def reward_threshold_def checked_mul_def checked_div_def saturating_mul_def split: if_splits)
  then show ?thesis by (simp add: entitled_def)
qed

theorem rewards_end_block_settles_witness:
  "has_epoch_changed sample_rewarding \<and> (\<exists>t. rewards_end_block transfer sample_ctx sample_rewarding = (Ok (), t) \<and>
     unat (balance_of t alice NATIVE) = 300 \<and> unat (balance_of t bob NATIVE) = 0 \<and> unat (balance_of t (ADDRESS_REWARD_POOL sample_ctx) NATIVE) = 700)"
proof -
  obtain t where t: "rewards_end_block transfer sample_ctx sample_rewarding = (Ok (), t)" "balances_nat t = settled_balances sample_ctx sample_rewarding"
    using rewards_end_block_settles [OF rewarding_simps(1), of sample_ctx] rewarding_simps(3,4) by blast
  have "settled_balances sample_ctx sample_rewarding = paid_epoch (ADDRESS_REWARD_POOL sample_ctx) sample_rewards (2, sample_pending) (balances_nat sample_rewarding)"
    by (simp add: settled_balances_def rewarding_simps fm_entries_def sorted_list_of_fset.rep_eq)
  then have eq: "balances_nat t a d = paid_epoch (ADDRESS_REWARD_POOL sample_ctx) sample_rewards (2, sample_pending) (balances_nat sample_rewarding) a d" for a d
    using t(2) by (metis (no_types))
  have "schedule_for_epoch (rp_schedule sample_rewards) 2 = BaseUnits 300 NATIVE" by (simp add: sample_rewards_def)
  then have "balances_nat t alice NATIVE = 300" "balances_nat t bob NATIVE = 0" "balances_nat t (ADDRESS_REWARD_POOL sample_ctx) NATIVE = 700"
    unfolding eq using pool_apart by (simp_all add: paid_epoch_def Let_def rewarding_simps(7) sample_entitled units_of_def)
  then show ?thesis using t(1) rewarding_simps(2) by blast
qed

end
