(* ===== verification/Module_Interface.thy ===== *)
theory Module_Interface
  imports Core_Module
begin

text \<open>
  The interface between the dispatcher and the modules of a runtime (\<open>runtime-sdk/src/module.rs\<close>,
  \<open>error.rs\<close>): results of calls, the handlers of one module as a record of operations, and the
  handlers of the tuple of all modules of a runtime, in which the modules are asked in order.
  An operation without a \<open>Result\<close> in the code has the error type \<open>ub\<close> of the state, of which no value arises.
  The texts of errors (\<open>Display\<close>, derived by \<open>thiserror\<close>) are a parameter.
\<close>

section \<open>Results\<close>

datatype ('b, 'r) handled = Handled 'r | Unhandled 'b

fun handled_ok_or :: "'e \<Rightarrow> ('b, 'r) handled \<Rightarrow> 'e + 'r" where
  "handled_ok_or err (Handled result) = Inr result"
| "handled_ok_or err (Unhandled _) = Inl err"

datatype module_result =
    Res_Ok cbor_value | Res_Failed string u32 string | Res_Aborted dispatcher_error

fun res_is_success :: "module_result \<Rightarrow> bool" where
  "res_is_success (Res_Ok _) = True"
| "res_is_success _ = False"

text \<open>\<open>From<CallResult> for transaction::CallResult\<close>; \<open>show_abort\<close> is the text of a dispatcher error.\<close>

fun tx_result_of :: "(dispatcher_error \<Rightarrow> string) \<Rightarrow> module_result \<Rightarrow> tx_call_result" where
  "tx_result_of show_abort (Res_Ok data) = TxOk data"
| "tx_result_of show_abort (Res_Failed module code message) = TxFailed module code message"
| "tx_result_of show_abort (Res_Aborted err) = TxFailed ''dispatcher'' (dispatcher_error_code err) (show_abort err)"

text \<open>\<open>Error::into_abort\<close> and \<open>Error::into_call_result\<close> of the core module's errors.\<close>

fun core_into_abort :: "core_error \<Rightarrow> core_error + dispatcher_error" where
  "core_into_abort (Core_Abort e) = Inr e"
| "core_into_abort e = Inl e"

definition into_call_result :: "(core_error \<Rightarrow> string) \<Rightarrow> core_error \<Rightarrow> module_result" where
  "into_call_result show e =
     (case core_into_abort e of
        Inr err \<Rightarrow> Res_Aborted err
      | Inl failed \<Rightarrow> Res_Failed (fst (core_error_code failed)) (snd (core_error_code failed)) (show failed))"

text \<open>A result of type \<open>Result\<close> as a value.\<close>

definition try_op :: "('s, 'e, 'a) rust_op \<Rightarrow> ('s, 'f, 'e + 'a) rust_op" where
  "try_op m s = (case m s of (Ok a, t) \<Rightarrow> (Ok (Inr a), t) | (Err e, t) \<Rightarrow> (Ok (Inl e), t) | (Panic, t) \<Rightarrow> (Panic, t))"

text \<open>\<open>module::dispatch_call\<close>: decode the arguments, run the handler, encode its value or its error.\<close>

definition dispatch_handler ::
    "(cbor_value \<Rightarrow> 'a option) \<Rightarrow> ('r \<Rightarrow> cbor_value) \<Rightarrow> (core_error \<Rightarrow> string) \<Rightarrow> ('e \<Rightarrow> module_result) \<Rightarrow>
     ('a \<Rightarrow> ('s, 'e, 'r) rust_op) \<Rightarrow> cbor_value \<Rightarrow> ('s, ub, (cbor_value, module_result) handled) rust_op" where
  "dispatch_handler decode encode show result_of f body =
     (case decode body of
        None \<Rightarrow> return_op (Handled (into_call_result show (Core_InvalidArgument ''malformed arguments'')))
      | Some args \<Rightarrow> bind_op (try_op (f args)) (\<lambda>r.
          return_op (Handled (case r of Inr value \<Rightarrow> Res_Ok (encode value) | Inl err \<Rightarrow> result_of err))))"

section \<open>The handlers of a module\<close>

record 's module_ops =
  mo_dispatch_call :: "string \<Rightarrow> cbor_value \<Rightarrow> ('s, ub, (cbor_value, module_result) handled) rust_op"
  mo_dispatch_query :: "string \<Rightarrow> cbor_value \<Rightarrow> ('s, ub, (cbor_value, (string \<times> u32 \<times> string) + cbor_value) handled) rust_op"
  mo_dispatch_message_result :: "string \<Rightarrow> message_event \<times> cbor_value \<Rightarrow> ('s, ub, (message_event \<times> cbor_value, unit) handled) rust_op"
  mo_is_expensive_query :: "string \<Rightarrow> bool"
  mo_is_allowed_private_km_query :: "string \<Rightarrow> bool"
  mo_is_allowed_interactive_call :: "string \<Rightarrow> bool"
  mo_approve_raw_tx :: "bytes \<Rightarrow> ('s, core_error, unit) rust_op"
  mo_approve_unverified_tx :: "unverified_transaction \<Rightarrow> ('s, core_error, unit) rust_op"
  mo_decode_tx :: "string \<Rightarrow> bytes \<Rightarrow> ('s, core_error, transaction option) rust_op"
  mo_authenticate_tx :: "transaction \<Rightarrow> ('s, core_error, auth_decision) rust_op"
  mo_before_handle_call :: "call \<Rightarrow> ('s, core_error, unit) rust_op"
  mo_before_authorized_call_dispatch :: "call \<Rightarrow> ('s, core_error, unit) rust_op"
  mo_after_handle_call :: "module_result \<Rightarrow> ('s, core_error, unit) rust_op"
  mo_after_dispatch_tx :: "auth_info \<Rightarrow> module_result \<Rightarrow> ('s, ub, unit) rust_op"
  mo_begin_block :: "('s, ub, unit) rust_op"
  mo_end_block :: "('s, ub, unit) rust_op"
  mo_check_invariants :: "('s, core_error, unit) rust_op"
  mo_init_or_migrate :: "(string, u32) fmap \<Rightarrow> ('s, ub, bool \<times> (string, u32) fmap) rust_op"

text \<open>The default implementations of the traits.\<close>

definition default_module :: "'s module_ops" where
  "default_module =
     \<lparr>mo_dispatch_call = (\<lambda>_ body. return_op (Unhandled body)),
      mo_dispatch_query = (\<lambda>_ args. return_op (Unhandled args)),
      mo_dispatch_message_result = (\<lambda>_ result. return_op (Unhandled result)),
      mo_is_expensive_query = (\<lambda>_. False),
      mo_is_allowed_private_km_query = (\<lambda>_. False),
      mo_is_allowed_interactive_call = (\<lambda>_. False),
      mo_approve_raw_tx = (\<lambda>_. return_op ()),
      mo_approve_unverified_tx = (\<lambda>_. return_op ()),
      mo_decode_tx = (\<lambda>_ _. return_op None),
      mo_authenticate_tx = (\<lambda>_. return_op Continue),
      mo_before_handle_call = (\<lambda>_. return_op ()),
      mo_before_authorized_call_dispatch = (\<lambda>_. return_op ()),
      mo_after_handle_call = (\<lambda>_. return_op ()),
      mo_after_dispatch_tx = (\<lambda>_ _. return_op ()),
      mo_begin_block = return_op (),
      mo_end_block = return_op (),
      mo_check_invariants = return_op (),
      mo_init_or_migrate = (\<lambda>meta. return_op (False, meta))\<rparr>"

section \<open>The handlers of a tuple of modules\<close>

text \<open>The first module that handles a method decides; the argument is passed on unchanged otherwise.\<close>

fun first_handled :: "('m \<Rightarrow> 'b \<Rightarrow> ('s, 'e, ('b, 'r) handled) rust_op) \<Rightarrow> 'm list \<Rightarrow> 'b \<Rightarrow> ('s, 'e, ('b, 'r) handled) rust_op" where
  "first_handled f [] body = return_op (Unhandled body)"
| "first_handled f (m # ms) body =
     bind_op (f m body) (\<lambda>r. case r of Handled result \<Rightarrow> return_op (Handled result) | Unhandled body \<Rightarrow> first_handled f ms body)"

definition modules_dispatch_call :: "'s module_ops list \<Rightarrow> string \<Rightarrow> cbor_value \<Rightarrow> ('s, ub, (cbor_value, module_result) handled) rust_op" where
  "modules_dispatch_call ms method = first_handled (\<lambda>m. mo_dispatch_call m method) ms"

definition modules_dispatch_query :: "'s module_ops list \<Rightarrow> string \<Rightarrow> cbor_value \<Rightarrow>
    ('s, ub, (cbor_value, (string \<times> u32 \<times> string) + cbor_value) handled) rust_op" where
  "modules_dispatch_query ms method = first_handled (\<lambda>m. mo_dispatch_query m method) ms"

definition modules_dispatch_message_result :: "'s module_ops list \<Rightarrow> string \<Rightarrow> message_event \<times> cbor_value \<Rightarrow>
    ('s, ub, (message_event \<times> cbor_value, unit) handled) rust_op" where
  "modules_dispatch_message_result ms handler_name = first_handled (\<lambda>m. mo_dispatch_message_result m handler_name) ms"

definition modules_is_expensive_query :: "'s module_ops list \<Rightarrow> string \<Rightarrow> bool" where
  "modules_is_expensive_query ms method \<longleftrightarrow> list_ex (\<lambda>m. mo_is_expensive_query m method) ms"

definition modules_is_allowed_private_km_query :: "'s module_ops list \<Rightarrow> string \<Rightarrow> bool" where
  "modules_is_allowed_private_km_query ms method \<longleftrightarrow> list_ex (\<lambda>m. mo_is_allowed_private_km_query m method) ms"

definition modules_is_allowed_interactive_call :: "'s module_ops list \<Rightarrow> string \<Rightarrow> bool" where
  "modules_is_allowed_interactive_call ms method \<longleftrightarrow> list_ex (\<lambda>m. mo_is_allowed_interactive_call m method) ms"

definition modules_approve_raw_tx :: "'s module_ops list \<Rightarrow> bytes \<Rightarrow> ('s, core_error, unit) rust_op" where
  "modules_approve_raw_tx ms tx = for_op (\<lambda>m. mo_approve_raw_tx m tx) ms"

definition modules_approve_unverified_tx :: "'s module_ops list \<Rightarrow> unverified_transaction \<Rightarrow> ('s, core_error, unit) rust_op" where
  "modules_approve_unverified_tx ms utx = for_op (\<lambda>m. mo_approve_unverified_tx m utx) ms"

fun modules_decode_tx :: "'s module_ops list \<Rightarrow> string \<Rightarrow> bytes \<Rightarrow> ('s, core_error, transaction option) rust_op" where
  "modules_decode_tx [] scheme body = return_op None"
| "modules_decode_tx (m # ms) scheme body =
     bind_op (mo_decode_tx m scheme body) (\<lambda>decoded.
       if decoded \<noteq> None then return_op decoded else modules_decode_tx ms scheme body)"

fun modules_authenticate_tx :: "'s module_ops list \<Rightarrow> transaction \<Rightarrow> ('s, core_error, auth_decision) rust_op" where
  "modules_authenticate_tx [] tx = return_op Continue"
| "modules_authenticate_tx (m # ms) tx =
     bind_op (mo_authenticate_tx m tx) (\<lambda>decision.
       case decision of Stop \<Rightarrow> return_op Stop | Continue \<Rightarrow> modules_authenticate_tx ms tx)"

definition modules_before_handle_call :: "'s module_ops list \<Rightarrow> call \<Rightarrow> ('s, core_error, unit) rust_op" where
  "modules_before_handle_call ms cl = for_op (\<lambda>m. mo_before_handle_call m cl) ms"

definition modules_before_authorized_call_dispatch :: "'s module_ops list \<Rightarrow> call \<Rightarrow> ('s, core_error, unit) rust_op" where
  "modules_before_authorized_call_dispatch ms cl = for_op (\<lambda>m. mo_before_authorized_call_dispatch m cl) ms"

text \<open>Every module runs after a call; the first error is kept.\<close>

fun after_all :: "'s module_ops list \<Rightarrow> module_result \<Rightarrow> core_error option \<Rightarrow> ('s, ub, core_error option) rust_op" where
  "after_all [] result first_err = return_op first_err"
| "after_all (m # ms) result first_err =
     bind_op (try_op (mo_after_handle_call m result)) (\<lambda>r.
       after_all ms result (case r of Inl e \<Rightarrow> if first_err = None then Some e else first_err | Inr _ \<Rightarrow> first_err))"

definition modules_after_handle_call :: "'s module_ops list \<Rightarrow> module_result \<Rightarrow> ('s, ub, core_error + unit) rust_op" where
  "modules_after_handle_call ms result =
     bind_op (after_all ms result None) (\<lambda>first_err.
       return_op (case first_err of None \<Rightarrow> Inr () | Some e \<Rightarrow> Inl e))"

definition modules_after_dispatch_tx :: "'s module_ops list \<Rightarrow> auth_info \<Rightarrow> module_result \<Rightarrow> ('s, ub, unit) rust_op" where
  "modules_after_dispatch_tx ms ai result = for_op (\<lambda>m. mo_after_dispatch_tx m ai result) ms"

definition modules_begin_block :: "'s module_ops list \<Rightarrow> ('s, ub, unit) rust_op" where
  "modules_begin_block ms = for_op mo_begin_block ms"

definition modules_end_block :: "'s module_ops list \<Rightarrow> ('s, ub, unit) rust_op" where
  "modules_end_block ms = for_op mo_end_block ms"

definition modules_check_invariants :: "'s module_ops list \<Rightarrow> ('s, core_error, unit) rust_op" where
  "modules_check_invariants ms = for_op mo_check_invariants ms"

text \<open>All modules migrate, before it is asked whether any of them changed something.\<close>

fun modules_init_or_migrate :: "'s module_ops list \<Rightarrow> (string, u32) fmap \<Rightarrow> ('s, ub, bool \<times> (string, u32) fmap) rust_op" where
  "modules_init_or_migrate [] meta = return_op (False, meta)"
| "modules_init_or_migrate (m # ms) meta =
     bind_op (mo_init_or_migrate m meta) (\<lambda>(changed, meta).
     bind_op (modules_init_or_migrate ms meta) (\<lambda>(any_changed, meta). return_op (changed \<or> any_changed, meta)))"

text \<open>\<open>FeeProxyHandler\<close> of a tuple: the first payer that is found.\<close>

fun resolve_payers :: "(transaction \<Rightarrow> ('s, core_error, address option) rust_op) list \<Rightarrow> transaction \<Rightarrow> ('s, core_error, address option) rust_op" where
  "resolve_payers [] tx = return_op None"
| "resolve_payers (p # ps) tx =
     bind_op (p tx) (\<lambda>payer. case payer of Some a \<Rightarrow> return_op (Some a) | None \<Rightarrow> resolve_payers ps tx)"

section \<open>Steps\<close>

text \<open>
  What an operation does to a state, as a relation: \<open>steps pan R m\<close> says that \<open>m\<close> relates its states by \<open>R\<close>
  whatever its outcome, panics included if \<open>pan\<close>.
\<close>

definition steps :: "bool \<Rightarrow> ('s \<Rightarrow> 's \<Rightarrow> bool) \<Rightarrow> ('s, 'e, 'a) rust_op \<Rightarrow> bool" where
  "steps pan R m \<longleftrightarrow> (\<forall>s r t. m s = (r, t) \<longrightarrow> (r = Panic \<longrightarrow> pan) \<longrightarrow> R s t)"

lemma stepsI: "(\<And>s r t. m s = (r, t) \<Longrightarrow> (r = Panic \<longrightarrow> pan) \<Longrightarrow> R s t) \<Longrightarrow> steps pan R m"
  by (auto simp: steps_def)

lemma stepsD: "steps pan R m \<Longrightarrow> m s = (r, t) \<Longrightarrow> (r = Panic \<longrightarrow> pan) \<Longrightarrow> R s t"
  by (auto simp: steps_def)

lemma steps_mono: "steps pan R m \<Longrightarrow> (\<And>s t. R s t \<Longrightarrow> R' s t) \<Longrightarrow> (pan' \<longrightarrow> pan) \<Longrightarrow> steps pan' R' m"
  unfolding steps_def by blast

lemma try_op_iff:
  "try_op m s = (Ok (Inr a), t) \<longleftrightarrow> m s = (Ok a, t)"
  "try_op m s = (Ok (Inl e), t) \<longleftrightarrow> m s = (Err e, t)"
  "try_op m s = (Panic, t) \<longleftrightarrow> m s = (Panic, t)"
  "try_op m s \<noteq> (Err f, t)"
  by (auto simp: try_op_def split: prod.splits outcome.splits)

text \<open>The hooks and the call of a transaction, which run in its own state; the hooks around it.\<close>

definition call_steps :: "bool \<Rightarrow> ('s \<Rightarrow> 's \<Rightarrow> bool) \<Rightarrow> 's module_ops \<Rightarrow> bool" where
  "call_steps pan R m \<longleftrightarrow>
     (\<forall>cl. steps pan R (mo_before_handle_call m cl)) \<and>
     (\<forall>cl. steps pan R (mo_before_authorized_call_dispatch m cl)) \<and>
     (\<forall>method body. steps pan R (mo_dispatch_call m method body)) \<and>
     (\<forall>result. steps pan R (mo_after_handle_call m result))"

definition tx_steps :: "bool \<Rightarrow> ('s \<Rightarrow> 's \<Rightarrow> bool) \<Rightarrow> 's module_ops \<Rightarrow> bool" where
  "tx_steps pan R m \<longleftrightarrow>
     (\<forall>tx. steps pan R (mo_authenticate_tx m tx)) \<and> (\<forall>ai result. steps pan R (mo_after_dispatch_tx m ai result))"

definition decode_steps :: "bool \<Rightarrow> ('s \<Rightarrow> 's \<Rightarrow> bool) \<Rightarrow> 's module_ops \<Rightarrow> bool" where
  "decode_steps pan R m \<longleftrightarrow>
     (\<forall>raw. steps pan R (mo_approve_raw_tx m raw)) \<and> (\<forall>utx. steps pan R (mo_approve_unverified_tx m utx)) \<and>
     (\<forall>scheme body. steps pan R (mo_decode_tx m scheme body))"

definition block_steps :: "bool \<Rightarrow> ('s \<Rightarrow> 's \<Rightarrow> bool) \<Rightarrow> 's module_ops \<Rightarrow> bool" where
  "block_steps pan R m \<longleftrightarrow> steps pan R (mo_begin_block m) \<and> steps pan R (mo_end_block m) \<and>
     (\<forall>meta. steps pan R (mo_init_or_migrate m meta)) \<and>
     (\<forall>name res. steps pan R (mo_dispatch_message_result m name res)) \<and> (\<forall>method args. steps pan R (mo_dispatch_query m method args))"

text \<open>Relations that compose.\<close>

locale step_rel =
  fixes R :: "'s \<Rightarrow> 's \<Rightarrow> bool"
  assumes step_refl: "R s s" and step_trans: "R s t \<Longrightarrow> R t u \<Longrightarrow> R s u"
begin

lemma steps_return [intro!]: "steps pan R (return_op a)"
  by (simp add: steps_def return_op_def step_refl)

lemma steps_throw [intro!]: "steps pan R (throw_op e)"
  by (simp add: steps_def throw_op_def step_refl)

lemma steps_reads [intro!]: "steps pan R (reads_op f)"
  by (simp add: steps_def reads_op_def step_refl)

lemma steps_ok_or [intro!]: "steps pan R (ok_or_op e x)"
  by (cases x) (auto simp: ok_or_op_def)

lemma steps_bind:
  assumes "steps pan R m" "\<And>a. steps pan R (f a)"
  shows "steps pan R (bind_op m f)"
proof (rule stepsI)
  fix s r u
  assume run: "bind_op m f s = (r, u)" and p: "r = Panic \<longrightarrow> pan"
  obtain x t where x: "m s = (x, t)" by (cases "m s")
  show "R s u"
  proof (cases x)
    case (Ok a)
    then show ?thesis using run x p stepsD [OF assms(1) x] stepsD [OF assms(2), of a t r u] by (auto intro: step_trans)
  qed (use run x p stepsD [OF assms(1) x] in auto)
qed

lemma steps_seq: "steps pan R m \<Longrightarrow> steps pan R n \<Longrightarrow> steps pan R (seq_op m n)"
  unfolding seq_op_def by (rule steps_bind)

lemma steps_try: "steps pan R m \<Longrightarrow> steps pan R (try_op m)"
  unfolding steps_def try_op_def by (auto split: prod.splits outcome.splits)

lemma steps_expect: "steps True R m \<Longrightarrow> steps pan R (expect_op m)"
  unfolding steps_def expect_op_def by (auto split: prod.splits outcome.splits)

lemma steps_map_err: "steps pan R m \<Longrightarrow> steps pan R (map_err_op g m)"
  unfolding steps_def map_err_op_def by (auto split: prod.splits outcome.splits)

lemma steps_for: "(\<And>x. x \<in> set xs \<Longrightarrow> steps pan R (f x)) \<Longrightarrow> steps pan R (for_op f xs)"
  by (induction xs) (auto intro: steps_seq)

lemma steps_first_handled:
  "(\<And>m body. m \<in> set ms \<Longrightarrow> steps pan R (f m body)) \<Longrightarrow> steps pan R (first_handled f ms body)"
  by (induction ms arbitrary: body) (auto intro!: steps_bind split: handled.splits)

lemma steps_after_all:
  "(\<And>m. m \<in> set ms \<Longrightarrow> steps pan R (mo_after_handle_call m result)) \<Longrightarrow> steps pan R (after_all ms result first_err)"
  by (induction ms arbitrary: first_err) (auto intro!: steps_bind steps_try)

text \<open>The tuple of the modules does what each of them does.\<close>

lemma modules_call_steps:
  assumes "\<forall>m \<in> set ms. call_steps pan R m"
  shows "steps pan R (modules_before_handle_call ms cl)" "steps pan R (modules_before_authorized_call_dispatch ms cl)"
    "steps pan R (modules_dispatch_call ms method body)" "steps pan R (modules_after_handle_call ms result)"
  using assms
  by (auto simp: call_steps_def modules_before_handle_call_def modules_before_authorized_call_dispatch_def modules_dispatch_call_def
      modules_after_handle_call_def intro!: steps_for steps_first_handled steps_bind steps_after_all)

lemma modules_tx_steps:
  assumes "\<forall>m \<in> set ms. tx_steps pan R m"
  shows "steps pan R (modules_authenticate_tx ms tx)" "steps pan R (modules_after_dispatch_tx ms ai result)"
proof -
  show "steps pan R (modules_authenticate_tx ms tx)"
    using assms by (induction ms) (auto simp: tx_steps_def intro!: steps_bind split: auth_decision.splits)
  show "steps pan R (modules_after_dispatch_tx ms ai result)"
    using assms by (auto simp: modules_after_dispatch_tx_def tx_steps_def intro!: steps_for)
qed

lemma modules_decode_steps:
  assumes "\<forall>m \<in> set ms. decode_steps pan R m"
  shows "steps pan R (modules_approve_raw_tx ms raw)" "steps pan R (modules_approve_unverified_tx ms utx)"
    "steps pan R (modules_decode_tx ms scheme body)"
proof -
  show "steps pan R (modules_approve_raw_tx ms raw)" "steps pan R (modules_approve_unverified_tx ms utx)"
    using assms by (auto simp: modules_approve_raw_tx_def modules_approve_unverified_tx_def decode_steps_def intro!: steps_for)
  show "steps pan R (modules_decode_tx ms scheme body)"
    using assms by (induction ms) (auto simp: decode_steps_def intro!: steps_bind)
qed

lemma default_module_steps: "call_steps pan R default_module" "tx_steps pan R default_module" "decode_steps pan R default_module"
  "block_steps pan R default_module"
  by (auto simp: call_steps_def tx_steps_def decode_steps_def block_steps_def default_module_def)

end

end
