(* ===== verification/Call_Format.thy ===== *)
theory Call_Format
  imports Module_Interface
begin

text \<open>
  Call formats (\<open>runtime-sdk/src/callformat.rs\<close>, \<open>types/callformat.rs\<close>): calls in plain text pass
  through, encrypted calls are opened with an ephemeral key of the key manager and results are sealed
  for the caller. The key manager, the sealed box of Deoxys-II, X25519 keys and CBOR are parameters.
\<close>

section \<open>Definitions\<close>

record call_envelope =
  ce_pk :: bytes
  ce_nonce :: bytes
  ce_epoch :: u64
  ce_data :: bytes

datatype call_metadata = Meta_Empty | Meta_X25519DeoxysII (meta_pk: bytes) (meta_sk: bytes) (meta_index: nat)

datatype km_error = Km_InvalidEpoch | Km_Other string

record callformat_deps =
  cf_key_pair_id :: "bytes list \<Rightarrow> bytes"
  cf_key_manager :: "(bytes \<Rightarrow> u64 \<Rightarrow> km_error + (bytes \<times> bytes)) option"
  cf_box_open :: "bytes \<Rightarrow> bytes \<Rightarrow> bytes \<Rightarrow> bytes \<Rightarrow> string + bytes"
  cf_box_seal :: "bytes \<Rightarrow> bytes \<Rightarrow> bytes \<Rightarrow> bytes \<Rightarrow> bytes"
  cf_envelope_of :: "cbor_value \<Rightarrow> call_envelope option"
  cf_envelope_to :: "call_envelope \<Rightarrow> cbor_value"
  cf_call_of :: "bytes \<Rightarrow> call option"
  cf_call_to :: "call \<Rightarrow> bytes"
  cf_result_to :: "tx_call_result \<Rightarrow> bytes"
  cf_result_envelope :: "bytes \<Rightarrow> bytes \<Rightarrow> cbor_value"
  cf_os_random :: bytes

definition MAX_EPHEMERAL_KEY_AGE :: u64 where "MAX_EPHEMERAL_KEY_AGE = 5"

definition CALL_DATA_KEY_PAIR_ID_CONTEXT_BASE :: bytes where
  "CALL_DATA_KEY_PAIR_ID_CONTEXT_BASE = ascii ''oasis-runtime-sdk/private: tx''"

definition callformat_key_pair_id :: "callformat_deps \<Rightarrow> ctx \<Rightarrow> u64 \<Rightarrow> bytes" where
  "callformat_key_pair_id F c epoch =
     cf_key_pair_id F [get_chain_context_for (ctx_deps c) CALL_DATA_KEY_PAIR_ID_CONTEXT_BASE, be_bytes 8 (unat epoch)]"

definition verify_epoch :: "ctx \<Rightarrow> u64 \<Rightarrow> core_error + unit" where
  "verify_epoch c epoch =
     (if epoch > ctx_epoch c then Inl (Core_InvalidCallFormat ''epoch in the future'')
      else if epoch < saturating_sub (ctx_epoch c) MAX_EPHEMERAL_KEY_AGE
      then Inl (Core_InvalidCallFormat ''epoch too far in the past'')
      else Inr ())"

text \<open>
  The closure \<open>decrypt\<close>. Its error type is that of \<open>box_open\<close>, \<open>anyhow::Error\<close>, into which \<open>?\<close> converts
  the errors of the key manager: what is left of them is a text, here the one of the wrapped error (\<open>show\<close>).
\<close>

definition decrypt_call :: "(core_error \<Rightarrow> string) \<Rightarrow> callformat_deps \<Rightarrow> ctx \<Rightarrow>
    (bytes \<Rightarrow> u64 \<Rightarrow> km_error + (bytes \<times> bytes)) \<Rightarrow> call_envelope \<Rightarrow> u64 \<Rightarrow> string + (bytes \<times> bytes)" where
  "decrypt_call show F c km envelope epoch =
     (case km (callformat_key_pair_id F c epoch) epoch of
        Inl Km_InvalidEpoch \<Rightarrow> Inl (show (Core_InvalidCallFormat ''invalid epoch''))
      | Inl (Km_Other msg) \<Rightarrow> Inl (show (Core_Abort (KeyManagerFailure msg)))
      | Inr (pk, sk) \<Rightarrow> map_sum id (\<lambda>data. (data, sk)) (cf_box_open F (ce_nonce envelope) (ce_data envelope) (ce_pk envelope) sk))"

definition open_envelope :: "(core_error \<Rightarrow> string) \<Rightarrow> callformat_deps \<Rightarrow> ctx \<Rightarrow>
    (bytes \<Rightarrow> u64 \<Rightarrow> km_error + (bytes \<times> bytes)) \<Rightarrow> call_envelope \<Rightarrow> core_error + (bytes \<times> bytes)" where
  "open_envelope show F c km envelope =
     (if ce_epoch envelope > 0
      then bind_result (verify_epoch c (ce_epoch envelope)) (\<lambda>_.
        map_sum Core_InvalidCallFormat id (decrypt_call show F c km envelope (ce_epoch envelope)))
      else map_sum Core_InvalidCallFormat id
        (case decrypt_call show F c km envelope (ctx_epoch c) of
           Inr r \<Rightarrow> Inr r | Inl _ \<Rightarrow> decrypt_call show F c km envelope (ctx_epoch c - 1)))"

definition decode_call_ex :: "(core_error \<Rightarrow> string) \<Rightarrow> callformat_deps \<Rightarrow> ctx \<Rightarrow> environment \<Rightarrow> call \<Rightarrow> nat \<Rightarrow> bool \<Rightarrow>
    core_error + (call \<times> call_metadata) option" where
  "decode_call_ex show F c e cl index assume_km_reachable =
     (case call_format_of cl of
        Plain \<Rightarrow> Inr (Some (cl, Meta_Empty))
      | EncryptedX25519DeoxysII \<Rightarrow>
          if call_method cl \<noteq> [] then Inl (Core_InvalidCallFormat ''non-empty method'')
          else case cf_envelope_of F (call_body cl) of
            None \<Rightarrow> Inl (Core_InvalidCallFormat ''bad call envelope'')
          | Some envelope \<Rightarrow>
              (case cf_key_manager F of
                 None \<Rightarrow> Inl (Core_InvalidCallFormat ''confidential txs unavailable'')
               | Some km \<Rightarrow>
                   if \<not> assume_km_reachable \<and> \<not> is_execute e then Inr None
                   else bind_result (open_envelope show F c km envelope) (\<lambda>(data, sk).
                     case cf_call_of F data of
                       None \<Rightarrow> Inl (Core_InvalidCallFormat ''malformed call'')
                     | Some inner \<Rightarrow>
                         if call_read_only inner \<noteq> call_read_only cl
                         then Inl (Core_InvalidCallFormat ''read-only flag mismatch'')
                         else Inr (Some (inner, Meta_X25519DeoxysII (ce_pk envelope) sk index)))))"

definition decode_call :: "(core_error \<Rightarrow> string) \<Rightarrow> callformat_deps \<Rightarrow> ctx \<Rightarrow> environment \<Rightarrow> call \<Rightarrow> nat \<Rightarrow>
    core_error + (call \<times> call_metadata) option" where
  "decode_call show F c e cl index = decode_call_ex show F c e cl index False"

text \<open>The nonce of a result: round, index and padding when executing; \<open>None\<close> when the index does not fit.\<close>

definition result_nonce :: "callformat_deps \<Rightarrow> ctx \<Rightarrow> environment \<Rightarrow> nat \<Rightarrow> bytes option" where
  "result_nonce F c e index =
     (if is_execute e
      then (if index < 2 ^ 32 then Some (be_bytes 8 (unat (ctx_round c)) @ be_bytes 4 index @ [0, 0, 0]) else None)
      else Some (cf_os_random F))"

definition encrypt_result_x25519_deoxysii :: "callformat_deps \<Rightarrow> ctx \<Rightarrow> environment \<Rightarrow> tx_call_result \<Rightarrow> bytes \<Rightarrow> bytes \<Rightarrow> nat \<Rightarrow>
    cbor_value option" where
  "encrypt_result_x25519_deoxysii F c e result pk sk index =
     map_option (\<lambda>nonce. cf_result_envelope F nonce (cf_box_seal F nonce (cf_result_to F result) pk sk)) (result_nonce F c e index)"

definition encode_result_ex :: "(dispatcher_error \<Rightarrow> string) \<Rightarrow> callformat_deps \<Rightarrow> ctx \<Rightarrow> environment \<Rightarrow> module_result \<Rightarrow> call_metadata \<Rightarrow> bool \<Rightarrow>
    tx_call_result option" where
  "encode_result_ex show_abort F c e result metadata expose_failure =
     (case metadata of
        Meta_Empty \<Rightarrow> Some (tx_result_of show_abort result)
      | Meta_X25519DeoxysII pk sk index \<Rightarrow>
          (let result = tx_result_of show_abort result in
           if expose_failure
           then (if tx_call_result_is_success result
                 then map_option TxOk (encrypt_result_x25519_deoxysii F c e result pk sk index)
                 else Some result)
           else map_option TxUnknown (encrypt_result_x25519_deoxysii F c e result pk sk index)))"

definition encode_result :: "(dispatcher_error \<Rightarrow> string) \<Rightarrow> callformat_deps \<Rightarrow> ctx \<Rightarrow> environment \<Rightarrow> module_result \<Rightarrow> call_metadata \<Rightarrow>
    tx_call_result option" where
  "encode_result show_abort F c e result metadata = encode_result_ex show_abort F c e result metadata False"

text \<open>What a client does (in the code, a helper for tests).\<close>

definition encode_call :: "callformat_deps \<Rightarrow> ctx \<Rightarrow> bytes \<times> bytes \<Rightarrow> call \<Rightarrow> core_error + call" where
  "encode_call F c client cl =
     (case call_format_of cl of
        Plain \<Rightarrow> Inr cl
      | EncryptedX25519DeoxysII \<Rightarrow>
          (case cf_key_manager F of
             None \<Rightarrow> Inl (Core_InvalidCallFormat ''confidential transactions not available'')
           | Some km \<Rightarrow>
               (case km (callformat_key_pair_id F c (ctx_epoch c)) (ctx_epoch c) of
                  Inl Km_InvalidEpoch \<Rightarrow> Inl (Core_Abort (KeyManagerFailure ''invalid epoch''))
                | Inl (Km_Other msg) \<Rightarrow> Inl (Core_Abort (KeyManagerFailure msg))
                | Inr (runtime_pk, _) \<Rightarrow>
                    (let nonce = replicate 15 0 in
                     Inr \<lparr>call_format_of = call_format_of cl, call_method = call_method cl,
                       call_body = cf_envelope_to F \<lparr>ce_pk = fst client, ce_nonce = nonce, ce_epoch = ctx_epoch c,
                         ce_data = cf_box_seal F nonce (cf_call_to F (cl\<lparr>call_method := []\<rparr>)) runtime_pk (snd client)\<rparr>,
                       call_read_only = False\<rparr>))))"

end
