(* ===== verification/Dispatcher.thy ===== *)
theory Dispatcher
  imports Call_Format
begin

text \<open>
  The dispatcher (\<open>runtime-sdk/src/dispatcher.rs\<close>): decoding of transactions, the hooks and the call of
  a transaction inside a nested state, checks, the results of consensus messages, queries, and the
  batches of transactions of a block. The runtime is generic, as in the code: its modules are
  a list of records of handlers. A \<open>Result\<close> of the code is a sum here; a panic that \<open>catch_unwind\<close>
  catches becomes a value again. Prefetching has no effect on what is computed and is left out.
\<close>

section \<open>Runtime and options\<close>

record schedule_control =
  sc_initial_batch_size :: u32
  sc_batch_size :: u32
  sc_min_remaining_gas :: u64
  sc_max_tx_count :: nat

definition default_schedule_control :: schedule_control where
  "default_schedule_control =
     \<lparr>sc_initial_batch_size = 50, sc_batch_size = 50, sc_min_remaining_gas = 1000, sc_max_tx_count = 1000\<rparr>"

text \<open>
  What \<open>R: Runtime\<close> and the context provide: the modules, what the core module offers, local policy for
  queries, the state version and its migration; the codecs, the texts of errors, and whether the overlay of the
  current state has pending updates (\<open>has_pending_store_updates\<close> of \<open>Runtime_State\<close>, which snapshots do not show).
\<close>

record 's runtime =
  rt_modules :: "'s module_ops list"
  rt_show :: "core_error \<Rightarrow> string"
  rt_show_abort :: "dispatcher_error \<Rightarrow> string"
  rt_callformat :: callformat_deps
  rt_decode_utx :: "bytes \<Rightarrow> unverified_transaction option"
  rt_hash :: "bytes \<Rightarrow> bytes"
  rt_pending :: "'s \<Rightarrow> bool"
  rt_schedule_control :: schedule_control
  rt_is_allowed_query :: "string \<Rightarrow> bool"
  rt_ctx_is_allowed_query :: "string \<Rightarrow> bool"
  rt_state_version :: u32
  rt_migrate_state :: "('s, ub, unit) rust_op"

record dispatch_options =
  do_tx_size :: u32
  do_tx_index :: nat
  do_tx_hash :: bytes
  do_method_authorizer :: "(string \<Rightarrow> bool) option"
  do_skip_authentication :: bool

definition default_dispatch_options :: dispatch_options where
  "default_dispatch_options = \<lparr>do_tx_size = 0, do_tx_index = 0, do_tx_hash = replicate 32 0,
     do_method_authorizer = None, do_skip_authentication = False\<rparr>"

type_synonym tags = "(bytes \<times> sdk_event list) list"

definition into_tags :: "sdk_event event_tags \<Rightarrow> tags" where
  "into_tags events = fm_entries events"

record dispatch_result =
  dr_result :: module_result
  dr_tags :: tags
  dr_priority :: u64
  dr_sender_metadata :: sender_meta
  dr_call_format_metadata :: call_metadata

definition dispatch_result_new :: "module_result \<Rightarrow> tags \<Rightarrow> call_metadata \<Rightarrow> dispatch_result" where
  "dispatch_result_new result tags metadata =
     \<lparr>dr_result = result, dr_tags = tags, dr_priority = 0, dr_sender_metadata = default_sender_meta,
      dr_call_format_metadata = metadata\<rparr>"

definition dispatch_result_of :: "module_result \<Rightarrow> dispatch_result" where
  "dispatch_result_of result = dispatch_result_new result [] Meta_Empty"

section \<open>Decoding\<close>

definition decode_tx :: "('m, 'g) sdk_state runtime \<Rightarrow> ctx \<Rightarrow> bytes \<Rightarrow> (('m, 'g) sdk_state, core_error, transaction) rust_op" where
  "decode_tx R c tx =
     seq_op (modules_approve_raw_tx (rt_modules R) tx)
     (bind_op (ok_or_op (Core_MalformedTransaction ''cbor'') (rt_decode_utx R tx)) (\<lambda>utx.
      seq_op (modules_approve_unverified_tx (rt_modules R) utx)
      (case ut_proofs utx of
         [Proof_Module scheme] \<Rightarrow>
           bind_op (modules_decode_tx (rt_modules R) scheme (ut_body utx))
             (ok_or_op (Core_MalformedTransaction ''module-controlled transaction decoding scheme not supported''))
       | _ \<Rightarrow> (case unverified_transaction_verify (ctx_deps c) utx of
                Inr tx \<Rightarrow> return_op tx | Inl _ \<Rightarrow> throw_op (Core_MalformedTransaction ''verification'')))))"

section \<open>Calls\<close>

definition dispatch_tx_call_inner :: "('m, 'g) sdk_state runtime \<Rightarrow> ctx \<Rightarrow> call \<Rightarrow> dispatch_options \<Rightarrow>
    (('m, 'g) sdk_state, ub, module_result \<times> call_metadata) rust_op" where
  "dispatch_tx_call_inner R c cl opts =
     bind_op (try_op (modules_before_handle_call (rt_modules R) cl)) (\<lambda>before.
     case before of Inl e \<Rightarrow> return_op (into_call_result (rt_show R) e, Meta_Empty)
     | Inr _ \<Rightarrow>
     bind_op (reads_op (\<lambda>s. decode_call (rt_show R) (rt_callformat R) c (st_env s) cl (do_tx_index opts))) (\<lambda>decoded.
     case decoded of
       Inl err \<Rightarrow> return_op (into_call_result (rt_show R) err, Meta_Empty)
     | Inr None \<Rightarrow> return_op (Res_Ok Cbor_Null, Meta_Empty)
     | Inr (Some (cl, metadata)) \<Rightarrow>
         if (case do_method_authorizer opts of Some authorizer \<Rightarrow> \<not> authorizer (call_method cl) | None \<Rightarrow> False)
         then return_op (into_call_result (rt_show R) Core_Forbidden, metadata)
         else
           bind_op (try_op (modules_before_authorized_call_dispatch (rt_modules R) cl)) (\<lambda>authorized.
           case authorized of Inl e \<Rightarrow> return_op (into_call_result (rt_show R) e, metadata)
           | Inr _ \<Rightarrow>
           bind_op (modules_dispatch_call (rt_modules R) (call_method cl) (call_body cl)) (\<lambda>r.
           return_op (case r of Handled result \<Rightarrow> result
             | Unhandled _ \<Rightarrow> into_call_result (rt_show R) (Core_InvalidMethod (call_method cl)), metadata)))))"

definition dispatch_tx_call :: "('m, 'g) sdk_state runtime \<Rightarrow> ctx \<Rightarrow> call \<Rightarrow> dispatch_options \<Rightarrow>
    (('m, 'g) sdk_state, ub, module_result \<times> call_metadata) rust_op" where
  "dispatch_tx_call R c cl opts =
     bind_op (dispatch_tx_call_inner R c cl opts) (\<lambda>(result, metadata).
     bind_op (modules_after_handle_call (rt_modules R) result) (\<lambda>after.
     case after of Inl e \<Rightarrow> return_op (into_call_result (rt_show R) e, metadata)
     | Inr _ \<Rightarrow>
     bind_op (reads_op (rt_pending R)) (\<lambda>pending.
     if call_read_only cl \<and> pending
     then return_op (into_call_result (rt_show R) Core_ReadOnlyTransaction, metadata)
     else return_op (result, metadata))))"

section \<open>Transactions\<close>

text \<open>The body of the nested state of \<open>dispatch_tx_opts\<close>.\<close>

definition dispatch_tx_body :: "('m, 'g) sdk_state runtime \<Rightarrow> ctx \<Rightarrow> call \<Rightarrow> dispatch_options \<Rightarrow>
    (('m, 'g) sdk_state, ub, dispatch_result transaction_result) rust_op" where
  "dispatch_tx_body R c cl opts =
     bind_op (dispatch_tx_call R c cl opts) (\<lambda>(result, metadata) s.
       if \<not> res_is_success result \<or> call_read_only cl
       then (case take_unconditional_events s of (events, s) \<Rightarrow>
               (Ok (Rollback (dispatch_result_new result (into_tags events) metadata)), s))
       else
         (case take_priority s of (priority, s) \<Rightarrow>
          case take_sender_meta s of (sender, s) \<Rightarrow>
            if is_check_only (st_env s)
            then (Ok (Rollback \<lparr>dr_result = result, dr_tags = [], dr_priority = priority, dr_sender_metadata = sender,
                    dr_call_format_metadata = metadata\<rparr>), s)
            else (case take_all_events s of (events, s) \<Rightarrow>
                    (Ok (Commit \<lparr>dr_result = result, dr_tags = into_tags events, dr_priority = priority,
                       dr_sender_metadata = sender, dr_call_format_metadata = metadata\<rparr>), s))))"

definition dispatch_tx_opts :: "('m, 'g) sdk_state runtime \<Rightarrow> ctx \<Rightarrow> transaction \<Rightarrow> dispatch_options \<Rightarrow>
    (('m, 'g) sdk_state, ub, dispatcher_error + dispatch_result) rust_op" where
  "dispatch_tx_opts R c tx opts =
     bind_op (if do_skip_authentication opts then return_op (Inr Continue)
              else try_op (modules_authenticate_tx (rt_modules R) tx)) (\<lambda>auth.
     case auth of Inl err \<Rightarrow> return_op (Inr (dispatch_result_of (into_call_result (rt_show R) err)))
     | Inr _ \<Rightarrow>
     bind_op (with_transaction_opts snapshot_ops []
       (with_tx \<lparr>txm_data = tx, txm_size = do_tx_size opts, txm_index = do_tx_index opts, txm_hash = do_tx_hash opts\<rparr> default_options)
       (dispatch_tx_body R c (tx_call tx) opts)) (\<lambda>result.
     seq_op (modules_after_dispatch_tx (rt_modules R) (tx_auth_info tx) (dr_result result))
     (return_op (case dr_result result of Res_Aborted err \<Rightarrow> Inl err | _ \<Rightarrow> Inr result))))"

definition dispatch_tx :: "('m, 'g) sdk_state runtime \<Rightarrow> ctx \<Rightarrow> u32 \<Rightarrow> transaction \<Rightarrow> nat \<Rightarrow>
    (('m, 'g) sdk_state, ub, dispatcher_error + dispatch_result) rust_op" where
  "dispatch_tx R c tx_sz tx index = dispatch_tx_opts R c tx (default_dispatch_options\<lparr>do_tx_size := tx_sz, do_tx_index := index\<rparr>)"

record check_tx_metadata =
  cm_priority :: u64
  cm_sender :: bytes
  cm_sender_seq :: u64
  cm_sender_state_seq :: u64

record check_tx_result =
  cr_error :: "string \<times> u32 \<times> string"
  cr_meta :: "check_tx_metadata option"

definition USIZE_MAX :: nat where "USIZE_MAX = 2 ^ 64 - 1"

text \<open>A panic during a check is a failed check.\<close>

definition check_tx :: "('m, 'g) sdk_state runtime \<Rightarrow> ctx \<Rightarrow> u32 \<Rightarrow> transaction \<Rightarrow>
    (('m, 'g) sdk_state, ub, dispatcher_error + check_tx_result) rust_op" where
  "check_tx R c tx_sz tx s =
     (case dispatch_tx R c tx_sz tx USIZE_MAX s of
        (Panic, s) \<Rightarrow> (Ok (Inr \<lparr>cr_error = (''dispatcher'', 1, ''transaction check aborted''), cr_meta = None\<rparr>), s)
      | (Err e, s) \<Rightarrow> (Err e, s)
      | (Ok (Inl err), s) \<Rightarrow> (Ok (Inl err), s)
      | (Ok (Inr dispatch), s) \<Rightarrow>
          (Ok (case dr_result dispatch of
                 Res_Ok _ \<Rightarrow> Inr \<lparr>cr_error = ([], 0, []), cr_meta = Some \<lparr>cm_priority = dr_priority dispatch,
                   cm_sender = sender_meta_id (dr_sender_metadata dispatch), cm_sender_seq = sm_tx_nonce (dr_sender_metadata dispatch),
                   cm_sender_state_seq = sm_state_nonce (dr_sender_metadata dispatch)\<rparr>\<rparr>
               | Res_Failed module code message \<Rightarrow> Inr \<lparr>cr_error = (module, code, message), cr_meta = None\<rparr>
               | Res_Aborted err \<Rightarrow> Inl err), s))"

definition execute_tx_opts :: "('m, 'g) sdk_state runtime \<Rightarrow> ctx \<Rightarrow> transaction \<Rightarrow> dispatch_options \<Rightarrow>
    (('m, 'g) sdk_state, ub, dispatcher_error + (tx_call_result \<times> tags)) rust_op" where
  "execute_tx_opts R c tx opts =
     bind_op (dispatch_tx_opts R c tx opts) (\<lambda>r.
     case r of Inl err \<Rightarrow> return_op (Inl err)
     | Inr d \<Rightarrow> (\<lambda>s. case encode_result (rt_show_abort R) (rt_callformat R) c (st_env s) (dr_result d) (dr_call_format_metadata d) of
         None \<Rightarrow> (Panic, s) | Some output \<Rightarrow> (Ok (Inr (output, dr_tags d)), s)))"

definition execute_tx :: "('m, 'g) sdk_state runtime \<Rightarrow> ctx \<Rightarrow> u32 \<Rightarrow> bytes \<Rightarrow> transaction \<Rightarrow> nat \<Rightarrow>
    (('m, 'g) sdk_state, ub, dispatcher_error + (tx_call_result \<times> tags)) rust_op" where
  "execute_tx R c tx_sz tx_hash tx index =
     execute_tx_opts R c tx (default_dispatch_options\<lparr>do_tx_size := tx_sz, do_tx_index := index, do_tx_hash := tx_hash\<rparr>)"

section \<open>Messages and migrations\<close>

fun handle_messages :: "('m, 'g) sdk_state runtime \<Rightarrow> message_event list \<Rightarrow> (u32, hook_invocation) fmap \<Rightarrow>
    (('m, 'g) sdk_state, core_error, unit) rust_op" where
  "handle_messages R [] handlers =
     (if handlers \<noteq> fmempty then throw_op Core_MessageHandlerNotInvoked else return_op ())"
| "handle_messages R (event # events) handlers =
     (case fmlookup handlers (me_index event) of
        None \<Rightarrow> throw_op (Core_MessageHandlerMissing (me_index event))
      | Some handler \<Rightarrow>
          bind_op (expect_op (modules_dispatch_message_result (rt_modules R) (hi_hook_name handler) (event, hi_payload handler))) (\<lambda>r.
          case handled_ok_or (Core_InvalidMethod (hi_hook_name handler)) r of
            Inl e \<Rightarrow> throw_op e
          | Inr _ \<Rightarrow> handle_messages R events (fmdrop (me_index event) handlers)))"

definition handle_last_round_messages :: "('m, 'g) sdk_state runtime \<Rightarrow> ctx \<Rightarrow> (('m, 'g) sdk_state, core_error, unit) rust_op" where
  "handle_last_round_messages R c s = handle_messages R (ctx_messages c) (core_message_handlers (st_store s)) s"

definition save_emitted_message_handlers :: "hook_invocation list \<Rightarrow> ('m, 'g) sdk_state \<Rightarrow> ('m, 'g) sdk_state" where
  "save_emitted_message_handlers handlers =
     upd_store (\<lambda>st. st\<lparr>core_message_handlers := fold (\<lambda>(i, h). fmupd (of_nat i) h) (enumerate 0 handlers) fmempty\<rparr>)"

definition VERSION_GLOBAL_KEY :: string where "VERSION_GLOBAL_KEY = []"

definition migrate_global :: "('m, 'g) sdk_state runtime \<Rightarrow> bool \<times> (string, u32) fmap \<Rightarrow>
    (('m, 'g) sdk_state, ub, bool \<times> (string, u32) fmap) rust_op" where
  "migrate_global R = (\<lambda>(has_changes, metadata) s.
     let global_version = fm_get 0 metadata VERSION_GLOBAL_KEY in
     if global_version \<noteq> rt_state_version R \<and> \<not> is_check_only (st_env s)
     then (if \<not> (global_version = 0 \<or> global_version = rt_state_version R - 1) then (Panic, s)
           else seq_op (rt_migrate_state R) (return_op (True, fmupd VERSION_GLOBAL_KEY (rt_state_version R) metadata)) s)
     else (Ok (has_changes, metadata), s))"

definition migrate :: "('m, 'g) sdk_state runtime \<Rightarrow> (('m, 'g) sdk_state, ub, unit) rust_op" where
  "migrate R =
     bind_op (reads_op (\<lambda>s. core_versions (st_store s))) (\<lambda>metadata.
     bind_op (modules_init_or_migrate (rt_modules R) metadata) (\<lambda>r.
     bind_op (migrate_global R r) (\<lambda>(has_changes, metadata).
     if has_changes then update_op (upd_store (\<lambda>st. st\<lparr>core_versions := metadata\<rparr>)) else return_op ())))"

section \<open>Queries\<close>

type_synonym runtime_error = "string \<times> u32 \<times> string"

definition core_runtime_error :: "('m, 'g) sdk_state runtime \<Rightarrow> core_error \<Rightarrow> runtime_error" where
  "core_runtime_error R e = (fst (core_error_code e), snd (core_error_code e), rt_show R e)"

definition dispatcher_runtime_error :: "('m, 'g) sdk_state runtime \<Rightarrow> dispatcher_error \<Rightarrow> runtime_error" where
  "dispatcher_runtime_error R e = (''dispatcher'', dispatcher_error_code e, rt_show_abort R e)"

definition query_body :: "('m, 'g) sdk_state runtime \<Rightarrow> string \<Rightarrow> cbor_value \<Rightarrow>
    (('m, 'g) sdk_state, ub, runtime_error + cbor_value) rust_op" where
  "query_body R method args =
     seq_op (migrate R)
       (if \<not> rt_is_allowed_query R method \<or> \<not> rt_ctx_is_allowed_query R method
        then return_op (Inl (core_runtime_error R Core_Forbidden))
        else bind_op (modules_dispatch_query (rt_modules R) method args) (\<lambda>r.
          return_op (case handled_ok_or (core_runtime_error R (Core_InvalidMethod method)) r of
            Inl e \<Rightarrow> Inl e | Inr res \<Rightarrow> res)))"

text \<open>\<open>args\<close> are the decoded arguments, \<open>None\<close> when they do not decode.\<close>

definition dispatch_query :: "('m, 'g) sdk_state runtime \<Rightarrow> string \<Rightarrow> cbor_value option \<Rightarrow>
    (('m, 'g) sdk_state, ub, runtime_error + cbor_value) rust_op" where
  "dispatch_query R method args =
     (case args of
        None \<Rightarrow> return_op (Inl (core_runtime_error R (Core_InvalidArgument ''malformed arguments'')))
      | Some args \<Rightarrow>
          with_transaction snapshot_ops (\<lambda>s.
            case query_body R method args s of
              (Panic, s) \<Rightarrow> (Ok (Rollback (Inl (dispatcher_runtime_error R (QueryAborted ''panic'')))), s)
            | (Ok r, s) \<Rightarrow> (Ok (Rollback r), s)
            | (Err e, s) \<Rightarrow> (Err e, s)))"

section \<open>Batches\<close>

record 'c batch_result =
  br_results :: "(tx_call_result \<times> tags) list"
  br_messages :: "'c list"
  br_block_tags :: tags
  br_tx_reject_hashes :: "bytes list"

text \<open>
  What surrounds the transactions of a block; \<open>f\<close> executes them. Besides their results it gives the variables of the
  caller that the closure has changed (\<open>'q\<close>); \<open>err\<close> makes an error of the caller's type of a runtime error.
\<close>

definition batch_body :: "('c \<times> hook_invocation, 'g) sdk_state runtime \<Rightarrow> ctx \<Rightarrow> (runtime_error \<Rightarrow> 'x) \<Rightarrow>
    (('c \<times> hook_invocation, 'g) sdk_state, ub, 'x + (tx_call_result \<times> tags) list \<times> 'q) rust_op \<Rightarrow>
    (('c \<times> hook_invocation, 'g) sdk_state, ub, 'x + 'c batch_result \<times> 'q) rust_op" where
  "batch_body R c err f =
     seq_op (migrate R)
     (bind_op (try_op (handle_last_round_messages R c)) (\<lambda>handled.
      case handled of Inl e \<Rightarrow> return_op (Inl (err (core_runtime_error R e)))
      | Inr _ \<Rightarrow>
      seq_op (modules_begin_block (rt_modules R))
      (bind_op f (\<lambda>results.
       case results of Inl e \<Rightarrow> return_op (Inl e)
       | Inr (results, q) \<Rightarrow>
       seq_op (modules_end_block (rt_modules R)) (\<lambda>s.
         case take_messages s of (messages, s) \<Rightarrow>
         case take_all_events s of (block_tags, s) \<Rightarrow>
           (Ok (Inr (\<lparr>br_results = results, br_messages = map fst messages, br_block_tags = into_tags block_tags,
              br_tx_reject_hashes = []\<rparr>, q)),
            save_emitted_message_handlers (map snd messages) s))))))"

definition execute_batch_common :: "('c \<times> hook_invocation, 'g) sdk_state runtime \<Rightarrow> ctx \<Rightarrow> (runtime_error \<Rightarrow> 'x) \<Rightarrow> storage \<Rightarrow>
    (('c \<times> hook_invocation, 'g) sdk_state, ub, 'x + (tx_call_result \<times> tags) list \<times> 'q) rust_op \<Rightarrow>
    (ub, 'x + 'c batch_result \<times> 'q) outcome \<times> storage" where
  "execute_batch_common R c err root f =
     enter_opts id id [] (with_mode Execute default_options) root (batch_body R c err f)"

fun decode_batch :: "('m, 'g) sdk_state runtime \<Rightarrow> ctx \<Rightarrow> bytes list \<Rightarrow>
    (('m, 'g) sdk_state, dispatcher_error, (u32 \<times> bytes \<times> transaction) list) rust_op" where
  "decode_batch R c [] = return_op []"
| "decode_batch R c (tx # batch) =
     (if \<not> length tx < 2 ^ 32 then throw_op (MalformedTransactionInBatch ''transaction too large'')
      else bind_op (map_err_op (\<lambda>err. MalformedTransactionInBatch (rt_show R err)) (decode_tx R c tx)) (\<lambda>decoded.
        bind_op (decode_batch R c batch) (\<lambda>rest. return_op ((of_nat (length tx), rt_hash R tx, decoded) # rest))))"

fun execute_txs :: "('m, 'g) sdk_state runtime \<Rightarrow> ctx \<Rightarrow> nat \<Rightarrow> (u32 \<times> bytes \<times> transaction) list \<Rightarrow>
    (('m, 'g) sdk_state, ub, dispatcher_error + (tx_call_result \<times> tags) list) rust_op" where
  "execute_txs R c index [] = return_op (Inr [])"
| "execute_txs R c index ((tx_sz, tx_hash, tx) # txs) =
     bind_op (execute_tx R c tx_sz tx_hash tx index) (\<lambda>r.
     case r of Inl err \<Rightarrow> return_op (Inl err)
     | Inr result \<Rightarrow> bind_op (execute_txs R c (index + 1) txs) (\<lambda>rest. return_op (map_sum id ((#) result) rest)))"

definition execute_batch :: "('c \<times> hook_invocation, 'g) sdk_state runtime \<Rightarrow> ctx \<Rightarrow> storage \<Rightarrow> bytes list \<Rightarrow>
    (ub, runtime_error + 'c batch_result \<times> unit) outcome \<times> storage" where
  "execute_batch R c root batch =
     execute_batch_common R c id root
       (bind_op (try_op (decode_batch R c batch)) (\<lambda>decoded.
        case decoded of Inl err \<Rightarrow> return_op (Inl (dispatcher_runtime_error R err))
        | Inr txs \<Rightarrow> bind_op (execute_txs R c 0 txs) (\<lambda>results.
            return_op (map_sum (dispatcher_runtime_error R) (\<lambda>rs. (rs, ())) results))))"

section \<open>Scheduling\<close>

record sched =
  sd_new_batch :: "bytes list"
  sd_results :: "(tx_call_result \<times> tags) list"
  sd_rejects :: "bytes list"

datatype sched_step = Sched_Done sched | Sched_Next sched

text \<open>
  The trial run of a transaction in its own state. The value says whether to skip the transaction and
  whether to reject it; an \<open>Ok\<close> of the closure commits, which in this mode rolls back as well.
\<close>

definition preschedule :: "('m, 'g) sdk_state runtime \<Rightarrow> ctx \<Rightarrow> transaction \<Rightarrow> dispatch_options \<Rightarrow>
    (('m, 'g) sdk_state, ub, dispatcher_error + (bool \<times> bool)) rust_op" where
  "preschedule R c tx opts =
     bind_op (try_op (modules_authenticate_tx (rt_modules R) tx)) (\<lambda>auth.
     case auth of
       Inl Core_FutureNonce \<Rightarrow> return_op (Inr (True, False))
     | Inl _ \<Rightarrow> return_op (Inr (True, True))
     | Inr _ \<Rightarrow>
         bind_op (dispatch_tx_opts R c tx (opts\<lparr>do_skip_authentication := True\<rparr>)) (\<lambda>r.
         return_op (case r of
           Inl err \<Rightarrow> Inl err
         | Inr check_result \<Rightarrow> if \<not> res_is_success (dr_result check_result) then Inr (True, True) else Inr (False, False))))"

definition of_result :: "'e + 'r \<Rightarrow> ('e + 'r) transaction_result" where
  "of_result v = (case v of Inr _ \<Rightarrow> Commit v | Inl _ \<Rightarrow> Rollback v)"

text \<open>One transaction of the queue, first once it is decoded.\<close>

definition schedule_decoded :: "('m, 'g) sdk_state runtime \<Rightarrow> ctx \<Rightarrow> bytes \<Rightarrow> u64 \<Rightarrow> sched \<Rightarrow> transaction \<Rightarrow>
    (('m, 'g) sdk_state, ub, dispatcher_error + sched_step) rust_op" where
  "schedule_decoded R c raw_tx remaining_gas sd tx s =
     (if \<not> length raw_tx < 2 ^ 32 then (Panic, s)
      else if fee_gas tx > remaining_gas then (Ok (Inr (Sched_Next sd)), s)
      else if fee_consensus_messages (ai_fee (tx_auth_info tx)) >
          saturating_sub (ctx_max_messages c) (of_nat (emitted_messages_count s))
      then (Ok (Inr (Sched_Next sd)), s)
      else
        (let tx_index = length (sd_new_batch sd); tx_sz = of_nat (length raw_tx); tx_hash = rt_hash R raw_tx;
             opts = default_dispatch_options\<lparr>do_tx_size := tx_sz, do_tx_index := tx_index, do_tx_hash := tx_hash\<rparr>
         in bind_op (with_transaction_opts snapshot_ops [] (with_mode PreSchedule default_options)
              (bind_op (preschedule R c tx opts) (\<lambda>v. return_op (of_result v)))) (\<lambda>skip.
            case skip of
              Inl err \<Rightarrow> return_op (Inl err)
            | Inr (True, reject) \<Rightarrow>
                return_op (Inr (Sched_Next (if reject then sd\<lparr>sd_rejects := sd_rejects sd @ [tx_hash]\<rparr> else sd)))
            | Inr (False, _) \<Rightarrow>
                bind_op (execute_tx R c tx_sz tx_hash tx tx_index) (\<lambda>r.
                return_op (case r of
                  Inl err \<Rightarrow> Inl err
                | Inr result \<Rightarrow> Inr (Sched_Next (sd\<lparr>sd_new_batch := sd_new_batch sd @ [raw_tx],
                    sd_results := sd_results sd @ [result]\<rparr>))))) s))"

definition schedule_tx :: "('m, 'g) sdk_state runtime \<Rightarrow> ctx \<Rightarrow> bytes \<Rightarrow> sched \<Rightarrow>
    (('m, 'g) sdk_state, ub, dispatcher_error + sched_step) rust_op" where
  "schedule_tx R c raw_tx sd s =
     (let remaining_gas = remaining_batch_gas s in
      if remaining_gas < sc_min_remaining_gas (rt_schedule_control R) \<or> length (sd_new_batch sd) \<ge> sc_max_tx_count (rt_schedule_control R)
      then (Ok (Inr (Sched_Done sd)), s)
      else bind_op (try_op (decode_tx R c raw_tx)) (\<lambda>decoded.
        case decoded of
          Inl _ \<Rightarrow> return_op (Inr (Sched_Next (sd\<lparr>sd_rejects := sd_rejects sd @ [rt_hash R raw_tx]\<rparr>)))
        | Inr tx \<Rightarrow> schedule_decoded R c raw_tx remaining_gas sd tx) s)"

fun schedule_txs :: "('m, 'g) sdk_state runtime \<Rightarrow> ctx \<Rightarrow> bytes list \<Rightarrow> sched \<Rightarrow>
    (('m, 'g) sdk_state, ub, dispatcher_error + sched_step) rust_op" where
  "schedule_txs R c [] sd = return_op (Inr (Sched_Next sd))"
| "schedule_txs R c (raw_tx # batch) sd =
     bind_op (schedule_tx R c raw_tx sd) (\<lambda>r.
     case r of
       Inl err \<Rightarrow> return_op (Inl err)
     | Inr (Sched_Done sd) \<Rightarrow> return_op (Inr (Sched_Done sd))
     | Inr (Sched_Next sd) \<Rightarrow> schedule_txs R c batch sd)"

text \<open>
  The loop that asks the host for more. \<open>fetch\<close> is the host's queue (\<open>ScheduleControlHost\<close>), given the number of
  the request; it may go on forever, so the number of requests is bounded by \<open>fuel\<close>: \<open>None\<close> when that runs out.
\<close>

fun schedule_loop :: "('m, 'g) sdk_state runtime \<Rightarrow> ctx \<Rightarrow> (nat \<Rightarrow> bytes option \<Rightarrow> u32 \<Rightarrow> runtime_error + bytes list option) \<Rightarrow>
    nat \<Rightarrow> nat \<Rightarrow> bytes list \<Rightarrow> u32 \<Rightarrow> sched \<Rightarrow> (('m, 'g) sdk_state, ub, (runtime_error + sched) option) rust_op" where
  "schedule_loop R c fetch 0 i batch requested_batch_len sd = return_op None"
| "schedule_loop R c fetch (Suc fuel) i batch requested_batch_len sd =
     bind_op (schedule_txs R c batch sd) (\<lambda>r.
     case r of
       Inl err \<Rightarrow> return_op (Some (Inl (dispatcher_runtime_error R err)))
     | Inr (Sched_Done sd) \<Rightarrow> return_op (Some (Inr sd))
     | Inr (Sched_Next sd) \<Rightarrow>
         if batch \<noteq> [] \<and> length batch \<ge> unat requested_batch_len
         then (case fetch i (Some (rt_hash R (last batch))) (sc_batch_size (rt_schedule_control R)) of
                 Inl err \<Rightarrow> return_op (Some (Inl err))
               | Inr (Some fetched) \<Rightarrow>
                   schedule_loop R c fetch fuel (i + 1) fetched (sc_batch_size (rt_schedule_control R)) sd
               | Inr None \<Rightarrow> return_op (Some (Inr sd)))
         else return_op (Some (Inr sd)))"

definition empty_sched :: sched where
  "empty_sched = \<lparr>sd_new_batch = [], sd_results = [], sd_rejects = []\<rparr>"

text \<open>
  The result with the new batch. The error is \<open>None\<close> when the loop has not ended within its fuel.
\<close>

definition schedule_and_execute_batch :: "('c \<times> hook_invocation, 'g) sdk_state runtime \<Rightarrow> ctx \<Rightarrow>
    (nat \<Rightarrow> bytes option \<Rightarrow> u32 \<Rightarrow> runtime_error + bytes list option) \<Rightarrow> nat \<Rightarrow> storage \<Rightarrow> bytes list \<Rightarrow>
    (ub, runtime_error option + 'c batch_result \<times> bytes list) outcome \<times> storage" where
  "schedule_and_execute_batch R c fetch fuel root batch =
     (case execute_batch_common R c Some root
        (bind_op (schedule_loop R c fetch fuel 0 batch (sc_initial_batch_size (rt_schedule_control R)) empty_sched) (\<lambda>r.
         return_op (case r of None \<Rightarrow> Inl None | Some (Inl e) \<Rightarrow> Inl (Some e) | Some (Inr sd) \<Rightarrow> Inr (sd_results sd, sd)))) of
        (Ok (Inr (result, sd)), root) \<Rightarrow> (Ok (Inr (result\<lparr>br_tx_reject_hashes := sd_rejects sd\<rparr>, sd_new_batch sd)), root)
      | (Ok (Inl e), root) \<Rightarrow> (Ok (Inl e), root)
      | (Err e, root) \<Rightarrow> (Err e, root)
      | (Panic, root) \<Rightarrow> (Panic, root))"

section \<open>Checks\<close>

fun decode_for_check :: "('m, 'g) sdk_state runtime \<Rightarrow> ctx \<Rightarrow> bytes list \<Rightarrow>
    (('m, 'g) sdk_state, dispatcher_error, (runtime_error + u32 \<times> transaction) list) rust_op" where
  "decode_for_check R c [] = return_op []"
| "decode_for_check R c (tx # batch) =
     (if \<not> length tx < 2 ^ 32 then throw_op (MalformedTransactionInBatch ''transaction too large'')
      else bind_op (try_op (decode_tx R c tx)) (\<lambda>res.
        bind_op (decode_for_check R c batch) (\<lambda>rest.
        return_op (map_sum (core_runtime_error R) (\<lambda>decoded. (of_nat (length tx), decoded)) res # rest))))"

fun check_txs :: "('m, 'g) sdk_state runtime \<Rightarrow> ctx \<Rightarrow> (runtime_error + u32 \<times> transaction) list \<Rightarrow>
    (('m, 'g) sdk_state, ub, dispatcher_error + check_tx_result list) rust_op" where
  "check_txs R c [] = return_op (Inr [])"
| "check_txs R c (Inr (tx_sz, tx) # txs) =
     bind_op (check_tx R c tx_sz tx) (\<lambda>r.
     case r of Inl err \<Rightarrow> return_op (Inl err)
     | Inr result \<Rightarrow> bind_op (check_txs R c txs) (\<lambda>rest. return_op (map_sum id ((#) result) rest)))"
| "check_txs R c (Inl err # txs) =
     bind_op (check_txs R c txs) (\<lambda>rest. return_op (map_sum id ((#) \<lparr>cr_error = err, cr_meta = None\<rparr>) rest))"

definition check_batch :: "('m, 'g) sdk_state runtime \<Rightarrow> ctx \<Rightarrow> storage \<Rightarrow> bytes list \<Rightarrow>
    (ub, runtime_error + check_tx_result list) outcome \<times> storage" where
  "check_batch R c root batch =
     enter_opts id id [] (with_mode Check default_options) root
       (seq_op (migrate R)
       (bind_op (try_op (decode_for_check R c batch)) (\<lambda>decoded.
        case decoded of Inl err \<Rightarrow> return_op (Inl (dispatcher_runtime_error R err))
        | Inr txs \<Rightarrow> bind_op (check_txs R c txs) (\<lambda>results. return_op (map_sum (dispatcher_runtime_error R) id results)))))"

end
