(* ===== verification/Core_Queries.thy ===== *)
theory Core_Queries
  imports Dispatcher
begin

text \<open>
  The queries and the internal calls of the core module (\<open>runtime-sdk/src/modules/core/mod.rs\<close>): estimating
  gas by simulation, executing read-only transactions, invariants, the public key for call data, the epoch.
  Parameters: the length of an encoded transaction with its proofs, and the key manager's public keys.
  The description of the modules for clients (\<open>core.RuntimeInfo\<close>) is left out.
\<close>

section \<open>Gas estimation\<close>

record estimate_gas_query =
  eq_caller :: "caller_address option"
  eq_tx :: transaction
  eq_propagate_failures :: bool

fun tx_simulation_failure_of :: "module_result \<Rightarrow> tx_simulation_failure option" where
  "tx_simulation_failure_of (Res_Failed module code message) =
     Some (TxSimulationFailure module code message)"
| "tx_simulation_failure_of _ = None"

text \<open>The proofs an unsigned transaction would get, of the largest size.\<close>

fun estimate_proofs :: "signer_info list \<Rightarrow> core_error + auth_proof list" where
  "estimate_proofs [] = Inr []"
| "estimate_proofs (si # sis) =
     bind_result (case si_address_spec si of
         Spec_Signature _ \<Rightarrow> Inr (Proof_Signature (replicate 64 0))
       | Spec_Multisig cfg \<Rightarrow> Inr (Proof_Multisig (map (\<lambda>_. Some (replicate 64 0)) (mc_signers cfg)))
       | Spec_Internal _ \<Rightarrow> Inl (Core_MalformedTransaction ''internal address spec used'')) (\<lambda>p.
     bind_result (estimate_proofs sis) (\<lambda>ps. Inr (p # ps)))"

definition simulate_body :: "('m, 'g) sdk_state runtime \<Rightarrow> ctx \<Rightarrow> u64 \<Rightarrow> call \<Rightarrow> u64 \<Rightarrow> bool \<Rightarrow>
    (('m, 'g) sdk_state, ub, (core_error + u64) transaction_result) rust_op" where
  "simulate_body R c extra_gas_fail cl gas report_failure =
     bind_op (dispatch_tx_call R c cl default_dispatch_options) (\<lambda>(result, _) s.
       if \<not> res_is_success result \<and> report_failure
       then (case tx_simulation_failure_of result of
               None \<Rightarrow> (Panic, s)
             | Some err \<Rightarrow> (Ok (of_result (Inl (Core_TxSimulationFailed err))), s))
       else if res_is_success result then (Ok (of_result (Inr (used_batch_gas s))), s)
       else (Ok (of_result (Inr (min (saturating_add (used_batch_gas s) extra_gas_fail) gas))), s))"

definition simulate_tx :: "('m, 'g) sdk_state runtime \<Rightarrow> ctx \<Rightarrow> u32 \<Rightarrow> u64 \<Rightarrow> transaction \<Rightarrow> u64 \<Rightarrow> bool \<Rightarrow>
    (('m, 'g) sdk_state, ub, core_error + u64) rust_op" where
  "simulate_tx R c tx_sz extra_gas_fail tx gas report_failure =
     with_transaction_opts snapshot_ops []
       (with_tx \<lparr>txm_data = set_fee_gas gas tx, txm_size = tx_sz, txm_index = 0, txm_hash = replicate 32 0\<rparr> (with_mode Simulate default_options))
       (simulate_body R c extra_gas_fail (tx_call tx) gas report_failure)"

text \<open>A panic ends the search where it is: the flag stops all further simulations.\<close>

definition stop_on_panic :: "('s, ub, core_error + u64) rust_op \<Rightarrow> 's \<times> bool \<Rightarrow> (core_error + u64) \<times> ('s \<times> bool)" where
  "stop_on_panic m = (\<lambda>(s, panicked).
     if panicked then (Inl Core_Forbidden, (s, True))
     else case m s of (Ok v, t) \<Rightarrow> (v, (t, False)) | (_, t) \<Rightarrow> (Inl Core_Forbidden, (t, True)))"

text \<open>
  The caller whose address replaces the signers: in a confidential runtime always one, with its address
  zeroed. \<open>None\<close> when deriving it panics.
\<close>

definition estimate_caller :: "ctx \<Rightarrow> estimate_gas_query \<Rightarrow> caller_address option option" where
  "estimate_caller c q =
     (if ctx_is_confidential c
      then (case eq_caller q of
              Some caller \<Rightarrow> Some (Some (caller_address_zeroized caller))
            | None \<Rightarrow>
                (case ai_signer_info (tx_auth_info (eq_tx q)) of
                   [] \<Rightarrow> Some (Some (caller_address_zeroized (Caller_Address default_address)))
                 | si # _ \<Rightarrow> map_option (\<lambda>a. Some (caller_address_zeroized a)) (address_spec_caller_address (ctx_deps c) (si_address_spec si))))
      else Some (eq_caller q))"

definition estimate_cap :: "ctx \<Rightarrow> ('m, 'g) sdk_state \<Rightarrow> u64" where
  "estimate_cap c s =
     (if get_local_max_estimated_gas c = 0 then cp_max_batch_gas (core_params_now s) else get_local_max_estimated_gas c)"

definition estimate_fee :: "ctx \<Rightarrow> u64 \<Rightarrow> transaction \<Rightarrow> transaction" where
  "estimate_fee c cap tx = tx\<lparr>tx_auth_info := (tx_auth_info tx)\<lparr>ai_fee := (ai_fee (tx_auth_info tx))
     \<lparr>fee_gas_of := cap, fee_amount_of := BaseUnits (2 ^ 64 - 1) NATIVE, fee_consensus_messages := ctx_max_messages c\<rparr>\<rparr>\<rparr>"

definition replace_signers :: "caller_address \<Rightarrow> transaction \<Rightarrow> transaction" where
  "replace_signers caller tx = tx\<lparr>tx_auth_info := (tx_auth_info tx)\<lparr>ai_signer_info :=
     [\<lparr>si_address_spec = Spec_Internal caller,
       si_nonce = (case ai_signer_info (tx_auth_info tx) of [] \<Rightarrow> 0 | si # _ \<Rightarrow> si_nonce si)\<rparr>]\<rparr>\<rparr>"

definition query_estimate_gas :: "('m, 'g) sdk_state runtime \<Rightarrow> core_config \<Rightarrow> ctx \<Rightarrow> (bytes \<Rightarrow> auth_proof list \<Rightarrow> nat) \<Rightarrow>
    estimate_gas_query \<Rightarrow> (('m, 'g) sdk_state, core_error, u64) rust_op" where
  "query_estimate_gas R cfg c utx_len q s =
     (case estimate_caller c q of
        None \<Rightarrow> (Panic, s)
      | Some caller_opt \<Rightarrow>
          let propagate_failures = (\<not> ctx_is_confidential c \<and> eq_propagate_failures q);
              cap = estimate_cap c s;
              tx = estimate_fee c cap (eq_tx q);
              signers = ai_signer_info (tx_auth_info tx)
          in case estimate_proofs signers of
               Inl e \<Rightarrow> (Err e, s)
             | Inr proofs \<Rightarrow>
                 if \<not> utx_len (dep_cbor_tx (ctx_deps c) tx) proofs < 2 ^ 32
                 then (Err (Core_InvalidArgument ''transaction too large''), s)
                 else
                   let tx_sz = of_nat (utx_len (dep_cbor_tx (ctx_deps c) tx) proofs);
                       extra_gas = (case caller_opt of None \<Rightarrow> 0
                         | Some _ \<Rightarrow> (case compute_signature_verification_cost (core_params_now s) signers of Some g \<Rightarrow> g | None \<Rightarrow> 0));
                       tx = (case caller_opt of None \<Rightarrow> tx | Some caller \<Rightarrow> replace_signers caller tx);
                       extra_gas_fail = fm_get 0 (cfg_estimate_gas_extra_fail cfg) (call_method (tx_call tx));
                       simulate = (\<lambda>gas report. stop_on_panic (simulate_tx R c tx_sz extra_gas_fail tx gas report))
                   in case estimate_search (\<lambda>gas. simulate gas True) simulate cap propagate_failures
                        (estimate_gas_search_max_iters cfg c) extra_gas (s, False) of
                        (_, (t, True)) \<Rightarrow> (Panic, t)
                      | (Inl e, (t, False)) \<Rightarrow> (Err e, t)
                      | (Inr est, (t, False)) \<Rightarrow> (Ok est, t))"

section \<open>Other queries and internal calls\<close>

definition query_check_invariants :: "('m, 'g) sdk_state runtime \<Rightarrow> (('m, 'g) sdk_state, core_error, unit) rust_op" where
  "query_check_invariants R = modules_check_invariants (rt_modules R)"

text \<open>\<open>km\<close> gives the public part of an ephemeral key, if there is a key manager.\<close>

definition calldata_public_key_common :: "callformat_deps \<Rightarrow> (bytes \<Rightarrow> u64 \<Rightarrow> km_error + bytes) option \<Rightarrow> ctx \<Rightarrow>
    core_error + (bytes \<times> u64)" where
  "calldata_public_key_common F km c =
     (case km of
        None \<Rightarrow> Inl (Core_InvalidArgument ''key manager not available'')
      | Some key \<Rightarrow>
          (case key (callformat_key_pair_id F c (ctx_epoch c)) (ctx_epoch c) of
             Inl Km_InvalidEpoch \<Rightarrow> Inl (Core_InvalidCallFormat ''invalid epoch'')
           | Inl (Km_Other msg) \<Rightarrow> Inl (Core_Abort (KeyManagerFailure msg))
           | Inr pk \<Rightarrow> Inr (pk, ctx_epoch c)))"

definition result_op :: "'e + 'a \<Rightarrow> ('s, 'e, 'a) rust_op" where
  "result_op r = (case r of Inl e \<Rightarrow> throw_op e | Inr a \<Rightarrow> return_op a)"

definition internal_calldata_public_key :: "core_config \<Rightarrow> callformat_deps \<Rightarrow> (bytes \<Rightarrow> u64 \<Rightarrow> km_error + bytes) option \<Rightarrow> ctx \<Rightarrow>
    (('m, 'g) sdk_state, core_error, bytes \<times> u64) rust_op" where
  "internal_calldata_public_key cfg F km c =
     seq_op (use_tx_gas cfg (cfg_gas_cost_call_calldata_public_key cfg)) (result_op (calldata_public_key_common F km c))"

definition internal_current_epoch :: "core_config \<Rightarrow> ctx \<Rightarrow> (('m, 'g) sdk_state, core_error, u64) rust_op" where
  "internal_current_epoch cfg c =
     seq_op (use_tx_gas cfg (cfg_gas_cost_call_current_epoch cfg)) (return_op (ctx_epoch c))"

text \<open>\<open>is_allowed_call\<close> is \<open>Runtime::is_allowed_interactive_call\<close>.\<close>

definition read_only_body :: "('m, 'g) sdk_state runtime \<Rightarrow> ctx \<Rightarrow> (string \<Rightarrow> bool) \<Rightarrow> bytes \<Rightarrow>
    (('m, 'g) sdk_state, core_error, tx_call_result) rust_op" where
  "read_only_body R c is_allowed_call raw_tx =
     (if \<not> length raw_tx < 2 ^ 32 then throw_op Core_OversizedTransaction
      else bind_op (decode_tx R c raw_tx) (\<lambda>tx.
        if \<not> call_read_only (tx_call tx) then throw_op (Core_InvalidArgument ''only read-only transactions are allowed'')
        else if ai_not_before (tx_auth_info tx) = None \<or> ai_not_after (tx_auth_info tx) = None
        then throw_op (Core_InvalidArgument ''only read-only transactions with expiry are allowed'')
        else
          bind_op (expect_op (execute_tx_opts R c tx (default_dispatch_options\<lparr>do_tx_size := of_nat (length raw_tx),
            do_method_authorizer := Some (\<lambda>method. modules_is_allowed_interactive_call (rt_modules R) method \<and> is_allowed_call method)\<rparr>)))
          (\<lambda>r. case r of
             Inl err \<Rightarrow> throw_op (Core_InvalidArgument (rt_show_abort R err))
           | Inr (result, _) \<Rightarrow> return_op result)))"

definition query_execute_read_only_tx :: "('m, 'g) sdk_state runtime \<Rightarrow> core_config \<Rightarrow> ctx \<Rightarrow> (string \<Rightarrow> bool) \<Rightarrow> bytes \<Rightarrow>
    (('m, 'g) sdk_state, ub, core_error + tx_call_result) rust_op" where
  "query_execute_read_only_tx R cfg c is_allowed_call raw_tx =
     (if \<not> cfg_allow_interactive_read_only_transactions cfg then return_op (Inl Core_Forbidden)
      else with_transaction_opts snapshot_ops [] (with_mode Simulate default_options)
        (bind_op (try_op (read_only_body R c is_allowed_call raw_tx)) (\<lambda>r. return_op (of_result r))))"

end
