(* ===== verification/Runtime_Modules.thy ===== *)
theory Runtime_Modules
  imports Core_Queries Rewards_Module
begin

text \<open>
  The handlers of the core, accounts and rewards modules as records of operations, with the dispatch of
  methods, the migrations and the errors that the derive macros generate for them
  (\<open>runtime-sdk-macros/src/{module_derive,error_derive.rs}\<close>), and a runtime made of these modules.
  The CBOR coding of arguments and results is a parameter.
\<close>

section \<open>Generated code\<close>

text \<open>\<open>dispatch_call\<close> and \<open>dispatch_query\<close> of a module: by the name of the method.\<close>

definition by_method :: "(string \<times> (cbor_value \<Rightarrow> ('s, ub, (cbor_value, 'r) handled) rust_op)) list \<Rightarrow> string \<Rightarrow> cbor_value \<Rightarrow>
    ('s, ub, (cbor_value, 'r) handled) rust_op" where
  "by_method handlers method body =
     (case map_of handlers method of Some handler \<Rightarrow> handler body | None \<Rightarrow> return_op (Unhandled body))"

text \<open>A handler marked \<open>internal\<close>; \<open>lift\<close> makes an error of the module of an error of the core module.\<close>

definition internal_only :: "(core_error \<Rightarrow> 'e) \<Rightarrow> ('a \<Rightarrow> (('m, 'g) sdk_state, 'e, 'r) rust_op) \<Rightarrow> 'a \<Rightarrow> (('m, 'g) sdk_state, 'e, 'r) rust_op" where
  "internal_only lift f args s = (if \<not> env_internal (st_env s) then (Err (lift Core_Forbidden), s) else f args s)"

text \<open>\<open>module::dispatch_query\<close>.\<close>

definition query_handler :: "(cbor_value \<Rightarrow> 'a option) \<Rightarrow> ('r \<Rightarrow> cbor_value) \<Rightarrow> runtime_error \<Rightarrow> ('e \<Rightarrow> runtime_error) \<Rightarrow>
    ('a \<Rightarrow> ('s, 'e, 'r) rust_op) \<Rightarrow> cbor_value \<Rightarrow> ('s, ub, (cbor_value, runtime_error + cbor_value) handled) rust_op" where
  "query_handler decode encode malformed err f body =
     (case decode body of
        None \<Rightarrow> return_op (Handled (Inl malformed))
      | Some args \<Rightarrow> bind_op (try_op (f args)) (\<lambda>r. return_op (Handled (map_sum err encode r))))"

text \<open>
  \<open>init_or_migrate\<close>: the arms in the order of their versions. The arm of version 0 initialises from genesis and
  leads to the latest version, every other to the next one.
\<close>

fun migration_arms :: "u32 \<Rightarrow> (u32 \<times> ('s, ub, unit) rust_op) list \<Rightarrow> u32 \<Rightarrow> ('s, ub, u32) rust_op" where
  "migration_arms VERSION [] version = return_op version"
| "migration_arms VERSION ((from_version, arm) # arms) version =
     (if version = from_version \<and> (from_version = 0 \<or> version < VERSION)
      then seq_op arm (migration_arms VERSION arms (if from_version = 0 then VERSION else version + 1))
      else migration_arms VERSION arms version)"

definition init_or_migrate :: "string \<Rightarrow> u32 \<Rightarrow> (u32 \<times> ('s, ub, unit) rust_op) list \<Rightarrow> (string, u32) fmap \<Rightarrow>
    ('s, ub, bool \<times> (string, u32) fmap) rust_op" where
  "init_or_migrate NAME VERSION arms meta =
     (if fm_get 0 meta NAME = VERSION then return_op (False, meta)
      else bind_op (migration_arms VERSION arms (fm_get 0 meta NAME)) (\<lambda>version.
        if version \<noteq> VERSION then panic_op else return_op (True, fmupd NAME VERSION meta)))"

section \<open>Errors of the accounts module\<close>

fun accounts_error_code :: "accounts_error \<Rightarrow> string \<times> u32" where
  "accounts_error_code Acc_InvalidArgument = (''accounts'', 1)"
| "accounts_error_code Acc_InsufficientBalance = (''accounts'', 2)"
| "accounts_error_code Acc_Forbidden = (''accounts'', 3)"
| "accounts_error_code Acc_NotFound = (''accounts'', 4)"
| "accounts_error_code (Acc_Core e) = core_error_code e"

definition accounts_into_call_result :: "(accounts_error \<Rightarrow> string) \<Rightarrow> accounts_error \<Rightarrow> module_result" where
  "accounts_into_call_result show e =
     (case e of
        Acc_Core (Core_Abort err) \<Rightarrow> Res_Aborted err
      | _ \<Rightarrow> Res_Failed (fst (accounts_error_code e)) (snd (accounts_error_code e)) (show e))"

section \<open>The modules\<close>

record codecs =
  cd_unit :: "cbor_value \<Rightarrow> unit option"
  cd_transfer :: "cbor_value \<Rightarrow> (address \<times> base_units) option"
  cd_address :: "cbor_value \<Rightarrow> address option"
  cd_denomination :: "cbor_value \<Rightarrow> denomination option"
  cd_estimate :: "cbor_value \<Rightarrow> estimate_gas_query option"
  cd_read_only_tx :: "cbor_value \<Rightarrow> bytes option"
  cd_of_balances :: "(denomination \<times> u128) list \<Rightarrow> cbor_value"
  cd_of_addresses :: "address list \<Rightarrow> cbor_value"
  cd_of_decimals :: "u8 \<Rightarrow> cbor_value"
  cd_of_prices :: "(denomination, u128) fmap \<Rightarrow> cbor_value"
  cd_of_public_key :: "bytes \<times> u64 \<Rightarrow> cbor_value"
  cd_of_result :: "tx_call_result \<Rightarrow> cbor_value"
  cd_of_core_params :: "core_params \<Rightarrow> cbor_value"
  cd_of_accounts_params :: "accounts_params \<Rightarrow> cbor_value"
  cd_of_rewards_params :: "rewards_params \<Rightarrow> cbor_value"
  cd_show_core :: "core_error \<Rightarrow> string"
  cd_show_accounts :: "accounts_error \<Rightarrow> string"
  cd_utx_len :: "bytes \<Rightarrow> auth_proof list \<Rightarrow> nat"
  cd_public_keys :: "(bytes \<Rightarrow> u64 \<Rightarrow> km_error + bytes) option"
  cd_callformat :: callformat_deps

definition core_err :: "codecs \<Rightarrow> core_error \<Rightarrow> runtime_error" where
  "core_err K e = (fst (core_error_code e), snd (core_error_code e), cd_show_core K e)"

definition accounts_err :: "codecs \<Rightarrow> accounts_error \<Rightarrow> runtime_error" where
  "accounts_err K e = (fst (accounts_error_code e), snd (accounts_error_code e), cd_show_accounts K e)"

abbreviation malformed_query :: "codecs \<Rightarrow> runtime_error" where
  "malformed_query K \<equiv> core_err K (Core_InvalidArgument ''malformed arguments'')"

subsection \<open>Core\<close>

text \<open>\<open>pend\<close> is the size of the pending updates of the current overlay. Without the queries, which run the dispatcher.\<close>

definition core_module :: "core_config \<Rightarrow> (('m, 'g) sdk_state \<Rightarrow> nat) \<Rightarrow> ctx \<Rightarrow> codecs \<Rightarrow> core_params \<Rightarrow> ('m, 'g) sdk_state module_ops" where
  "core_module cfg pend c K genesis = default_module
     \<lparr>mo_dispatch_call := by_method
        [(''core.CallDataPublicKey'', dispatch_handler (cd_unit K) (cd_of_public_key K) (cd_show_core K) (into_call_result (cd_show_core K))
            (internal_only id (\<lambda>_. internal_calldata_public_key cfg (cd_callformat K) (cd_public_keys K) c))),
         (''core.CurrentEpoch'', dispatch_handler (cd_unit K) Cbor_Unsigned (cd_show_core K) (into_call_result (cd_show_core K))
            (internal_only id (\<lambda>_. internal_current_epoch cfg c)))],
      mo_approve_raw_tx := approve_raw_tx,
      mo_approve_unverified_tx := approve_unverified_tx,
      mo_authenticate_tx := core_authenticate_tx c,
      mo_before_handle_call := core_before_handle_call cfg c,
      mo_after_handle_call := (\<lambda>_. core_after_handle_call cfg pend c),
      mo_begin_block := update_op (core_begin_block c),
      mo_end_block := update_op core_end_block,
      mo_is_expensive_query := (\<lambda>method. method \<in> {''core.CheckInvariants'', ''core.ExecuteReadOnlyTx''}),
      mo_is_allowed_private_km_query := (\<lambda>method. method \<in> {''core.EstimateGas'', ''core.ExecuteReadOnlyTx''}),
      mo_init_or_migrate := init_or_migrate ''core'' 1 [(0, update_op (core_init genesis))]\<rparr>"

text \<open>The queries; \<open>R\<close> is the runtime whose transactions they run.\<close>

definition core_queries :: "('m, 'g) sdk_state runtime \<Rightarrow> core_config \<Rightarrow> ctx \<Rightarrow> codecs \<Rightarrow> (string \<Rightarrow> bool) \<Rightarrow>
    (string \<times> (cbor_value \<Rightarrow> (('m, 'g) sdk_state, ub, (cbor_value, runtime_error + cbor_value) handled) rust_op)) list" where
  "core_queries R cfg c K is_allowed_call =
     [(''core.EstimateGas'', query_handler (cd_estimate K) Cbor_Unsigned (malformed_query K) (core_err K)
         (query_estimate_gas R cfg c (cd_utx_len K))),
      (''core.CheckInvariants'', query_handler (cd_unit K) (\<lambda>_. Cbor_Null) (malformed_query K) (core_err K) (\<lambda>_. query_check_invariants R)),
      (''core.CallDataPublicKey'', query_handler (cd_unit K) (cd_of_public_key K) (malformed_query K) (core_err K)
         (\<lambda>_. result_op (calldata_public_key_common (cd_callformat K) (cd_public_keys K) c))),
      (''core.MinGasPrice'', query_handler (cd_unit K) (cd_of_prices K) (malformed_query K) (core_err K) (\<lambda>_. reads_op (query_min_gas_price cfg c))),
      (''core.ExecuteReadOnlyTx'', query_handler (cd_read_only_tx K) (cd_of_result K) (malformed_query K) (core_err K)
         (\<lambda>raw. bind_op (expect_op (query_execute_read_only_tx R cfg c is_allowed_call raw)) result_op)),
      (''core.Parameters'', query_handler (cd_unit K) (cd_of_core_params K) (malformed_query K) (core_err K) (\<lambda>_. reads_op core_params_now))]"

subsection \<open>Accounts\<close>

definition accounts_queries :: "codecs \<Rightarrow>
    (string \<times> (cbor_value \<Rightarrow> (('m, 'g) sdk_state, ub, (cbor_value, runtime_error + cbor_value) handled) rust_op)) list" where
  "accounts_queries K =
     [(''accounts.Nonce'', query_handler (cd_address K) Cbor_Unsigned (malformed_query K) (accounts_err K) (\<lambda>a. reads_op (get_nonce a))),
      (''accounts.Addresses'', query_handler (cd_denomination K) (cd_of_addresses K) (malformed_query K) (accounts_err K)
         (\<lambda>d. reads_op (get_addresses d))),
      (''accounts.Balances'', query_handler (cd_address K) (cd_of_balances K) (malformed_query K) (accounts_err K)
         (\<lambda>a. reads_op (get_balances a))),
      (''accounts.DenominationInfo'', query_handler (cd_denomination K) (cd_of_decimals K) (malformed_query K) (accounts_err K)
         get_denomination_info),
      (''accounts.Parameters'', query_handler (cd_unit K) (cd_of_accounts_params K) (malformed_query K) (accounts_err K)
         (\<lambda>_. reads_op (\<lambda>s. acc_params (st_store s))))]"

text \<open>\<open>resolve\<close> is the runtime's \<open>FeeProxy\<close>.\<close>

definition accounts_module :: "core_config \<Rightarrow> ctx \<Rightarrow> codecs \<Rightarrow>
    (transaction \<Rightarrow> (('m, 'g) sdk_state, core_error, address option) rust_op) \<Rightarrow> accounts_genesis \<Rightarrow> ('m, 'g) sdk_state module_ops" where
  "accounts_module cfg c K resolve genesis = default_module
     \<lparr>mo_dispatch_call := by_method
        [(''accounts.Transfer'', dispatch_handler (cd_transfer K) (\<lambda>_. Cbor_Null) (cd_show_core K) (accounts_into_call_result (cd_show_accounts K))
            (\<lambda>(to_addr, amt). tx_transfer cfg c to_addr amt))],
      mo_dispatch_query := by_method (accounts_queries K),
      mo_is_expensive_query := (\<lambda>method. method = ''accounts.Addresses''),
      mo_authenticate_tx := accounts_authenticate_tx c resolve,
      mo_after_handle_call := (\<lambda>_. accounts_after_handle_call c),
      mo_after_dispatch_tx := (\<lambda>ai result. expect_op (accounts_after_dispatch_tx ai (res_is_success result))),
      mo_end_block := expect_op (accounts_end_block c),
      mo_check_invariants := (\<lambda>s. result_op (check_invariants s) s),
      mo_init_or_migrate := init_or_migrate ''accounts'' 1 [(0, expect_op (accounts_init genesis))]\<rparr>"

subsection \<open>Rewards\<close>

text \<open>The migration from version 1 removes a key that this state does not have.\<close>

definition rewards_module :: "ctx \<Rightarrow> codecs \<Rightarrow> rewards_params \<Rightarrow> ('m, 'g) sdk_state module_ops" where
  "rewards_module c K genesis = default_module
     \<lparr>mo_dispatch_query := by_method
        [(''rewards.Parameters'', query_handler (cd_unit K) (cd_of_rewards_params K) (malformed_query K) (accounts_err K)
            (\<lambda>_. reads_op (\<lambda>s. rew_params (st_store s))))],
      mo_end_block := expect_op (rewards_end_block transfer c),
      mo_init_or_migrate := init_or_migrate ''rewards'' 2 [(0, expect_op (rewards_init genesis)), (1, return_op ())]\<rparr>"

section \<open>A runtime\<close>

text \<open>
  The three modules in the order core, accounts, rewards. \<open>R\<close> gives all the rest of the runtime.
\<close>

definition sdk_modules :: "core_config \<Rightarrow> (('m, 'g) sdk_state \<Rightarrow> nat) \<Rightarrow> ctx \<Rightarrow> codecs \<Rightarrow>
    (transaction \<Rightarrow> (('m, 'g) sdk_state, core_error, address option) rust_op) \<Rightarrow>
    core_params \<times> accounts_genesis \<times> rewards_params \<Rightarrow> ('m, 'g) sdk_state module_ops list" where
  "sdk_modules cfg pend c K resolve = (\<lambda>(core_genesis, acc_genesis, rew_genesis).
     [core_module cfg pend c K core_genesis, accounts_module cfg c K resolve acc_genesis, rewards_module c K rew_genesis])"

definition with_core_queries :: "('m, 'g) sdk_state runtime \<Rightarrow> core_config \<Rightarrow> ctx \<Rightarrow> codecs \<Rightarrow> (string \<Rightarrow> bool) \<Rightarrow> ('m, 'g) sdk_state module_ops \<Rightarrow>
    ('m, 'g) sdk_state module_ops" where
  "with_core_queries R cfg c K is_allowed_call m = m\<lparr>mo_dispatch_query := by_method (core_queries R cfg c K is_allowed_call)\<rparr>"

definition sdk_runtime :: "('m, 'g) sdk_state runtime \<Rightarrow> core_config \<Rightarrow> (('m, 'g) sdk_state \<Rightarrow> nat) \<Rightarrow> ctx \<Rightarrow> codecs \<Rightarrow>
    (transaction \<Rightarrow> (('m, 'g) sdk_state, core_error, address option) rust_op) \<Rightarrow>
    core_params \<times> accounts_genesis \<times> rewards_params \<Rightarrow> (string \<Rightarrow> bool) \<Rightarrow> ('m, 'g) sdk_state runtime" where
  "sdk_runtime R cfg pend c K resolve genesis is_allowed_call =
     (let ms = sdk_modules cfg pend c K resolve genesis
      in R\<lparr>rt_modules := with_core_queries (R\<lparr>rt_modules := ms\<rparr>) cfg c K is_allowed_call (hd ms) # tl ms\<rparr>)"

end
