(* ===== verification/Dispatcher_Nesting.thy ===== *)
theory Dispatcher_Nesting
  imports Dispatcher
begin

text \<open>
  How the dispatcher nests states: the operations of the modules leave a state as deeply nested as
  they found it, so that a transaction returns to the very state it was opened from. From this follow the outcomes of
  dispatching a transaction, of queries and of checks.
\<close>

section \<open>Staying at a level\<close>

definition nested :: "('st, 'ev, 'msg, 'bv, 'lv, 'g) state \<Rightarrow> ('st, 'ev, 'msg, 'bv, 'lv, 'g) state \<Rightarrow> bool" where
  "nested s t \<longleftrightarrow> (st_rng s \<noteq> None \<longrightarrow> st_rng t \<noteq> None \<and> st_parents t = st_parents s \<and>
     st_hidden_block_values t = st_hidden_block_values s \<and> st_hidden_rng t = st_hidden_rng s \<and>
     st_always_rollback t = st_always_rollback s \<and> st_env t = st_env s)"

interpretation nest: step_rel nested
  by unfold_locales (auto simp: nested_def)

definition nested_module :: "('st, 'ev, 'msg, 'bv, 'lv, 'g) state module_ops \<Rightarrow> bool" where
  "nested_module m \<longleftrightarrow> call_steps True nested m \<and> tx_steps True nested m \<and> decode_steps True nested m \<and> block_steps True nested m"

lemma nested_update: "(\<And>s. nested s (f s)) \<Longrightarrow> steps pan nested (update_op f)"
  by (auto simp: steps_def update_op_def)

lemma nested_upd [simp]:
  "nested s (upd_store f s)" "nested s (upd_block g s)" "nested s (upd_local h s)"
  "nested s (emit_event_raw k v s)" "nested s (emit_unconditional_event k v s)"
  by (simp_all add: nested_def upd_store_def upd_block_def upd_local_def emit_event_raw_def emit_unconditional_event_def)

section \<open>Opening and closing\<close>

definition ready :: "('st, 'ev, 'msg, 'bv, 'lv, 'g) state \<Rightarrow> bool" where
  "ready s \<longleftrightarrow> st_rng s \<noteq> None \<and> st_parents s \<noteq> []"

lemma init_steps_ready:
  assumes "ready s"
  shows "\<exists>t. init_mode opts s = Ok t \<and> ready t" "\<exists>t. init_tx opts s = Ok t \<and> ready t"
    "\<exists>t. init_internal opts s = Ok t \<and> ready t" "\<exists>t. init_rng entropy opts s = Ok t \<and> ready t"
proof -
  have hide: "\<exists>t. hide_block_values u = Ok t \<and> ready t" if "ready u" for u :: "('a, 'b, 'c, 'd, 'e, 'f) state"
    using that by (simp add: hide_block_values_def ready_def)
  have rng: "\<exists>t. map_rng f u = Ok t \<and> ready t" "\<exists>t. disable_rng u = Ok t \<and> ready t" if "ready u"
    for f and u :: "('a, 'b, 'c, 'd, 'e, 'f) state"
    using that by (auto simp: map_rng_def disable_rng_def ready_def)
  show "\<exists>t. init_mode opts s = Ok t \<and> ready t"
    using assms hide by (simp add: init_mode_def Let_def ready_def split: option.split)
  show "\<exists>t. init_tx opts s = Ok t \<and> ready t"
  proof (cases "opt_tx opts")
    case (Some tx)
    then show ?thesis using rng(1) [OF assms, of "append_tx (txm_hash tx)"] by (auto simp: init_tx_def ready_def)
  qed (simp add: init_tx_def assms)
  show "\<exists>t. init_internal opts s = Ok t \<and> ready t"
    using assms hide by (simp add: init_internal_def Let_def ready_def split: option.split)
  show "\<exists>t. init_rng entropy opts s = Ok t \<and> ready t"
  proof -
    obtain u where u: "(if opt_rng_local_entropy opts then map_rng (append_local_entropy entropy) s else Ok s) = Ok u" "ready u"
      using rng(1) [OF assms] assms by (cases "opt_rng_local_entropy opts") auto
    show ?thesis unfolding init_rng_def u(1) using rng [OF u(2)] by simp
  qed
qed

lemma init_child:
  assumes "st_rng s \<noteq> None"
  obtains s1 where "state_init entropy opts (state_open snapshot_ops s) = Ok s1" "st_rng s1 \<noteq> None"
proof -
  have 0: "ready (state_open snapshot_ops s)" using assms by (simp add: ready_def state_open_def snapshot_ops_def)
  obtain s1 where 1: "init_mode opts (state_open snapshot_ops s) = Ok s1" "ready s1" using init_steps_ready(1) [OF 0] by blast
  obtain s2 where 2: "init_tx opts s1 = Ok s2" "ready s2" using init_steps_ready(2) [OF 1(2)] by blast
  obtain s3 where 3: "init_internal opts s2 = Ok s3" "ready s3" using init_steps_ready(3) [OF 2(2)] by blast
  obtain s4 where 4: "init_rng entropy opts s3 = Ok s4" "ready s4" using init_steps_ready(4) [OF 3(2)] by blast
  show thesis by (rule that [of s4]) (use 1 2 3 4 in \<open>simp_all add: state_init_def ready_def\<close>)
qed

lemma init_with_tx:
  assumes "state_init entropy (with_tx m default_options) (state_open snapshot_ops s) = Ok s1"
  shows "st_store s1 = st_store s" "st_block_values s1 = st_block_values s" "st_env s1 = (st_env s)\<lparr>env_tx := Some m\<rparr>"
    "st_hidden_block_values s1 = None" "\<not> st_always_rollback s1" "st_messages s1 = []" "st_events s1 = fmempty"
    "st_unconditional_events s1 = fmempty" "st_local_values s1 = default"
  using assms
  by (auto simp: state_init_def init_mode_def init_tx_def init_internal_def init_rng_def disable_rng_def map_rng_def bind_outcome_Ok
      state_open_def snapshot_ops_def with_tx_def default_options_def Let_def split: option.splits if_splits)

text \<open>A state that differs from another only in its block values and its RNG, as after a rollback.\<close>

definition rolled_back :: "('st, 'ev, 'msg, 'bv, 'lv, 'g) state \<Rightarrow> ('st, 'ev, 'msg, 'bv, 'lv, 'g) state \<Rightarrow> bool" where
  "rolled_back s t \<longleftrightarrow> (\<exists>v g. t = s\<lparr>st_block_values := v, st_rng := g\<rparr>)"

lemma rolled_backI [simp]: "rolled_back s (s\<lparr>st_block_values := v, st_rng := g\<rparr>)"
  unfolding rolled_back_def by blast

lemma close_err:
  "child_of s t \<Longrightarrow> close_transaction snapshot_ops (level t) (Err e, t) =
     (Err e, s\<lparr>st_block_values := returned_block_values t, st_rng := returned_rng t\<rparr>)"
  by (simp add: close_transaction_def rollback_child guard_drop_def)

text \<open>One run of a transaction whose body stays at its level.\<close>

lemma with_transaction_nested:
  assumes "steps True nested f" "st_rng s \<noteq> None"
  obtains s1 x t where "state_init entropy opts (state_open snapshot_ops s) = Ok s1" "f s1 = (x, t)" "nested s1 t" "child_of s t"
    "st_rng s1 \<noteq> None"
    "with_transaction_opts snapshot_ops entropy opts f s = close_transaction snapshot_ops (level t) (x, t)"
proof -
  obtain s1 where s1: "state_init entropy opts (state_open snapshot_ops s) = Ok s1" "st_rng s1 \<noteq> None"
    by (rule init_child [OF assms(2)])
  obtain x t where run: "f s1 = (x, t)" by (cases "f s1")
  have n: "nested s1 t" by (rule stepsD [OF assms(1) run]) simp
  have c: "child_of s t" "level t = level s1"
    using child_of_init [OF s1(1)] n s1(2) by (simp_all add: nested_def child_of_def level_def)
  show thesis by (rule that [OF s1(1) run n c(1) s1(2)]) (simp add: with_transaction_opts_def s1(1) run c(2))
qed

lemma returned_rng_nested: "nested s t \<Longrightarrow> st_rng s \<noteq> None \<Longrightarrow> returned_rng t \<noteq> None"
  by (auto simp: nested_def returned_rng_def)

lemma close_nested:
  assumes "child_of s t" "returned_rng t \<noteq> None"
  shows "nested s (snd (close_transaction snapshot_ops (level t) (x, t)))"
proof (cases x)
  case (Ok a)
  then show ?thesis using assms(2) by (cases a) (simp_all add: close_commit [OF assms(1)] close_rollback [OF assms(1)] nested_def)
qed (use assms(2) in \<open>simp_all add: close_err [OF assms(1)] close_panic [OF assms(1)] nested_def\<close>)

lemma with_transaction_steps:
  assumes "steps True nested f"
  shows "steps pan nested (with_transaction_opts snapshot_ops entropy opts f)"
proof (rule stepsI)
  fix s r u
  assume run: "with_transaction_opts snapshot_ops entropy opts f s = (r, u)"
  show "nested s u"
  proof (cases "st_rng s = None")
    case True
    then show ?thesis by (simp add: nested_def)
  next
    case False
    obtain s1 x t where t: "nested s1 t" "child_of s t" "st_rng s1 \<noteq> None"
      "with_transaction_opts snapshot_ops entropy opts f s = close_transaction snapshot_ops (level t) (x, t)"
      by (rule with_transaction_nested [OF assms False])
    show ?thesis using close_nested [OF t(2) returned_rng_nested [OF t(1,3)], of x] run t(4) by simp
  qed
qed

section \<open>Calls and transactions\<close>

lemma dispatch_tx_call_steps:
  assumes "step_rel S" "\<forall>m \<in> set (rt_modules R). call_steps pan S m"
  shows "steps pan S (dispatch_tx_call R c cl opts)"
proof -
  note h = step_rel.modules_call_steps [OF assms]
  show ?thesis
    unfolding dispatch_tx_call_def dispatch_tx_call_inner_def
    by (auto intro!: step_rel.steps_bind [OF assms(1)] step_rel.steps_try [OF assms(1)] step_rel.steps_return [OF assms(1)]
        step_rel.steps_reads [OF assms(1)] h split: sum.splits option.splits)
qed

lemma nested_takes [simp]:
  "take_unconditional_events s = (ev, t) \<Longrightarrow> nested s t" "take_all_events s = (ev, t) \<Longrightarrow> nested s t"
  "take_priority s' = (p, t') \<Longrightarrow> nested s' t'" "take_sender_meta s' = (m, t') \<Longrightarrow> nested s' t'"
  by (auto simp: nested_def take_unconditional_events_def take_all_events_def take_events_def take_priority_def take_sender_meta_def
      upd_block_def split: prod.splits)

definition succeeds :: "module_result \<Rightarrow> call \<Rightarrow> environment \<Rightarrow> bool" where
  "succeeds result cl e \<longleftrightarrow> res_is_success result \<and> \<not> call_read_only cl \<and> \<not> is_check_only e"

text \<open>What follows the call in the nested state.\<close>

lemma dispatch_tx_body_run:
  assumes "dispatch_tx_call R c cl opts s = (Ok (result, metadata), u)"
  shows "\<exists>d t. dr_result d = result \<and> dr_call_format_metadata d = metadata \<and> dispatch_tx_body R c cl opts s =
      (Ok (if succeeds result cl (st_env u) then Commit d else Rollback d), t) \<and> nested u t \<and>
      st_store t = st_store u \<and> st_messages t = st_messages u \<and>
      (succeeds result cl (st_env u) \<longrightarrow> st_events t = fmempty \<and> st_unconditional_events t = fmempty) \<and>
      bv_fee_manager (st_block_values t) = bv_fee_manager (st_block_values u) \<and>
      (dr_tags d = (if succeeds result cl (st_env u) then into_tags (merge_events (st_events u) (st_unconditional_events u))
         else if res_is_success result \<and> \<not> call_read_only cl then [] else into_tags (st_unconditional_events u)))"
proof (cases "\<not> res_is_success result \<or> call_read_only cl")
  case True
  then show ?thesis using assms
    by (auto simp: dispatch_tx_body_def succeeds_def take_unconditional_events_def nested_def dispatch_result_new_def)
next
  case False
  then show ?thesis using assms
    by (auto simp: dispatch_tx_body_def succeeds_def take_priority_def take_sender_meta_def upd_block_def nested_def
        take_all_events_def take_events_def take_unconditional_events_def)
qed

lemma dispatch_tx_body_stuck:
  "dispatch_tx_call R c cl opts s = (Panic, u) \<Longrightarrow> dispatch_tx_body R c cl opts s = (Panic, u)"
  "dispatch_tx_call R c cl opts s = (Err e, u) \<Longrightarrow> dispatch_tx_body R c cl opts s = (Err e, u)"
  by (simp_all add: dispatch_tx_body_def)

lemma dispatch_tx_body_steps:
  assumes "\<forall>m \<in> set (rt_modules R). call_steps True nested m"
  shows "steps pan nested (dispatch_tx_body R c cl opts)"
proof (rule stepsI)
  fix s r t
  assume run: "dispatch_tx_body R c cl opts s = (r, t)"
  obtain x u where x: "dispatch_tx_call R c cl opts s = (x, u)" by (cases "dispatch_tx_call R c cl opts s")
  have n: "nested s u" by (rule stepsD [OF dispatch_tx_call_steps [OF nest.step_rel_axioms assms] x]) simp
  show "nested s t"
  proof (cases x)
    case (Ok a)
    then obtain result metadata where "x = Ok (result, metadata)" by (cases a) auto
    from dispatch_tx_body_run [OF x [unfolded this]] run n show ?thesis by (auto intro: nest.step_trans)
  qed (use run x n dispatch_tx_body_stuck in fastforce)+
qed

section \<open>The outcome of a transaction\<close>

text \<open>The transaction at the level of its own state.\<close>

abbreviation tx_options :: "transaction \<Rightarrow> dispatch_options \<Rightarrow> options" where
  "tx_options tx opts \<equiv> with_tx \<lparr>txm_data = tx, txm_size = do_tx_size opts, txm_index = do_tx_index opts, txm_hash = do_tx_hash opts\<rparr>
     default_options"

definition authenticated :: "('m, 'g) sdk_state runtime \<Rightarrow> transaction \<Rightarrow> dispatch_options \<Rightarrow>
    ('m, 'g) sdk_state \<Rightarrow> ('m, 'g) sdk_state \<Rightarrow> bool" where
  "authenticated R tx opts s a \<longleftrightarrow>
     (if do_skip_authentication opts then a = s else \<exists>decision. modules_authenticate_tx (rt_modules R) tx s = (Ok decision, a))"

text \<open>A committed transaction hands its store and its messages to the state it was opened in; its events are in its tags.\<close>

definition committed_from :: "('st, 'ev, 'msg, 'bv, 'lv, 'g) state \<Rightarrow> ('st, 'ev, 'msg, 'bv, 'lv, 'g) state \<Rightarrow>
    ('st, 'ev, 'msg, 'bv, 'lv, 'g) state \<Rightarrow> bool" where
  "committed_from a w u \<longleftrightarrow> (\<exists>v g. u = a\<lparr>st_store := st_store w, st_messages := st_messages a @ st_messages w,
     st_block_values := v, st_rng := g\<rparr>)"

lemma merge_events_empty [simp]: "merge_events e fmempty = e"
  using fst_fm_entries [of "fmempty :: 'a event_tags"] by (simp add: merge_events_def)

lemma is_check_only_tx [simp]: "is_check_only (e\<lparr>env_tx := x\<rparr>) = is_check_only e"
  by (simp add: is_check_only_def)

lemma tx_transaction_run:
  assumes mods: "\<forall>m \<in> set (rt_modules R). call_steps True nested m" and a: "st_rng a \<noteq> None"
    and init: "state_init [] (tx_options tx opts) (state_open snapshot_ops a) = Ok s1"
    and call: "dispatch_tx_call R c (tx_call tx) opts s1 = (Ok (result, metadata), w)"
  shows "\<exists>d u. dr_result d = result \<and> dr_call_format_metadata d = metadata \<and>
    with_transaction_opts snapshot_ops [] (tx_options tx opts) (dispatch_tx_body R c (tx_call tx) opts) a = (Ok d, u) \<and>
    (if succeeds result (tx_call tx) (st_env a) then committed_from a w u else rolled_back a u) \<and>
    bv_fee_manager (st_block_values u) = bv_fee_manager (st_block_values w)"
proof -
  let ?body = "dispatch_tx_body R c (tx_call tx) opts"
  obtain s1' x t where run: "state_init [] (tx_options tx opts) (state_open snapshot_ops a) = Ok s1'" "?body s1' = (x, t)" "nested s1' t"
      "child_of a t" "st_rng s1' \<noteq> None"
      "with_transaction_opts snapshot_ops [] (tx_options tx opts) ?body a = close_transaction snapshot_ops (level t) (x, t)"
    by (rule with_transaction_nested [OF dispatch_tx_body_steps [OF mods] a])
  have s1: "s1' = s1" using run(1) init by simp
  have w: "nested s1 w" by (rule stepsD [OF dispatch_tx_call_steps [OF nest.step_rel_axioms mods] call]) simp
  then have env: "succeeds result (tx_call tx) (st_env w) = succeeds result (tx_call tx) (st_env a)"
    using run(5) init_with_tx(3) [OF init] by (simp add: nested_def s1 succeeds_def)
  have bv: "returned_block_values t = st_block_values t" "\<not> st_always_rollback t"
    using run(3,5) init_with_tx(4,5) [OF init] by (simp_all add: nested_def s1 returned_block_values_def)
  obtain d where d: "dr_result d = result \<and> dr_call_format_metadata d = metadata" "x = Ok (if succeeds result (tx_call tx) (st_env w) then Commit d else Rollback d)"
      "st_store t = st_store w" "st_messages t = st_messages w"
      "bv_fee_manager (st_block_values t) = bv_fee_manager (st_block_values w)"
      "succeeds result (tx_call tx) (st_env w) \<Longrightarrow> st_events t = fmempty \<and> st_unconditional_events t = fmempty"
    using dispatch_tx_body_run [OF call] run(2) by (auto simp: s1)
  show ?thesis
  proof (cases "succeeds result (tx_call tx) (st_env a)")
    case True
    then show ?thesis using d env bv run(6) close_commit [OF run(4), of d]
      by (intro exI [of _ d] exI [of _ "snd (close_transaction snapshot_ops (level t) (x, t))"]) (auto simp: committed_from_def)
  next
    case False
    then show ?thesis using d env bv run(6) close_rollback [OF run(4), of d]
      by (intro exI [of _ d]) (auto simp: rolled_back_def)
  qed
qed

lemma tx_transaction_stuck:
  assumes mods: "\<forall>m \<in> set (rt_modules R). call_steps True nested m" and a: "st_rng a \<noteq> None"
    and init: "state_init [] (tx_options tx opts) (state_open snapshot_ops a) = Ok s1"
    and call: "\<And>r w. dispatch_tx_call R c (tx_call tx) opts s1 \<noteq> (Ok r, w)"
  shows "\<exists>r u. with_transaction_opts snapshot_ops [] (tx_options tx opts) (dispatch_tx_body R c (tx_call tx) opts) a = (r, u) \<and>
    (r = Panic \<or> (\<exists>e. r = Err e)) \<and> rolled_back a u"
proof -
  let ?body = "dispatch_tx_body R c (tx_call tx) opts"
  obtain s1' x t where run: "state_init [] (tx_options tx opts) (state_open snapshot_ops a) = Ok s1'" "?body s1' = (x, t)"
      "child_of a t"
      "with_transaction_opts snapshot_ops [] (tx_options tx opts) ?body a = close_transaction snapshot_ops (level t) (x, t)"
    by (rule with_transaction_nested [OF dispatch_tx_body_steps [OF mods] a])
  have s1: "s1' = s1" using run(1) init by simp
  obtain y w where y: "dispatch_tx_call R c (tx_call tx) opts s1 = (y, w)" by (cases "dispatch_tx_call R c (tx_call tx) opts s1")
  show ?thesis
  proof (cases y)
    case (Err e)
    then show ?thesis using dispatch_tx_body_stuck(2) [OF y [unfolded Err]] run close_err [OF run(3)] by (auto simp: s1 rolled_back_def)
  next
    case Panic
    then show ?thesis using dispatch_tx_body_stuck(1) [OF y [unfolded Panic]] run close_panic [OF run(3)] by (auto simp: s1 rolled_back_def)
  qed (use y call in blast)
qed

text \<open>The outcomes of dispatching a transaction that neither panics nor is undefined.\<close>

lemma dispatch_tx_opts_cases:
  fixes R :: "('m, 'g) sdk_state runtime"
  assumes mods: "\<forall>m \<in> set (rt_modules R). call_steps True nested m \<and> tx_steps True nested m" and s: "st_rng s \<noteq> None"
    and run: "dispatch_tx_opts R c tx opts s = (Ok r, t)"
  obtains (rejected) e where "\<not> do_skip_authentication opts" "modules_authenticate_tx (rt_modules R) tx s = (Err e, t)"
      "r = Inr (dispatch_result_of (into_call_result (rt_show R) e))"
    | (dispatched) a s1 result metadata w d u where "authenticated R tx opts s a" "nested s a"
        "state_init [] (tx_options tx opts) (state_open snapshot_ops a) = Ok s1"
        "dispatch_tx_call R c (tx_call tx) opts s1 = (Ok (result, metadata), w)"
        "if succeeds result (tx_call tx) (st_env a) then committed_from a w u else rolled_back a u"
        "bv_fee_manager (st_block_values u) = bv_fee_manager (st_block_values w)"
        "modules_after_dispatch_tx (rt_modules R) (tx_auth_info tx) result u = (Ok (), t)"
        "dr_result d = result" "r = (case result of Res_Aborted err \<Rightarrow> Inl err | _ \<Rightarrow> Inr d)"
proof -
  have cmods: "\<forall>m \<in> set (rt_modules R). call_steps True nested m" and tmods: "\<forall>m \<in> set (rt_modules R). tx_steps True nested m"
    using mods by auto
  let ?auth = "(if do_skip_authentication opts then return_op (Inr Continue) else try_op (modules_authenticate_tx (rt_modules R) tx))
    :: (('m, 'g) sdk_state, ub, core_error + auth_decision) rust_op"
  obtain x a where x: "?auth s = (x, a)" by (cases "?auth s")
  have "steps True nested ?auth"
    by (auto intro!: nest.steps_try nest.modules_tx_steps(1) [OF tmods])
  from stepsD [OF this x] have a: "nested s a" by simp
  show thesis
  proof (cases "\<exists>e. x = Ok (Inl e)")
    case True
    then obtain e where e: "x = Ok (Inl e)" by blast
    show thesis by (rule rejected [of e]) (use run x e in \<open>auto simp: dispatch_tx_opts_def try_op_iff return_op_def split: if_splits\<close>)
  next
    case False
    then obtain dec where dec: "x = Ok (Inr dec)"
      using run x by (cases x) (auto simp: dispatch_tx_opts_def split: sum.splits)
    have auth: "authenticated R tx opts s a"
      using x dec by (auto simp: authenticated_def try_op_iff return_op_def split: if_splits)
    have ra: "st_rng a \<noteq> None" using a s by (simp add: nested_def)
    let ?wt = "with_transaction_opts snapshot_ops [] (tx_options tx opts) (dispatch_tx_body R c (tx_call tx) opts)"
    obtain s1 where s1: "state_init [] (tx_options tx opts) (state_open snapshot_ops a) = Ok s1" by (rule init_child [OF ra])
    have rest: "bind_op ?wt (\<lambda>result. seq_op (modules_after_dispatch_tx (rt_modules R) (tx_auth_info tx) (dr_result result))
       (return_op (case dr_result result of Res_Aborted err \<Rightarrow> Inl err | _ \<Rightarrow> Inr result))) a = (Ok r, t)"
      using run x dec by (simp add: dispatch_tx_opts_def)
    obtain res w where call: "dispatch_tx_call R c (tx_call tx) opts s1 = (Ok res, w)"
      using tx_transaction_stuck [OF cmods ra s1, of c] rest by fastforce
    obtain result metadata where res: "res = (result, metadata)" by (cases res)
    obtain d u where d: "dr_result d = result" "?wt a = (Ok d, u)"
        "if succeeds result (tx_call tx) (st_env a) then committed_from a w u else rolled_back a u"
        "bv_fee_manager (st_block_values u) = bv_fee_manager (st_block_values w)"
      using tx_transaction_run [OF cmods ra s1 call [unfolded res]] by blast
    show thesis
      by (rule dispatched [OF auth a s1 call [unfolded res] d(3,4) _ d(1)])
        (use rest d(1,2) in \<open>auto simp: seq_op_def bind_op_Ok_iff return_op_def\<close>)
  qed
qed

section \<open>Everything stays at its level\<close>

definition nested_runtime :: "('m, 'g) sdk_state runtime \<Rightarrow> bool" where
  "nested_runtime R \<longleftrightarrow> (\<forall>m \<in> set (rt_modules R). nested_module m) \<and> steps True nested (rt_migrate_state R)"

lemma nested_runtimeD:
  assumes "nested_runtime R"
  shows "\<forall>m \<in> set (rt_modules R). call_steps True nested m" "\<forall>m \<in> set (rt_modules R). tx_steps True nested m"
    "\<forall>m \<in> set (rt_modules R). decode_steps True nested m" "\<forall>m \<in> set (rt_modules R). block_steps True nested m"
    "steps True nested (rt_migrate_state R)"
  using assms by (auto simp: nested_runtime_def nested_module_def)

lemma steps_pan: "steps True S m \<Longrightarrow> steps pan S m"
  by (simp add: steps_def)

lemma dispatch_tx_opts_steps:
  assumes "nested_runtime R"
  shows "steps pan nested (dispatch_tx_opts R c tx opts)"
  unfolding dispatch_tx_opts_def
  by (rule steps_pan)
    (auto intro!: nest.steps_bind nest.steps_seq nest.steps_try with_transaction_steps dispatch_tx_body_steps
      nest.modules_tx_steps nested_runtimeD [OF assms] split: sum.splits)

lemma execute_tx_steps:
  assumes "nested_runtime R"
  shows "steps pan nested (execute_tx R c tx_sz h tx i)"
  unfolding execute_tx_def execute_tx_opts_def
  by (rule nest.steps_bind [OF dispatch_tx_opts_steps [OF assms]])
    (auto intro!: stepsI nest.step_refl split: sum.splits option.splits simp: return_op_def)

lemma decode_tx_steps:
  assumes "nested_runtime R"
  shows "steps pan nested (decode_tx R c raw)"
  unfolding decode_tx_def
  by (rule steps_pan)
    (auto intro!: nest.steps_bind nest.steps_seq nest.modules_decode_steps nested_runtimeD [OF assms] nest.steps_return nest.steps_throw
      nest.steps_ok_or split: list.splits auth_proof.splits sum.splits)

lemma preschedule_steps:
  assumes "nested_runtime R"
  shows "steps pan nested (preschedule R c tx opts)"
proof -
  have run: "steps True nested (bind_op (dispatch_tx_opts R c tx (opts\<lparr>do_skip_authentication := True\<rparr>)) (\<lambda>r. return_op (f r)))" for f
    by (rule nest.steps_bind [OF dispatch_tx_opts_steps [OF assms]]) auto
  have branch: "steps True nested (case auth of Inl Core_FutureNonce \<Rightarrow> return_op a | Inl _ \<Rightarrow> return_op b | Inr _ \<Rightarrow> m)"
    if "steps True nested m" for m :: "(('a, 'b) sdk_state, ub, 'z) rust_op" and a b :: 'z and auth :: "core_error + auth_decision"
  proof (cases auth)
    case (Inl e)
    then show ?thesis by (cases e) auto
  qed (simp add: that)
  show ?thesis
    unfolding preschedule_def
    by (rule steps_pan, rule nest.steps_bind [OF nest.steps_try [OF nest.modules_tx_steps(1) [OF nested_runtimeD(2) [OF assms]]]])
      (rule branch, rule run)
qed

lemma migrate_steps:
  assumes "nested_runtime R"
  shows "steps pan nested (migrate R)"
proof -
  have mods: "steps True nested (modules_init_or_migrate ms meta)" if "\<forall>m \<in> set ms. block_steps True nested m"
    for ms :: "('a, 'b) sdk_state module_ops list" and meta
    using that by (induction ms arbitrary: meta) (auto simp: block_steps_def intro!: nest.steps_bind)
  have glob: "steps True nested (migrate_global R r)" for r
  proof (rule stepsI)
    fix s x t
    assume run: "migrate_global R r s = (x, t)"
    have "steps True nested (seq_op (rt_migrate_state R) (return_op (True, meta)) :: (('a, 'b) sdk_state, ub, _) rust_op)" for meta
      by (rule nest.steps_seq [OF nested_runtimeD(5) [OF assms]]) auto
    note g = stepsD [OF this]
    show "nested s t"
      using run g by (auto simp: migrate_global_def Let_def split: prod.splits if_splits intro: nest.step_refl)
  qed
  show ?thesis
    unfolding migrate_def
    by (rule steps_pan) (auto intro!: nest.steps_bind mods [OF nested_runtimeD(4) [OF assms]] glob nested_update)
qed

section \<open>Queries and trial runs\<close>

lemma query_body_steps:
  assumes "nested_runtime R"
  shows "steps pan nested (query_body R method args)"
  using nested_runtimeD(4) [OF assms]
  unfolding query_body_def modules_dispatch_query_def
  by - (rule steps_pan,
      auto intro!: nest.steps_seq nest.steps_bind nest.steps_first_handled migrate_steps [OF assms] simp: block_steps_def)

lemma dispatch_query_run:
  assumes "nested_runtime R" "st_rng s \<noteq> None" "dispatch_query R method args s = (r, t)"
  shows "r \<noteq> Panic \<and> rolled_back s t"
proof (cases args)
  case None
  have "rolled_back s s" unfolding rolled_back_def by (intro exI [of _ "st_block_values s"] exI [of _ "st_rng s"]) simp
  then show ?thesis using assms(3) None by (auto simp: dispatch_query_def return_op_def)
next
  case (Some a)
  let ?f = "\<lambda>s. case query_body R method a s of
              (Panic, s) \<Rightarrow> (Ok (Rollback (Inl (dispatcher_runtime_error R (QueryAborted ''panic'')))), s)
            | (Ok r, s) \<Rightarrow> (Ok (Rollback r), s)
            | (Err e, s) \<Rightarrow> (Err e, s)"
  have "steps True nested ?f"
    using query_body_steps [OF assms(1), of True _ a] by (auto simp: steps_def split: prod.splits outcome.splits)
  then obtain s1 x u where u: "?f s1 = (x, u)" "child_of s u"
      "with_transaction_opts snapshot_ops [] default_options ?f s = close_transaction snapshot_ops (level u) (x, u)"
    by (rule with_transaction_nested [OF _ assms(2)])
  have x: "(\<exists>v. x = Ok (Rollback v)) \<or> (\<exists>e. x = Err e)" using u(1) by (auto split: prod.splits outcome.splits)
  have run: "close_transaction snapshot_ops (level u) (x, u) = (r, t)"
    using assms(3) u(3) Some by (simp add: dispatch_query_def with_transaction_def)
  show ?thesis using x run by (auto simp: close_rollback [OF u(2)] close_err [OF u(2)])
qed

text \<open>A trial run for scheduling leaves the state exactly as it was, the RNG included.\<close>

lemma init_preschedule:
  assumes "state_init [] (with_mode PreSchedule default_options) (state_open snapshot_ops s) = Ok s1"
  shows "st_always_rollback s1" "st_hidden_block_values s1 = Some (st_block_values s)" "st_hidden_rng s1 = st_rng s"
  using assms
  by (auto simp: state_init_def init_mode_def init_tx_def init_internal_def init_rng_def disable_rng_def hide_block_values_def
      state_open_def snapshot_ops_def with_mode_def default_options_def Let_def)

lemma preschedule_exact:
  assumes "steps True nested f" "st_rng s \<noteq> None"
    and "with_transaction_opts snapshot_ops [] (with_mode PreSchedule default_options) f s = (r, u)"
  shows "u = s"
proof -
  obtain s1 x t where t: "state_init [] (with_mode PreSchedule default_options) (state_open snapshot_ops s) = Ok s1"
      "nested s1 t" "child_of s t" "st_rng s1 \<noteq> None"
      "with_transaction_opts snapshot_ops [] (with_mode PreSchedule default_options) f s = close_transaction snapshot_ops (level t) (x, t)"
    by (rule with_transaction_nested [OF assms(1,2)])
  note i = init_preschedule [OF t(1)]
  have b: "returned_block_values t = st_block_values s" "returned_rng t = st_rng s" "st_always_rollback t"
    using i t(2,4) assms(2) by (simp_all add: nested_def returned_block_values_def returned_rng_def)
  have "snd (close_transaction snapshot_ops (level t) (x, t)) = s"
  proof (cases x)
    case (Ok a)
    then show ?thesis using b by (cases a) (simp_all add: close_commit [OF t(3)] close_rollback [OF t(3)])
  qed (simp_all add: close_err [OF t(3)] close_panic [OF t(3)] b)
  then show ?thesis unfolding t(5) [symmetric] assms(3) by simp
qed

end
