(* ===== verification/Batch_Replay.thy ===== *)
theory Batch_Replay
  imports Dispatcher_Nesting
begin

text \<open>
  A batch that a node has scheduled is executed by the other nodes with the same results and the same
  state: trial runs leave no trace, and what was skipped or rejected changed nothing. The contract behind it is the
  locale \<open>stable_decoding\<close>: decoding a transaction only reads a part of the state that transactions leave alone.
\<close>

section \<open>Executing and decoding lists of transactions\<close>

lemma map_sum_Inr_iff: "map_sum f g x = Inr y \<longleftrightarrow> (\<exists>z. x = Inr z \<and> y = g z)"
  by (cases x) auto

lemma sum_branch_Inr:
  "(case x of Inl e \<Rightarrow> return_op (Inl (g e)) | Inr a \<Rightarrow> f a) s = (Ok (Inr b), t) \<longleftrightarrow> (\<exists>a. x = Inr a \<and> f a s = (Ok (Inr b), t))"
  by (cases x) (auto simp: return_op_def)

lemma sum_map_Inr:
  "(case x of Inl e \<Rightarrow> Inl e | Inr a \<Rightarrow> Inr (f a)) = Inr b \<longleftrightarrow> (\<exists>a. x = Inr a \<and> b = f a)"
  by (cases x) auto

lemma execute_txs_append:
  assumes "execute_txs R c i xs s = (Ok (Inr rs), t)" "execute_txs R c (i + length xs) ys t = (Ok (Inr rs'), u)"
  shows "execute_txs R c i (xs @ ys) s = (Ok (Inr (rs @ rs')), u)"
  using assms
proof (induction xs arbitrary: i s rs)
  case Nil
  then show ?case by (simp add: return_op_def)
next
  case (Cons x xs)
  obtain sz h tx where x: "x = (sz, h, tx)" by (cases x)
  from Cons.prems(1) obtain r s1 rs1 where r: "execute_tx R c sz h tx i s = (Ok (Inr r), s1)"
      "execute_txs R c (i + 1) xs s1 = (Ok (Inr rs1), t)" "rs = r # rs1"
    by (auto simp: x bind_op_Ok_iff sum_branch_Inr return_op_def map_sum_Inr_iff)
  show ?case using Cons.IH [OF r(2)] Cons.prems(2) r by (simp add: x return_op_def)
qed

definition decodes :: "('k \<Rightarrow> bytes \<Rightarrow> (core_error, transaction) outcome) \<Rightarrow> ('m, 'g) sdk_state runtime \<Rightarrow> 'k \<Rightarrow> bytes \<Rightarrow>
    u32 \<times> bytes \<times> transaction \<Rightarrow> bool" where
  "decodes D R k raw e \<longleftrightarrow> (case e of (sz, h, tx) \<Rightarrow>
     length raw < 2 ^ 32 \<and> sz = of_nat (length raw) \<and> h = rt_hash R raw \<and> D k raw = Ok tx)"

text \<open>From \<open>s\<close> with the batch of \<open>sd\<close>, executing further decoded transactions leads to \<open>t\<close> with the batch of \<open>sd'\<close>.\<close>

definition replays :: "('k \<Rightarrow> bytes \<Rightarrow> (core_error, transaction) outcome) \<Rightarrow> ('m, 'g) sdk_state runtime \<Rightarrow> ctx \<Rightarrow> 'k \<Rightarrow>
    ('m, 'g) sdk_state \<Rightarrow> sched \<Rightarrow> ('m, 'g) sdk_state \<Rightarrow> sched \<Rightarrow> bool" where
  "replays D R c k s sd t sd' \<longleftrightarrow> (\<exists>new txs rs. sd_new_batch sd' = sd_new_batch sd @ new \<and> sd_results sd' = sd_results sd @ rs \<and>
     list_all2 (decodes D R k) new txs \<and> execute_txs R c (length (sd_new_batch sd)) txs s = (Ok (Inr rs), t))"

lemma replays_same:
  assumes "sd_new_batch sd' = sd_new_batch sd" "sd_results sd' = sd_results sd"
  shows "replays D R c k s sd s sd'"
  unfolding replays_def
  by (intro exI [of _ "[]"]) (simp add: assms return_op_def)

lemma replays_one:
  assumes "decodes D R k raw (sz, h, tx)" "execute_tx R c sz h tx (length (sd_new_batch sd)) s = (Ok (Inr r), t)"
  shows "replays D R c k s sd t (sd\<lparr>sd_new_batch := sd_new_batch sd @ [raw], sd_results := sd_results sd @ [r]\<rparr>)"
  unfolding replays_def
  by (intro exI [of _ "[raw]"] exI [of _ "[(sz, h, tx)]"] exI [of _ "[r]"]) (simp add: assms return_op_def)

lemma replays_trans:
  assumes "replays D R c k s sd t sd'" "replays D R c k t sd' u sd''"
  shows "replays D R c k s sd u sd''"
proof -
  obtain new txs rs where 1: "sd_new_batch sd' = sd_new_batch sd @ new" "sd_results sd' = sd_results sd @ rs"
      "list_all2 (decodes D R k) new txs" "execute_txs R c (length (sd_new_batch sd)) txs s = (Ok (Inr rs), t)"
    using assms(1) by (auto simp: replays_def)
  obtain new' txs' rs' where 2: "sd_new_batch sd'' = sd_new_batch sd' @ new'" "sd_results sd'' = sd_results sd' @ rs'"
      "list_all2 (decodes D R k) new' txs'" "execute_txs R c (length (sd_new_batch sd')) txs' t = (Ok (Inr rs'), u)"
    using assms(2) by (auto simp: replays_def)
  have "length new = length txs" using 1(3) by (rule list_all2_lengthD)
  then have "execute_txs R c (length (sd_new_batch sd)) (txs @ txs') s = (Ok (Inr (rs @ rs')), u)"
    using execute_txs_append [OF 1(4)] 2(4) 1(1) by simp
  moreover have "list_all2 (decodes D R k) (new @ new') (txs @ txs')" by (rule list_all2_appendI [OF 1(3) 2(3)])
  ultimately show ?thesis
    unfolding replays_def using 1(1,2) 2(1,2)
    by (intro exI [of _ "new @ new'"] exI [of _ "txs @ txs'"] exI [of _ "rs @ rs'"]) simp
qed

section \<open>Scheduling\<close>

definition step_sched :: "sched_step \<Rightarrow> sched" where
  "step_sched st = (case st of Sched_Done sd \<Rightarrow> sd | Sched_Next sd \<Rightarrow> sd)"

lemma step_sched_simps [simp]: "step_sched (Sched_Done sd) = sd" "step_sched (Sched_Next sd) = sd"
  by (simp_all add: step_sched_def)

text \<open>The trial run of a transaction, and what came of a decoded transaction.\<close>

abbreviation trial_run :: "('m, 'g) sdk_state runtime \<Rightarrow> ctx \<Rightarrow> transaction \<Rightarrow> dispatch_options \<Rightarrow>
    (('m, 'g) sdk_state, ub, dispatcher_error + bool \<times> bool) rust_op" where
  "trial_run R c tx opts \<equiv> with_transaction_opts snapshot_ops [] (with_mode PreSchedule default_options)
     (bind_op (preschedule R c tx opts) (\<lambda>v. return_op (of_result v)))"

lemma schedule_decoded_cases:
  fixes s t :: "('m, 'g) sdk_state" and sd :: sched and raw :: bytes and R :: "('m, 'g) sdk_state runtime"
  defines "opts \<equiv> default_dispatch_options\<lparr>do_tx_size := of_nat (length raw), do_tx_index := length (sd_new_batch sd), do_tx_hash := rt_hash R raw\<rparr>"
  assumes decoded: "schedule_decoded R c raw gas sd tx s = (Ok (Inr st), t)"
  obtains (skipped) "sd_new_batch (step_sched st) = sd_new_batch sd" "sd_results (step_sched st) = sd_results sd"
      "t = s \<or> (\<exists>x. trial_run R c tx opts s = (x, t))"
    | (executed) x u r where "length raw < 2 ^ 32" "trial_run R c tx opts s = (x, u)"
      "execute_tx R c (of_nat (length raw)) (rt_hash R raw) tx (length (sd_new_batch sd)) u = (Ok (Inr r), t)"
      "st = Sched_Next (sd\<lparr>sd_new_batch := sd_new_batch sd @ [raw], sd_results := sd_results sd @ [r]\<rparr>)"
proof -
  have small: "length raw < 2 ^ 32" using decoded by (simp add: schedule_decoded_def split: if_splits)
  obtain x u where trial: "trial_run R c tx opts s = (x, u)" by (cases "trial_run R c tx opts s")
  show thesis
  proof (cases "fee_gas tx > gas \<or> fee_consensus_messages (ai_fee (tx_auth_info tx)) >
      saturating_sub (ctx_max_messages c) (of_nat (emitted_messages_count s))")
    case True
    then have "schedule_decoded R c raw gas sd tx s = (Ok (Inr (Sched_Next sd)), s)"
      using small by (cases "fee_gas tx > gas") (simp_all add: schedule_decoded_def)
    then show thesis using decoded by (intro skipped) auto
  next
    case False
    then have run: "bind_op (trial_run R c tx opts) (\<lambda>skip.
            case skip of
              Inl err \<Rightarrow> return_op (Inl err)
            | Inr (True, reject) \<Rightarrow>
                return_op (Inr (Sched_Next (if reject then sd\<lparr>sd_rejects := sd_rejects sd @ [rt_hash R raw]\<rparr> else sd)))
            | Inr (False, _) \<Rightarrow>
                bind_op (execute_tx R c (of_nat (length raw)) (rt_hash R raw) tx (length (sd_new_batch sd))) (\<lambda>r.
                return_op (case r of
                  Inl err \<Rightarrow> Inl err
                | Inr result \<Rightarrow> Inr (Sched_Next (sd\<lparr>sd_new_batch := sd_new_batch sd @ [raw],
                    sd_results := sd_results sd @ [result]\<rparr>))))) s = (Ok (Inr st), t)"
      using decoded small by (simp add: schedule_decoded_def Let_def opts_def)
    obtain skip reject where x: "x = Ok (Inr (skip, reject))"
      using run trial by (cases x) (auto simp: return_op_def split: sum.splits)
    show thesis
    proof (cases skip)
      case True
      then show thesis using run trial x by (intro skipped) (auto simp: return_op_def)
    next
      case False
      then obtain r where "execute_tx R c (of_nat (length raw)) (rt_hash R raw) tx (length (sd_new_batch sd)) u = (Ok (Inr r), t)"
          "st = Sched_Next (sd\<lparr>sd_new_batch := sd_new_batch sd @ [raw], sd_results := sd_results sd @ [r]\<rparr>)"
        using run trial x by (auto simp: bind_op_Ok_iff return_op_def sum_map_Inr)
      then show thesis by (rule executed [OF small trial])
    qed
  qed
qed

locale stable_decoding =
  fixes R :: "('m, 'g) sdk_state runtime" and c :: ctx
    and kappa :: "('m, 'g) sdk_state \<Rightarrow> 'k" and D :: "'k \<Rightarrow> bytes \<Rightarrow> (core_error, transaction) outcome"
  assumes nested: "nested_runtime R"
    and decoding: "decode_tx R c raw s = (D (kappa s) raw, s)"
    and kept: "st_rng s \<noteq> None \<Longrightarrow> execute_tx R c sz h tx i s = (Ok r, t) \<Longrightarrow> kappa t = kappa s"
begin

lemma trial_exact:
  assumes "st_rng s \<noteq> None" "trial_run R c tx opts s = (r, u)"
  shows "u = s"
  by (rule preschedule_exact [OF _ assms]) (auto intro!: nest.steps_bind preschedule_steps [OF nested])

lemma execute_rng: "execute_tx R c sz h tx i s = (x, t) \<Longrightarrow> st_rng s \<noteq> None \<Longrightarrow> st_rng t \<noteq> None"
  using stepsD [OF execute_tx_steps [OF nested, of True], of c sz h tx i s x t] by (simp add: nested_def)

lemma schedule_decoded_replays:
  assumes "st_rng s \<noteq> None" "D (kappa s) raw = Ok tx" "schedule_decoded R c raw gas sd tx s = (Ok (Inr st), t)"
  shows "replays D R c (kappa s) s sd t (step_sched st) \<and> st_rng t \<noteq> None \<and> kappa t = kappa s"
  using assms(3)
proof (cases rule: schedule_decoded_cases)
  case skipped
  then have "t = s" using trial_exact [OF assms(1)] by blast
  then show ?thesis using skipped replays_same [of "step_sched st" sd D R c "kappa s" s] assms(1) by simp
next
  case (executed x u r)
  have u: "u = s" by (rule trial_exact [OF assms(1) executed(2)])
  have dec: "decodes D R (kappa s) raw (of_nat (length raw), rt_hash R raw, tx)" using executed(1) by (simp add: decodes_def assms(2))
  note r = executed(3) [unfolded u]
  show ?thesis
    using replays_one [OF dec r] execute_rng [OF r assms(1)] kept [OF assms(1) r] by (simp add: executed(4))
qed

lemma schedule_tx_replays:
  assumes "st_rng s \<noteq> None" "schedule_tx R c raw sd s = (Ok (Inr st), t)"
  shows "replays D R c (kappa s) s sd t (step_sched st) \<and> st_rng t \<noteq> None \<and> kappa t = kappa s"
proof -
  have same: ?thesis if "t = s" "sd_new_batch (step_sched st) = sd_new_batch sd" "sd_results (step_sched st) = sd_results sd"
    using that replays_same [of "step_sched st" sd D R c "kappa s" s] assms(1) by simp
  show ?thesis
  proof (cases "remaining_batch_gas s < sc_min_remaining_gas (rt_schedule_control R) \<or>
      length (sd_new_batch sd) \<ge> sc_max_tx_count (rt_schedule_control R)")
    case True
    then show ?thesis using assms(2) by (intro same) (auto simp: schedule_tx_def)
  next
    case go: False
    show ?thesis
    proof (cases "D (kappa s) raw")
      case Panic
      then show ?thesis using assms(2) go by (simp add: schedule_tx_def try_op_def decoding)
    next
      case (Err e)
      then show ?thesis using assms(2) go by (intro same) (auto simp: schedule_tx_def try_op_def decoding return_op_def)
    next
      case (Ok tx)
      then show ?thesis
        using assms(2) go schedule_decoded_replays [OF assms(1) Ok, of "remaining_batch_gas s" sd st t]
        by (simp add: schedule_tx_def try_op_def decoding)
    qed
  qed
qed

lemma schedule_txs_replays:
  assumes "st_rng s \<noteq> None" "schedule_txs R c batch sd s = (Ok (Inr st), t)"
  shows "replays D R c (kappa s) s sd t (step_sched st) \<and> st_rng t \<noteq> None \<and> kappa t = kappa s"
  using assms
proof (induction batch arbitrary: sd s)
  case Nil
  then show ?case by (auto simp: return_op_def replays_same)
next
  case (Cons raw batch)
  then obtain st1 s1 where 1: "schedule_tx R c raw sd s = (Ok (Inr st1), s1)"
      and 2: "(case st1 of Sched_Done sd \<Rightarrow> return_op (Inr (Sched_Done sd)) | Sched_Next sd \<Rightarrow> schedule_txs R c batch sd) s1 = (Ok (Inr st), t)"
    by (auto simp: bind_op_Ok_iff sum_branch_Inr)
  note r = schedule_tx_replays [OF Cons.prems(1) 1]
  show ?case
  proof (cases st1)
    case (Sched_Done sd')
    then show ?thesis using r 2 by (auto simp: return_op_def)
  next
    case (Sched_Next sd')
    then show ?thesis using r 2 Cons.IH [of s1 sd'] replays_trans by fastforce
  qed
qed

lemma schedule_loop_replays:
  assumes "st_rng s \<noteq> None" "schedule_loop R c fetch fuel i batch req sd s = (Ok (Some (Inr sd')), t)"
  shows "replays D R c (kappa s) s sd t sd' \<and> st_rng t \<noteq> None \<and> kappa t = kappa s"
  using assms
proof (induction fuel arbitrary: i batch req sd s)
  case 0
  then show ?case by (simp add: return_op_def)
next
  case (Suc fuel)
  obtain x s1 where x: "schedule_txs R c batch sd s = (Ok x, s1)" using Suc.prems(2) by (auto simp: bind_op_Ok_iff)
  then obtain st where "x = Inr st" using Suc.prems(2) by (cases x) (auto simp: return_op_def)
  with x have 1: "schedule_txs R c batch sd s = (Ok (Inr st), s1)" by simp
  note r = schedule_txs_replays [OF Suc.prems(1) 1]
  show ?case
  proof (cases st)
    case (Sched_Done sd1)
    then show ?thesis using Suc.prems(2) 1 r by (auto simp: return_op_def)
  next
    case (Sched_Next sd1)
    then consider (more) fetched where
        "schedule_loop R c fetch fuel (i + 1) fetched (sc_batch_size (rt_schedule_control R)) sd1 s1 = (Ok (Some (Inr sd')), t)"
      | (fin) "sd' = sd1" "t = s1"
      using Suc.prems(2) 1 by (auto simp: return_op_def split: if_splits sum.splits option.splits)
    then show ?thesis
    proof cases
      case more
      show ?thesis using Suc.IH [OF _ more] r Sched_Next replays_trans by fastforce
    next
      case fin
      then show ?thesis using r Sched_Next by simp
    qed
  qed
qed

lemma decode_batch_run:
  assumes "list_all2 (decodes D R (kappa s)) new txs"
  shows "decode_batch R c new s = (Ok txs, s)"
  using assms
  by (induction rule: list_all2_induct)
    (auto simp: decodes_def return_op_def map_err_op_def decoding split: prod.splits)

end

section \<open>Batches\<close>

text \<open>What surrounds the transactions of a block does not depend on how they are executed.\<close>

lemma handle_messages_steps:
  assumes "nested_runtime R"
  shows "steps True nested (handle_messages R events handlers)"
proof (induction events arbitrary: handlers)
  case (Cons event events)
  have "steps True nested (modules_dispatch_message_result (rt_modules R) name x)" for name x
    unfolding modules_dispatch_message_result_def
    by (rule nest.steps_first_handled) (use nested_runtimeD(4) [OF assms] in \<open>auto simp: block_steps_def\<close>)
  then show ?case using Cons by (auto intro!: nest.steps_bind nest.steps_expect split: option.splits sum.splits)
qed auto

lemma block_hooks_steps:
  assumes "nested_runtime R"
  shows "steps True nested (modules_begin_block (rt_modules R))" "steps True nested (modules_end_block (rt_modules R))"
    "steps True nested (handle_last_round_messages R c)"
proof -
  show "steps True nested (modules_begin_block (rt_modules R))" "steps True nested (modules_end_block (rt_modules R))"
    unfolding modules_begin_block_def modules_end_block_def
    by (rule nest.steps_for, use nested_runtimeD(4) [OF assms] in \<open>simp add: block_steps_def\<close>)+
  show "steps True nested (handle_last_round_messages R c)"
    using handle_messages_steps [OF assms] by (auto simp: steps_def handle_last_round_messages_def)
qed

lemmas takes = take_messages_def take_all_events_def take_events_def take_unconditional_events_def

lemma batch_body_same:
  fixes R :: "('c \<times> hook_invocation, 'g) sdk_state runtime"
  assumes run: "batch_body R c err f s = (Ok (Inr (res, q)), t)" and R: "nested_runtime R" and s: "st_rng s \<noteq> None"
  obtains s1 t1 results where "f s1 = (Ok (Inr (results, q)), t1)" "st_rng s1 \<noteq> None" "br_results res = results"
    "br_tx_reject_hashes res = []"
    "\<And>(err' :: runtime_error \<Rightarrow> 'y) f' (q' :: 'z). f' s1 = (Ok (Inr (results, q')), t1) \<Longrightarrow> batch_body R c err' f' s = (Ok (Inr (res, q')), t)"
proof -
  obtain a b s1 t1 t2 results where 1: "migrate R s = (Ok (), a)" "handle_last_round_messages R c a = (Ok (), b)"
      "modules_begin_block (rt_modules R) b = (Ok (), s1)" "f s1 = (Ok (Inr (results, q)), t1)"
      "modules_end_block (rt_modules R) t1 = (Ok (), t2)"
    and 2: "(case take_messages t2 of (messages, s) \<Rightarrow> case take_all_events s of (block_tags, s) \<Rightarrow>
         (\<lparr>br_results = results, br_messages = map fst messages, br_block_tags = into_tags block_tags, br_tx_reject_hashes = []\<rparr>,
          save_emitted_message_handlers (map snd messages) s)) = (res, t)"
    using run
    by (auto simp: batch_body_def seq_op_def bind_op_Ok_iff sum_branch_Inr try_op_iff takes)
  have "nested s a" by (rule stepsD [OF migrate_steps [OF R, of True] 1(1)]) simp
  moreover have "nested a b" by (rule stepsD [OF block_hooks_steps(3) [OF R] 1(2)]) simp
  moreover have "nested b s1" by (rule stepsD [OF block_hooks_steps(1) [OF R] 1(3)]) simp
  ultimately have "nested s s1" using nest.step_trans by blast
  then have rng: "st_rng s1 \<noteq> None" using s by (simp add: nested_def)
  have res: "br_results res = results" "br_tx_reject_hashes res = []" using 2 by (auto simp: takes)
  show thesis
  proof (rule that [OF 1(4) rng res])
    fix err' :: "runtime_error \<Rightarrow> 'y" and q' :: 'z
      and f' :: "(('c \<times> hook_invocation, 'g) sdk_state, ub, 'y + (tx_call_result \<times> tags) list \<times> 'z) rust_op"
    assume "f' s1 = (Ok (Inr (results, q')), t1)"
    then show "batch_body R c err' f' s = (Ok (Inr (res, q')), t)"
      using 1 2 by (auto simp: batch_body_def seq_op_def try_op_def takes)
  qed
qed

lemma init_root:
  obtains s :: "('m, 'g) sdk_state" where "state_init [] (with_mode m default_options) (root_state root m) = Ok s" "st_rng s \<noteq> None"
    "st_parents s = []" "st_store s = root" "st_block_values s = default" "st_env s = default_environment\<lparr>env_mode := m\<rparr>"
  | "m = PreSchedule \<or> m = Simulate"
proof (cases "m = PreSchedule \<or> m = Simulate")
  case False
  let ?s = "(root_state root m :: ('m, 'g) sdk_state)\<lparr>st_env := default_environment\<lparr>env_mode := m\<rparr>, st_rng := Some (append_subcontext (rng_new m))\<rparr>"
  show thesis
    by (rule that(1) [of ?s])
      (use False in \<open>simp_all add: state_init_def init_mode_def init_tx_def init_internal_def init_rng_def map_rng_def root_state_def
        with_mode_def default_options_def Let_def\<close>)
qed (rule that(2))

lemma scheduled_batch_same:
  fixes R :: "('c \<times> hook_invocation, 'g) sdk_state runtime"
  assumes "stable_decoding R c kappa D" "schedule_and_execute_batch R c fetch fuel root batch = (Ok (Inr (res, new)), root')"
  shows "execute_batch R c root new = (Ok (Inr (res\<lparr>br_tx_reject_hashes := []\<rparr>, ())), root')"
proof -
  let ?loop = "schedule_loop R c fetch fuel 0 batch (sc_initial_batch_size (rt_schedule_control R)) empty_sched"
  let ?f = "bind_op ?loop (\<lambda>r. return_op (case r of None \<Rightarrow> Inl None | Some (Inl e) \<Rightarrow> Inl (Some e)
      | Some (Inr sd) \<Rightarrow> Inr (sd_results sd, sd)))"
  obtain s :: "('c \<times> hook_invocation, 'g) sdk_state" where s: "state_init [] (with_mode Execute default_options) (root_state root Execute) = Ok s"
      "st_rng s \<noteq> None"
    by (rule init_root [of Execute root]) auto
  obtain res0 sd t where body: "batch_body R c Some ?f s = (Ok (Inr (res0, sd)), t)" "root' = st_store t"
      "res = res0\<lparr>br_tx_reject_hashes := sd_rejects sd\<rparr>" "new = sd_new_batch sd"
    using assms(2) s(1)
    by (auto simp: schedule_and_execute_batch_def execute_batch_common_def enter_opts_def with_mode_def split: prod.splits outcome.splits sum.splits)
  have R: "nested_runtime R" using assms(1) by (simp add: stable_decoding_def)
  obtain s1 t1 results where f: "?f s1 = (Ok (Inr (results, sd)), t1)" "st_rng s1 \<noteq> None" "br_results res0 = results" "br_tx_reject_hashes res0 = []"
    and same: "\<And>(err' :: runtime_error \<Rightarrow> runtime_error) f' (q' :: unit). f' s1 = (Ok (Inr (results, q')), t1) \<Longrightarrow>
      batch_body R c err' f' s = (Ok (Inr (res0, q')), t)"
    by (rule batch_body_same [OF body(1) R s(2)]) blast
  obtain x where x: "?loop s1 = (Ok x, t1)"
      "(case x of None \<Rightarrow> Inl None | Some (Inl e) \<Rightarrow> Inl (Some e) | Some (Inr sd) \<Rightarrow> Inr (sd_results sd, sd)) = Inr (results, sd)"
    using f(1) by (auto simp: bind_op_Ok_iff return_op_def)
  then have "x = Some (Inr sd) \<and> results = sd_results sd" by (cases "x = None"; cases "the x") auto
  then have loop: "?loop s1 = (Ok (Some (Inr sd)), t1)" "results = sd_results sd" using x(1) by simp_all
  have "replays D R c (kappa s1) s1 empty_sched t1 sd"
    using stable_decoding.schedule_loop_replays [OF assms(1) f(2) loop(1)] by simp
  then obtain txs where txs: "list_all2 (decodes D R (kappa s1)) new txs" "execute_txs R c 0 txs s1 = (Ok (Inr (sd_results sd)), t1)"
    by (auto simp: replays_def empty_sched_def body(4))
  have dec: "decode_batch R c new s1 = (Ok txs, s1)" by (rule stable_decoding.decode_batch_run [OF assms(1) txs(1)])
  have "batch_body R c id (bind_op (try_op (decode_batch R c new)) (\<lambda>decoded.
        case decoded of Inl err \<Rightarrow> return_op (Inl (dispatcher_runtime_error R err))
        | Inr txs \<Rightarrow> bind_op (execute_txs R c 0 txs) (\<lambda>results.
            return_op (map_sum (dispatcher_runtime_error R) (\<lambda>rs. (rs, ())) results)))) s = (Ok (Inr (res0, ())), t)"
    by (rule same) (simp add: try_op_def dec txs(2) loop(2) return_op_def)
  moreover have "res\<lparr>br_tx_reject_hashes := []\<rparr> = res0" using body(3) f(4) by simp
  ultimately show ?thesis
    using s(1) body(2) by (simp add: execute_batch_def execute_batch_common_def enter_opts_def with_mode_def)
qed

end
