(* ===== verification/Module_Contracts.thy ===== *)
theory Module_Contracts
  imports Runtime_Modules Batch_Replay
begin

text \<open>
  The core, accounts and rewards modules keep the contracts the dispatcher relies on: they leave the
  nesting of states and the parameters of the core module alone, so that decoding is stable, and they keep the books.
\<close>

section \<open>Nesting and parameters\<close>

definition mild :: "('m, 'g) sdk_state \<Rightarrow> ('m, 'g) sdk_state \<Rightarrow> bool" where
  "mild s t \<longleftrightarrow> st_rng t = st_rng s \<and> st_parents t = st_parents s \<and> st_hidden_block_values t = st_hidden_block_values s \<and>
     st_hidden_rng t = st_hidden_rng s \<and> st_always_rollback t = st_always_rollback s \<and> st_env t = st_env s \<and>
     core_params_of (st_store t) = core_params_of (st_store s)"

interpretation mild: step_rel mild
  by unfold_locales (auto simp: mild_def)

interpretation mild_pair: step_rel "\<lambda>p q. mild (snd p) (snd q)"
  by unfold_locales (auto simp: mild_def)

lemma mild_nested: "mild s t \<Longrightarrow> nested s t"
  by (simp add: mild_def nested_def)

lemma mild_steps_nested: "steps True mild m \<Longrightarrow> steps pan nested m"
  by (rule steps_mono [of True mild]) (auto intro: mild_nested)

lemma mild_run: "steps True mild m \<Longrightarrow> m s = (r, t) \<Longrightarrow> mild s t"
  by (simp add: steps_def)

declare mild.step_refl [simp]

lemma mild_upd [simp]:
  "(\<And>st. core_params_of (f st) = core_params_of st) \<Longrightarrow> mild s (upd_store f s)" "mild s (upd_block g s)" "mild s (upd_local h s)"
  "mild s (emit_event_raw k v s)" "mild s (emit_unconditional_event k v s)"
  by (simp_all add: mild_def upd_store_def upd_block_def upd_local_def emit_event_raw_def emit_unconditional_event_def)

lemma mild_update: "(\<And>s. mild s (f s)) \<Longrightarrow> steps pan mild (update_op f)"
  by (auto simp: steps_def update_op_def)

named_theorems mild_steps \<open>operations that leave nesting and parameters alone\<close>

lemmas mild_rules = mild.steps_bind mild.steps_seq mild.steps_try mild.steps_expect mild.steps_map_err mild.steps_for
  mild.steps_return mild.steps_throw mild.steps_reads mild.steps_ok_or

subsection \<open>Generated handlers\<close>

context step_rel
begin

lemma steps_by_method: "(\<And>n h body. (n, h) \<in> set handlers \<Longrightarrow> steps pan R (h body)) \<Longrightarrow> steps pan R (by_method handlers method body)"
  by (auto simp: by_method_def split: option.splits dest: map_of_SomeD)

lemma steps_dispatch_handler:
  "(\<And>args. steps pan R (f args)) \<Longrightarrow> steps pan R (dispatch_handler decode encode sh result_of f body)"
  by (auto simp: dispatch_handler_def intro!: steps_bind steps_try split: option.splits)

lemma steps_query_handler: "(\<And>args. steps pan R (f args)) \<Longrightarrow> steps pan R (query_handler decode encode mal err f body)"
  by (auto simp: query_handler_def intro!: steps_bind steps_try split: option.splits)

lemma steps_result: "steps pan R (result_op r)"
  by (auto simp: result_op_def split: sum.splits)

lemma steps_panic: "steps pan R panic_op"
  by (simp add: steps_def panic_op_def step_refl)

lemma steps_init_or_migrate:
  assumes "\<And>v m. (v, m) \<in> set arms \<Longrightarrow> steps pan R m"
  shows "steps pan R (init_or_migrate NAME VERSION arms meta)"
proof -
  have "steps pan R (migration_arms VERSION arms version)" for version
    using assms
  proof (induction arms arbitrary: version)
    case (Cons arm arms)
    then show ?case by (cases arm) (auto intro!: steps_seq)
  qed auto
  then show ?thesis by (auto simp: init_or_migrate_def intro!: steps_bind steps_panic)
qed

end

subsection \<open>Core\<close>

text \<open>
  What the core module does around a call: it counts gas in values of the transaction and of the block and reports it
  in an event. Any relation that allows this holds between the states before and after.
\<close>

locale gas_rel = step_rel R for R :: "('m, 'g) sdk_state \<Rightarrow> ('m, 'g) sdk_state \<Rightarrow> bool" +
  assumes counts_tx: "R s (upd_local h s)"
    and counts_batch: "R s (upd_block (\<lambda>b. b\<lparr>bv_gas_used := g\<rparr>) s)"
    and reports: "R s (emit_unconditional_event k v s)"
begin

lemma run: "steps True R m \<Longrightarrow> m s = (r, t) \<Longrightarrow> R s t"
  by (simp add: steps_def)

lemma sets_tx_gas: "R s (set_used_tx_gas g s)"
  unfolding set_used_tx_gas_def by (rule counts_tx)

lemma uses_batch_gas: "steps True R (use_batch_gas gas)"
  by (auto intro!: stepsI simp: use_batch_gas_def split: if_splits option.splits intro: counts_batch step_refl)

lemma uses_tx_gas: "steps True R (use_tx_gas cfg gas)"
proof (rule stepsI)
  fix s :: "('m, 'g) sdk_state" and r t
  assume use: "use_tx_gas cfg gas s = (r, t)"
  have "steps True R (seq_op (use_batch_gas gas) (update_op (set_used_tx_gas w)) :: (('m, 'g) sdk_state, core_error, unit) rust_op)" for w
    by (intro steps_seq uses_batch_gas stepsI) (auto simp: update_op_def intro: sets_tx_gas)
  note go = run [OF this]
  show "R s t"
    using use sets_tx_gas [of s "used_tx_gas s"]
    by (auto simp: use_tx_gas_def Let_def split: option.splits if_splits intro: step_refl dest!: go intro: step_trans)
qed

lemma reads_tx_gas: "steps True R remaining_tx_gas"
  by (auto intro!: stepsI simp: remaining_tx_gas_def Let_def sets_tx_gas step_refl split: option.splits)

lemma checks:
  "steps True R (enforce_min_gas_price cfg c cl)" "steps True R (approve_raw_tx raw)"
  "steps True R (approve_unverified_tx utx)" "steps True R (core_authenticate_tx c tx)"
  by (auto intro!: stepsI simp: enforce_min_gas_price_def approve_raw_tx_def approve_unverified_tx_def core_authenticate_tx_def Let_def
      step_refl split: if_splits option.splits sum.splits)

lemma charges: "steps True R (charge_tx_size cfg p)" "steps True R (charge_signatures cfg p)"
proof -
  have "steps True R (bind_op (ok_or_op e x) (use_tx_gas cfg))" for e and x :: "u64 option"
    by (intro steps_bind steps_ok_or uses_tx_gas)
  note go = run [OF this]
  show "steps True R (charge_tx_size cfg p)" "steps True R (charge_signatures cfg p)"
    by (auto intro!: stepsI simp: charge_tx_size_def charge_signatures_def step_refl split: option.splits dest: go)
qed

lemma before_call: "steps True R (core_before_handle_call cfg c cl)"
proof -
  have "steps True R (seq_op (enforce_min_gas_price cfg c cl) (seq_op (charge_tx_size cfg p) (seq_op (charge_signatures cfg p)
     (case call_format_of cl of Plain \<Rightarrow> return_op () | EncryptedX25519DeoxysII \<Rightarrow> use_tx_gas cfg g)))
     :: (('m, 'g) sdk_state, core_error, unit) rust_op)" for p g
    by (cases "call_format_of cl") (auto intro!: steps_seq checks charges uses_tx_gas)
  note go = run [OF this]
  show ?thesis
    by (auto intro!: stepsI simp: core_before_handle_call_def Let_def step_refl split: option.splits if_splits dest: go)
qed

lemma after_call: "steps True R (core_after_handle_call cfg pend c)"
proof (rule stepsI)
  fix s :: "('m, 'g) sdk_state" and r t
  assume after: "core_after_handle_call cfg pend c s = (r, t)"
  show "R s t"
  proof (cases "env_internal (st_env s)")
    case True
    then show ?thesis using after by (auto simp: core_after_handle_call_def step_refl)
  next
    case False
    let ?s1 = "set_used_tx_gas (used_tx_gas s) s"
    let ?m = "max (used_tx_gas s) (max (storage_gas (core_params_now s) (pend s))
      (message_gas (core_params_now s) (ctx_max_messages c) (emitted_messages_local_count s)))"
    obtain x u where x: "use_tx_gas cfg (?m - used_tx_gas s) ?s1 = (x, u)" by (cases "use_tx_gas cfg (?m - used_tx_gas s) ?s1")
    have u: "R s u" using run [OF uses_tx_gas x] sets_tx_gas step_trans by blast
    have e: "R s (emit_unconditional_event k v (set_used_tx_gas g u))" for k v g
      using u sets_tx_gas reports step_trans by meson
    show ?thesis using after False x u e
      by (cases x) (auto simp: core_after_handle_call_def Let_def split: if_splits)
  qed
qed

lemma internal_call: "(\<And>args. steps True R (f args)) \<Longrightarrow> steps True R (internal_only lift f args)"
  by (simp add: steps_def internal_only_def step_refl)

lemma core_calls: "steps True R (internal_calldata_public_key cfg F km c)" "steps True R (internal_current_epoch cfg c)"
  unfolding internal_calldata_public_key_def internal_current_epoch_def
  by (intro steps_seq uses_tx_gas steps_result steps_return)+

lemma core_module_steps:
  "call_steps True R (core_module cfg pend c K g)" "tx_steps True R (core_module cfg pend c K g)"
  "decode_steps True R (core_module cfg pend c K g)"
  by (auto simp: call_steps_def tx_steps_def decode_steps_def core_module_def default_module_def
      intro!: steps_by_method steps_dispatch_handler internal_call core_calls before_call after_call checks)

end

interpretation mgas: gas_rel mild
  by unfold_locales simp_all

declare mgas.uses_batch_gas [mild_steps] mgas.uses_tx_gas [mild_steps] mgas.reads_tx_gas [mild_steps] mgas.checks [mild_steps]

lemma core_block_mild [mild_steps]: "steps True mild (update_op (core_begin_block c))" "steps True mild (update_op core_end_block)"
  by (rule mild_update, auto simp: core_begin_block_def core_end_block_def Let_def mild_def upd_store_def upd_block_def)+

subsection \<open>Accounts\<close>

lemma amounts_mild [mild_steps]:
  "steps True mild (add_amount a amt)" "steps True mild (sub_amount a amt)" "steps True mild (ensure_balance a amt)"
  by (auto intro!: stepsI simp: add_amount_def sub_amount_def ensure_balance_def put_balance_def split: if_splits option.splits)

lemma emit_mild [mild_steps]: "steps True mild (emit_event ev)" "steps True mild (emit_unconditional ev)"
  unfolding emit_event_def emit_unconditional_def by (auto intro!: mild_update mild_upd)

lemma transfer_mild [mild_steps]: "steps True mild (transfer a b amt)"
proof -
  have "steps True mild (seq_op (transfer_silent a b amt) (emit_event ev))" for ev
    unfolding transfer_silent_def by (intro mild_rules mild_steps)
  note go = mild_run [OF this]
  show ?thesis by (auto intro!: stepsI simp: transfer_def split: if_splits dest: go)
qed

lemma record_fee_mild [mild_steps]: "steps True mild (record_fee_op a amt)"
  by (auto intro!: stepsI simp: record_fee_op_def put_fee_manager_def split: option.splits)

lemma charge_tx_fee_mild [mild_steps]: "steps True mild (charge_tx_fee a amt)"
proof -
  have "steps True mild (seq_op (map_err_op (\<lambda>_. Core_InsufficientFeeBalance) (sub_amount a amt)) (record_fee_op a amt))"
    by (intro mild_rules mild_steps)
  note go = mild_run [OF this]
  show ?thesis by (auto intro!: stepsI simp: charge_tx_fee_def split: if_splits dest: go)
qed

lemma check_signer_nonces_mild [mild_steps]: "steps True mild (check_signer_nonces c ai)"
  by (auto intro!: stepsI simp: check_signer_nonces_def Let_def set_sender_meta_def split: sum.splits option.splits if_splits)

lemma update_nonces_mild: "update_nonces c sis s = (r, t) \<Longrightarrow> mild s t"
proof (induction sis arbitrary: s)
  case (Cons si sis)
  have "mild s (set_nonce a n s)" for a n by (simp add: set_nonce_def)
  then show ?case using Cons by (auto simp: Let_def split: option.splits intro: mild.step_trans)
qed auto

lemma charge_fees_mild [mild_steps]: "steps True mild (charge_fees tx payer)"
proof (rule stepsI)
  fix s :: "('a, 'b) sdk_state" and r t
  assume run: "charge_fees tx payer s = (r, t)"
  have "steps True mild (seq_op (if b then seq_op (map_err_op (\<lambda>_. Core_InsufficientFeeBalance) (ensure_balance payer amt)) (record_fee_op payer amt)
      else charge_tx_fee payer amt) (update_op (set_priority p)))" for b amt p
    by (cases b) (auto intro!: mild_rules mild_steps mild_update simp: set_priority_def)
  note go = mild_run [OF this [of True, simplified]] mild_run [OF this [of False, simplified]]
  show "mild s t" using run by (auto simp: charge_fees_def Let_def split: if_splits dest: go)
qed

lemma accounts_authenticate_mild [mild_steps]:
  "steps True mild (resolve tx) \<Longrightarrow> steps True mild (accounts_authenticate_tx c resolve tx)"
  unfolding accounts_authenticate_tx_def
  by (intro mild_rules mild_steps)
    (auto intro!: stepsI simp: update_signer_nonces_def split: if_splits dest: update_nonces_mild)

lemma refund_fee_mild [mild_steps]: "steps True mild refund_fee"
proof (rule stepsI)
  fix s :: "('a, 'b) sdk_state" and r t
  assume run: "refund_fee s = (r, t)"
  obtain refund u where u: "take_refund_unused_tx_fee s = (refund, u)" by (cases "take_refund_unused_tx_fee s")
  then have "mild s u" by (auto simp: take_refund_unused_tx_fee_def split: if_splits)
  moreover have "mild u t"
  proof (cases refund)
    case True
    obtain x v where x: "remaining_tx_gas u = (x, v)" by (cases "remaining_tx_gas u")
    have "mild u v" by (rule mild_run [OF mgas.reads_tx_gas x])
    then show ?thesis using run u True x by (cases x) (auto simp: refund_fee_def split: option.splits)
  qed (use run u in \<open>auto simp: refund_fee_def\<close>)
  ultimately show "mild s t" by (rule mild.step_trans)
qed

lemma accounts_after_handle_call_mild [mild_steps]: "steps True mild (accounts_after_handle_call c)"
  unfolding accounts_after_handle_call_def
proof (intro mild_rules mild_steps stepsI)
  fix refund s r t
  assume run: "(let m = record_refund refund (fee_manager_now s); s = put_fee_manager m s;
           f = (case mgr_tx_fee m of Some f \<Rightarrow> f | None \<Rightarrow> default_transaction_fee)
       in if tx_fee_amount f > 0
          then emit_unconditional (Ev_Transfer (tf_payer f) (ADDRESS_FEE_ACCUMULATOR c) (BaseUnits (tx_fee_amount f) (tf_denomination f))) s
          else (Ok (), s)) = (r, t)"
  have p: "mild s (put_fee_manager m s)" for m by (simp add: put_fee_manager_def)
  then have "mild s (emit_unconditional_event k v (put_fee_manager m s))" for k v m
    using mild_upd(5) mild.step_trans by meson
  then show "mild s t" using run p by (auto simp: Let_def split: if_splits)
qed

lemma accounts_after_dispatch_mild [mild_steps]: "steps True mild (accounts_after_dispatch_tx ai ok)"
proof (rule stepsI)
  fix s :: "('a, 'b) sdk_state" and r t
  assume run: "accounts_after_dispatch_tx ai ok s = (r, t)"
  have "steps True mild (\<lambda>s. if \<not> is_check_only (st_env s) then (Ok (), s) else if \<not> ok then (Ok (), s) else expect_op (sub_amount a amt) s)"
    for a amt
    using mild_run [OF mild.steps_expect [OF amounts_mild(2)]] by (auto intro!: stepsI split: if_splits)
  then have "steps True mild (seq_op (expect_op (add_amount a amt)) (\<lambda>s. if \<not> is_check_only (st_env s) then (Ok (), s)
      else if \<not> ok then (Ok (), s) else expect_op (sub_amount a b) s))" for a amt b
    by (intro mild_rules mild_steps)
  note go = mild_run [OF this]
  have p: "mild s (put_fee_manager m s)" for m by (simp add: put_fee_manager_def)
  show "mild s t"
    using run go p mild.step_trans by (auto simp: accounts_after_dispatch_tx_def split: option.splits prod.splits) blast
qed

subsection \<open>The end of a block\<close>

lemma disburse_mild: "steps True (\<lambda>p q. mild (snd p) (snd q)) (disburse acc addrs amts)"
proof -
  have "steps True (\<lambda>p q. mild (snd p) (snd q)) (disburse_one acc a amt :: ((denomination, u128) fmap \<times> ('a, 'b) sdk_state, accounts_error, unit) rust_op)"
    for a amt
  proof (rule stepsI)
    fix p q :: "(denomination, u128) fmap \<times> ('a, 'b) sdk_state" and r
    assume run: "disburse_one acc a amt p = (r, q)"
    obtain x u where x: "add_amount a amt (snd p) = (x, u)" by (cases "add_amount a amt (snd p)")
    have u: "mild (snd p) u" by (rule mild_run [OF amounts_mild(1) x])
    have e: "mild (snd p) (emit_event_raw k v u)" for k v using u mild_upd(4) mild.step_trans by meson
    show "mild (snd p) (snd q)"
      using run x u e by (cases p; cases x) (auto simp: disburse_one_def split: option.splits)
  qed
  then show ?thesis unfolding disburse_def by (intro mild_pair.steps_for)
qed

lemma drain_mild [mild_steps]: "steps True mild (drain acc es)"
  unfolding drain_def by (intro mild_rules) (auto intro!: mild_rules mild_steps)

lemma pool_remainder_mild [mild_steps]: "steps True mild (pool_remainder acc pool es)"
  unfolding pool_remainder_def by (intro mild_rules) (auto intro!: mild_rules mild_steps)

lemma collect_block_fees_mild [mild_steps]: "steps True mild (collect_block_fees acc)"
proof (rule stepsI)
  fix s :: "('a, 'b) sdk_state" and r t
  assume run: "collect_block_fees acc s = (r, t)"
  have "steps True mild (for_op (\<lambda>(d, amt). expect_op (add_amount acc (BaseUnits amt d))) es
    :: (('a, 'b) sdk_state, accounts_error, unit) rust_op)" for es
    by (intro mild_rules) (auto intro!: mild_rules mild_steps)
  then have "mild (upd_block (\<lambda>b. b\<lparr>bv_fee_manager := None\<rparr>) s) t"
    using run mild_run by (fastforce simp: collect_block_fees_def Let_def)
  moreover have "mild s (upd_block (\<lambda>b. b\<lparr>bv_fee_manager := None\<rparr>) s)" by simp
  ultimately show "mild s t" using mild.step_trans by blast
qed

lemma disbursed_mild:
  fixes s t :: "('m, 'g) sdk_state"
  assumes run: "(case (if b then disburse acc addrs amts else return_op ()) (fees, s) of
             (Ok _, (fees, s)) \<Rightarrow> seq_op (pool_remainder acc pool (fm_entries fees)) (collect_block_fees acc) s
           | (Err e, (_, s)) \<Rightarrow> (Err e, s)
           | (Panic, (_, s)) \<Rightarrow> (Panic, s)) = (r, t)"
  shows "mild s t"
proof -
  let ?d = "(if b then disburse acc addrs amts else return_op ())
    :: ((denomination, u128) fmap \<times> ('m, 'g) sdk_state, accounts_error, unit) rust_op"
  obtain x fs u where x: "?d (fees, s) = (x, fs, u)" by (cases "?d (fees, s)") auto
  have "steps True (\<lambda>p q. mild (snd p) (snd q)) ?d" by (auto intro: disburse_mild)
  from stepsD [OF this x] have u: "mild s u" by simp
  have "steps True mild (seq_op (pool_remainder acc pool es) (collect_block_fees acc))" for es
    by (intro mild_rules mild_steps)
  note go = mild_run [OF this]
  show ?thesis using run x u go [of "fm_entries fs" u] by (cases x) (auto intro: mild.step_trans)
qed

lemma accounts_end_block_mild [mild_steps]: "steps True mild (accounts_end_block c)"
proof (rule stepsI)
  fix s :: "('a, 'b) sdk_state" and r t
  assume run: "accounts_end_block c s = (r, t)"
  let ?acc = "ADDRESS_FEE_ACCUMULATOR c"
  obtain x u where x: "drain ?acc (get_balances ?acc s) s = (x, u)" by (cases "drain ?acc (get_balances ?acc s) s")
  have u: "mild s u" by (rule mild_run [OF drain_mild x])
  show "mild s t"
  proof (cases x)
    case (Ok v)
    then have "mild u t" using run x by (auto simp: accounts_end_block_def Let_def seq_op_def dest!: disbursed_mild)
    with u show ?thesis by (rule mild.step_trans)
  qed (use run x u in \<open>auto simp: accounts_end_block_def Let_def seq_op_def\<close>)
qed

subsection \<open>The modules\<close>

lemma mild_module_nested:
  assumes "call_steps True mild m" "tx_steps True mild m" "decode_steps True mild m" "block_steps True nested m"
  shows "nested_module m"
  using assms by (auto simp: nested_module_def call_steps_def tx_steps_def decode_steps_def intro!: mild_steps_nested)

lemma core_module_nested: "nested_module (core_module cfg pend c K g)"
proof -
  have "steps True nested (update_op (core_init g))"
    by (rule nested_update) (simp add: core_init_def)
  then have "block_steps True nested (core_module cfg pend c K g)"
    by (auto simp: block_steps_def core_module_def default_module_def
        intro!: mild_steps_nested [OF core_block_mild(1)] mild_steps_nested [OF core_block_mild(2)] nest.steps_init_or_migrate)
  then show ?thesis by (rule mild_module_nested [OF mgas.core_module_steps])
qed

lemma tx_transfer_mild [mild_steps]: "steps True mild (tx_transfer cfg c a amt)"
proof -
  have "steps True mild (\<lambda>s. case tx_caller_address (ctx_deps c) (st_env s) of None \<Rightarrow> (Panic, s) | Some caller \<Rightarrow> transfer caller a amt s)"
    by (auto intro!: stepsI split: option.splits dest: mild_run [OF transfer_mild])
  then have "steps True mild (seq_op (map_err_op Acc_Core (use_tx_gas cfg g))
      (\<lambda>s. case tx_caller_address (ctx_deps c) (st_env s) of None \<Rightarrow> (Panic, s) | Some caller \<Rightarrow> transfer caller a amt s))" for g
    by (intro mild_rules mild_steps)
  note go = mild_run [OF this]
  show ?thesis by (auto intro!: stepsI simp: tx_transfer_def split: if_splits dest: go)
qed

lemma accounts_queries_mild: "(n, h) \<in> set (accounts_queries K) \<Longrightarrow> steps True mild (h body)"
proof -
  have "steps True mild (get_denomination_info d)" for d
    by (auto intro!: stepsI simp: get_denomination_info_def split: option.splits)
  then show "(n, h) \<in> set (accounts_queries K) \<Longrightarrow> steps True mild (h body)"
    by (auto simp: accounts_queries_def intro!: mild.steps_query_handler)
qed

lemma accounts_module_mild:
  assumes "\<And>tx. steps True mild (resolve tx)"
  shows "call_steps True mild (accounts_module cfg c K resolve g)" "tx_steps True mild (accounts_module cfg c K resolve g)"
    "decode_steps True mild (accounts_module cfg c K resolve g)"
  using assms
  by (auto simp: call_steps_def tx_steps_def decode_steps_def accounts_module_def default_module_def
      intro!: mild_steps mild_rules mild.steps_by_method mild.steps_dispatch_handler)

lemma accounts_module_nested:
  assumes "\<And>tx. steps True mild (resolve tx)"
  shows "nested_module (accounts_module cfg c K resolve g)"
proof -
  have "steps True nested (expect_op (accounts_init g))"
    by (rule nest.steps_expect) (auto intro!: stepsI simp: accounts_init_def Let_def intro: nest.step_refl
        split: option.splits prod.splits if_splits sum.splits)
  moreover have "steps True mild (by_method (accounts_queries K) meth args)" for meth args
    by (rule mild.steps_by_method) (rule accounts_queries_mild)
  ultimately have "block_steps True nested (accounts_module cfg c K resolve g)"
    by (auto simp: block_steps_def accounts_module_def default_module_def
        intro!: nest.steps_init_or_migrate mild_steps_nested [OF mild.steps_expect [OF accounts_end_block_mild]]
        intro: mild_steps_nested)
  then show ?thesis by (rule mild_module_nested [OF accounts_module_mild [OF assms]])
qed

lemma reward_all_mild: "reward_all transfer pool reward addrs s = (r, t) \<Longrightarrow> mild s t"
proof (induction addrs arbitrary: s)
  case (Cons a addrs)
  obtain x u where x: "transfer pool a reward s = (x, u)" by (cases "transfer pool a reward s")
  have "mild s u" by (rule mild_run [OF transfer_mild x])
  then show ?case using Cons x by (cases x) (auto split: if_splits intro: mild.step_trans)
qed auto

lemma reward_epoch_mild [mild_steps]: "steps True mild (reward_epoch transfer pool p e)"
  by (cases e) (auto simp: reward_epoch_def Let_def steps_def return_op_def intro: reward_all_mild)

lemma rewards_end_block_mild [mild_steps]: "steps True mild (rewards_end_block transfer c)"
proof (rule stepsI)
  fix s :: "('a, 'b) sdk_state" and r t
  assume run: "rewards_end_block transfer c s = (r, t)"
  let ?fin = "\<lambda>v. update_op (upd_store (\<lambda>st. st\<lparr>rew_rewards := fmupd (ctx_epoch c) v (rew_rewards st)\<rparr>))"
  have fin: "steps True mild (?fin v :: (('a, 'b) sdk_state, accounts_error, unit) rust_op)" for v
    by (rule mild_update) simp
  have pay: "steps True mild (seq_op (for_op (reward_epoch transfer pool p) es) (?fin v) :: (('a, 'b) sdk_state, accounts_error, unit) rust_op)"
    for pool p es v
    by (intro mild_rules mild_steps fin)
  have drop: "mild s (upd_store (\<lambda>st. st\<lparr>rew_rewards := f st\<rparr>) s)" for f by simp
  show "mild s t"
    using run by (auto simp: rewards_end_block_def Let_def split: if_splits
        dest: mild_run [OF fin] intro: mild.step_trans [OF drop mild_run [OF pay]])
qed

lemma rewards_module_mild:
  "call_steps True mild (rewards_module c K g)" "tx_steps True mild (rewards_module c K g)" "decode_steps True mild (rewards_module c K g)"
  by (auto simp: call_steps_def tx_steps_def decode_steps_def rewards_module_def default_module_def)

lemma rewards_module_nested: "nested_module (rewards_module c K g)"
proof -
  have "steps True nested (expect_op (rewards_init g))"
    by (rule nest.steps_expect) (auto intro!: stepsI simp: rewards_init_def intro: nest.step_refl split: sum.splits)
  then have "block_steps True nested (rewards_module c K g)"
    by (auto simp: block_steps_def rewards_module_def default_module_def
        intro!: nest.steps_init_or_migrate mild_steps_nested [OF mild.steps_expect [OF rewards_end_block_mild]]
          nest.steps_by_method nest.steps_query_handler)
  then show ?thesis by (rule mild_module_nested [OF rewards_module_mild])
qed

section \<open>The queries of the core module\<close>

lemma simulate_tx_steps:
  assumes "nested_runtime R"
  shows "steps pan nested (simulate_tx R c sz extra tx gas report)"
proof -
  have "steps True nested (dispatch_tx_call R c (tx_call tx) default_dispatch_options)"
    by (rule dispatch_tx_call_steps [OF nest.step_rel_axioms nested_runtimeD(1) [OF assms]])
  then have "steps True nested (simulate_body R c extra (tx_call tx) gas report)"
    unfolding simulate_body_def
    by (rule nest.steps_bind) (auto intro!: stepsI split: if_splits option.splits intro: nest.step_refl)
  then show ?thesis unfolding simulate_tx_def by (rule with_transaction_steps)
qed

lemma estimate_loop_keeps:
  assumes "\<And>s. S s s" "\<And>s t u. S s t \<Longrightarrow> S t u \<Longrightarrow> S s u" "\<And>g s x t. sim g s = (x, t) \<Longrightarrow> S s t"
  shows "estimate_loop sim cap pf n lo hi fast succ tried s = (x, t) \<Longrightarrow> S s t"
proof (induction n arbitrary: lo hi fast succ tried s)
  case (Suc n)
  show ?case
  proof (cases "lo + 1 < hi")
    case True
    obtain y s1 where y: "sim (ucast ((hi + lo) div 2)) s = (y, s1)" by (cases "sim (ucast ((hi + lo) div 2)) s")
    have 1: "S s s1" by (rule assms(3) [OF y])
    have 2: "S s s2" if "sim g s1 = (z, s2)" for g z s2 using assms(2) [OF 1 assms(3) [OF that]] .
    have 3: "S s s3" if "sim g s1 = (z, s2)" "sim g' s2 = (z', s3)" for g g' z z' s2 s3
      using assms(2) [OF 2 [OF that(1)] assms(3) [OF that(2)]] .
    have rec: "S s t" if "estimate_loop sim cap pf n lo' hi' fast' succ' tried' s' = (x, t)" "S s s'" for lo' hi' fast' succ' tried' s'
      using Suc.IH [OF that(1)] assms(2) [OF that(2)] by blast
    show ?thesis
      using Suc.prems y True 1 2 3 rec by (auto simp: Let_def split: sum.splits prod.splits if_splits)
  qed (use Suc.prems assms(1) in simp)
qed (use assms(1) in auto)

lemma estimate_search_keeps:
  assumes "\<And>s. S s s" "\<And>s t u. S s t \<Longrightarrow> S t u \<Longrightarrow> S s u" "\<And>g b s x t. sim g b s = (x, t) \<Longrightarrow> S s t"
    and "estimate_search (\<lambda>g. sim g True) sim cap pf iters extra s = (x, t)"
  shows "S s t"
proof -
  obtain y s1 where y: "estimate_loop (\<lambda>g. sim g True) cap pf (unat iters) 10 (ucast cap) False False False s = (y, s1)"
    by (cases "estimate_loop (\<lambda>g. sim g True) cap pf (unat iters) 10 (ucast cap) False False False s")
  have 1: "S s s1" by (rule estimate_loop_keeps [OF assms(1,2) assms(3) y]) auto
  have 2: "S s s2" if "sim g b s1 = (z, s2)" for g b z s2 using assms(2) [OF 1 assms(3) [OF that]] .
  show ?thesis using assms(4) y 1 2 by (auto simp: estimate_search_def split: sum.splits prod.splits if_splits)
qed

lemma query_estimate_gas_steps:
  assumes "nested_runtime R"
  shows "steps True nested (query_estimate_gas R cfg c len q)"
proof (rule stepsI)
  fix s r t
  assume run: "query_estimate_gas R cfg c len q s = (r, t)"
  have sim: "nested (fst p) (fst p')" if "stop_on_panic (simulate_tx R c sz extra tx gas report) p = (x, p')" for sz extra tx gas report p p' x
    using that stepsD [OF simulate_tx_steps [OF assms]]
    by (cases p) (fastforce simp: stop_on_panic_def split: if_splits prod.splits outcome.splits intro: nest.step_refl)
  have keep: "nested s' t'"
    if "estimate_search (\<lambda>gas. stop_on_panic (simulate_tx R c sz extra tx gas True))
        (\<lambda>gas report. stop_on_panic (simulate_tx R c sz extra tx gas report)) cap pf iters e (s', b) = (x, (t', b'))"
    for sz extra tx cap pf iters e s' b x t' b'
    using estimate_search_keeps [of "\<lambda>p p'. nested (fst p) (fst p')", OF nest.step_refl nest.step_trans sim that] by simp
  have out: "\<exists>y b'. e = (y, (t, b'))"
    if "(case e of (_, (t, True)) \<Rightarrow> (Panic, t) | (Inl er, (t, False)) \<Rightarrow> (Err er, t) | (Inr v, (t, False)) \<Rightarrow> (Ok v, t)) = (r, t)"
    for e :: "(core_error + u64) \<times> ('a, 'b) sdk_state \<times> bool"
    using that by (cases e) (auto split: sum.splits bool.splits)
  consider "t = s" | sz extra tx cap pf iters e y b' where
      "estimate_search (\<lambda>gas. stop_on_panic (simulate_tx R c sz extra tx gas True))
        (\<lambda>gas report. stop_on_panic (simulate_tx R c sz extra tx gas report)) cap pf iters e (s, False) = (y, (t, b'))"
    using run unfolding query_estimate_gas_def Let_def
    by (cases "estimate_caller c q"; cases "estimate_proofs (ai_signer_info (tx_auth_info (estimate_fee c (estimate_cap c s) (eq_tx q))))")
      (auto split: if_splits dest!: out)
  then show "nested s t" by cases (auto intro: nest.step_refl keep)
qed

end
