(* ===== verification/Runtime_Contract.thy ===== *)
theory Runtime_Contract
  imports Module_Contracts
begin

text \<open>
  What a runtime assembled from the core, accounts and rewards modules promises. The locale \<open>tx_contract\<close> lifts a relation that
  the modules keep inside of a transaction, and one that they keep around it, to dispatched and executed transactions. The
  runtime keeps two: the core parameters stay what they are, so that decoding is stable and batches can be replayed
  (\<open>stable_decoding\<close>), and the books of the accounts stay balanced.
\<close>

section \<open>Relations between the states before and after a transaction\<close>

lemma execute_tx_dispatched:
  assumes "execute_tx R c sz h tx i s = (Ok r, t)"
  obtains d where "dispatch_tx_opts R c tx (default_dispatch_options\<lparr>do_tx_size := sz, do_tx_index := i, do_tx_hash := h\<rparr>) s = (Ok d, t)"
proof -
  obtain d u where d: "dispatch_tx_opts R c tx (default_dispatch_options\<lparr>do_tx_size := sz, do_tx_index := i, do_tx_hash := h\<rparr>) s = (Ok d, u)"
    using assms by (auto simp: execute_tx_def execute_tx_opts_def bind_op_Ok_iff)
  moreover have "u = t"
    using assms d by (cases d) (auto simp: execute_tx_def execute_tx_opts_def return_op_def split: option.splits)
  ultimately show thesis using that by blast
qed

locale tx_contract = call: step_rel call_rel + around: step_rel tx_rel
  for call_rel tx_rel :: "('m, 'g) sdk_state \<Rightarrow> ('m, 'g) sdk_state \<Rightarrow> bool" +
  fixes R :: "('m, 'g) sdk_state runtime"
  assumes runtime: "nested_runtime R"
    and in_call: "\<forall>m \<in> set (rt_modules R). call_steps False call_rel m"
    and around_call: "\<forall>m \<in> set (rt_modules R). tx_steps False tx_rel m"
    and commits: "state_init [] (tx_options tx opts) (state_open snapshot_ops a) = Ok s1 \<Longrightarrow> call_rel s1 w \<Longrightarrow> committed_from a w u \<Longrightarrow>
      bv_fee_manager (st_block_values u) = bv_fee_manager (st_block_values w) \<Longrightarrow> tx_rel a u"
    and rolls_back: "state_init [] (tx_options tx opts) (state_open snapshot_ops a) = Ok s1 \<Longrightarrow> call_rel s1 w \<Longrightarrow> rolled_back a u \<Longrightarrow>
      bv_fee_manager (st_block_values u) = bv_fee_manager (st_block_values w) \<Longrightarrow> tx_rel a u"
begin

lemma dispatched:
  assumes "st_rng s \<noteq> None" "dispatch_tx_opts R c tx opts s = (Ok r, t)"
  shows "tx_rel s t"
proof -
  have "\<forall>m \<in> set (rt_modules R). call_steps True nested m \<and> tx_steps True nested m" using nested_runtimeD(1,2) [OF runtime] by blast
  then show ?thesis
  proof (cases rule: dispatch_tx_opts_cases [OF _ assms])
    case (2 e)
    then show ?thesis using stepsD [OF around.modules_tx_steps(1) [OF around_call]] by simp
  next
    case (3 a s1 result metadata w d u)
    have a: "tx_rel s a" using 3(1) stepsD [OF around.modules_tx_steps(1) [OF around_call]]
      by (auto simp: authenticated_def around.step_refl split: if_splits)
    have "call_rel s1 w"
      using stepsD [OF dispatch_tx_call_steps [OF call.step_rel_axioms in_call] 3(4)] by simp
    then have "tx_rel a u" using commits [OF 3(3)] rolls_back [OF 3(3)] 3(5,6) by (auto split: if_splits)
    moreover have "tx_rel u t" using stepsD [OF around.modules_tx_steps(2) [OF around_call] 3(7)] by simp
    ultimately show ?thesis using a around.step_trans by blast
  qed
qed

lemma executed:
  assumes "st_rng s \<noteq> None" "execute_tx R c sz h tx i s = (Ok r, t)"
  shows "tx_rel s t"
  by (rule execute_tx_dispatched [OF assms(2)]) (rule dispatched [OF assms(1)])

lemma executed_all:
  "st_rng s \<noteq> None \<Longrightarrow> execute_txs R c i txs s = (Ok r, t) \<Longrightarrow> tx_rel s t"
proof (induction txs arbitrary: i s r)
  case (Cons x txs)
  obtain sz h tx where x: "x = (sz, h, tx)" by (cases x)
  obtain y u where y: "execute_tx R c sz h tx i s = (Ok y, u)" using Cons.prems(2) by (auto simp: x bind_op_Ok_iff)
  have u: "tx_rel s u" "st_rng u \<noteq> None"
    using executed [OF Cons.prems(1) y] stepsD [OF execute_tx_steps [OF runtime] y] Cons.prems(1) by (auto simp: nested_def)
  show ?case using Cons.prems(2) y u Cons.IH [OF u(2)] around.step_trans
    by (cases y) (auto simp: x bind_op_Ok_iff return_op_def)
qed (auto simp: return_op_def around.step_refl)

end

context step_rel
begin

lemma steps_if: "steps pan R m \<Longrightarrow> steps pan R n \<Longrightarrow> steps pan R (if b then m else n)"
  by simp

end

section \<open>The runtime of the three modules\<close>

subsection \<open>Nesting\<close>

lemma read_only_tx_steps:
  assumes "nested_runtime R"
  shows "steps True nested (query_execute_read_only_tx R cfg c allowed raw)"
proof -
  have ex: "steps True nested (execute_tx_opts R c tx opts)" for tx opts
    unfolding execute_tx_opts_def
    by (rule nest.steps_bind [OF dispatch_tx_opts_steps [OF assms]])
      (auto intro!: stepsI nest.step_refl split: sum.splits option.splits simp: return_op_def)
  have "steps True nested (read_only_body R c allowed raw)"
  proof -
    have "steps True nested (case r of Inl err \<Rightarrow> throw_op (Core_InvalidArgument (rt_show_abort R err)) | Inr (result, _) \<Rightarrow> return_op result)"
      for r :: "dispatcher_error + tx_call_result \<times> tags"
      by (auto split: sum.splits)
    from nest.steps_bind [OF nest.steps_expect [OF ex] this] show ?thesis
      unfolding read_only_body_def
      by (intro nest.steps_if nest.steps_throw nest.steps_bind [OF decode_tx_steps [OF assms]])
  qed
  then show ?thesis
    unfolding query_execute_read_only_tx_def
    by (auto intro!: with_transaction_steps nest.steps_bind nest.steps_try)
qed

lemma check_steps: "(\<And>m. m \<in> set ms \<Longrightarrow> steps True nested (mo_check_invariants m)) \<Longrightarrow> steps True nested (modules_check_invariants ms)"
  unfolding modules_check_invariants_def by (rule nest.steps_for)

lemma sdk_modules_checks: "m \<in> set (sdk_modules cfg pend c K resolve g) \<Longrightarrow> steps True nested (mo_check_invariants m)"
  by (cases g) (auto simp: sdk_modules_def core_module_def accounts_module_def rewards_module_def default_module_def result_op_def
      steps_def return_op_def throw_op_def nest.step_refl split: sum.splits)

lemma core_queries_nested:
  assumes "nested_runtime R" "\<And>m. m \<in> set (rt_modules R) \<Longrightarrow> steps True nested (mo_check_invariants m)"
    and "(n, h) \<in> set (core_queries R cfg c K allowed)"
  shows "steps True nested (h body)"
proof -
  have "steps True nested (query_check_invariants R)" unfolding query_check_invariants_def by (rule check_steps [OF assms(2)])
  moreover have "steps True nested (bind_op (expect_op (query_execute_read_only_tx R cfg c allowed raw)) result_op)" for raw
    by (intro nest.steps_bind nest.steps_expect read_only_tx_steps [OF assms(1)] nest.steps_result)
  moreover have "h \<in> snd ` set (core_queries R cfg c K allowed)" using assms(3) by (metis image_eqI snd_conv)
  ultimately show ?thesis
    by (auto simp: core_queries_def intro!: nest.steps_query_handler query_estimate_gas_steps [OF assms(1)] nest.steps_result)
qed

lemma sdk_modules_nested:
  assumes "\<And>tx. steps True mild (resolve tx)" "m \<in> set (sdk_modules cfg pend c K resolve g)"
  shows "nested_module m"
  using assms(2) core_module_nested accounts_module_nested [of resolve, OF assms(1)] rewards_module_nested by (cases g) (auto simp: sdk_modules_def)

lemma sdk_runtime_nested:
  assumes "\<And>tx. steps True mild (resolve tx)" "steps True nested (rt_migrate_state R)"
  shows "nested_runtime (sdk_runtime R cfg pend c K resolve g allowed)"
proof -
  let ?ms = "sdk_modules cfg pend c K resolve g"
  let ?R0 = "R\<lparr>rt_modules := ?ms\<rparr>"
  obtain m ms where ms: "?ms = m # ms" by (cases g) (simp add: sdk_modules_def)
  have 0: "nested_runtime ?R0" using sdk_modules_nested [of resolve, OF assms(1)] assms(2) by (auto simp: nested_runtime_def)
  have "steps True nested (by_method (core_queries ?R0 cfg c K allowed) meth args)" for meth args
    by (rule nest.steps_by_method, rule core_queries_nested [OF 0]) (auto intro: sdk_modules_checks)
  then have "nested_module (with_core_queries ?R0 cfg c K allowed m)"
    using sdk_modules_nested [of resolve m cfg pend c K g, OF assms(1)] ms
    by (auto simp: with_core_queries_def nested_module_def call_steps_def tx_steps_def decode_steps_def block_steps_def)
  then show ?thesis using 0 ms by (auto simp: nested_runtime_def sdk_runtime_def Let_def)
qed

subsection \<open>Decoding\<close>

text \<open>What the modules decode, in terms of the core parameters alone.\<close>

definition sdk_decode :: "('m, 'g) sdk_state runtime \<Rightarrow> ctx \<Rightarrow> core_params \<Rightarrow> bytes \<Rightarrow> (core_error, transaction) outcome" where
  "sdk_decode R c p raw =
     (if length raw > unat (cp_max_tx_size p) then Err Core_OversizedTransaction
      else case rt_decode_utx R raw of None \<Rightarrow> Err (Core_MalformedTransaction ''cbor'')
      | Some utx \<Rightarrow>
          if length (ut_proofs utx) > unat (cp_max_tx_signers p) then Err Core_TooManyAuth
          else case check_proof_sizes (cp_max_multisig_signers p) (ut_proofs utx) of Inl e \<Rightarrow> Err e
          | Inr _ \<Rightarrow>
              (case ut_proofs utx of
                 [Proof_Module _] \<Rightarrow> Err (Core_MalformedTransaction ''module-controlled transaction decoding scheme not supported'')
               | _ \<Rightarrow> (case unverified_transaction_verify (ctx_deps c) utx of
                        Inr tx \<Rightarrow> Ok tx | Inl _ \<Rightarrow> Err (Core_MalformedTransaction ''verification''))))"

lemma sdk_approvals:
  "modules_approve_raw_tx (rt_modules (sdk_runtime R cfg pend c K resolve g allowed)) raw s = approve_raw_tx raw s"
  "modules_approve_unverified_tx (rt_modules (sdk_runtime R cfg pend c K resolve g allowed)) utx s = approve_unverified_tx utx s"
  "modules_decode_tx (rt_modules (sdk_runtime R cfg pend c K resolve g allowed)) scheme body s = (Ok None, s)"
  by (cases g; simp add: sdk_runtime_def sdk_modules_def Let_def with_core_queries_def modules_approve_raw_tx_def
      modules_approve_unverified_tx_def core_module_def accounts_module_def rewards_module_def default_module_def
      approve_raw_tx_def approve_unverified_tx_def seq_op_def bind_op_def return_op_def split: sum.splits)+

lemma sdk_runtime_decodes:
  "decode_tx (sdk_runtime R cfg pend c K resolve g allowed) c raw s = (sdk_decode R c (core_params_now s) raw, s)"
proof -
  have [simp]: "rt_decode_utx (sdk_runtime R cfg pend c K resolve g allowed) = rt_decode_utx R"
    by (simp add: sdk_runtime_def Let_def)
  show ?thesis
    by (auto simp: decode_tx_def sdk_decode_def seq_op_def bind_op_def sdk_approvals approve_raw_tx_def approve_unverified_tx_def
        ok_or_op_def return_op_def throw_op_def split: option.splits sum.splits list.splits auth_proof.splits)
qed

subsection \<open>Parameters stay\<close>

lemma module_steps_mono:
  assumes "\<And>s t. S s t \<Longrightarrow> S' s t"
  shows "call_steps True S m \<Longrightarrow> call_steps pan S' m" "tx_steps True S m \<Longrightarrow> tx_steps pan S' m"
  using assms by (auto simp: call_steps_def tx_steps_def steps_def)

abbreviation same_params :: "('m, 'g) sdk_state \<Rightarrow> ('m, 'g) sdk_state \<Rightarrow> bool" where
  "same_params s t \<equiv> core_params_of (st_store t) = core_params_of (st_store s)"

text \<open>The calls and hooks of the assembled runtime are those of the three modules; only queries were added.\<close>

lemma sdk_runtime_modules:
  "(\<And>m. m \<in> set (sdk_modules cfg pend c K resolve g) \<Longrightarrow> call_steps pan S m) \<Longrightarrow>
     \<forall>m \<in> set (rt_modules (sdk_runtime R cfg pend c K resolve g allowed)). call_steps pan S m"
  "(\<And>m. m \<in> set (sdk_modules cfg pend c K resolve g) \<Longrightarrow> tx_steps pan S m) \<Longrightarrow>
     \<forall>m \<in> set (rt_modules (sdk_runtime R cfg pend c K resolve g allowed)). tx_steps pan S m"
  by (cases g; auto simp: sdk_runtime_def sdk_modules_def Let_def with_core_queries_def call_steps_def tx_steps_def)+

lemma sdk_modules_mild:
  assumes "\<And>tx. steps True mild (resolve tx)" "m \<in> set (sdk_modules cfg pend c K resolve g)"
  shows "call_steps True mild m" "tx_steps True mild m"
  using assms(2)
  by (cases g; auto simp: sdk_modules_def mgas.core_module_steps accounts_module_mild [of resolve, OF assms(1)] rewards_module_mild)+

lemma committed_from_params:
  assumes "state_init [] (tx_options tx opts) (state_open snapshot_ops a) = Ok s1" "mild s1 w" "committed_from a w u"
  shows "same_params a u"
  using assms(2,3) init_with_tx(1) [OF assms(1)] by (auto simp: committed_from_def mild_def)

lemma rolled_back_params: "rolled_back a u \<Longrightarrow> same_params a u"
  by (auto simp: rolled_back_def)

text \<open>
  An assembly: the base runtime's own migration and its fee proxy leave the nesting of states and the core
  parameters alone.
\<close>

locale sdk_assembly =
  fixes base :: "('m, 'g) sdk_state runtime" and cfg :: core_config and pend :: "('m, 'g) sdk_state \<Rightarrow> nat" and c :: ctx and K :: codecs
    and resolve :: "transaction \<Rightarrow> (('m, 'g) sdk_state, core_error, address option) rust_op"
    and genesis :: "core_params \<times> accounts_genesis \<times> rewards_params" and allowed :: "string \<Rightarrow> bool"
  assumes migration: "steps True nested (rt_migrate_state base)" and proxy: "steps True mild (resolve tx)"

sublocale sdk_assembly \<subseteq> params: tx_contract mild same_params "sdk_runtime base cfg pend c K resolve genesis allowed"
proof (rule tx_contract.intro)
  show "step_rel mild" by (rule mild.step_rel_axioms)
  show "step_rel same_params" by unfold_locales auto
  show "tx_contract_axioms mild same_params (sdk_runtime base cfg pend c K resolve genesis allowed)"
  proof
    let ?R = "sdk_runtime base cfg pend c K resolve genesis allowed" and ?ms = "sdk_modules cfg pend c K resolve genesis"
    show "nested_runtime ?R" by (rule sdk_runtime_nested [OF proxy migration])
    have mods: "call_steps False mild m" "tx_steps False same_params m" if "m \<in> set ?ms" for m
      by (rule module_steps_mono(1) [OF _ sdk_modules_mild(1) [of resolve, OF proxy that]], assumption)
        (rule module_steps_mono(2) [OF _ sdk_modules_mild(2) [of resolve, OF proxy that]], simp add: mild_def)
    show "\<forall>m \<in> set (rt_modules ?R). call_steps False mild m" by (rule sdk_runtime_modules(1) [OF mods(1)])
    show "\<forall>m \<in> set (rt_modules ?R). tx_steps False same_params m" by (rule sdk_runtime_modules(2) [OF mods(2)])
  qed (simp_all add: committed_from_params rolled_back_params)
qed

sublocale sdk_assembly \<subseteq> decoding: stable_decoding "sdk_runtime base cfg pend c K resolve genesis allowed" c
  "\<lambda>s. core_params_of (st_store s)" "sdk_decode base c"
proof (rule stable_decoding.intro)
  show "nested_runtime (sdk_runtime base cfg pend c K resolve genesis allowed)" by (rule params.runtime)
qed (simp add: sdk_runtime_decodes, rule params.executed)

context sdk_assembly
begin

lemma runtime_decodes_stably:
  "stable_decoding (sdk_runtime base cfg pend c K resolve genesis allowed) c (\<lambda>s. core_params_of (st_store s)) (sdk_decode base c)"
  by (rule decoding.stable_decoding_axioms)

end

end
