(* ===== verification/Runtime_Books.thy ===== *)
theory Runtime_Books
  imports Runtime_Contract
begin

text \<open>
  The books of the accounts module over whole transactions: outside of checks, no transaction that a runtime of the core, accounts
  and rewards modules executes changes what circulates of a denomination, whether it succeeds, fails or is
  rejected. Inside of a transaction the fee manager holds what it held, so that rolling back the accounts alone is enough.
\<close>

section \<open>Relations\<close>

definition books_tx :: "('m, 'g) sdk_state \<Rightarrow> ('m, 'g) sdk_state \<Rightarrow> bool" where
  "books_tx s t \<longleftrightarrow> st_env t = st_env s \<and> (\<not> is_check_only (st_env s) \<and> accounts_inv s \<longrightarrow> conserved s t)"

definition books_call :: "('m, 'g) sdk_state \<Rightarrow> ('m, 'g) sdk_state \<Rightarrow> bool" where
  "books_call s t \<longleftrightarrow> st_env t = st_env s \<and>
     (\<not> is_check_only (st_env s) \<and> accounts_inv s \<longrightarrow> conserved s t \<and> held (fee_manager_now t) = held (fee_manager_now s))"

interpretation btx: step_rel books_tx
  by unfold_locales (auto simp: books_tx_def dest: conserved_inv intro: conserved_trans)

interpretation bcall: step_rel books_call
  by unfold_locales (auto simp: books_call_def dest: conserved_inv intro: conserved_trans)

lemma books_call_tx: "books_call s t \<Longrightarrow> books_tx s t"
  by (simp add: books_call_def books_tx_def)

text \<open>Changes that leave balances, supplies and the fee manager alone.\<close>

lemma books_call_same:
  assumes "st_env t = st_env s" "acc_balances (st_store t) = acc_balances (st_store s)"
    "acc_total_supplies (st_store t) = acc_total_supplies (st_store s)" "fee_manager_now t = fee_manager_now s"
  shows "books_call s t"
  using assms by (simp add: books_call_def conserved_same total_balance_def supply_of_def fun_eq_iff)

interpretation bgas: gas_rel books_call
  by unfold_locales (auto intro!: books_call_same simp: upd_local_def upd_block_def emit_unconditional_event_def fee_manager_now_def)

lemma mild_env: "steps True mild m \<Longrightarrow> m s = (r, t) \<Longrightarrow> st_env t = st_env s"
  by (drule (1) mild_run) (simp add: mild_def)

section \<open>The accounts module\<close>

lemma transfer_books: "steps False books_call (transfer f a amt)"
proof (rule stepsI)
  fix s :: "('a, 'b) sdk_state" and r t
  assume run: "transfer f a amt s = (r, t)" and ret: "r = Panic \<longrightarrow> False"
  have env: "st_env t = st_env s" by (rule mild_env [OF transfer_mild run])
  show "books_call s t"
  proof (cases r)
    case (Ok x)
    then show ?thesis using env transfer_Ok [of f a amt s t] run
      by (auto simp: books_call_def books_def intro: conserved_books)
  next
    case (Err e)
    then show ?thesis using env transfer_Err [of f a amt s e t] run by (auto simp: books_call_def)
  qed (use ret in simp)
qed

lemma tx_transfer_books: "steps False books_call (tx_transfer cfg c a amt)"
proof -
  have "steps False books_call (\<lambda>s. case tx_caller_address (ctx_deps c) (st_env s) of None \<Rightarrow> (Panic, s) | Some caller \<Rightarrow> transfer caller a amt s)"
    by (auto intro!: stepsI split: option.splits dest: stepsD [OF transfer_books])
  then have "steps False books_call (seq_op (map_err_op Acc_Core (use_tx_gas cfg g))
      (\<lambda>s. case tx_caller_address (ctx_deps c) (st_env s) of None \<Rightarrow> (Panic, s) | Some caller \<Rightarrow> transfer caller a amt s))" for g
    by (intro bcall.steps_seq bcall.steps_map_err steps_pan [OF bgas.uses_tx_gas])
  note go = stepsD [OF this]
  show ?thesis by (auto intro!: stepsI bcall.step_refl simp: tx_transfer_def split: if_splits dest: go)
qed

abbreviation same_balances :: "('m, 'g) sdk_state \<Rightarrow> ('m, 'g) sdk_state \<Rightarrow> bool" where
  "same_balances s t \<equiv> acc_balances (st_store t) = acc_balances (st_store s)"

interpretation balgas: gas_rel same_balances
  by unfold_locales (auto simp: upd_local_def upd_block_def emit_unconditional_event_def)

lemma after_handle_call_balances: "accounts_after_handle_call c s = (r, t) \<Longrightarrow> same_balances s t"
proof -
  have "steps True same_balances (refund_fee :: (('a, 'b) sdk_state, core_error, u128) rust_op)"
  proof (rule stepsI)
    fix s :: "('a, 'b) sdk_state" and r t
    assume run: "refund_fee s = (r, t)"
    obtain b u where u: "take_refund_unused_tx_fee s = (b, u)" by (cases "take_refund_unused_tx_fee s")
    have 1: "same_balances s u" using u by (auto simp: take_refund_unused_tx_fee_def upd_block_def split: if_splits)
    obtain x v where x: "(remaining_tx_gas :: (('a, 'b) sdk_state, core_error, u64) rust_op) u = (x, v)"
      by (cases "(remaining_tx_gas :: (('a, 'b) sdk_state, core_error, u64) rust_op) u")
    have "same_balances s v" using 1 balgas.run [OF balgas.reads_tx_gas x] by simp
    then show "same_balances s t" using run u 1 x by (cases x) (auto simp: refund_fee_def split: if_splits option.splits)
  qed
  note go = balgas.run [OF this]
  show "accounts_after_handle_call c s = (r, t) \<Longrightarrow> same_balances s t"
    by (auto simp: accounts_after_handle_call_def bind_op_def Let_def emit_unconditional_def update_op_def put_fee_manager_def upd_block_def
        emit_unconditional_event_def split: prod.splits outcome.splits if_splits dest: go)
qed

lemma after_handle_call_books: "steps False books_call (accounts_after_handle_call c)"
proof (rule stepsI)
  fix s :: "('a, 'b) sdk_state" and r t
  assume run: "accounts_after_handle_call c s = (r, t)" and ret: "r = Panic \<longrightarrow> False"
  have "conserved s t" using conservesD [OF accounts_after_handle_call_conserves run] ret by blast
  moreover have "total_balance t = total_balance s" using after_handle_call_balances [OF run] by (simp add: total_balance_def fun_eq_iff)
  ultimately show "books_call s t"
    using mild_env [OF accounts_after_handle_call_mild run]
    by (simp add: books_call_def conserved_def circulating_def fun_eq_iff)
qed

lemma conserves_books: "conserves m \<Longrightarrow> steps True mild m \<Longrightarrow> steps False books_tx m"
  by (rule stepsI) (auto simp: books_tx_def mild_env dest: conservesD)

lemma authenticate_books:
  assumes "\<And>tx. steps False books_tx (resolve tx)"
  shows "steps False books_tx (accounts_authenticate_tx c resolve tx)"
proof -
  have fees: "steps False books_tx (charge_fees tx payer)" for payer
    by (rule stepsI) (auto simp: books_tx_def mild_env [OF charge_fees_mild] intro: charge_fees_conserved)
  have nonces: "steps False books_tx (\<lambda>s. if \<not> is_check_only (st_env s) then update_signer_nonces c (tx_auth_info tx) s else (Ok (), s))"
    by (rule stepsI) (auto simp: books_tx_def update_signer_nonces_def mild_def split: if_splits
        dest: update_nonces_mild intro: update_nonces_conserved)
  show ?thesis
    unfolding accounts_authenticate_tx_def
    by (intro btx.steps_bind btx.steps_seq fees nonces assms btx.steps_return
        conserves_books [OF check_signer_nonces_conserves check_signer_nonces_mild])
qed

lemma after_dispatch_books: "steps False books_tx (expect_op (accounts_after_dispatch_tx ai ok))"
proof (rule btx.steps_expect, rule stepsI)
  fix s :: "('a, 'b) sdk_state" and r t
  assume run: "accounts_after_dispatch_tx ai ok s = (r, t)"
  have "conserved s t" if "\<not> is_check_only (st_env s)" "accounts_inv s"
    using after_dispatch_execute [OF that(2,1), of ai ok] run by (metis prod.inject)
  then show "books_tx s t" using mild_env [OF accounts_after_dispatch_mild run] by (simp add: books_tx_def)
qed

section \<open>The runtime\<close>

lemma sdk_modules_books:
  assumes "\<And>tx. steps False books_tx (resolve tx)" "m \<in> set (sdk_modules cfg pend c K resolve g)"
  shows "call_steps False books_call m" "tx_steps False books_tx m"
proof -
  have core: "call_steps False books_call (core_module cfg pend c K x)" "tx_steps False books_tx (core_module cfg pend c K x)" for x
    by (rule module_steps_mono(1) [OF _ bgas.core_module_steps(1)] module_steps_mono(2) [OF books_call_tx bgas.core_module_steps(2)], assumption?)+
  have acc: "call_steps False books_call (accounts_module cfg c K resolve x)" "tx_steps False books_tx (accounts_module cfg c K resolve x)" for x
    by (auto simp: call_steps_def tx_steps_def accounts_module_def default_module_def
        intro!: bcall.steps_by_method bcall.steps_dispatch_handler tx_transfer_books after_handle_call_books
          authenticate_books [OF assms(1)] after_dispatch_books)
  have rew: "call_steps False books_call (rewards_module c K x)" "tx_steps False books_tx (rewards_module c K x)" for x
    by (auto simp: call_steps_def tx_steps_def rewards_module_def default_module_def)
  show "call_steps False books_call m" "tx_steps False books_tx m"
    using assms(2) by (cases g; auto simp: sdk_modules_def core acc rew)+
qed

lemma init_books:
  assumes "state_init [] (tx_options tx opts) (state_open snapshot_ops a) = Ok s1"
  shows "accounts_inv s1 = accounts_inv a" "total_balance s1 = total_balance a" "supply_of s1 = supply_of a"
    "fee_manager_now s1 = fee_manager_now a" "is_check_only (st_env s1) = is_check_only (st_env a)"
  using init_with_tx(1-3) [OF assms]
  by (auto simp: accounts_inv_def circulating_def total_balance_def supply_of_def fee_manager_now_def fun_eq_iff)

lemma closed_books:
  assumes "state_init [] (tx_options tx opts) (state_open snapshot_ops a) = Ok s1" "books_call s1 w"
    "bv_fee_manager (st_block_values u) = bv_fee_manager (st_block_values w)"
  shows "committed_from a w u \<Longrightarrow> books_tx a u" "rolled_back a u \<Longrightarrow> books_tx a u"
proof -
  note i = init_books [OF assms(1)]
  have fm: "fee_manager_now u = fee_manager_now w" using assms(3) by (simp add: fee_manager_now_def)
  have bw: "conserved s1 w \<and> held (fee_manager_now w) = held (fee_manager_now a)" if "\<not> is_check_only (st_env a)" "accounts_inv a"
    using assms(2) that i by (simp add: books_call_def)
  have inv: "fee_manager_inv (fee_manager_now w)" if "\<not> is_check_only (st_env a)" "accounts_inv a"
    using bw [OF that] that(2) i(4) by (simp add: conserved_def accounts_inv_def)
  show "books_tx a u" if c: "committed_from a w u"
  proof -
    have u: "st_store u = st_store w" "st_env u = st_env a" using c by (auto simp: committed_from_def)
    have "conserved a u" if "\<not> is_check_only (st_env a)" "accounts_inv a"
      using bw [OF that] inv [OF that] fm u(1) i
      by (auto simp: conserved_def circulating_def fun_eq_iff total_balance_def supply_of_def)
    then show ?thesis by (simp add: books_tx_def u(2))
  qed
  show "books_tx a u" if c: "rolled_back a u"
  proof -
    have u: "st_store u = st_store a" "st_env u = st_env a" using c by (auto simp: rolled_back_def)
    have "conserved a u" if "\<not> is_check_only (st_env a)" "accounts_inv a"
      using bw [OF that] inv [OF that] fm u(1) by (simp add: conserved_def circulating_def fun_eq_iff total_balance_def supply_of_def)
    then show ?thesis by (simp add: books_tx_def u(2))
  qed
qed

text \<open>A fee proxy that also keeps the books.\<close>

locale sdk_books = sdk_assembly +
  assumes proxy_books: "steps False books_tx (resolve tx)"

sublocale sdk_books \<subseteq> books: tx_contract books_call books_tx "sdk_runtime base cfg pend c K resolve genesis allowed"
proof (rule tx_contract.intro)
  show "step_rel books_call" "step_rel books_tx" by (rule bcall.step_rel_axioms btx.step_rel_axioms)+
  show "tx_contract_axioms books_call books_tx (sdk_runtime base cfg pend c K resolve genesis allowed)"
  proof
    let ?R = "sdk_runtime base cfg pend c K resolve genesis allowed"
    show "nested_runtime ?R" by (rule params.runtime)
    show "\<forall>m \<in> set (rt_modules ?R). call_steps False books_call m"
      by (rule sdk_runtime_modules(1) [OF sdk_modules_books(1) [OF proxy_books]])
    show "\<forall>m \<in> set (rt_modules ?R). tx_steps False books_tx m"
      by (rule sdk_runtime_modules(2) [OF sdk_modules_books(2) [OF proxy_books]])
  qed (rule closed_books; assumption)+
qed

context sdk_books
begin

lemma transactions_keep_books:
  assumes "st_rng s \<noteq> None" "execute_txs (sdk_runtime base cfg pend c K resolve genesis allowed) c i txs s = (Ok r, t)"
  shows "books_tx s t"
  by (rule books.executed_all [OF assms])

end

text \<open>
  A fee proxy made of several handlers asks one after the other. With none it names no other payer; the
  default migration does nothing.
\<close>

lemma resolve_payers_steps:
  assumes "\<And>h. h \<in> set hs \<Longrightarrow> steps True mild (h tx)" "\<And>h. h \<in> set hs \<Longrightarrow> steps False books_tx (h tx)"
  shows "steps True mild (resolve_payers hs tx)" "steps False books_tx (resolve_payers hs tx)"
  using assms by (induction hs) (auto intro!: mild.steps_bind btx.steps_bind split: option.splits)

interpretation sdk: sdk_books "base\<lparr>rt_migrate_state := return_op ()\<rparr>" cfg pend c K "resolve_payers []" genesis allowed
  for base cfg pend c K genesis allowed
  by unfold_locales auto

end
