(* ===== verification/Runtime_Sample.thy ===== *)
theory Runtime_Sample
  imports Runtime_Books Rewards_Properties
begin

text \<open>
  A concrete runtime of the core, accounts and rewards modules, with codecs that are simple functions, and a transaction
  that it executes: a transfer of 300 units without a fee. The run is followed hook by hook.
\<close>

section \<open>The runtime\<close>

definition sample_open_params :: core_params where
  "sample_open_params = sample_core_params\<lparr>cp_gas_costs := \<lparr>gc_tx_byte = 0, gc_storage_byte = 0, gc_auth_signature = 0,
     gc_auth_multisig_signer = 0, gc_callformat_x25519_deoxysii = 0\<rparr>, cp_min_gas_price := fmupd NATIVE 0 fmempty\<rparr>"

definition sample_callformat :: callformat_deps where
  "sample_callformat = \<lparr>cf_key_pair_id = concat, cf_key_manager = None, cf_box_open = (\<lambda>_ _ _ _. Inl ''''), cf_box_seal = (\<lambda>_ _ m _. m),
     cf_envelope_of = (\<lambda>_. None), cf_envelope_to = (\<lambda>_. Cbor_Null), cf_call_of = (\<lambda>_. None), cf_call_to = (\<lambda>_. []),
     cf_result_to = (\<lambda>_. []), cf_result_envelope = (\<lambda>_ _. Cbor_Null), cf_os_random = []\<rparr>"

definition sample_codecs :: codecs where
  "sample_codecs = \<lparr>cd_unit = (\<lambda>_. Some ()), cd_transfer = (\<lambda>_. Some (bob, BaseUnits 300 NATIVE)), cd_address = (\<lambda>_. Some alice),
     cd_denomination = (\<lambda>_. Some NATIVE), cd_estimate = (\<lambda>_. None), cd_read_only_tx = (\<lambda>_. None), cd_of_balances = (\<lambda>_. Cbor_Null),
     cd_of_addresses = (\<lambda>_. Cbor_Null), cd_of_decimals = (\<lambda>_. Cbor_Null), cd_of_prices = (\<lambda>_. Cbor_Null),
     cd_of_public_key = (\<lambda>_. Cbor_Null), cd_of_result = (\<lambda>_. Cbor_Null), cd_of_core_params = (\<lambda>_. Cbor_Null),
     cd_of_accounts_params = (\<lambda>_. Cbor_Null), cd_of_rewards_params = (\<lambda>_. Cbor_Null), cd_show_core = (\<lambda>_. ''core''),
     cd_show_accounts = (\<lambda>_. ''accounts''), cd_utx_len = (\<lambda>b ps. length b + length ps), cd_public_keys = None,
     cd_callformat = sample_callformat\<rparr>"

definition sample_base :: "('m, 'g) sdk_state runtime" where
  "sample_base = \<lparr>rt_modules = [], rt_show = (\<lambda>_. ''core''), rt_show_abort = (\<lambda>_. ''abort''), rt_callformat = sample_callformat,
     rt_decode_utx = (\<lambda>_. None), rt_hash = id, rt_pending = (\<lambda>_. False), rt_schedule_control = default_schedule_control,
     rt_is_allowed_query = (\<lambda>_. True), rt_ctx_is_allowed_query = (\<lambda>_. True), rt_state_version = 1, rt_migrate_state = return_op ()\<rparr>"

definition sample_runtime :: "('m, 'g) sdk_state runtime" where
  "sample_runtime = sdk_runtime sample_base sample_core_config (\<lambda>_. 0) sample_ctx sample_codecs (resolve_payers [])
     (sample_open_params, sample_genesis, sample_rewards) (\<lambda>_. False)"

definition sample_payer :: address where
  "sample_payer = address_spec_address sample_deps (Spec_Signature (Spec_Ed25519 [9]))"

definition sample_block :: "('m, 'g) sdk_state" where
  "sample_block = put_supply NATIVE 1000 (put_balance sample_payer NATIVE 1000
     ((root_state (empty_storage\<lparr>core_params_of := sample_open_params\<rparr>) Execute)\<lparr>st_rng := Some (append_subcontext (rng_new Execute))\<rparr>))"

section \<open>The transaction\<close>

lemma free_tx_auth: "ai_signer_info (tx_auth_info sample_free_tx) = [\<lparr>si_address_spec = Spec_Signature (Spec_Ed25519 [9]), si_nonce = 0\<rparr>]"
      "amount (fee_amount sample_free_tx) = 0" "ai_not_before (tx_auth_info sample_free_tx) = None" "ai_not_after (tx_auth_info sample_free_tx) = None"
    by (simp_all add: sample_free_tx_def append_auth_signature_def append_signer_info_def transaction_new_def fee_amount_def
        default_fee_def default_auth_info_def default_base_units_def)

lemmas module_defs = core_module_def accounts_module_def rewards_module_def default_module_def

lemma sample_modules: "rt_modules sample_runtime = [(core_module sample_core_config (\<lambda>_. 0) sample_ctx sample_codecs sample_open_params)
  \<lparr>mo_dispatch_query := by_method (core_queries (sample_base\<lparr>rt_modules := sdk_modules sample_core_config (\<lambda>_. 0) sample_ctx sample_codecs (resolve_payers [])
     (sample_open_params, sample_genesis, sample_rewards)\<rparr>) sample_core_config sample_ctx sample_codecs (\<lambda>_. False))\<rparr>,
   accounts_module sample_core_config sample_ctx sample_codecs (resolve_payers []) sample_genesis,
   rewards_module sample_ctx sample_codecs sample_rewards]"
  by (simp add: sample_runtime_def sdk_runtime_def sdk_modules_def with_core_queries_def)

abbreviation sample_tx_env :: environment where
  "sample_tx_env \<equiv> \<lparr>env_mode = Execute, env_tx = Some \<lparr>txm_data = sample_free_tx, txm_size = 30, txm_index = 0, txm_hash = []\<rparr>, env_internal = False\<rparr>"

lemma sample_block_simps:
  "st_env sample_block = default_environment" "acc_params (st_store sample_block) = default_accounts_params"
  "get_nonce a sample_block = 0" "st_rng sample_block = Some (append_subcontext (rng_new Execute))" "fee_manager_now sample_block = fee_manager_new"
  "balance_of sample_block a d = (if a = sample_payer \<and> d = NATIVE then 1000 else 0)"
  "core_params_of (st_store sample_block) = sample_open_params"
  by (simp_all add: sample_block_def put_supply_def put_balance_def get_nonce_def root_state_def empty_storage_def fee_manager_now_def balance_of_def upd_store_def default_block_values_ext_def)

lemma authenticate_run: "modules_authenticate_tx (rt_modules sample_runtime) sample_free_tx sample_block = (Ok Continue, set_nonce sample_payer 1 sample_block)"
  by (simp add: sample_modules module_defs core_authenticate_tx_def free_tx_auth return_op_def bind_op_def
    accounts_authenticate_tx_def check_signer_nonces_def check_nonce_def bind_result_def seq_op_def Let_def charge_fees_def update_signer_nonces_def checked_add_def
     sample_block_simps default_accounts_params_def sample_ctx_def sample_payer_def[symmetric] default_environment_def is_check_only_def del: address_spec_address.simps)

lemma free_tx_call: "tx_call sample_free_tx = default_call\<lparr>call_format_of := Plain, call_method := ''accounts.Transfer'', call_body := Cbor_ByteString [1, 2]\<rparr>"
   "ai_fee (tx_auth_info sample_free_tx) = default_fee"
   by (simp_all add: sample_free_tx_def append_auth_signature_def append_signer_info_def transaction_new_def default_auth_info_def)

lemma sample_open_simps: "cp_max_batch_gas sample_open_params = 1000" "cp_min_gas_price sample_open_params = fmupd NATIVE 0 fmempty"
  "cp_gas_costs sample_open_params = \<lparr>gc_tx_byte = 0, gc_storage_byte = 0, gc_auth_signature = 0,
     gc_auth_multisig_signer = 0, gc_callformat_x25519_deoxysii = 0\<rparr>"
  by (simp_all add: sample_open_params_def sample_core_params_def)

definition metered :: "('m, 'g) sdk_state \<Rightarrow> ('m, 'g) sdk_state" where
  "metered s = set_used_tx_gas 0 (upd_block (\<lambda>b. b\<lparr>bv_gas_used := Some 0\<rparr>) s)"

lemma metered_simps [simp]: "st_env (metered s) = st_env s" "st_store (metered s) = st_store s" "st_messages (metered s) = st_messages s"
  "used_tx_gas (metered s) = 0" "used_batch_gas (metered s) = 0" "metered (metered s) = metered s" "set_used_tx_gas 0 (metered s) = metered s"
  "bv_fee_manager (st_block_values (metered s)) = bv_fee_manager (st_block_values s)" "bv_refund_unused (st_block_values (metered s)) = bv_refund_unused (st_block_values s)"
  by (simp_all add: metered_def set_used_tx_gas_def upd_local_def upd_block_def used_tx_gas_def used_batch_gas_def)

lemma metered_more [simp]: "metered (set_used_tx_gas 0 s) = metered s" "st_block_values (set_used_tx_gas g s) = st_block_values s"
  "fee_manager_now (upd_block (\<lambda>b. b\<lparr>bv_refund_unused := x\<rparr>) s) = fee_manager_now s" "fee_manager_now (emit_unconditional_event k v s) = fee_manager_now s"
  "fee_manager_now (metered s) = fee_manager_now s" "st_block_values (emit_unconditional_event k v s) = st_block_values s"
  "record_refund 0 fee_manager_new = fee_manager_new" "mgr_tx_fee fee_manager_new = None" "tx_fee_amount default_transaction_fee = 0"
  by (simp_all add: tx_fee_amount_def default_transaction_fee_def saturating_sub_def metered_def set_used_tx_gas_def upd_local_def upd_block_def fee_manager_now_def emit_unconditional_event_def record_refund_def fee_manager_new_def)

lemma free_gas:
  assumes "env_auth_info (st_env s) = Some ai" "used_tx_gas s = 0" "used_batch_gas s = 0" "env_mode (st_env s) = Execute"
  shows "use_tx_gas cfg 0 s = (Ok (), metered s)"
  using assms by (simp add: use_tx_gas_def use_batch_gas_def seq_op_def checked_add_def is_check_only_def update_op_def bind_op_def set_used_tx_gas_def upd_local_def upd_block_def
    used_tx_gas_def used_batch_gas_def metered_def)

lemma before_run:
  assumes "core_params_of (st_store s1) = sample_open_params" "core_dynamic_min_gas_price (st_store s1) = None"
    "st_env s1 = sample_tx_env"
    "st_messages s1 = []" "used_tx_gas s1 = 0" "used_batch_gas s1 = 0"
  shows "modules_before_handle_call (rt_modules sample_runtime) (tx_call sample_free_tx) s1 = (Ok (), metered s1)"
  using assms
  by (simp add: sample_modules modules_before_handle_call_def module_defs seq_op_def return_op_def bind_op_def
     core_before_handle_call_def Let_def env_auth_info_def free_tx_call enforce_min_gas_price_def min_gas_price_def min_gas_prices_def charge_tx_size_def charge_signatures_def tx_size_def
     ok_or_op_def compute_signature_verification_cost_def free_tx_auth sample_open_simps default_fee_def default_base_units_def is_check_only_def gas_price_def checked_mul_def checked_add_def free_gas)

lemma sample_caller: "tx_caller_address sample_deps sample_tx_env = Some sample_payer"
  by (simp add: tx_caller_address_def env_auth_info_def first_signer_def free_tx_auth sample_payer_def del: address_spec_address.simps)

lemma dispatch_run:
  assumes "core_params_of (st_store s1) = sample_open_params" "acc_params (st_store s1) = default_accounts_params"
    "st_env s1 = sample_tx_env"
    "used_tx_gas s1 = 0" "used_batch_gas s1 = 0" "transfer sample_payer bob (BaseUnits 300 NATIVE) (metered s1) = (Ok (), w)"
  shows "modules_dispatch_call (rt_modules sample_runtime) ''accounts.Transfer'' body s1 = (Ok (Handled (Res_Ok Cbor_Null)), w)"
  using assms
  by (simp add: sample_modules modules_dispatch_call_def module_defs by_method_def dispatch_handler_def return_op_def
    bind_op_def sample_codecs_def tx_transfer_def default_accounts_params_def seq_op_def map_err_op_def free_gas env_auth_info_def try_op_def sample_ctx_def sample_caller)

lemma after_run:
  assumes "core_params_of (st_store s1) = sample_open_params"
    "st_env s1 = sample_tx_env"
    "used_tx_gas s1 = 0" "used_batch_gas s1 = 0" "st_messages s1 = []" "fee_manager_now s1 = fee_manager_new" "bv_refund_unused (st_block_values s1) = None"
  shows "modules_after_handle_call (rt_modules sample_runtime) r s1 = (Ok (Inr ()), put_fee_manager fee_manager_new
     (upd_block (\<lambda>b. b\<lparr>bv_refund_unused := None\<rparr>) (emit_unconditional_event (sdk_event_key (Ev_GasUsed 0)) (Ev_GasUsed 0) (metered s1))))"
  using assms
  by (simp add: sample_modules modules_after_handle_call_def module_defs return_op_def
    bind_op_def sample_core_config_def seq_op_def free_gas env_auth_info_def try_op_def sample_ctx_def core_after_handle_call_def Let_def storage_gas_def message_gas_def
    emitted_messages_local_count_def sample_open_simps saturating_mul_def accounts_after_handle_call_def refund_fee_def take_refund_unused_tx_fee_def is_simulation_def)

lemma call_run:
  assumes "core_params_of (st_store s1) = sample_open_params" "acc_params (st_store s1) = default_accounts_params" "core_dynamic_min_gas_price (st_store s1) = None"
    "st_env s1 = sample_tx_env" "used_tx_gas s1 = 0" "used_batch_gas s1 = 0" "st_messages s1 = []" "fee_manager_now s1 = fee_manager_new" "bv_refund_unused (st_block_values s1) = None"
    and opts: "do_method_authorizer opts = None" and "transfer sample_payer bob (BaseUnits 300 NATIVE) (metered s1) = (Ok (), v)"
    "core_params_of (st_store v) = sample_open_params" "st_env v = sample_tx_env" "st_messages v = []" "used_tx_gas v = 0" "used_batch_gas v = 0"
    "fee_manager_now v = fee_manager_new" "bv_refund_unused (st_block_values v) = None"
  shows "\<exists>w. dispatch_tx_call sample_runtime sample_ctx (tx_call sample_free_tx) opts s1 = (Ok (Res_Ok Cbor_Null, Meta_Empty), w) \<and> st_store w = st_store v
    \<and> fee_manager_now w = fee_manager_new"
proof -
  note b = before_run [OF assms(1,3,4,7,5,6)]
  have d: "modules_dispatch_call (rt_modules sample_runtime) ''accounts.Transfer'' body (metered s1) = (Ok (Handled (Res_Ok Cbor_Null)), v)" for body
    by (rule dispatch_run) (use assms in simp_all)
  note a = after_run [OF assms(12,13,15,16,14,17,18)]
  have auth: "modules_before_authorized_call_dispatch (rt_modules sample_runtime) cl s = (Ok (), s)" for cl s
    by (simp add: sample_modules modules_before_authorized_call_dispatch_def module_defs return_op_def seq_op_def bind_op_def)
  have dec: "decode_call sh F c e (tx_call sample_free_tx) i = Inr (Some (tx_call sample_free_tx, Meta_Empty))" for sh F c e i
    by (simp add: decode_call_def decode_call_ex_def free_tx_call)
  have m: "call_method (tx_call sample_free_tx) = ''accounts.Transfer''" "\<not> call_read_only (tx_call sample_free_tx)"
    by (simp_all add: free_tx_call default_call_def)
  show ?thesis
    by (simp add: dispatch_tx_call_def dispatch_tx_call_inner_def try_op_def b bind_op_def reads_op_def dec opts auth d a m return_op_def put_fee_manager_def upd_block_def
       emit_unconditional_event_def fee_manager_now_def)
qed

lemma payer_bob: "sample_payer \<noteq> bob"
proof -
  let ?h = "dep_hash sample_deps [ADDRESS_V0_ED25519_CONTEXT, [0], [9]]"
  have "length ?h = 32" by (simp add: sample_deps_def)
  then have "sample_payer = Abs_address (0 # take 20 ?h)" "length (0 # take 20 ?h) = 21"
    by (simp_all add: sample_payer_def address_new_def ADDRESS_V0_VERSION_def ADDRESS_DATA_SIZE_def)
  moreover have "bob = Abs_address (2 # replicate 20 2)" by (simp add: bob_def test_address_def numeral_eq_Suc)
  ultimately show ?thesis using Abs_address_inject [of "0 # take 20 ?h" "2 # replicate 20 2"] by simp
qed

lemma transfer_state:
  assumes "env_mode (st_env s) = Execute" "balance_of s sample_payer NATIVE = 1000" "balance_of s bob NATIVE = 0"
  obtains v where "transfer sample_payer bob (BaseUnits 300 NATIVE) s = (Ok (), v)" "balance_of v bob NATIVE = 300"
    "core_params_of (st_store v) = core_params_of (st_store s)" "st_env v = st_env s" "st_messages v = st_messages s" "st_block_values v = st_block_values s"
     "st_local_values v = st_local_values s"
proof -
  let ?v = "emit_event_raw (sdk_event_key (Ev_Transfer sample_payer bob (BaseUnits 300 NATIVE))) (Ev_Transfer sample_payer bob (BaseUnits 300 NATIVE))
     (put_balance bob NATIVE 300 (put_balance sample_payer NATIVE 700 s))"
  have "transfer sample_payer bob (BaseUnits 300 NATIVE) s = (Ok (), ?v)"
    using assms payer_bob by (simp add: transfer_def transfer_silent_def is_check_only_def seq_op_def sub_amount_def add_amount_def checked_sub_def checked_add_def
      acc_simps emit_event_def update_op_def)
  then show thesis by (rule that) (simp_all add: acc_simps, simp_all add: put_balance_def upd_store_def emit_event_raw_def)
qed

abbreviation sample_opts :: dispatch_options where
  "sample_opts \<equiv> default_dispatch_options\<lparr>do_tx_size := 30, do_tx_index := 0, do_tx_hash := []\<rparr>"

abbreviation sample_authenticated :: "('m, 'g) sdk_state" where
  "sample_authenticated \<equiv> set_nonce sample_payer 1 sample_block"

text \<open>The call in the state of the transaction.\<close>

lemma sample_call:
  assumes "state_init [] (tx_options sample_free_tx sample_opts) (state_open snapshot_ops sample_authenticated) = Ok s1"
  obtains w where "dispatch_tx_call sample_runtime sample_ctx (tx_call sample_free_tx) sample_opts s1 = (Ok (Res_Ok Cbor_Null, Meta_Empty), w)"
    "balance_of w bob NATIVE = 300" "fee_manager_now w = fee_manager_new"
proof -
  note i = init_with_tx [OF assms]
  have env: "st_env s1 = sample_tx_env"
    by (simp add: i set_nonce_def upd_store_def sample_block_simps default_environment_def default_dispatch_options_def)
  have f: "core_params_of (st_store s1) = sample_open_params" "acc_params (st_store s1) = default_accounts_params"
     "core_dynamic_min_gas_price (st_store s1) = None" "used_tx_gas s1 = 0" "used_batch_gas s1 = 0" "st_messages s1 = []"
     "fee_manager_now s1 = fee_manager_new" "bv_refund_unused (st_block_values s1) = None"
     "balance_of s1 sample_payer NATIVE = 1000" "balance_of s1 bob NATIVE = 0"
    using payer_bob
    by (simp_all add: i set_nonce_def upd_store_def sample_block_def put_supply_def put_balance_def root_state_def empty_storage_def
        used_tx_gas_def used_batch_gas_def fee_manager_now_def balance_of_def default_block_values_ext_def default_local_values_ext_def)
  have "env_mode (st_env (metered s1)) = Execute" "balance_of (metered s1) sample_payer NATIVE = 1000"
      "balance_of (metered s1) bob NATIVE = 0"
    using env f by (simp_all add: balance_of_def)
  from transfer_state [OF this] obtain v where v: "transfer sample_payer bob (BaseUnits 300 NATIVE) (metered s1) = (Ok (), v)"
      "balance_of v bob NATIVE = 300" "core_params_of (st_store v) = core_params_of (st_store s1)" "st_env v = st_env s1"
      "st_messages v = st_messages s1" "st_block_values v = st_block_values (metered s1)" "st_local_values v = st_local_values (metered s1)"
    by auto
  have vv: "used_tx_gas v = 0" "used_batch_gas v = 0" "fee_manager_now v = fee_manager_new" "bv_refund_unused (st_block_values v) = None"
    using metered_simps(4,5) [of s1] metered_more(5) [of s1] f v(6,7) by (simp_all add: used_tx_gas_def used_batch_gas_def fee_manager_now_def)
  have opts: "do_method_authorizer sample_opts = None" by (simp add: default_dispatch_options_def)
  obtain w where "dispatch_tx_call sample_runtime sample_ctx (tx_call sample_free_tx) sample_opts s1 = (Ok (Res_Ok Cbor_Null, Meta_Empty), w)"
      "st_store w = st_store v" "fee_manager_now w = fee_manager_new"
    using call_run [OF f(1-3) env f(4-8) opts v(1)] v vv f env by auto
  then show thesis using v(2) by (intro that) (simp_all add: balance_of_def)
qed

lemma sample_after_dispatch:
  assumes "st_env u = default_environment" "fee_manager_now u = fee_manager_new"
  shows "modules_after_dispatch_tx (rt_modules sample_runtime) (tx_auth_info sample_free_tx) (Res_Ok Cbor_Null) u =
    (Ok (), put_fee_manager fee_manager_new u)"
proof -
  have c: "commit_tx fee_manager_new = Some (\<lparr>fu_payer = default_address, fu_refund = BaseUnits 0 NATIVE\<rparr>, fee_manager_new)"
    by (simp add: commit_tx_def fee_manager_new_def default_transaction_fee_def tx_fee_amount_def saturating_sub_def)
  have "accounts_after_dispatch_tx (tx_auth_info sample_free_tx) True u = (Ok (), put_fee_manager fee_manager_new u)"
    using assms by (simp add: accounts_after_dispatch_tx_def c seq_op_def bind_op_def expect_op_def add_amount_def is_check_only_def
        put_fee_manager_def upd_block_def default_environment_def)
  then show ?thesis
    by (simp add: sample_modules modules_after_dispatch_tx_def module_defs return_op_def seq_op_def bind_op_def expect_op_def)
qed

lemma sample_nested: "nested_runtime sample_runtime"
  unfolding sample_runtime_def by (rule sdk_runtime_nested) (auto simp: sample_base_def)

lemma sample_execution:
  "\<exists>r (t :: ('m, 'g) sdk_state). execute_txs sample_runtime sample_ctx 0 [(30, [], sample_free_tx)] sample_block = (Ok (Inr [r]), t) \<and>
     balance_of t bob NATIVE = 300"
proof -
  let ?a = "sample_authenticated :: ('m, 'g) sdk_state"
  have rng: "st_rng ?a \<noteq> None" by (simp add: set_nonce_def upd_store_def sample_block_simps)
  obtain s1 where s1: "state_init [] (tx_options sample_free_tx sample_opts) (state_open snapshot_ops ?a) = Ok s1"
    by (rule init_child [OF rng])
  obtain w where w: "dispatch_tx_call sample_runtime sample_ctx (tx_call sample_free_tx) sample_opts s1 = (Ok (Res_Ok Cbor_Null, Meta_Empty), w)"
      "balance_of w bob NATIVE = 300" "fee_manager_now w = fee_manager_new"
    by (rule sample_call [OF s1])
  obtain d u where d: "dr_result d = Res_Ok Cbor_Null" "dr_call_format_metadata d = Meta_Empty"
      "with_transaction_opts snapshot_ops [] (tx_options sample_free_tx sample_opts)
         (dispatch_tx_body sample_runtime sample_ctx (tx_call sample_free_tx) sample_opts) ?a = (Ok d, u)"
      "committed_from ?a w u" "bv_fee_manager (st_block_values u) = bv_fee_manager (st_block_values w)"
    using tx_transaction_run [OF nested_runtimeD(1) [OF sample_nested] rng s1 w(1)]
    by (auto simp: succeeds_def set_nonce_def upd_store_def sample_block_simps default_environment_def is_check_only_def free_tx_call
        default_call_def split: if_splits)
  have u: "st_env u = default_environment" "fee_manager_now u = fee_manager_new" "st_store u = st_store w"
    using d(4,5) w by (auto simp: committed_from_def set_nonce_def upd_store_def sample_block_simps fee_manager_now_def)
  have "balance_of (put_fee_manager fee_manager_new u) bob NATIVE = 300" using u(3) w(2) by (simp add: acc_simps, simp add: balance_of_def)
  then show ?thesis
    using d sample_after_dispatch [OF u(1,2)] authenticate_run [where 'a = 'm and 'b = 'g]
    by (simp add: execute_tx_def execute_tx_opts_def dispatch_tx_opts_def default_dispatch_options_def try_op_def bind_op_def seq_op_def
        return_op_def encode_result_def encode_result_ex_def)
qed

section \<open>A block\<close>

text \<open>A block whose only transaction does not decode, on a state that needs no migration.\<close>

definition sample_root :: storage where
  "sample_root = empty_storage\<lparr>core_params_of := sample_open_params,
     core_versions := fmap_of_list [(''core'', 1), (''accounts'', 1), (''rewards'', 2), (VERSION_GLOBAL_KEY, 1)]\<rparr>"

lemma sample_runtime_simps: "rt_state_version sample_runtime = 1" "rt_decode_utx sample_runtime raw = None" "rt_hash sample_runtime raw = raw"
  "rt_schedule_control sample_runtime = default_schedule_control"
  by (simp_all add: sample_runtime_def sdk_runtime_def sample_base_def Let_def)

lemma sample_migrate: "core_versions (st_store s) = core_versions sample_root \<Longrightarrow> migrate sample_runtime s = (Ok (), s)"
  by (simp add: migrate_def sample_modules module_defs init_or_migrate_def sample_root_def bind_op_def reads_op_def return_op_def fm_get_def
      migrate_global_def VERSION_GLOBAL_KEY_def sample_runtime_simps)

lemma sample_begin: "modules_begin_block (rt_modules sample_runtime) s = (Ok (), core_begin_block sample_ctx s)"
  by (simp add: modules_begin_block_def sample_modules module_defs seq_op_def bind_op_def return_op_def update_op_def)

lemma sample_end:
  assumes "accounts_inv s" "mgr_tx_fee (fee_manager_now s) = None"
  shows "\<exists>t. modules_end_block (rt_modules sample_runtime) s = (Ok (), t)"
proof -
  have "accounts_inv (core_end_block s)" "fee_manager_now (core_end_block s) = fee_manager_now s"
    using assms(1) by (auto simp: core_end_block_def Let_def accounts_inv_def circulating_def total_balance_def supply_of_def fee_manager_now_def upd_store_def upd_block_def split: option.splits)
  then obtain u where u: "accounts_end_block sample_ctx (core_end_block s) = (Ok (), u)" "accounts_inv u"
    using accounts_end_block_run [of "core_end_block s" sample_ctx] assms(2) by (auto simp: sample_ctx_def)
  obtain t where "rewards_end_block transfer sample_ctx u = (Ok (), t)" using rewards_end_block_run [OF u(2)] by metis
  then show ?thesis using u by (simp add: modules_end_block_def sample_modules module_defs seq_op_def bind_op_def return_op_def update_op_def expect_op_def)
qed

lemma sample_decode:
  fixes s :: "('m, 'g) sdk_state"
  shows "decode_tx sample_runtime sample_ctx raw s =
    (sdk_decode (sample_base :: ('m, 'g) sdk_state runtime) sample_ctx (core_params_of (st_store s)) raw, s)"
  unfolding sample_runtime_def by (rule sdk_runtime_decodes)

lemma sample_loop:
  assumes "core_params_of (st_store s) = sample_open_params" "used_batch_gas s = 0"
  shows "schedule_loop sample_runtime sample_ctx fetch (Suc n) i [[1]] 50 empty_sched s = (Ok (Some (Inr \<lparr>sd_new_batch = [], sd_results = [], sd_rejects = [[1]]\<rparr>)), s)"
proof -
  have "cp_max_tx_size sample_open_params = 100" by (simp add: sample_open_params_def sample_core_params_def)
  then show ?thesis
    using assms by (simp add: schedule_tx_def bind_op_def return_op_def sample_decode sdk_decode_def sample_base_def remaining_batch_gas_def
      max_batch_gas_def sample_open_simps saturating_sub_def sample_runtime_simps default_schedule_control_def empty_sched_def try_op_def)
qed

lemma sample_schedule:
  "\<exists>(res :: unit batch_result) root. schedule_and_execute_batch (sample_runtime :: (unit \<times> hook_invocation, unit) sdk_state runtime)
     sample_ctx fetch (Suc n) sample_root [[1]] = (Ok (Inr (res, [])), root)"
proof -
  obtain s :: "(unit \<times> hook_invocation, unit) sdk_state" where s: "state_init [] (with_mode Execute default_options) (root_state sample_root Execute) = Ok s"
      "st_store s = sample_root" "st_block_values s = default" by (rule init_root [of Execute sample_root]) auto
  let ?b = "core_begin_block sample_ctx s"
  have b: "core_params_of (st_store ?b) = sample_open_params" "used_batch_gas ?b = 0" "acc_balances (st_store ?b) = fmempty" "acc_total_supplies (st_store ?b) = fmempty"
     "fee_manager_now ?b = fee_manager_new"
    by (simp_all add: core_begin_block_def Let_def upd_block_def upd_store_def s sample_root_def empty_storage_def used_batch_gas_def default_block_values_ext_def fee_manager_now_def)
  have inv: "accounts_inv ?b" "mgr_tx_fee (fee_manager_now ?b) = None"
    by (simp_all add: accounts_inv_def circulating_def total_balance_def supply_of_def b fee_manager_inv_new)
  obtain t where t: "modules_end_block (rt_modules sample_runtime) ?b = (Ok (), t)" using sample_end [OF inv] by blast
  have msgs: "handle_last_round_messages sample_runtime sample_ctx s = (Ok (), s)"
    by (simp add: handle_last_round_messages_def sample_ctx_def s(2) sample_root_def empty_storage_def return_op_def)
  show ?thesis
    by (simp add: schedule_and_execute_batch_def execute_batch_common_def enter_opts_def with_mode_def s(1) [simplified with_mode_def]
        batch_body_def seq_op_def bind_op_def try_op_def sample_migrate s(2) msgs sample_begin sample_runtime_simps
        default_schedule_control_def sample_loop [OF b(1,2)] return_op_def t takes del: schedule_loop.simps)
qed

end
