(* ===== verification/Dispatcher_Properties.thy ===== *)
theory Dispatcher_Properties
  imports Runtime_Sample
begin

text \<open>
  What the dispatcher promises: transactions that fail are rolled back, executed transactions keep the books of the accounts
  balanced, scheduled batches are replayed exactly, scheduling ends when the host has no more, and queries leave no trace.
\<close>

section \<open>Scheduling ends\<close>

text \<open>An answer of the host that ends the loop, whatever was asked: an error, nothing, or fewer transactions than asked for.\<close>

definition last_answer :: "(nat \<Rightarrow> bytes option \<Rightarrow> u32 \<Rightarrow> runtime_error + bytes list option) \<Rightarrow> nat \<Rightarrow> bool" where
  "last_answer fetch k \<longleftrightarrow> (\<forall>from n xs. fetch k from n = Inr (Some xs) \<longrightarrow> xs = [] \<or> length xs < unat n)"

lemma schedule_loop_short:
  assumes "xs = [] \<or> length xs < unat req"
  shows "schedule_loop R c fetch (Suc fuel) i xs req sd s =
    bind_op (schedule_txs R c xs sd) (\<lambda>r. return_op (Some (map_sum (dispatcher_runtime_error R) step_sched r))) s"
  using assms
  by (auto simp: bind_op_def return_op_def split: prod.splits outcome.splits sum.splits sched_step.splits)

lemma schedule_loop_fuel:
  assumes "last_answer fetch k" "i \<le> k" "k - i + 1 < fuel"
  shows "(\<forall>n. schedule_loop R c fetch (fuel + n) i batch req sd s = schedule_loop R c fetch fuel i batch req sd s) \<and>
    fst (schedule_loop R c fetch fuel i batch req sd s) \<noteq> Ok None"
  using assms(2,3)
proof (induction fuel arbitrary: i batch req sd s)
  case (Suc fuel)
  obtain x u where x: "schedule_txs R c batch sd s = (x, u)" by (cases "schedule_txs R c batch sd s")
  have fuel: "\<exists>f. fuel = Suc f" using Suc.prems(2) by (cases fuel) auto
  let ?ask = "fetch i (Some (rt_hash R (last batch))) (sc_batch_size (rt_schedule_control R))"
  have next_round: "(\<forall>n. schedule_loop R c fetch (fuel + n) (i + 1) xs (sc_batch_size (rt_schedule_control R)) sd' u = schedule_loop R c fetch fuel (i + 1) xs (sc_batch_size (rt_schedule_control R)) sd' u) \<and>
      fst (schedule_loop R c fetch fuel (i + 1) xs (sc_batch_size (rt_schedule_control R)) sd' u) \<noteq> Ok None" if "?ask = Inr (Some xs)" for xs sd'
  proof (cases "i = k")
    case True
    then have "xs = [] \<or> length xs < unat (sc_batch_size (rt_schedule_control R))" using assms(1) that by (auto simp: last_answer_def)
    then show ?thesis using fuel
      by (auto simp: schedule_loop_short bind_op_def return_op_def simp del: schedule_loop.simps split: prod.splits outcome.splits)
  next
    case False
    then show ?thesis using Suc.IH [of "i + 1"] Suc.prems by simp
  qed
  show ?case
    using x next_round
    by (auto simp: bind_op_def return_op_def split: outcome.splits sum.splits sched_step.splits option.splits)
qed simp

text \<open>One result for each transaction, and not more transactions than allowed.\<close>

definition sched_ok :: "('m, 'g) sdk_state runtime \<Rightarrow> sched \<Rightarrow> bool" where
  "sched_ok R sd \<longleftrightarrow> length (sd_results sd) = length (sd_new_batch sd) \<and> length (sd_new_batch sd) \<le> sc_max_tx_count (rt_schedule_control R)"

lemma schedule_decoded_ok:
  assumes "sched_ok R sd" "length (sd_new_batch sd) < sc_max_tx_count (rt_schedule_control R)"
    and "schedule_decoded R c raw gas sd tx s = (Ok (Inr st), t)"
  shows "sched_ok R (step_sched st)"
  using assms(3)
proof (cases rule: schedule_decoded_cases)
  case skipped
  then show ?thesis using assms(1) by (simp add: sched_ok_def)
next
  case (executed x u r)
  then show ?thesis using assms(1,2) by (simp add: sched_ok_def)
qed

lemma schedule_tx_ok: "sched_ok R sd \<Longrightarrow> schedule_tx R c raw sd s = (Ok (Inr st), t) \<Longrightarrow> sched_ok R (step_sched st)"
proof -
  assume ok: "sched_ok R sd" and run: "schedule_tx R c raw sd s = (Ok (Inr st), t)"
  show "sched_ok R (step_sched st)"
  proof (cases "remaining_batch_gas s < sc_min_remaining_gas (rt_schedule_control R) \<or>
      length (sd_new_batch sd) \<ge> sc_max_tx_count (rt_schedule_control R)")
    case True
    then show ?thesis using run ok by (auto simp: schedule_tx_def)
  next
    case False
    obtain x u where x: "try_op (decode_tx R c raw) s = ((Ok x :: (ub, _) outcome), u)" using False run by (auto simp: schedule_tx_def bind_op_Ok_iff)
    show ?thesis
      using x False run ok schedule_decoded_ok [OF ok, of c raw "remaining_batch_gas s" _ u st t]
      by (cases x) (auto simp: schedule_tx_def return_op_def sched_ok_def)
  qed
qed

lemma schedule_txs_ok: "sched_ok R sd \<Longrightarrow> schedule_txs R c batch sd s = (Ok (Inr st), t) \<Longrightarrow> sched_ok R (step_sched st)"
proof (induction batch arbitrary: sd s)
  case (Cons raw batch)
  obtain st1 s1 where 1: "schedule_tx R c raw sd s = (Ok (Inr st1), s1)"
      and 2: "(case st1 of Sched_Done sd \<Rightarrow> return_op (Inr (Sched_Done sd)) | Sched_Next sd \<Rightarrow> schedule_txs R c batch sd) s1 = (Ok (Inr st), t)"
    using Cons.prems(2) by (auto simp: bind_op_Ok_iff sum_branch_Inr)
  show ?case using schedule_tx_ok [OF Cons.prems(1) 1] 2 Cons.IH by (cases st1) (auto simp: return_op_def)
qed (auto simp: return_op_def)

lemma schedule_loop_ok:
  "sched_ok R sd \<Longrightarrow> schedule_loop R c fetch fuel i batch req sd s = (Ok (Some (Inr sd')), t) \<Longrightarrow> sched_ok R sd'"
proof (induction fuel arbitrary: i batch req sd s)
  case (Suc fuel)
  obtain x u where x: "schedule_txs R c batch sd s = (Ok x, u)" using Suc.prems(2) by (auto simp: bind_op_Ok_iff)
  then obtain st where st: "x = Inr st" using Suc.prems(2) by (cases x) (auto simp: return_op_def)
  note ok = schedule_txs_ok [OF Suc.prems(1) x [unfolded st]]
  show ?case using Suc.prems(2) x st ok Suc.IH
    by (cases st) (auto simp: return_op_def split: if_splits sum.splits option.splits)
qed (simp add: return_op_def)

text \<open>What a batch returns is a failure to handle messages or comes from its transactions.\<close>

lemma seq_op_Ok_iff: "seq_op m n s = (Ok y, t) \<longleftrightarrow> (\<exists>a u. m s = (Ok a, u) \<and> n u = (Ok y, t))"
  by (simp add: seq_op_def bind_op_Ok_iff)

lemma batch_body_result:
  assumes "batch_body R c err f s = (Ok y, t)"
  shows "(\<exists>e. y = Inl (err e)) \<or> (\<exists>e s1 t1. y = Inl e \<and> f s1 = (Ok (Inl e), t1)) \<or>
    (\<exists>res q s1 t1. y = Inr (res, q) \<and> f s1 = (Ok (Inr (br_results res, q)), t1))"
proof -
  obtain a b handled where a: "(try_op (handle_last_round_messages R c) :: (_, ub, _) rust_op) a = (Ok handled, b)"
      "(case handled of Inl e \<Rightarrow> return_op (Inl (err (core_runtime_error R e)))
      | Inr _ \<Rightarrow>
      seq_op (modules_begin_block (rt_modules R))
      (bind_op f (\<lambda>results.
       case results of Inl e \<Rightarrow> return_op (Inl e)
       | Inr (results, q) \<Rightarrow>
       seq_op (modules_end_block (rt_modules R)) (\<lambda>s.
         case take_messages s of (messages, s) \<Rightarrow>
         case take_all_events s of (block_tags, s) \<Rightarrow>
           (Ok (Inr (\<lparr>br_results = results, br_messages = map fst messages, br_block_tags = into_tags block_tags,
              br_tx_reject_hashes = []\<rparr>, q)),
            save_emitted_message_handlers (map snd messages) s))))) b = (Ok y, t)"
    using assms by (auto simp: batch_body_def seq_op_Ok_iff bind_op_Ok_iff)
  show ?thesis
  proof (cases handled)
    case (Inl e)
    then have "y = Inl (err (core_runtime_error R e))" using a(2) by (simp add: return_op_def)
    then show ?thesis by (intro disjI1 exI)
  next
    case (Inr u)
    then obtain s1 x t1 where x: "f s1 = (Ok x, t1)" "(case x of Inl e \<Rightarrow> return_op (Inl e)
       | Inr (results, q) \<Rightarrow>
       seq_op (modules_end_block (rt_modules R)) (\<lambda>s.
         case take_messages s of (messages, s) \<Rightarrow>
         case take_all_events s of (block_tags, s) \<Rightarrow>
           (Ok (Inr (\<lparr>br_results = results, br_messages = map fst messages, br_block_tags = into_tags block_tags,
              br_tx_reject_hashes = []\<rparr>, q)),
            save_emitted_message_handlers (map snd messages) s))) t1 = (Ok y, t)"
      using a(2) by (auto simp: seq_op_Ok_iff bind_op_Ok_iff)
    show ?thesis
    proof (cases x)
      case (Inl e)
      then show ?thesis using x by (auto simp: return_op_def)
    next
      case (Inr p)
      obtain results q where p: "p = (results, q)" by (cases p)
      have "\<exists>res. y = Inr (res, q) \<and> br_results res = results" using x(2) by (auto simp: Inr p seq_op_Ok_iff takes)
      then obtain res where "y = Inr (res, q)" "br_results res = results" by (elim exE conjE)
      then show ?thesis using x(1) by (intro disjI2 exI [of _ res] exI [of _ q] exI [of _ s1] exI [of _ t1]) (simp add: Inr p)
    qed
  qed
qed

lemma scheduled_result:
  fixes R :: "('c \<times> hook_invocation, 'g) sdk_state runtime"
  assumes "schedule_and_execute_batch R c fetch fuel root batch = (Ok y, root')"
  shows "(\<exists>e. y = Inl (Some e)) \<or>
    (\<exists>x s1 t1. schedule_loop R c fetch fuel 0 batch (sc_initial_batch_size (rt_schedule_control R)) empty_sched s1 = (Ok x, t1) \<and>
       (y = Inl None \<longrightarrow> x = None) \<and>
       (\<forall>res new. y = Inr (res, new) \<longrightarrow> (\<exists>sd. x = Some (Inr sd) \<and> new = sd_new_batch sd \<and> br_results res = sd_results sd)))"
proof -
  let ?conv = "\<lambda>r. case r of None \<Rightarrow> Inl None | Some (Inl e) \<Rightarrow> Inl (Some e) | Some (Inr sd) \<Rightarrow> Inr (sd_results sd, sd)"
  let ?f = "bind_op (schedule_loop R c fetch fuel 0 batch (sc_initial_batch_size (rt_schedule_control R)) empty_sched) (\<lambda>r. return_op (?conv r))"
  obtain s :: "('c \<times> hook_invocation, 'g) sdk_state" where s: "state_init [] (with_mode Execute default_options) (root_state root Execute) = Ok s"
    by (rule init_root [of Execute root]) auto
  obtain z t where z: "batch_body R c Some ?f s = (Ok z, t)"
      "y = map_sum id (\<lambda>(result, sd). (result\<lparr>br_tx_reject_hashes := sd_rejects sd\<rparr>, sd_new_batch sd)) z"
    using assms s
    by (auto simp: schedule_and_execute_batch_def execute_batch_common_def enter_opts_def with_mode_def
        split: prod.splits outcome.splits sum.splits)
  have conv: "\<exists>x. schedule_loop R c fetch fuel 0 batch (sc_initial_batch_size (rt_schedule_control R)) empty_sched s1 = (Ok x, t1) \<and> w = ?conv x"
    if "?f s1 = (Ok w, t1)" for s1 w t1
    using that by (auto simp: bind_op_Ok_iff return_op_def)
  consider e where "z = Inl (Some e)" | e s1 t1 where "z = Inl e" "?f s1 = (Ok (Inl e), t1)"
    | res q s1 t1 where "z = Inr (res, q)" "?f s1 = (Ok (Inr (br_results res, q)), t1)"
    using batch_body_result [OF z(1)] by blast
  then show ?thesis
  proof cases
    case (1 e)
    then have "y = Inl (Some e)" using z(2) by simp
    then show ?thesis by blast
  next
    case (2 e s1 t1)
    obtain x where x: "schedule_loop R c fetch fuel 0 batch (sc_initial_batch_size (rt_schedule_control R)) empty_sched s1 = (Ok x, t1)"
        "Inl e = ?conv x" using conv [OF 2(2)] by blast
    have "x = None \<longleftrightarrow> e = None" using x(2) by (auto split: option.splits sum.splits)
    then show ?thesis using x(1) z(2) 2(1) by (cases e) auto
  next
    case (3 res q s1 t1)
    obtain x where x: "schedule_loop R c fetch fuel 0 batch (sc_initial_batch_size (rt_schedule_control R)) empty_sched s1 = (Ok x, t1)"
        "Inr (br_results res, q) = ?conv x" using conv [OF 3(2)] by blast
    have "x = Some (Inr q) \<and> br_results res = sd_results q" using x(2) by (auto split: option.splits sum.splits)
    then show ?thesis using x(1) z(2) 3(1) by auto
  qed
qed

section \<open>Properties\<close>

text \<open>C35: once the host answers a request with an error, with nothing or with fewer transactions than asked for, scheduling
  a batch ends: with the fuel to get there, more fuel changes nothing, and the scheduler has an answer. A batch it returns
  has one result for each of its transactions, and at most as many as the schedule allows.\<close>

theorem scheduling_ends:
  fixes R :: "('c \<times> hook_invocation, 'g) sdk_state runtime"
  assumes "last_answer fetch k" "k + 1 < fuel"
  shows "schedule_and_execute_batch R c fetch (fuel + n) root batch = schedule_and_execute_batch R c fetch fuel root batch \<and>
    fst (schedule_and_execute_batch R c fetch fuel root batch) \<noteq> Ok (Inl None) \<and>
    (\<forall>res new. fst (schedule_and_execute_batch R c fetch fuel root batch) = Ok (Inr (res, new)) \<longrightarrow>
       length (br_results res) = length new \<and> length new \<le> sc_max_tx_count (rt_schedule_control R))"
proof -
  let ?loop = "\<lambda>fuel. schedule_loop R c fetch fuel 0 batch (sc_initial_batch_size (rt_schedule_control R)) empty_sched"
  have fuel: "?loop (fuel + n) s = ?loop fuel s" "fst (?loop fuel s) \<noteq> Ok None" for n s
    using schedule_loop_fuel [OF assms(1), of 0 fuel R c batch "sc_initial_batch_size (rt_schedule_control R)" empty_sched s] assms(2) by auto
  have "?loop (fuel + n) = ?loop fuel" using fuel by (simp add: fun_eq_iff)
  then have same: "schedule_and_execute_batch R c fetch (fuel + n) root batch = schedule_and_execute_batch R c fetch fuel root batch"
    by (simp add: schedule_and_execute_batch_def)
  obtain x root' where x: "schedule_and_execute_batch R c fetch fuel root batch = (x, root')"
    by (cases "schedule_and_execute_batch R c fetch fuel root batch")
  have start: "sched_ok R empty_sched" by (simp add: sched_ok_def empty_sched_def)
  have "x \<noteq> Ok (Inl None) \<and> (\<forall>res new. x = Ok (Inr (res, new)) \<longrightarrow> length (br_results res) = length new \<and>
      length new \<le> sc_max_tx_count (rt_schedule_control R))"
  proof (cases x)
    case (Ok y)
    show ?thesis
      using scheduled_result [OF x [unfolded Ok]]
    proof (elim disjE exE conjE)
      fix z s1 t1
      assume z: "?loop fuel s1 = (Ok z, t1)" "y = Inl None \<longrightarrow> z = None"
        "\<forall>res new. y = Inr (res, new) \<longrightarrow> (\<exists>sd. z = Some (Inr sd) \<and> new = sd_new_batch sd \<and> br_results res = sd_results sd)"
      have "z \<noteq> None" using fuel(2) [of s1] z(1) by auto
      moreover have "sched_ok R sd" if "z = Some (Inr sd)" for sd by (rule schedule_loop_ok [OF start z(1) [unfolded that]])
      ultimately show ?thesis using z(2,3) Ok by (auto simp: sched_ok_def)
    qed (use Ok in simp)
  qed simp_all
  then show ?thesis using same x by simp
qed

theorem scheduling_ends_witness:
  "\<exists>(res :: unit batch_result) root. schedule_and_execute_batch (sample_runtime :: (unit \<times> hook_invocation, unit) sdk_state runtime) sample_ctx
       (\<lambda>_ _ _. Inr None) 7 sample_root [[1]] = (Ok (Inr (res, [])), root) \<and>
     fst (schedule_and_execute_batch (sample_runtime :: (unit \<times> hook_invocation, unit) sdk_state runtime) sample_ctx
       (\<lambda>_ _ _. Inr None) 2 sample_root [[1]]) = Ok (Inr (res, []))"
proof -
  have "last_answer (\<lambda>_ _ _. Inr None) 0" by (simp add: last_answer_def)
  note e = scheduling_ends [OF this, where fuel = 2 and n = 5 and R = "sample_runtime :: (unit \<times> hook_invocation, unit) sdk_state runtime"
      and c = sample_ctx and root = sample_root and batch = "[[1]]", simplified]
  obtain res :: "unit batch_result" and root where "schedule_and_execute_batch (sample_runtime :: (unit \<times> hook_invocation, unit) sdk_state runtime) sample_ctx
       (\<lambda>_ _ _. Inr None) 2 sample_root [[1]] = (Ok (Inr (res, [])), root)"
    using sample_schedule [of "(\<lambda>_ _ _. Inr None)" 1] by (auto simp: numeral_2_eq_2)
  with e show ?thesis by auto
qed

text \<open>C5: executing transactions outside of checks keeps the books: with any fee proxy that does, whatever the transactions are
  and however they end, what circulates of each denomination, in accounts and with the fee manager, and the recorded supplies
  stay the same, and the former is the latter.\<close>

theorem batch_keeps_books:
  assumes "\<forall>tx. steps True mild (resolve tx) \<and> steps False books_tx (resolve tx)" "steps True nested (rt_migrate_state base)"
    and "st_rng s \<noteq> None" "\<not> is_check_only (st_env s)" "accounts_inv s"
    and "execute_txs (sdk_runtime base cfg pend c K resolve genesis allowed) c i txs s = (Ok r, t)"
  shows "circulating t = circulating s \<and> supply_of t = supply_of s \<and> accounts_inv t"
proof -
  have "sdk_books base resolve" using assms(1,2) by unfold_locales auto
  from sdk_books.transactions_keep_books [OF this assms(3,6)] show ?thesis
    using assms(4,5) conserved_inv by (auto simp: books_tx_def conserved_def)
qed

lemma sample_proxy: "\<forall>tx. steps True mild (resolve_payers [] tx) \<and> steps False books_tx (resolve_payers [] tx)"
  "steps True nested (rt_migrate_state sample_base)"
  by (auto simp: sample_base_def)

lemma sample_block_inv: "accounts_inv sample_block"
proof -
  have "denom_total (fmupd (sample_payer, NATIVE) 1000 fmempty) d = (if d = NATIVE then 1000 else 0)" for d by (simp add: fm_total_def)
  then show ?thesis
    by (simp add: accounts_inv_def circulating_def total_balance_def supply_of_def sample_block_simps fee_manager_inv_new)
      (simp add: sample_block_def put_supply_def put_balance_def upd_store_def root_state_def empty_storage_def)
qed

theorem batch_keeps_books_witness:
  "\<exists>r (t :: (unit, unit) sdk_state). execute_txs sample_runtime sample_ctx 0 [(30, [], sample_free_tx)] sample_block = (Ok (Inr [r]), t) \<and>
     balance_of t bob NATIVE = 300 \<and> circulating t = circulating (sample_block :: (unit, unit) sdk_state) \<and> accounts_inv t"
proof -
  obtain r and t :: "(unit, unit) sdk_state"
    where run: "execute_txs sample_runtime sample_ctx 0 [(30, [], sample_free_tx)] sample_block = (Ok (Inr [r]), t)"
      "balance_of t bob NATIVE = 300"
    using sample_execution by blast
  have "st_rng sample_block \<noteq> None" "\<not> is_check_only (st_env sample_block)"
    by (simp_all add: sample_block_simps default_environment_def is_check_only_def)
  from batch_keeps_books [OF sample_proxy this sample_block_inv run(1) [unfolded sample_runtime_def]] run show ?thesis by blast
qed

text \<open>C7: what dispatching a transaction can come to. Authentication rejects it, and that is all that happened. Or
  its call ran in a state of its own: when it succeeded outside of checks, its store and its messages are those of the block,
  otherwise the store, the messages and the events are what authentication left; then the hooks after it ran, and a call that
  aborted aborts the batch.\<close>

theorem transaction_outcomes:
  assumes "nested_runtime R" "st_rng s \<noteq> None" "dispatch_tx_opts R c tx opts s = (Ok r, t)"
  shows "(\<exists>e. modules_authenticate_tx (rt_modules R) tx s = (Err e, t) \<and> r = Inr (dispatch_result_of (into_call_result (rt_show R) e))) \<or>
    (\<exists>a s1 result metadata w u d. authenticated R tx opts s a \<and>
       state_init [] (tx_options tx opts) (state_open snapshot_ops a) = Ok s1 \<and>
       dispatch_tx_call R c (tx_call tx) opts s1 = (Ok (result, metadata), w) \<and>
       (if succeeds result (tx_call tx) (st_env a) then st_store u = st_store w \<and> st_messages u = st_messages a @ st_messages w
        else st_store u = st_store a \<and> st_messages u = st_messages a) \<and> st_events u = st_events a \<and> st_env u = st_env a \<and>
       modules_after_dispatch_tx (rt_modules R) (tx_auth_info tx) result u = (Ok (), t) \<and>
       dr_result d = result \<and> r = (case result of Res_Aborted err \<Rightarrow> Inl err | _ \<Rightarrow> Inr d))"
proof -
  have "\<forall>m \<in> set (rt_modules R). call_steps True nested m \<and> tx_steps True nested m" using nested_runtimeD(1,2) [OF assms(1)] by blast
  then show ?thesis
  proof (cases rule: dispatch_tx_opts_cases [OF _ assms(2,3)])
    case (2 e)
    then show ?thesis by blast
  next
    case (3 a s1 result metadata w d u)
    have "(if succeeds result (tx_call tx) (st_env a) then st_store u = st_store w \<and> st_messages u = st_messages a @ st_messages w
        else st_store u = st_store a \<and> st_messages u = st_messages a) \<and> st_events u = st_events a \<and> st_env u = st_env a"
      using 3(5) by (auto simp: committed_from_def rolled_back_def split: if_splits)
    then show ?thesis
      using 3
      by (intro disjI2 exI [of _ a] exI [of _ s1] exI [of _ result] exI [of _ metadata] exI [of _ w] exI [of _ u] exI [of _ d]) simp
  qed
qed

theorem transaction_outcomes_witness:
  "\<exists>r (t :: (unit, unit) sdk_state) (a :: (unit, unit) sdk_state) (s1 :: (unit, unit) sdk_state) result metadata w.
     dispatch_tx_opts sample_runtime sample_ctx sample_free_tx sample_opts sample_block = (Ok r, t) \<and>
     authenticated sample_runtime sample_free_tx sample_opts sample_block a \<and>
     dispatch_tx_call sample_runtime sample_ctx (tx_call sample_free_tx) sample_opts s1 = (Ok (result, metadata), w)"
proof -
  obtain r and t :: "(unit, unit) sdk_state" where "execute_tx sample_runtime sample_ctx 30 [] sample_free_tx 0 sample_block = (Ok r, t)"
    using sample_execution [where 'm = unit and 'g = unit] by (auto simp: bind_op_Ok_iff)
  then obtain d where d: "dispatch_tx_opts sample_runtime sample_ctx sample_free_tx sample_opts sample_block = (Ok d, t)"
    by (rule execute_tx_dispatched)
  have "st_rng sample_block \<noteq> None" by (simp add: sample_block_simps)
  from transaction_outcomes [OF sample_nested this d] show ?thesis
  proof
    assume "\<exists>e. modules_authenticate_tx (rt_modules sample_runtime) sample_free_tx sample_block = (Err e, t) \<and>
      d = Inr (dispatch_result_of (into_call_result (rt_show sample_runtime) e))"
    then show ?thesis using authenticate_run [where 'a = unit and 'b = unit] by simp
  qed (use d in blast)
qed

text \<open>C4: a batch that was scheduled is replayed exactly. Executing the transactions that the scheduler kept, on the
  storage it started from, gives the results, messages and tags that it reported and the storage it left; what it tried, skipped
  or rejected leaves no trace.\<close>

theorem scheduled_batch_replays:
  fixes base :: "('c \<times> hook_invocation, 'g) sdk_state runtime"
  assumes "R = sdk_runtime base cfg pend c K resolve genesis allowed"
    and "\<forall>tx. steps True mild (resolve tx)" "steps True nested (rt_migrate_state base)"
    and "schedule_and_execute_batch R c fetch fuel root batch = (Ok (Inr (res, new)), root')"
  shows "execute_batch R c root new = (Ok (Inr (res\<lparr>br_tx_reject_hashes := []\<rparr>, ())), root')"
proof -
  have "sdk_assembly base resolve" using assms(2,3) by unfold_locales auto
  from scheduled_batch_same [OF sdk_assembly.runtime_decodes_stably [OF this] assms(4) [unfolded assms(1)]]
  show ?thesis by (simp add: assms(1))
qed

theorem scheduled_batch_replays_witness:
  "\<exists>(res :: unit batch_result) root.
     schedule_and_execute_batch (sample_runtime :: (unit \<times> hook_invocation, unit) sdk_state runtime) sample_ctx (\<lambda>_ _ _. Inr None) 1
       sample_root [[1]] = (Ok (Inr (res, [])), root) \<and>
     execute_batch (sample_runtime :: (unit \<times> hook_invocation, unit) sdk_state runtime) sample_ctx sample_root [] =
       (Ok (Inr (res\<lparr>br_tx_reject_hashes := []\<rparr>, ())), root)"
proof -
  obtain res :: "unit batch_result" and root where run: "schedule_and_execute_batch (sample_runtime :: (unit \<times> hook_invocation, unit) sdk_state runtime)
      sample_ctx (\<lambda>_ _ _. Inr None) 1 sample_root [[1]] = (Ok (Inr (res, [])), root)"
    using sample_schedule [of "(\<lambda>_ _ _. Inr None)" 0] by auto
  have proxy: "\<forall>tx. steps True mild (resolve_payers [] tx)" by auto
  from scheduled_batch_replays [OF sample_runtime_def proxy sample_proxy(2) run] run show ?thesis by blast
qed

text \<open>C37: a query never panics the dispatcher, and whatever it runs, simulated transactions included, the store, the messages,
  the events and the environment of the state are afterwards what they were.\<close>

theorem queries_leave_no_trace:
  assumes "\<forall>tx. steps True mild (resolve tx)" "steps True nested (rt_migrate_state base)" "st_rng s \<noteq> None"
    and "dispatch_query (sdk_runtime base cfg pend c K resolve genesis allowed) method args s = (r, t)"
  shows "r \<noteq> Panic \<and> st_store t = st_store s \<and> st_messages t = st_messages s \<and> st_events t = st_events s \<and> st_env t = st_env s"
  using dispatch_query_run [OF sdk_runtime_nested assms(3,4)] assms(1,2) by (auto simp: rolled_back_def)

theorem queries_leave_no_trace_witness:
  "\<exists>r (t :: (unit, unit) sdk_state). dispatch_query sample_runtime ''core.EstimateGas'' (Some Cbor_Null) sample_block = (r, t) \<and>
     r \<noteq> Panic \<and> st_store t = st_store (sample_block :: (unit, unit) sdk_state)"
proof -
  obtain r and t :: "(unit, unit) sdk_state"
    where run: "dispatch_query sample_runtime ''core.EstimateGas'' (Some Cbor_Null) sample_block = (r, t)" by fastforce
  have "st_rng sample_block \<noteq> None" by (simp add: sample_block_simps)
  moreover have "\<forall>tx. steps True mild (resolve_payers [] tx)" by auto
  ultimately show ?thesis
    using queries_leave_no_trace [OF _ sample_proxy(2) _ run [unfolded sample_runtime_def]] run by blast
qed

end
