(* ===== verification/Call_Format_Properties.thy ===== *)
theory Call_Format_Properties
  imports Call_Format Core_Properties
begin

text \<open>
  Encrypted calls: what a client encodes is what the runtime decodes, with the two exceptions the code has; and what becomes
  of a failure of the key manager.
\<close>

section \<open>Concrete values\<close>

text \<open>A key manager whose public keys are the reversed private keys, and boxes that carry the sender's key in front.\<close>

definition sample_km :: "bytes \<Rightarrow> u64 \<Rightarrow> km_error + (bytes \<times> bytes)" where
  "sample_km key_id epoch = Inr ([2, 1], [1, 2])"

definition sample_envelope :: "bytes \<Rightarrow> call_envelope" where
  "sample_envelope data = \<lparr>ce_pk = [4, 3], ce_nonce = replicate 15 0, ce_epoch = 3, ce_data = data\<rparr>"

definition sample_inner_call :: call where
  "sample_inner_call = \<lparr>call_format_of = EncryptedX25519DeoxysII, call_method = [], call_body = Cbor_Unsigned 7, call_read_only = False\<rparr>"

definition sample_boxes :: callformat_deps where
  "sample_boxes = \<lparr>cf_key_pair_id = concat, cf_key_manager = Some sample_km,
     cf_box_open = (\<lambda>nonce data pk sk. if take 2 data = pk \<and> rev sk = [2, 1] then Inr (drop 2 data) else Inl ''unable to open box''),
     cf_box_seal = (\<lambda>nonce data pk sk. rev sk @ data),
     cf_envelope_of = (\<lambda>v. case v of Cbor_ByteString data \<Rightarrow> Some (sample_envelope data) | _ \<Rightarrow> None),
     cf_envelope_to = (\<lambda>env. Cbor_ByteString (ce_data env)),
     cf_call_of = (\<lambda>data. if data = [] then Some sample_inner_call else None), cf_call_to = (\<lambda>_. []),
     cf_result_to = (\<lambda>_. []), cf_result_envelope = (\<lambda>_ _. Cbor_Null), cf_os_random = []\<rparr>"

section \<open>Properties\<close>

text \<open>C38: a call that a client has encrypted for the runtime. The runtime decodes it, when executing, to exactly the call and the
  keys to answer with, unless it names a method or is read-only: the encoder leaves the method outside, where it is
  refused, and drops the flag outside, where it has to agree. A plain call is decoded as it is.\<close>

theorem encrypted_call_roundtrip:
  assumes "is_execute e" "cf_key_manager F = Some km" "km (callformat_key_pair_id F c (ctx_epoch c)) (ctx_epoch c) = Inr (rpk, rsk)"
    and "\<forall>nonce data. cf_box_open F nonce (cf_box_seal F nonce data rpk (snd client)) (fst client) rsk = Inr data"
    and "\<forall>env. ce_pk env = fst client \<and> ce_nonce env = replicate 15 0 \<and> ce_epoch env = ctx_epoch c \<longrightarrow>
      cf_envelope_of F (cf_envelope_to F env) = Some env"
    and "cf_call_of F (cf_call_to F (cl\<lparr>call_method := []\<rparr>)) = Some (cl\<lparr>call_method := []\<rparr>)"
    and "encode_call F c client cl = Inr encoded"
  shows "decode_call show F c e encoded index =
    (case call_format_of cl of
       Plain \<Rightarrow> Inr (Some (cl, Meta_Empty))
     | EncryptedX25519DeoxysII \<Rightarrow>
         if call_method cl \<noteq> [] then Inl (Core_InvalidCallFormat ''non-empty method'')
         else if call_read_only cl then Inl (Core_InvalidCallFormat ''read-only flag mismatch'')
         else Inr (Some (cl, Meta_X25519DeoxysII (fst client) rsk index)))"
proof (cases "call_format_of cl")
  case Plain
  then show ?thesis using assms(7) by (auto simp: encode_call_def decode_call_def decode_call_ex_def)
next
  case EncryptedX25519DeoxysII
  let ?env = "\<lparr>ce_pk = fst client, ce_nonce = replicate 15 0, ce_epoch = ctx_epoch c,
    ce_data = cf_box_seal F (replicate 15 0) (cf_call_to F (cl\<lparr>call_method := []\<rparr>)) rpk (snd client)\<rparr>"
  have enc: "encoded = \<lparr>call_format_of = EncryptedX25519DeoxysII, call_method = call_method cl, call_body = cf_envelope_to F ?env, call_read_only = False\<rparr>"
    using assms(2,3,7) EncryptedX25519DeoxysII by (simp add: encode_call_def Let_def)
  have "verify_epoch c (ctx_epoch c) = Inr ()" by (auto simp: verify_epoch_def saturating_sub_def word_less_nat_alt unat_sub)
  then have "open_envelope show F c km ?env = Inr (cf_call_to F (cl\<lparr>call_method := []\<rparr>), rsk)"
    using assms(3,4) by (simp add: open_envelope_def decrypt_call_def bind_result_def)
  then show ?thesis
    using assms(1,2,5,6) EncryptedX25519DeoxysII
    by (simp add: decode_call_def decode_call_ex_def enc bind_result_def)
qed

theorem encrypted_call_roundtrip_witness:
  "\<exists>encoded. encode_call sample_boxes sample_ctx ([4, 3], [3, 4]) sample_inner_call = Inr encoded \<and>
     decode_call (\<lambda>_. []) sample_boxes sample_ctx sample_env encoded 0 =
       Inr (Some (sample_inner_call, Meta_X25519DeoxysII [4, 3] [1, 2] 0))"
proof -
  have ctx: "ctx_epoch sample_ctx = 3" by (simp add: sample_ctx_def)
  obtain encoded where enc: "encode_call sample_boxes sample_ctx ([4, 3], [3, 4]) sample_inner_call = Inr encoded"
    by (simp add: encode_call_def sample_inner_call_def sample_boxes_def sample_km_def)
  have "decode_call (\<lambda>_. []) sample_boxes sample_ctx sample_env encoded 0 =
      (case call_format_of sample_inner_call of
         Plain \<Rightarrow> Inr (Some (sample_inner_call, Meta_Empty))
       | EncryptedX25519DeoxysII \<Rightarrow>
           if call_method sample_inner_call \<noteq> [] then Inl (Core_InvalidCallFormat ''non-empty method'')
           else if call_read_only sample_inner_call then Inl (Core_InvalidCallFormat ''read-only flag mismatch'')
           else Inr (Some (sample_inner_call, Meta_X25519DeoxysII (fst ([4, 3], [3, 4] :: bytes)) [1, 2] 0)))"
    by (rule encrypted_call_roundtrip [of _ _ sample_km, OF _ _ _ _ _ _ enc])
      (auto simp: sample_boxes_def sample_km_def is_execute_def sample_env_def sample_envelope_def sample_inner_call_def ctx)
  then show ?thesis using enc by (simp add: sample_inner_call_def)
qed

text \<open>No failure of decoding a call is an abort, although the code asks for one when the key manager fails: that
  failure ends as an invalid call format.\<close>

theorem key_manager_failure_not_aborted:
  assumes "is_execute e" "cf_key_manager F = Some km" "\<forall>key_id epoch. km key_id epoch = Inl (Km_Other msg)"
    and "call_format_of cl = EncryptedX25519DeoxysII" "call_method cl = []" "cf_envelope_of F (call_body cl) = Some env" "ce_epoch env = 0"
  shows "decode_call show F c e cl index = Inl (Core_InvalidCallFormat (show (Core_Abort (KeyManagerFailure msg))))"
  using assms by (simp add: decode_call_def decode_call_ex_def open_envelope_def decrypt_call_def bind_result_def)

theorem key_manager_failure_not_aborted_witness:
  "decode_call (\<lambda>_. ''abort'') (sample_boxes\<lparr>cf_key_manager := Some (\<lambda>_ _. Inl (Km_Other ''unreachable'')),
       cf_envelope_of := \<lambda>_. Some ((sample_envelope [])\<lparr>ce_epoch := 0\<rparr>)\<rparr>) sample_ctx sample_env
     sample_inner_call 0 = Inl (Core_InvalidCallFormat ''abort'')"
  by (rule key_manager_failure_not_aborted [where msg = "''unreachable''" and km = "\<lambda>_ _. Inl (Km_Other ''unreachable'')"
        and env = "(sample_envelope [])\<lparr>ce_epoch := 0\<rparr>"])
    (simp_all add: sample_inner_call_def is_execute_def sample_env_def)

end
