(* ===== verification/Consensus_Module.thy ===== *)
theory Consensus_Module
  imports Accounts_Api
begin

text \<open>
  The consensus module (\<open>runtime-sdk/src/modules/consensus/mod.rs\<close>): emitting messages to the consensus layer, the
  conversion of amounts between the layers, and the search for the height of an epoch transition.
  What the module reads of the consensus layer's state and history is a parameter, the record \<open>consensus_view\<close>.
\<close>

section \<open>The consensus layer\<close>

record share_pool_state =
  sp_balance :: nat
  sp_total_shares :: nat

record consensus_account =
  ca_general_balance :: nat
  ca_active :: share_pool_state
  ca_debonding :: share_pool_state

record epoch_state =
  es_epoch :: u64
  es_height :: int

record historic_state =
  hs_height :: u64
  hs_future_epoch_state :: "string + epoch_state"
  hs_epoch_state :: "string + epoch_state"

datatype consensus_event = Reclaim address address nat nat | Other_Event

datatype history_error = FailedToFetchBlock | FailedToFetchEvents

record round_roots =
  rr_state_root :: bytes
  rr_io_root :: bytes

record consensus_view =
  cv_runtime_id :: bytes
  cv_account :: "address \<Rightarrow> string + consensus_account"
  cv_delegation :: "address \<Rightarrow> address \<Rightarrow> string + nat"
  cv_round_roots :: "bytes \<Rightarrow> u64 \<Rightarrow> string + round_roots option"
  cv_state_at :: "u64 \<Rightarrow> history_error + historic_state"
  cv_events_at :: "u64 \<Rightarrow> history_error + consensus_event list"
  cv_height_latest :: u64
  cv_epoch_invalid :: u64
  cv_is_success :: "message_event \<Rightarrow> bool"
  cv_add_escrow_result :: "cbor_value \<Rightarrow> nat option"
  cv_reclaim_escrow_result :: "cbor_value \<Rightarrow> (u64 \<times> nat) option"

type_synonym 'g cons_state = "(consensus_message \<times> hook_invocation, 'g) sdk_state"

section \<open>Errors\<close>

datatype consensus_error =
    Cons_InvalidArgument | Cons_InvalidDenomination | Cons_InternalStateError string | Cons_Core core_error
  | Cons_ConsensusIncompatibleSigner | Cons_AmountNotRepresentable | Cons_UnderMinDelegationAmount | Cons_History history_error

section \<open>Amounts\<close>

definition checked_rem :: "'a::len word \<Rightarrow> 'a word \<Rightarrow> 'a word option" where
  "checked_rem x y = (if y = 0 then None else Some (x mod y))"

definition scaling_factor :: "('m, 'g) sdk_state \<Rightarrow> u128" where
  "scaling_factor s = ucast (csp_consensus_scaling_factor (cons_params (st_store s)))"

definition amount_from_consensus :: "u128 \<Rightarrow> ('m, 'g) sdk_state \<Rightarrow> consensus_error + u128" where
  "amount_from_consensus a s = ok_or Cons_AmountNotRepresentable (checked_mul a (scaling_factor s))"

definition amount_to_consensus :: "u128 \<Rightarrow> ('m, 'g) sdk_state \<Rightarrow> consensus_error + u128" where
  "amount_to_consensus a s =
     bind_result (ok_or Cons_AmountNotRepresentable (checked_div a (scaling_factor s))) (\<lambda>scaled.
     bind_result (ok_or Cons_AmountNotRepresentable (checked_rem a (scaling_factor s))) (\<lambda>remainder.
     if remainder \<noteq> 0 then Inl Cons_AmountNotRepresentable else Inr scaled))"

definition consensus_denomination :: "('m, 'g) sdk_state \<Rightarrow> denomination" where
  "consensus_denomination s = csp_consensus_denomination (cons_params (st_store s))"

definition ensure_consensus_denomination :: "denomination \<Rightarrow> (('m, 'g) sdk_state, consensus_error, unit) rust_op" where
  "ensure_consensus_denomination d s =
     (if d \<noteq> consensus_denomination s then (Err Cons_InvalidDenomination, s) else (Ok (), s))"

section \<open>Messages\<close>

definition emit_staking :: "ctx \<Rightarrow> staking_message \<Rightarrow> hook_invocation \<Rightarrow> ('g cons_state, consensus_error, unit) rust_op" where
  "emit_staking c m hook =
     map_err_op (\<lambda>_. Cons_Core Core_OutOfMessageSlots) (emit_message (ctx_max_messages c) (Msg_Staking 0 m, hook))"

definition to_consensus_op :: "base_units \<Rightarrow> (('m, 'g) sdk_state, consensus_error, u128) rust_op" where
  "to_consensus_op amt = seq_op (ensure_consensus_denomination (denom amt))
     (\<lambda>s. case amount_to_consensus (amount amt) s of Inr a \<Rightarrow> (Ok a, s) | Inl e \<Rightarrow> (Err e, s))"

definition consensus_transfer :: "ctx \<Rightarrow> address \<Rightarrow> base_units \<Rightarrow> hook_invocation \<Rightarrow> ('g cons_state, consensus_error, unit) rust_op" where
  "consensus_transfer c to_addr amt hook =
     bind_op (to_consensus_op amt) (\<lambda>a. emit_staking c (Staking_Transfer to_addr a) hook)"

definition consensus_withdraw :: "ctx \<Rightarrow> address \<Rightarrow> base_units \<Rightarrow> hook_invocation \<Rightarrow> ('g cons_state, consensus_error, unit) rust_op" where
  "consensus_withdraw c from_addr amt hook =
     bind_op (to_consensus_op amt) (\<lambda>a. emit_staking c (Staking_Withdraw from_addr a) hook)"

definition consensus_escrow :: "ctx \<Rightarrow> address \<Rightarrow> base_units \<Rightarrow> hook_invocation \<Rightarrow> ('g cons_state, consensus_error, unit) rust_op" where
  "consensus_escrow c to_addr amt hook =
     bind_op (to_consensus_op amt) (\<lambda>a s.
       if a < csp_min_delegate_amount (cons_params (st_store s)) then (Err Cons_UnderMinDelegationAmount, s)
       else emit_staking c (Staking_AddEscrow to_addr a) hook s)"

definition consensus_reclaim_escrow :: "ctx \<Rightarrow> address \<Rightarrow> u128 \<Rightarrow> hook_invocation \<Rightarrow> ('g cons_state, consensus_error, unit) rust_op" where
  "consensus_reclaim_escrow c from_addr shares hook = emit_staking c (Staking_ReclaimEscrow from_addr shares) hook"

section \<open>Signers\<close>

text \<open>\<open>env.tx_auth_info().signer_info[0]\<close>, which panics when there is none.\<close>

definition signer0 :: "(('m, 'g) sdk_state, 'e, signer_info) rust_op" where
  "signer0 s =
     (case env_auth_info (st_env s) of None \<Rightarrow> (Panic, s)
      | Some ai \<Rightarrow> (case first_signer ai of None \<Rightarrow> (Panic, s) | Some si \<Rightarrow> (Ok si, s)))"

definition ensure_compatible_tx_signer :: "(('m, 'g) sdk_state, consensus_error, unit) rust_op" where
  "ensure_compatible_tx_signer =
     bind_op signer0 (\<lambda>si s.
       case si_address_spec si of
         Spec_Signature (Spec_Ed25519 _) \<Rightarrow> (Ok (), s)
       | Spec_Internal (Caller_Address _) \<Rightarrow>
           if is_simulation (st_env s) then (Ok (), s) else (Err Cons_ConsensusIncompatibleSigner, s)
       | _ \<Rightarrow> (Err Cons_ConsensusIncompatibleSigner, s))"

section \<open>Reading the consensus state\<close>

definition consensus_account_of :: "consensus_view \<Rightarrow> address \<Rightarrow> consensus_error + consensus_account" where
  "consensus_account_of cv a = map_err Cons_InternalStateError (cv_account cv a)"

definition consensus_delegation_of :: "consensus_view \<Rightarrow> address \<Rightarrow> address \<Rightarrow> consensus_error + nat" where
  "consensus_delegation_of cv delegator escrow = map_err Cons_InternalStateError (cv_delegation cv delegator escrow)"

datatype root_kind = Root_IO | Root_State

definition consensus_round_roots :: "consensus_view \<Rightarrow> bytes \<Rightarrow> u64 \<Rightarrow> consensus_error + round_roots option" where
  "consensus_round_roots cv rid rnd = map_err Cons_InternalStateError (cv_round_roots cv rid rnd)"

definition internal_round_root :: "core_config \<Rightarrow> consensus_view \<Rightarrow> bytes \<times> u64 \<times> root_kind \<Rightarrow>
    (('m, 'g) sdk_state, consensus_error, bytes option) rust_op" where
  "internal_round_root cfg cv = (\<lambda>(rid, rnd, kind) s.
     seq_op (map_err_op Cons_Core (use_tx_gas cfg (csp_round_root_gas (cons_params (st_store s)))))
       (\<lambda>s. case consensus_round_roots cv rid rnd of
          Inl e \<Rightarrow> (Err e, s)
        | Inr rr \<Rightarrow> (Ok (map_option (case kind of Root_IO \<Rightarrow> rr_io_root | Root_State \<Rightarrow> rr_state_root) rr), s)) s)"

definition consensus_init :: "consensus_params \<Rightarrow> (('m, 'g) sdk_state, consensus_error, unit) rust_op" where
  "consensus_init p s =
     (case consensus_validate_basic p of
        Inl _ \<Rightarrow> (Panic, s)
      | Inr _ \<Rightarrow> (Ok (), upd_store (\<lambda>st. st\<lparr>cons_params := p\<rparr>) s))"

section \<open>Heights of epochs\<close>

text \<open>
  A cache of the \<open>lru\<close> crate: what \<open>get\<close> and \<open>put\<close> do to it. \<open>cache_law\<close> is what one relies on: a cache answers
  with what was put into it, and may forget.
\<close>

record ('c, 'k, 'v) cache_ops =
  cache_get :: "'c \<Rightarrow> 'k \<Rightarrow> 'v option \<times> 'c"
  cache_put :: "'c \<Rightarrow> 'k \<Rightarrow> 'v \<Rightarrow> 'c"

definition cache_law :: "('c, 'k, 'v) cache_ops \<Rightarrow> ('c \<Rightarrow> 'k \<rightharpoonup> 'v) \<Rightarrow> bool" where
  "cache_law ops contents \<longleftrightarrow>
     (\<forall>c k. (fst (cache_get ops c k) \<noteq> None \<longrightarrow> fst (cache_get ops c k) = contents c k) \<and> contents (snd (cache_get ops c k)) \<subseteq>\<^sub>m contents c) \<and>
     (\<forall>c k v. contents (cache_put ops c k v) \<subseteq>\<^sub>m (contents c)(k \<mapsto> v))"

text \<open>The epoch in force after the block of a historic state, with the height at which it began.\<close>

definition effective_epoch_state :: "historic_state \<Rightarrow> (consensus_error, epoch_state) outcome" where
  "effective_epoch_state st =
     (case hs_future_epoch_state st of
        Inl e \<Rightarrow> Err (Cons_InternalStateError e)
      | Inr future \<Rightarrow>
          if 2 ^ 63 \<le> unat (hs_height st) then Panic
          else if es_height future > uint (hs_height st)
          then (case hs_epoch_state st of Inl _ \<Rightarrow> Panic | Inr es \<Rightarrow> Ok es)
          else Ok future)"

text \<open>
  One turn of the loop of \<open>height_for_epoch\<close> at a height: the answer, or the next height to look at, and
  what to put into the cache.
\<close>

definition height_turn :: "consensus_view \<Rightarrow> u64 \<Rightarrow> u64 \<Rightarrow> (consensus_error, (u64 \<times> u64) \<times> bool) outcome" where
  "height_turn cv epoch height =
     (case cv_state_at cv height of
        Inl e \<Rightarrow> Err (Cons_History e)
      | Inr st \<Rightarrow> bind_outcome (effective_epoch_state st) (\<lambda>es.
          if es_height es < 0 then Panic else Ok ((es_epoch es, of_int (es_height es)), es_epoch es = epoch)))"

fun height_loop :: "nat \<Rightarrow> consensus_view \<Rightarrow> ('c, u64, u64) cache_ops \<Rightarrow> u64 \<Rightarrow> u64 \<Rightarrow> 'c \<Rightarrow>
    (consensus_error, u64) outcome option \<times> 'c" where
  "height_loop 0 cv ops epoch height cache = (None, cache)"
| "height_loop (Suc fuel) cv ops epoch height cache =
     (case height_turn cv epoch height of
        Err e \<Rightarrow> (Some (Err e), cache)
      | Panic \<Rightarrow> (Some Panic, cache)
      | Ok ((e, h), found) \<Rightarrow>
          let cache = cache_put ops cache e h
          in if found then (Some (Ok h), cache)
             else if \<not> (e > epoch \<and> h > 1) then (Some Panic, cache)
             else height_loop fuel cv ops epoch (h - 1) cache)"

definition height_for_epoch :: "nat \<Rightarrow> consensus_view \<Rightarrow> ('c, u64, u64) cache_ops \<Rightarrow> u64 \<Rightarrow> 'c \<Rightarrow>
    (consensus_error, u64) outcome option \<times> 'c" where
  "height_for_epoch fuel cv ops epoch cache =
     (case cache_get ops cache epoch of
        (Some height, cache) \<Rightarrow> (Some (Ok height), cache)
      | (None, cache) \<Rightarrow> height_loop fuel cv ops epoch (cv_height_latest cv) cache)"

section \<open>Conversion of amounts\<close>

lemma unat_scaling_factor: "unat (scaling_factor s) = unat (csp_consensus_scaling_factor (cons_params (st_store s)))"
  by (simp add: scaling_factor_def unat_ucast_up)

lemma amount_to_consensus_iff:
  "amount_to_consensus a s = Inr b \<longleftrightarrow> scaling_factor s \<noteq> 0 \<and> unat a = unat b * unat (scaling_factor s)"
proof
  assume "amount_to_consensus a s = Inr b"
  then have nz: "scaling_factor s \<noteq> 0" and b: "b = a div scaling_factor s" and r: "a mod scaling_factor s = 0"
    by (auto simp: amount_to_consensus_def result_Inr checked_div_def checked_rem_def split: if_splits)
  have "unat a mod unat (scaling_factor s) = 0" using r by (simp add: word_unat_eq_iff unat_mod)
  then have "unat a = unat a div unat (scaling_factor s) * unat (scaling_factor s)" by (simp add: mod_eq_0_iff_dvd)
  then show "scaling_factor s \<noteq> 0 \<and> unat a = unat b * unat (scaling_factor s)" using nz b by (simp add: unat_div)
next
  assume "scaling_factor s \<noteq> 0 \<and> unat a = unat b * unat (scaling_factor s)"
  then have nz: "scaling_factor s \<noteq> 0" and pos: "0 < unat (scaling_factor s)" and a: "unat a = unat b * unat (scaling_factor s)"
    by (simp_all add: unat_gt_0)
  have "a div scaling_factor s = b" "a mod scaling_factor s = 0" using a pos by (simp_all add: word_unat_eq_iff unat_div unat_mod)
  then show "amount_to_consensus a s = Inr b" using nz by (simp add: amount_to_consensus_def checked_div_def checked_rem_def)
qed

lemma amount_from_consensus_iff: "amount_from_consensus b s = Inr a \<longleftrightarrow> unat a = unat b * unat (scaling_factor s)"
  by (simp add: amount_from_consensus_def ok_or_Inr checked_mul_Some)

lemma amount_roundtrip:
  "scaling_factor s \<noteq> 0 \<Longrightarrow> amount_from_consensus b s = Inr a \<longleftrightarrow> amount_to_consensus a s = Inr b"
  by (simp add: amount_to_consensus_iff amount_from_consensus_iff)

section \<open>What a message costs the state\<close>

definition emitted :: "staking_message \<Rightarrow> hook_invocation \<Rightarrow> 'g cons_state \<Rightarrow> 'g cons_state" where
  "emitted m hook s = s\<lparr>st_messages := st_messages s @ [(Msg_Staking 0 m, hook)]\<rparr>"

lemma emitted_fields [simp]:
  "st_store (emitted m hook s) = st_store s" "st_env (emitted m hook s) = st_env s" "st_events (emitted m hook s) = st_events s"
  "st_messages (emitted m hook s) = st_messages s @ [(Msg_Staking 0 m, hook)]" "st_parents (emitted m hook s) = st_parents s"
  "st_block_values (emitted m hook s) = st_block_values s" "st_local_values (emitted m hook s) = st_local_values s"
  by (simp_all add: emitted_def)

lemma emit_staking_cases:
  "emit_staking c m hook s = (r, t) \<Longrightarrow>
     (r = Ok () \<and> t = emitted m hook s) \<or> (r = Err (Cons_Core Core_OutOfMessageSlots) \<and> t = s)"
  by (auto simp: emit_staking_def emit_message_def map_err_op_def emitted_def split: if_splits)

lemma to_consensus_op_cases:
  "to_consensus_op amt s = (r, t) \<Longrightarrow> t = s \<and>
     ((\<exists>a. r = Ok a \<and> denom amt = consensus_denomination s \<and> scaling_factor s \<noteq> 0 \<and>
        unat (amount amt) = unat a * unat (scaling_factor s)) \<or>
      r \<in> {Err Cons_InvalidDenomination, Err Cons_AmountNotRepresentable})"
  by (auto simp: to_consensus_op_def ensure_consensus_denomination_def seq_op_def bind_op_def amount_to_consensus_iff [symmetric]
      split: if_splits sum.splits)
    (auto simp: amount_to_consensus_def ok_or_def bind_result_def split: if_splits option.splits)

text \<open>Each of the operations emits the one message, in units of the consensus layer, or leaves the state as it was.\<close>

definition consensus_units :: "base_units \<Rightarrow> 'g cons_state \<Rightarrow> u128 \<Rightarrow> bool" where
  "consensus_units amt s a \<longleftrightarrow> denom amt = consensus_denomination s \<and> unat (amount amt) = unat a * unat (scaling_factor s)"

lemma consensus_message_cases:
  "consensus_transfer c to amt hook s = (r, t) \<Longrightarrow>
     (r = Ok () \<and> (\<exists>a. consensus_units amt s a \<and> t = emitted (Staking_Transfer to a) hook s)) \<or> (\<exists>e. r = Err e \<and> t = s)"
  "consensus_withdraw c f amt hook s = (r, t) \<Longrightarrow>
     (r = Ok () \<and> (\<exists>a. consensus_units amt s a \<and> t = emitted (Staking_Withdraw f a) hook s)) \<or> (\<exists>e. r = Err e \<and> t = s)"
  "consensus_escrow c to amt hook s = (r, t) \<Longrightarrow>
     (r = Ok () \<and> (\<exists>a. consensus_units amt s a \<and> csp_min_delegate_amount (cons_params (st_store s)) \<le> a \<and>
        t = emitted (Staking_AddEscrow to a) hook s)) \<or> (\<exists>e. r = Err e \<and> t = s)"
  "consensus_reclaim_escrow c f shares hook s = (r, t) \<Longrightarrow>
     (r = Ok () \<and> t = emitted (Staking_ReclaimEscrow f shares) hook s) \<or> (\<exists>e. r = Err e \<and> t = s)"
  by (auto simp: consensus_transfer_def consensus_withdraw_def consensus_escrow_def consensus_reclaim_escrow_def consensus_units_def bind_op_def
      not_less dest!: to_consensus_op_cases emit_staking_cases split: prod.splits outcome.splits if_splits)

lemma signer0_cases: "signer0 s = (r, t) \<Longrightarrow> t = s \<and> (\<forall>e. r \<noteq> Err e)"
  by (auto simp: signer0_def split: option.splits)

lemma ensure_compatible_state: "ensure_compatible_tx_signer s = (r, t) \<Longrightarrow> t = s"
  by (auto simp: ensure_compatible_tx_signer_def bind_op_def split: prod.splits outcome.splits address_spec.splits
      signature_address_spec.splits caller_address.splits if_splits dest!: signer0_cases)

section \<open>The height of an epoch\<close>

text \<open>
  A history: \<open>E h\<close> is the epoch in force after block \<open>h\<close>, and the historic states tell it with the block it began with.
\<close>

definition epoch_start :: "(nat \<Rightarrow> nat) \<Rightarrow> nat \<Rightarrow> nat" where
  "epoch_start E h = (LEAST b. 1 \<le> b \<and> E b = E h)"

definition tells_epoch :: "consensus_view \<Rightarrow> (nat \<Rightarrow> nat) \<Rightarrow> u64 \<Rightarrow> nat \<Rightarrow> bool" where
  "tells_epoch cv E height h \<longleftrightarrow>
     (\<exists>st. cv_state_at cv height = Inr st \<and>
        effective_epoch_state st = Ok \<lparr>es_epoch = of_nat (E h), es_height = int (epoch_start E h)\<rparr>)"

definition epoch_history :: "consensus_view \<Rightarrow> (nat \<Rightarrow> nat) \<Rightarrow> nat \<Rightarrow> bool" where
  "epoch_history cv E latest \<longleftrightarrow> 1 \<le> latest \<and> latest < 2 ^ 63 \<and> E latest < 2 ^ 64 \<and>
     (\<forall>h h'. 1 \<le> h \<longrightarrow> h \<le> h' \<longrightarrow> h' \<le> latest \<longrightarrow> E h \<le> E h') \<and>
     (\<forall>h. 1 \<le> h \<longrightarrow> h \<le> latest \<longrightarrow> tells_epoch cv E (of_nat h) h) \<and> tells_epoch cv E (cv_height_latest cv) latest"

lemma epoch_start:
  assumes "1 \<le> h"
  shows "1 \<le> epoch_start E h" "E (epoch_start E h) = E h" "epoch_start E h \<le> h"
  using LeastI [of "\<lambda>b. 1 \<le> b \<and> E b = E h" h] Least_le [of "\<lambda>b. 1 \<le> b \<and> E b = E h" h] assms
  by (simp_all add: epoch_start_def)

lemma epoch_start_cong: "E h = E h' \<Longrightarrow> epoch_start E h = epoch_start E h'"
  by (simp add: epoch_start_def)

text \<open>What the cache may hold.\<close>

definition heights_known :: "(nat \<Rightarrow> nat) \<Rightarrow> nat \<Rightarrow> (u64 \<rightharpoonup> u64) \<Rightarrow> bool" where
  "heights_known E latest m \<longleftrightarrow>
     (\<forall>e v. m e = Some v \<longrightarrow> (\<exists>h. 1 \<le> h \<and> h \<le> latest \<and> unat e = E h \<and> v = of_nat (epoch_start E h)))"

lemma heights_known_le: "heights_known E latest m \<Longrightarrow> m' \<subseteq>\<^sub>m m \<Longrightarrow> heights_known E latest m'"
  unfolding heights_known_def map_le_def by (metis domI)

lemma height_turn_history:
  assumes "tells_epoch cv E height h" "1 \<le> h"
  shows "height_turn cv epoch height = Ok ((of_nat (E h), of_nat (epoch_start E h)), of_nat (E h) = epoch)"
  using assms by (auto simp: tells_epoch_def height_turn_def)

lemma height_loop_finds:
  assumes hist: "epoch_history cv E latest" and law: "cache_law ops contents"
    and "heights_known E latest (contents cache)" "tells_epoch cv E height h" "1 \<le> h" "h \<le> latest" "h \<le> fuel"
    and h0: "1 \<le> h0" "h0 \<le> h" "unat epoch = E h0"
  shows "\<exists>cache'. height_loop fuel cv ops epoch height cache = (Some (Ok (of_nat (epoch_start E h0))), cache') \<and>
    heights_known E latest (contents cache')"
  using assms(3-)
proof (induction fuel arbitrary: height h cache)
  case (Suc fuel)
  have mono: "E a \<le> E b" if "1 \<le> a" "a \<le> b" "b \<le> latest" for a b using hist that by (auto simp: epoch_history_def)
  have small: "E b < 2 ^ 64" if "1 \<le> b" "b \<le> latest" for b
    using hist mono [OF that(1,2)] by (auto simp: epoch_history_def)
  have unatE: "unat (of_nat (E h) :: u64) = E h" using small Suc.prems by (simp add: unsigned_of_nat take_bit_nat_eq_self)
  let ?b = "epoch_start E h" and ?c = "cache_put ops cache (of_nat (E h)) (of_nat (epoch_start E h))"
  note b = epoch_start [OF Suc.prems(3), of E]
  have lt: "?b < 2 ^ 64" using b(3) Suc.prems(4) hist by (simp add: epoch_history_def)
  have known: "heights_known E latest (contents ?c)"
  proof (rule heights_known_le)
    show "contents ?c \<subseteq>\<^sub>m (contents cache)(of_nat (E h) \<mapsto> of_nat ?b)" using law by (simp add: cache_law_def)
    show "heights_known E latest ((contents cache)(of_nat (E h) \<mapsto> of_nat ?b))"
      using Suc.prems(1,3,4) unatE by (auto simp: heights_known_def)
  qed
  note turn = height_turn_history [OF Suc.prems(2,3), of epoch]
  show ?case
  proof (cases "E h = E h0")
    case True
    then have "of_nat (E h) = epoch" using Suc.prems(8) unatE by (simp add: word_unat_eq_iff)
    then show ?thesis using turn known True by (simp add: epoch_start_cong [of E h h0, OF True])
  next
    case False
    then have gt: "E h0 < E h" using mono [OF Suc.prems(6,7,4)] by simp
    then have "\<not> ?b \<le> h0" using mono [OF b(1), of h0] b(2) Suc.prems(4,7) by auto
    then have b1: "h0 \<le> ?b - 1" "1 \<le> ?b - 1" "1 < ?b" using Suc.prems(6) by simp_all
    have nf: "of_nat (E h) \<noteq> epoch" "of_nat (E h) > epoch"
      using gt unatE Suc.prems(8) by (auto simp: word_unat_eq_iff word_less_nat_alt)
    have 1: "(1 :: u64) < of_nat ?b" using b1(3) lt by (simp add: word_less_nat_alt unsigned_of_nat take_bit_nat_eq_self)
    have minus: "(of_nat ?b :: u64) - 1 = of_nat (?b - 1)" using b1(3) by (simp add: of_nat_diff)
    have tells: "tells_epoch cv E (of_nat (?b - 1)) (?b - 1)"
      using hist b1(2) b(3) Suc.prems(4) unfolding epoch_history_def by auto
    have "\<exists>cache'. height_loop fuel cv ops epoch (of_nat (?b - 1)) ?c = (Some (Ok (of_nat (epoch_start E h0))), cache') \<and>
        heights_known E latest (contents cache')"
      using b b1 Suc.prems by (intro Suc.IH [OF known tells]) auto
    then show ?thesis using turn nf 1 minus by (simp add: Let_def)
  qed
qed simp

lemma height_for_epoch_finds:
  assumes "epoch_history cv E latest" "cache_law ops contents" "heights_known E latest (contents cache)"
    "1 \<le> h" "h \<le> latest" "unat epoch = E h" "latest \<le> fuel"
  shows "\<exists>cache'. height_for_epoch fuel cv ops epoch cache = (Some (Ok (of_nat (epoch_start E h))), cache') \<and>
    heights_known E latest (contents cache')"
proof -
  obtain r cache1 where g: "cache_get ops cache epoch = (r, cache1)" by (cases "cache_get ops cache epoch")
  have get: "r \<noteq> None \<Longrightarrow> r = contents cache epoch" and le: "contents cache1 \<subseteq>\<^sub>m contents cache"
    using assms(2) g unfolding cache_law_def by (metis fst_conv, metis snd_conv)
  have known: "heights_known E latest (contents cache1)" by (rule heights_known_le [OF assms(3) le])
  show ?thesis
  proof (cases r)
    case None
    have "\<exists>cache'. height_loop fuel cv ops epoch (cv_height_latest cv) cache1 = (Some (Ok (of_nat (epoch_start E h))), cache') \<and>
        heights_known E latest (contents cache')"
      using assms known by (intro height_loop_finds [where h = latest]) (auto simp: epoch_history_def)
    then show ?thesis using None g by (simp add: height_for_epoch_def)
  next
    case (Some v)
    then have "contents cache epoch = Some v" using get by simp
    then obtain h' where h': "1 \<le> h'" "h' \<le> latest" "unat epoch = E h'" "v = of_nat (epoch_start E h')"
      using assms(3) by (auto simp: heights_known_def)
    then have "epoch_start E h' = epoch_start E h" using assms(6) by (intro epoch_start_cong) simp
    then show ?thesis using Some g h' known by (simp add: height_for_epoch_def)
  qed
qed

end
