(* ===== verification/Consensus_Accounts.thy ===== *)
theory Consensus_Accounts
  imports Consensus_Module Runtime_Modules
begin

text \<open>
  The consensus accounts module (\<open>runtime-sdk/src/modules/consensus_accounts\<close>): moving tokens between accounts of the
  runtime and the consensus layer, delegations and their end. A call emits a message to the consensus layer and sets
  the tokens aside; the message's result, one round later, finishes or undoes it.
  The CBOR coding of the contexts that travel with the messages is a parameter.
\<close>

section \<open>State\<close>

datatype ca_error =
    CA_InvalidArgument | CA_InvalidDenomination | CA_InsufficientBalance | CA_Forbidden
  | CA_Consensus consensus_error | CA_Core core_error

definition ca_of :: "('m, 'g) sdk_state \<Rightarrow> consensus_accounts_storage" where
  "ca_of s = consensus_accounts (st_store s)"

definition upd_ca :: "(consensus_accounts_storage \<Rightarrow> consensus_accounts_storage) \<Rightarrow> ('m, 'g) sdk_state \<Rightarrow> ('m, 'g) sdk_state" where
  "upd_ca f = upd_store (\<lambda>st. st\<lparr>consensus_accounts := f (consensus_accounts st)\<rparr>)"

definition get_delegation :: "address \<Rightarrow> address \<Rightarrow> ('m, 'g) sdk_state \<Rightarrow> delegation_info" where
  "get_delegation from_addr to_addr s = fm_get default_delegation_info (ca_delegations (ca_of s)) (from_addr, to_addr)"

definition add_delegation :: "address \<Rightarrow> address \<Rightarrow> u128 \<Rightarrow> (('m, 'g) sdk_state, ca_error, unit) rust_op" where
  "add_delegation from_addr to_addr shares s =
     (let di = get_delegation from_addr to_addr s in
      case checked_add (di_shares di) shares of
        None \<Rightarrow> (Err CA_InvalidArgument, s)
      | Some sh \<Rightarrow> (Ok (), upd_ca (\<lambda>ca. ca\<lparr>ca_delegations := fmupd (from_addr, to_addr) (di\<lparr>di_shares := sh\<rparr>) (ca_delegations ca)\<rparr>) s))"

definition sub_delegation :: "address \<Rightarrow> address \<Rightarrow> u128 \<Rightarrow> (('m, 'g) sdk_state, ca_error, unit) rust_op" where
  "sub_delegation from_addr to_addr shares s =
     (let di = get_delegation from_addr to_addr s in
      case checked_sub (di_shares di) shares of
        None \<Rightarrow> (Err CA_InsufficientBalance, s)
      | Some sh \<Rightarrow> (Ok (), upd_ca (\<lambda>ca. ca\<lparr>ca_delegations :=
          if sh > 0 then fmupd (from_addr, to_addr) (di\<lparr>di_shares := sh\<rparr>) (ca_delegations ca)
          else fmdrop (from_addr, to_addr) (ca_delegations ca)\<rparr>) s))"

definition get_delegations :: "address \<Rightarrow> ('m, 'g) sdk_state \<Rightarrow> (address \<times> u128) list" where
  "get_delegations from_addr s =
     map (\<lambda>((_, to_addr), di). (to_addr, di_shares di))
       (filter (\<lambda>((a, _), _). a = from_addr) (fm_entries (ca_delegations (ca_of s))))"

fun sum_by_destination :: "((address \<times> address) \<times> delegation_info) list \<Rightarrow> (address, u128) fmap \<Rightarrow> ca_error + (address, u128) fmap" where
  "sum_by_destination [] acc = Inr acc"
| "sum_by_destination (((_, to_addr), di) # rest) acc =
     (case checked_add (fm_get 0 acc to_addr) (di_shares di) of
        None \<Rightarrow> Inl CA_InvalidArgument
      | Some tot \<Rightarrow> sum_by_destination rest (fmupd to_addr tot acc))"

definition get_delegations_by_destination :: "('m, 'g) sdk_state \<Rightarrow> ca_error + (address, u128) fmap" where
  "get_delegations_by_destination s = sum_by_destination (fm_entries (ca_delegations (ca_of s))) fmempty"

definition get_all_delegations :: "('m, 'g) sdk_state \<Rightarrow> (address \<times> address \<times> u128) list" where
  "get_all_delegations s = map (\<lambda>((from_addr, to_addr), di). (from_addr, to_addr, di_shares di)) (fm_entries (ca_delegations (ca_of s)))"

text \<open>Undelegations from the escrow account \<open>from\<close> to the runtime account \<open>to\<close>; the receipt of the first one counts.\<close>

definition add_undelegation :: "address \<Rightarrow> address \<Rightarrow> u64 \<Rightarrow> u128 \<Rightarrow> u64 \<Rightarrow> (('m, 'g) sdk_state, ca_error, u64) rust_op" where
  "add_undelegation from_addr to_addr epoch shares receipt s =
     (let di = fm_get default_delegation_info (ca_undelegations (ca_of s)) (to_addr, from_addr, epoch);
          done_receipt = (if receipt > 0 \<and> di_receipt di = 0 then receipt else di_receipt di) in
      case checked_add (di_shares di) shares of
        None \<Rightarrow> (Err CA_InvalidArgument, s)
      | Some sh \<Rightarrow> (Ok done_receipt, upd_ca (\<lambda>ca. ca\<lparr>
          ca_undelegations := fmupd (to_addr, from_addr, epoch) \<lparr>di_shares = sh, di_receipt = done_receipt\<rparr> (ca_undelegations ca),
          ca_queue := fmupd (epoch, to_addr, from_addr) () (ca_queue ca)\<rparr>) s))"

definition take_undelegation :: "undelegation \<Rightarrow> (('m, 'g) sdk_state, ca_error, delegation_info) rust_op" where
  "take_undelegation ud s =
     (Ok (fm_get default_delegation_info (ca_undelegations (ca_of s)) (ud_to ud, ud_from ud, ud_epoch ud)),
      upd_ca (\<lambda>ca. ca\<lparr>ca_undelegations := fmdrop (ud_to ud, ud_from ud, ud_epoch ud) (ca_undelegations ca),
        ca_queue := fmdrop (ud_epoch ud, ud_to ud, ud_from ud) (ca_queue ca)\<rparr>) s)"

definition get_undelegations :: "address \<Rightarrow> ('m, 'g) sdk_state \<Rightarrow> (address \<times> u64 \<times> u128) list" where
  "get_undelegations to_addr s =
     map (\<lambda>((_, from_addr, epoch), di). (from_addr, epoch, di_shares di))
       (filter (\<lambda>((a, _), _). a = to_addr) (fm_entries (ca_undelegations (ca_of s))))"

definition get_all_undelegations :: "('m, 'g) sdk_state \<Rightarrow> (address \<times> address \<times> u64 \<times> u128) list" where
  "get_all_undelegations s =
     map (\<lambda>((to_addr, from_addr, epoch), di). (from_addr, to_addr, epoch, di_shares di)) (fm_entries (ca_undelegations (ca_of s)))"

definition undelegation_of_key :: "u64 \<times> address \<times> address \<Rightarrow> undelegation" where
  "undelegation_of_key = (\<lambda>(epoch, to_addr, from_addr). \<lparr>ud_from = from_addr, ud_to = to_addr, ud_epoch = epoch\<rparr>)"

definition get_queued_undelegations :: "u64 \<Rightarrow> ('m, 'g) sdk_state \<Rightarrow> undelegation list" where
  "get_queued_undelegations epoch s =
     takeWhile (\<lambda>ud. ud_epoch ud \<le> epoch) (map (undelegation_of_key \<circ> fst) (fm_entries (ca_queue (ca_of s))))"

definition set_receipt :: "address \<Rightarrow> receipt_kind \<Rightarrow> u64 \<Rightarrow> receipt \<Rightarrow> ('m, 'g) sdk_state \<Rightarrow> ('m, 'g) sdk_state" where
  "set_receipt owner kind i r = upd_ca (\<lambda>ca. ca\<lparr>ca_receipts := fmupd (owner, receipt_kind_u8 kind, i) r (ca_receipts ca)\<rparr>)"

definition take_receipt :: "address \<Rightarrow> receipt_kind \<Rightarrow> u64 \<Rightarrow> ('m, 'g) sdk_state \<Rightarrow> receipt option \<times> ('m, 'g) sdk_state" where
  "take_receipt owner kind i s =
     (fmlookup (ca_receipts (ca_of s)) (owner, receipt_kind_u8 kind, i),
      upd_ca (\<lambda>ca. ca\<lparr>ca_receipts := fmdrop (owner, receipt_kind_u8 kind, i) (ca_receipts ca)\<rparr>) s)"

section \<open>The interface to other modules\<close>

record hook_codec =
  hk_of_transfer :: "transfer_context \<Rightarrow> cbor_value"
  hk_of_withdraw :: "withdraw_context \<Rightarrow> cbor_value"
  hk_of_delegate :: "delegate_context \<Rightarrow> cbor_value"
  hk_of_undelegate :: "undelegate_context \<Rightarrow> cbor_value"
  hk_transfer :: "cbor_value \<Rightarrow> transfer_context option"
  hk_withdraw :: "cbor_value \<Rightarrow> withdraw_context option"
  hk_delegate :: "cbor_value \<Rightarrow> delegate_context option"
  hk_undelegate :: "cbor_value \<Rightarrow> undelegate_context option"

definition ADDRESS_PENDING_WITHDRAWAL :: "ctx \<Rightarrow> address" where
  "ADDRESS_PENDING_WITHDRAWAL c = address_from_module (dep_hash (ctx_deps c)) ''consensus_accounts'' ''pending-withdrawal''"

definition ADDRESS_PENDING_DELEGATION :: "ctx \<Rightarrow> address" where
  "ADDRESS_PENDING_DELEGATION c = address_from_module (dep_hash (ctx_deps c)) ''consensus_accounts'' ''pending-delegation''"

definition CONSENSUS_TRANSFER_HANDLER :: string where "CONSENSUS_TRANSFER_HANDLER = ''consensus.TransferFromRuntime''"
definition CONSENSUS_WITHDRAW_HANDLER :: string where "CONSENSUS_WITHDRAW_HANDLER = ''consensus.WithdrawIntoRuntime''"
definition CONSENSUS_DELEGATE_HANDLER :: string where "CONSENSUS_DELEGATE_HANDLER = ''consensus.Delegate''"
definition CONSENSUS_UNDELEGATE_HANDLER :: string where "CONSENSUS_UNDELEGATE_HANDLER = ''consensus.Undelegate''"

definition ca_deposit :: "ctx \<Rightarrow> hook_codec \<Rightarrow> address \<Rightarrow> u64 \<Rightarrow> address \<Rightarrow> base_units \<Rightarrow> ('g cons_state, ca_error, unit) rust_op" where
  "ca_deposit c hk from_addr nonce to_addr amt =
     map_err_op CA_Consensus (consensus_withdraw c from_addr amt
       \<lparr>hi_hook_name = CONSENSUS_WITHDRAW_HANDLER,
        hi_payload = hk_of_withdraw hk \<lparr>wc_from = from_addr, wc_nonce = nonce, wc_address = to_addr, wc_amount = amt\<rparr>\<rparr>)"

text \<open>Unless it is only a check, the tokens go to the module's account until the message's result is known.\<close>

definition set_aside :: "address \<Rightarrow> address \<Rightarrow> base_units \<Rightarrow> (('m, 'g) sdk_state, ca_error, unit) rust_op" where
  "set_aside from_addr pool amt s =
     (if is_check_only (st_env s) then (Ok (), s)
      else map_err_op (\<lambda>_. CA_InsufficientBalance) (transfer from_addr pool amt) s)"

definition ca_withdraw :: "ctx \<Rightarrow> hook_codec \<Rightarrow> address \<Rightarrow> u64 \<Rightarrow> address \<Rightarrow> base_units \<Rightarrow> ('g cons_state, ca_error, unit) rust_op" where
  "ca_withdraw c hk from_addr nonce to_addr amt =
     seq_op (map_err_op CA_Consensus (consensus_transfer c to_addr amt
       \<lparr>hi_hook_name = CONSENSUS_TRANSFER_HANDLER,
        hi_payload = hk_of_transfer hk \<lparr>tc_address = from_addr, tc_nonce = nonce, tc_to = to_addr, tc_amount = amt\<rparr>\<rparr>))
     (set_aside from_addr (ADDRESS_PENDING_WITHDRAWAL c) amt)"

definition ca_delegate :: "ctx \<Rightarrow> hook_codec \<Rightarrow> address \<Rightarrow> u64 \<Rightarrow> address \<Rightarrow> base_units \<Rightarrow> bool \<Rightarrow> ('g cons_state, ca_error, unit) rust_op" where
  "ca_delegate c hk from_addr nonce to_addr amt receipt =
     seq_op (map_err_op CA_Consensus (consensus_escrow c to_addr amt
       \<lparr>hi_hook_name = CONSENSUS_DELEGATE_HANDLER,
        hi_payload = hk_of_delegate hk \<lparr>dc_from = from_addr, dc_nonce = nonce, dc_to = to_addr, dc_amount = amt, dc_receipt = receipt\<rparr>\<rparr>))
     (set_aside from_addr (ADDRESS_PENDING_DELEGATION c) amt)"

definition ca_undelegate :: "ctx \<Rightarrow> hook_codec \<Rightarrow> address \<Rightarrow> u64 \<Rightarrow> address \<Rightarrow> u128 \<Rightarrow> bool \<Rightarrow> ('g cons_state, ca_error, unit) rust_op" where
  "ca_undelegate c hk from_addr nonce to_addr shares receipt =
     seq_op (sub_delegation to_addr from_addr shares)
     (map_err_op CA_Consensus (consensus_reclaim_escrow c from_addr shares
       \<lparr>hi_hook_name = CONSENSUS_UNDELEGATE_HANDLER,
        hi_payload = hk_of_undelegate hk \<lparr>uc_from = from_addr, uc_nonce = nonce, uc_to = to_addr, uc_shares = shares, uc_receipt = receipt\<rparr>\<rparr>))"

section \<open>Calls\<close>

definition signer_address :: "ctx \<Rightarrow> signer_info \<Rightarrow> address" where
  "signer_address c si = address_spec_address (ctx_deps c) (si_address_spec si)"

definition tx_deposit :: "core_config \<Rightarrow> ctx \<Rightarrow> hook_codec \<Rightarrow> deposit_body \<Rightarrow> ('g cons_state, ca_error, unit) rust_op" where
  "tx_deposit cfg c hk body s =
     (let p = ca_params (ca_of s) in
      seq_op (map_err_op CA_Core (use_tx_gas cfg (cg_tx_deposit (cap_gas_costs p))))
      (if cap_disable_deposit p then throw_op CA_Forbidden
       else bind_op signer0 (\<lambda>si.
         seq_op (map_err_op CA_Consensus ensure_compatible_tx_signer)
         (let address = signer_address c si in
          ca_deposit c hk address (si_nonce si) (case dep_to body of Some a \<Rightarrow> a | None \<Rightarrow> address) (dep_amount body)))) s)"

definition tx_withdraw :: "core_config \<Rightarrow> ctx \<Rightarrow> hook_codec \<Rightarrow> withdraw_body \<Rightarrow> ('g cons_state, ca_error, unit) rust_op" where
  "tx_withdraw cfg c hk body s =
     (let p = ca_params (ca_of s) in
      seq_op (map_err_op CA_Core (use_tx_gas cfg (cg_tx_withdraw (cap_gas_costs p))))
      (if cap_disable_withdraw p then throw_op CA_Forbidden
       else seq_op (if wd_to body = None then map_err_op CA_Consensus ensure_compatible_tx_signer else return_op ())
         (bind_op signer0 (\<lambda>si.
          let address = signer_address c si in
          ca_withdraw c hk address (si_nonce si) (case wd_to body of Some a \<Rightarrow> a | None \<Rightarrow> address) (wd_amount body)))) s)"

text \<open>What delegating and undelegating have in common: gas, whether it is allowed, and the nonce to use.\<close>

definition receipt_call :: "core_config \<Rightarrow> u64 \<Rightarrow> u64 \<Rightarrow> bool \<Rightarrow> u64 \<Rightarrow> (signer_info \<Rightarrow> u64 \<Rightarrow> bool \<Rightarrow> (('m, 'g) sdk_state, ca_error, unit) rust_op) \<Rightarrow>
    (('m, 'g) sdk_state, ca_error, unit) rust_op" where
  "receipt_call cfg gas receipt_gas disabled receipt f =
     (let store_receipt = receipt > 0 in
      seq_op (map_err_op CA_Core (use_tx_gas cfg gas))
      (seq_op (if store_receipt then map_err_op CA_Core (use_tx_gas cfg receipt_gas) else return_op ())
      (if disabled then throw_op CA_Forbidden
       else (\<lambda>s. if store_receipt \<and> \<not> env_internal (st_env s) then (Err CA_InvalidArgument, s)
         else bind_op signer0 (\<lambda>si. f si (if store_receipt then receipt else si_nonce si) store_receipt) s))))"

definition tx_delegate :: "core_config \<Rightarrow> ctx \<Rightarrow> hook_codec \<Rightarrow> delegate_body \<Rightarrow> ('g cons_state, ca_error, unit) rust_op" where
  "tx_delegate cfg c hk body s =
     (let p = ca_params (ca_of s) in
      receipt_call cfg (cg_tx_delegate (cap_gas_costs p)) (cg_store_receipt (cap_gas_costs p)) (cap_disable_delegate p) (dlg_receipt body)
        (\<lambda>si nonce store_receipt. ca_delegate c hk (signer_address c si) nonce (dlg_to body) (dlg_amount body) store_receipt) s)"

definition tx_undelegate :: "core_config \<Rightarrow> ctx \<Rightarrow> hook_codec \<Rightarrow> undelegate_body \<Rightarrow> ('g cons_state, ca_error, unit) rust_op" where
  "tx_undelegate cfg c hk body s =
     (let p = ca_params (ca_of s) in
      receipt_call cfg (cg_tx_undelegate (cap_gas_costs p)) (cg_store_receipt (cap_gas_costs p)) (cap_disable_undelegate p) (udl_receipt body)
        (\<lambda>si nonce store_receipt. ca_undelegate c hk (udl_from body) nonce (signer_address c si) (udl_shares body) store_receipt) s)"

definition internal_take_receipt :: "core_config \<Rightarrow> ctx \<Rightarrow> take_receipt_body \<Rightarrow> (('m, 'g) sdk_state, ca_error, receipt option) rust_op" where
  "internal_take_receipt cfg c body s =
     seq_op (map_err_op CA_Core (use_tx_gas cfg (cg_take_receipt (cap_gas_costs (ca_params (ca_of s))))))
       (\<lambda>s. if \<not> receipt_kind_is_valid (tr_kind body) then (Err CA_InvalidArgument, s)
         else case tx_caller_address (ctx_deps c) (st_env s) of
           None \<Rightarrow> (Panic, s)
         | Some caller \<Rightarrow> (case take_receipt caller (tr_kind body) (tr_id body) s of (r, s) \<Rightarrow> (Ok r, s))) s"

definition internal_delegation :: "core_config \<Rightarrow> address \<times> address \<Rightarrow> (('m, 'g) sdk_state, ca_error, delegation_info) rust_op" where
  "internal_delegation cfg = (\<lambda>(from_addr, to_addr) s.
     seq_op (map_err_op CA_Core (use_tx_gas cfg (cg_delegation (cap_gas_costs (ca_params (ca_of s))))))
       (reads_op (get_delegation from_addr to_addr)) s)"

definition quantity_u128 :: "nat \<Rightarrow> u128 option" where
  "quantity_u128 q = (if q < 2 ^ 128 then Some (of_nat q) else None)"

definition internal_shares_to_tokens :: "core_config \<Rightarrow> consensus_view \<Rightarrow> shares_to_tokens_body \<Rightarrow>
    (('m, 'g) sdk_state, ca_error, u128) rust_op" where
  "internal_shares_to_tokens cfg cv args s =
     seq_op (map_err_op CA_Core (use_tx_gas cfg (cg_shares_to_tokens (cap_gas_costs (ca_params (ca_of s))))))
     (result_op (bind_result (map_err CA_Consensus (consensus_account_of cv (stt_address args))) (\<lambda>account.
        bind_result (case stt_pool args of
            Pool_Active \<Rightarrow> Inr (ca_active account) | Pool_Debonding \<Rightarrow> Inr (ca_debonding account) | Pool_Invalid \<Rightarrow> Inl CA_InvalidArgument) (\<lambda>pool.
        bind_result (ok_or CA_InvalidArgument (quantity_u128 (sp_balance pool))) (\<lambda>balance.
        bind_result (ok_or CA_InvalidArgument (checked_mul (stt_shares args) balance)) (\<lambda>product.
        bind_result (ok_or CA_InvalidArgument (quantity_u128 (sp_total_shares pool))) (\<lambda>total_shares.
        ok_or CA_InvalidArgument (checked_div product total_shares)))))))) s"

section \<open>Queries\<close>

definition query_balance :: "address \<Rightarrow> ('m, 'g) sdk_state \<Rightarrow> u128" where
  "query_balance a s = (case map_of (get_balances a s) (consensus_denomination s) of Some v \<Rightarrow> v | None \<Rightarrow> 0)"

definition query_consensus_account :: "consensus_view \<Rightarrow> address \<Rightarrow> ca_error + consensus_account" where
  "query_consensus_account cv a = map_err (\<lambda>_. CA_InvalidArgument) (consensus_account_of cv a)"

section \<open>Results of messages\<close>

text \<open>The error type \<open>'e\<close> is the caller's: these handlers return no \<open>Result\<close>, they succeed or panic.\<close>

definition consensus_failure_of :: "message_event \<Rightarrow> consensus_failure" where
  "consensus_failure_of me = \<lparr>cf_module = me_module me, cf_code = me_code me\<rparr>"

definition message_result_transfer :: "consensus_view \<Rightarrow> ctx \<Rightarrow> message_event \<Rightarrow> transfer_context \<Rightarrow> (('m, 'g) sdk_state, 'e, unit) rust_op" where
  "message_result_transfer cv c me x =
     (if \<not> cv_is_success cv me
      then seq_op (expect_op (transfer (ADDRESS_PENDING_WITHDRAWAL c) (tc_address x) (tc_amount x)))
        (emit_event (Ev_Withdraw (tc_address x) (tc_nonce x) (tc_to x) (tc_amount x) (Some (consensus_failure_of me))))
      else seq_op (expect_op (burn (ADDRESS_PENDING_WITHDRAWAL c) (tc_amount x)))
        (emit_event (Ev_Withdraw (tc_address x) (tc_nonce x) (tc_to x) (tc_amount x) None)))"

definition message_result_withdraw :: "consensus_view \<Rightarrow> ctx \<Rightarrow> message_event \<Rightarrow> withdraw_context \<Rightarrow> (('m, 'g) sdk_state, 'e, unit) rust_op" where
  "message_result_withdraw cv c me x =
     (if \<not> cv_is_success cv me
      then emit_event (Ev_Deposit (wc_from x) (wc_nonce x) (wc_address x) (wc_amount x) (Some (consensus_failure_of me)))
      else seq_op (expect_op (mint (wc_address x) (wc_amount x)))
        (emit_event (Ev_Deposit (wc_from x) (wc_nonce x) (wc_address x) (wc_amount x) None)))"

definition store_receipt_if :: "bool \<Rightarrow> address \<Rightarrow> receipt_kind \<Rightarrow> u64 \<Rightarrow> receipt \<Rightarrow> (('m, 'g) sdk_state, 'e, unit) rust_op" where
  "store_receipt_if b owner kind i r = (if b then update_op (set_receipt owner kind i r) else return_op ())"

definition new_shares_of :: "consensus_view \<Rightarrow> message_event \<Rightarrow> u128 option" where
  "new_shares_of cv me =
     (case me_result me of None \<Rightarrow> None
      | Some result \<Rightarrow> (case cv_add_escrow_result cv result of None \<Rightarrow> None | Some q \<Rightarrow> quantity_u128 q))"

definition message_result_delegate :: "consensus_view \<Rightarrow> ctx \<Rightarrow> message_event \<Rightarrow> delegate_context \<Rightarrow> (('m, 'g) sdk_state, 'e, unit) rust_op" where
  "message_result_delegate cv c me x =
     (if \<not> cv_is_success cv me
      then seq_op (expect_op (transfer (ADDRESS_PENDING_DELEGATION c) (dc_from x) (dc_amount x)))
        (seq_op (store_receipt_if (dc_receipt x) (dc_from x) Receipt_Delegate (dc_nonce x) (default_receipt\<lparr>rc_error := Some (consensus_failure_of me)\<rparr>))
        (emit_event (Ev_Delegate (dc_from x) (dc_nonce x) (dc_to x) (dc_amount x) (Some (consensus_failure_of me)) None)))
      else seq_op (expect_op (burn (ADDRESS_PENDING_DELEGATION c) (dc_amount x)))
        (case new_shares_of cv me of
           None \<Rightarrow> panic_op
         | Some shares \<Rightarrow>
             seq_op (expect_op (add_delegation (dc_from x) (dc_to x) shares))
             (seq_op (store_receipt_if (dc_receipt x) (dc_from x) Receipt_Delegate (dc_nonce x) (default_receipt\<lparr>rc_shares := shares\<rparr>))
             (emit_event (Ev_Delegate (dc_from x) (dc_nonce x) (dc_to x) (dc_amount x) None (Some shares))))))"

definition debonding_of :: "consensus_view \<Rightarrow> message_event \<Rightarrow> (u64 \<times> u128) option" where
  "debonding_of cv me =
     (case me_result me of None \<Rightarrow> None
      | Some result \<Rightarrow> (case cv_reclaim_escrow_result cv result of None \<Rightarrow> None
          | Some (debond_end_time, q) \<Rightarrow> map_option (Pair debond_end_time) (quantity_u128 q)))"

definition message_result_undelegate :: "consensus_view \<Rightarrow> ctx \<Rightarrow> message_event \<Rightarrow> undelegate_context \<Rightarrow> (('m, 'g) sdk_state, 'e, unit) rust_op" where
  "message_result_undelegate cv c me x =
     (if \<not> cv_is_success cv me
      then seq_op (expect_op (add_delegation (uc_to x) (uc_from x) (uc_shares x)))
        (seq_op (store_receipt_if (uc_receipt x) (uc_to x) Receipt_UndelegateStart (uc_nonce x)
           (default_receipt\<lparr>rc_error := Some (consensus_failure_of me)\<rparr>))
        (emit_event (Ev_UndelegateStart (uc_from x) (uc_nonce x) (uc_to x) (uc_shares x) (cv_epoch_invalid cv) (Some (consensus_failure_of me)))))
      else (case debonding_of cv me of
         None \<Rightarrow> panic_op
       | Some (debond_end_time, debonding_shares) \<Rightarrow>
           bind_op (expect_op (add_undelegation (uc_from x) (uc_to x) debond_end_time debonding_shares (if uc_receipt x then uc_nonce x else 0))) (\<lambda>done_receipt.
           seq_op (store_receipt_if (uc_receipt x) (uc_to x) Receipt_UndelegateStart (uc_nonce x)
             (default_receipt\<lparr>rc_epoch := debond_end_time, rc_receipt := done_receipt\<rparr>))
           (emit_event (Ev_UndelegateStart (uc_from x) (uc_nonce x) (uc_to x) (uc_shares x) debond_end_time None)))))"

section \<open>The end of a block\<close>

text \<open>
  What the runtime got back from an escrow account in an epoch: the reclaim event at the height of the epoch's transition.
  \<open>heights\<close> is \<open>Consensus::height_for_epoch\<close>; every failure is a panic.
\<close>

fun find_reclaim :: "address \<Rightarrow> address \<Rightarrow> consensus_event list \<Rightarrow> (u128 \<times> u128) option" where
  "find_reclaim own escrow [] = None"
| "find_reclaim own escrow (Reclaim owner esc amt shares # evs) =
     (if owner = own \<and> esc = escrow
      then (case (quantity_u128 amt, quantity_u128 shares) of (Some a, Some s) \<Rightarrow> Some (a, s) | _ \<Rightarrow> None)
      else find_reclaim own escrow evs)"
| "find_reclaim own escrow (Other_Event # evs) = find_reclaim own escrow evs"

definition reclaim_totals :: "consensus_view \<Rightarrow> (u64 \<Rightarrow> (consensus_error, u64) outcome) \<Rightarrow> address \<Rightarrow> u64 \<Rightarrow> address \<Rightarrow> (u128 \<times> u128) option" where
  "reclaim_totals cv heights own epoch escrow =
     (case heights epoch of
        Ok height \<Rightarrow> (case cv_events_at cv height of Inr evs \<Rightarrow> find_reclaim own escrow evs | Inl _ \<Rightarrow> None)
      | _ \<Rightarrow> None)"

definition pay_undelegation :: "denomination \<Rightarrow> undelegation \<Rightarrow> delegation_info \<Rightarrow> u128 \<times> u128 \<Rightarrow> (('m, 'g) sdk_state, 'e, unit) rust_op" where
  "pay_undelegation den ud udi = (\<lambda>(total_amount, total_shares) s.
     case checked_mul (di_shares udi) total_amount of None \<Rightarrow> (Panic, s)
     | Some p \<Rightarrow>
     case checked_div p total_shares of None \<Rightarrow> (Panic, s)
     | Some a \<Rightarrow>
     case amount_from_consensus a s of Inl _ \<Rightarrow> (Panic, s)
     | Inr raw_amount \<Rightarrow>
         seq_op (expect_op (mint (ud_to ud) (BaseUnits raw_amount den)))
         (seq_op (store_receipt_if (di_receipt udi > 0) (ud_to ud) Receipt_UndelegateDone (di_receipt udi) (default_receipt\<lparr>rc_amount := raw_amount\<rparr>))
         (emit_event (Ev_UndelegateDone (ud_from ud) (ud_to ud) (di_shares udi) (BaseUnits raw_amount den) (Some (ud_epoch ud))))) s)"

text \<open>The queue's entries; the totals are looked up in a cache of their own first.\<close>

fun process_undelegations :: "consensus_view \<Rightarrow> (u64 \<Rightarrow> (consensus_error, u64) outcome) \<Rightarrow> ('c, u64 \<times> address, u128 \<times> u128) cache_ops \<Rightarrow>
    address \<Rightarrow> denomination \<Rightarrow> undelegation list \<Rightarrow> 'c \<Rightarrow> (('m, 'g) sdk_state, 'e, unit) rust_op" where
  "process_undelegations cv heights ops own den [] cache = return_op ()"
| "process_undelegations cv heights ops own den (ud # uds) cache =
     bind_op (expect_op (take_undelegation ud)) (\<lambda>udi.
       case cache_get ops cache (ud_epoch ud, ud_from ud) of
         (Some totals, cache) \<Rightarrow> seq_op (pay_undelegation den ud udi totals) (process_undelegations cv heights ops own den uds cache)
       | (None, cache) \<Rightarrow>
           (case reclaim_totals cv heights own (ud_epoch ud) (ud_from ud) of
              None \<Rightarrow> panic_op
            | Some totals \<Rightarrow> seq_op (pay_undelegation den ud udi totals)
                (process_undelegations cv heights ops own den uds (cache_put ops cache (ud_epoch ud, ud_from ud) totals))))"

definition runtime_address :: "consensus_view \<Rightarrow> ctx \<Rightarrow> address" where
  "runtime_address cv c = address_from_runtime_id (dep_hash (ctx_deps c)) (cv_runtime_id cv)"

definition ca_end_block :: "consensus_view \<Rightarrow> (u64 \<Rightarrow> (consensus_error, u64) outcome) \<Rightarrow> ('c, u64 \<times> address, u128 \<times> u128) cache_ops \<Rightarrow> 'c \<Rightarrow>
    ctx \<Rightarrow> (('m, 'g) sdk_state, 'e, unit) rust_op" where
  "ca_end_block cv heights ops cache c s =
     (if \<not> has_epoch_changed s then (Ok (), s)
      else process_undelegations cv heights ops (runtime_address cv c) (consensus_denomination s)
        (get_queued_undelegations (ctx_epoch c) s) cache s)"

section \<open>Invariants\<close>

definition default_consensus_account :: consensus_account where
  "default_consensus_account = \<lparr>ca_general_balance = 0, ca_active = \<lparr>sp_balance = 0, sp_total_shares = 0\<rparr>,
     ca_debonding = \<lparr>sp_balance = 0, sp_total_shares = 0\<rparr>\<rparr>"

fun check_shares :: "consensus_view \<Rightarrow> address \<Rightarrow> (address \<times> u128) list \<Rightarrow> core_error + unit" where
  "check_shares cv own [] = Inr ()"
| "check_shares cv own ((to_addr, shares) # rest) =
     (case consensus_delegation_of cv own to_addr of
        Inl _ \<Rightarrow> Inl (Core_InvariantViolation ''unable to fetch consensus delegation'')
      | Inr cons_shares \<Rightarrow>
          if cons_shares < unat shares then Inl (Core_InvariantViolation ''runtime does not have enough shares delegated'')
          else check_shares cv own rest)"

definition ca_check_invariants :: "consensus_view \<Rightarrow> ctx \<Rightarrow> ('m, 'g) sdk_state \<Rightarrow> core_error + unit" where
  "ca_check_invariants cv c s =
     (let own = runtime_address cv c;
          account = (case consensus_account_of cv own of Inr a \<Rightarrow> a | Inl _ \<Rightarrow> default_consensus_account);
          balance = (case quantity_u128 (ca_general_balance account) of Some b \<Rightarrow> b | None \<Rightarrow> - 1)
      in bind_result (map_err (\<lambda>_. Core_InvariantViolation (''runtime'' @ CHR 0x27 # ''s consensus balance is not representable'')) (amount_from_consensus balance s)) (\<lambda>balance.
         if (case fmlookup (get_total_supplies s) (consensus_denomination s) of Some total_supply \<Rightarrow> total_supply > balance | None \<Rightarrow> False)
         then Inl (Core_InvariantViolation (''total supply is greater than runtime'' @ CHR 0x27 # ''s general account balance''))
         else bind_result (map_err (\<lambda>_. Core_InvariantViolation ''unable to get delegations'') (get_delegations_by_destination s)) (\<lambda>delegations.
           check_shares cv own (fm_entries delegations))))"

section \<open>The module\<close>

definition ca_init :: "consensus_accounts_params \<Rightarrow> ('m, 'g) sdk_state \<Rightarrow> ('m, 'g) sdk_state" where
  "ca_init p = upd_ca (\<lambda>ca. ca\<lparr>ca_params := p\<rparr>)"

text \<open>\<open>dispatch_message_result\<close>: by the handler's name; a context that does not decode is a panic.\<close>

definition with_context :: "'x option \<Rightarrow> ('x \<Rightarrow> ('s, ub, unit) rust_op) \<Rightarrow> ('s, ub, ('b, unit) handled) rust_op" where
  "with_context x f = (case x of None \<Rightarrow> panic_op | Some x \<Rightarrow> seq_op (f x) (return_op (Handled ())))"

definition ca_dispatch_message_result :: "consensus_view \<Rightarrow> ctx \<Rightarrow> hook_codec \<Rightarrow> string \<Rightarrow> message_event \<times> cbor_value \<Rightarrow>
    (('m, 'g) sdk_state, ub, (message_event \<times> cbor_value, unit) handled) rust_op" where
  "ca_dispatch_message_result cv c hk handler_name = (\<lambda>(me, context).
     if handler_name = CONSENSUS_TRANSFER_HANDLER then with_context (hk_transfer hk context) (message_result_transfer cv c me)
     else if handler_name = CONSENSUS_WITHDRAW_HANDLER then with_context (hk_withdraw hk context) (message_result_withdraw cv c me)
     else if handler_name = CONSENSUS_DELEGATE_HANDLER then with_context (hk_delegate hk context) (message_result_delegate cv c me)
     else if handler_name = CONSENSUS_UNDELEGATE_HANDLER then with_context (hk_undelegate hk context) (message_result_undelegate cv c me)
     else return_op (Unhandled (me, context)))"

text \<open>Errors by module and code; a dispatcher error inside of a core error aborts.\<close>

fun history_error_code :: "history_error \<Rightarrow> string \<times> u32" where
  "history_error_code FailedToFetchBlock = (''history'', 1)"
| "history_error_code FailedToFetchEvents = (''history'', 2)"

fun consensus_error_code :: "consensus_error \<Rightarrow> string \<times> u32" where
  "consensus_error_code Cons_InvalidArgument = (''consensus'', 1)"
| "consensus_error_code Cons_InvalidDenomination = (''consensus'', 2)"
| "consensus_error_code (Cons_InternalStateError _) = (''consensus'', 3)"
| "consensus_error_code (Cons_Core e) = core_error_code e"
| "consensus_error_code Cons_ConsensusIncompatibleSigner = (''consensus'', 4)"
| "consensus_error_code Cons_AmountNotRepresentable = (''consensus'', 5)"
| "consensus_error_code Cons_UnderMinDelegationAmount = (''consensus'', 6)"
| "consensus_error_code (Cons_History e) = history_error_code e"

fun ca_error_code :: "ca_error \<Rightarrow> string \<times> u32" where
  "ca_error_code CA_InvalidArgument = (''consensus_accounts'', 1)"
| "ca_error_code CA_InvalidDenomination = (''consensus_accounts'', 2)"
| "ca_error_code CA_InsufficientBalance = (''consensus_accounts'', 3)"
| "ca_error_code CA_Forbidden = (''consensus_accounts'', 4)"
| "ca_error_code (CA_Consensus e) = consensus_error_code e"
| "ca_error_code (CA_Core e) = core_error_code e"

definition ca_into_call_result :: "(ca_error \<Rightarrow> string) \<Rightarrow> ca_error \<Rightarrow> module_result" where
  "ca_into_call_result shw e =
     (case e of
        CA_Core (Core_Abort err) \<Rightarrow> Res_Aborted err
      | CA_Consensus (Cons_Core (Core_Abort err)) \<Rightarrow> Res_Aborted err
      | _ \<Rightarrow> Res_Failed (fst (ca_error_code e)) (snd (ca_error_code e)) (shw e))"

definition consensus_into_call_result :: "(consensus_error \<Rightarrow> string) \<Rightarrow> consensus_error \<Rightarrow> module_result" where
  "consensus_into_call_result shw e =
     (case e of
        Cons_Core (Core_Abort err) \<Rightarrow> Res_Aborted err
      | _ \<Rightarrow> Res_Failed (fst (consensus_error_code e)) (snd (consensus_error_code e)) (shw e))"

record consensus_codecs =
  cc_round_root :: "cbor_value \<Rightarrow> (bytes \<times> u64 \<times> root_kind) option"
  cc_deposit :: "cbor_value \<Rightarrow> deposit_body option"
  cc_withdraw :: "cbor_value \<Rightarrow> withdraw_body option"
  cc_delegate :: "cbor_value \<Rightarrow> delegate_body option"
  cc_undelegate :: "cbor_value \<Rightarrow> undelegate_body option"
  cc_take_receipt :: "cbor_value \<Rightarrow> take_receipt_body option"
  cc_delegation :: "cbor_value \<Rightarrow> (address \<times> address) option"
  cc_shares_to_tokens :: "cbor_value \<Rightarrow> shares_to_tokens_body option"
  cc_of_root :: "bytes option \<Rightarrow> cbor_value"
  cc_of_receipt :: "receipt option \<Rightarrow> cbor_value"
  cc_of_delegation :: "delegation_info \<Rightarrow> cbor_value"
  cc_of_amount :: "u128 \<Rightarrow> cbor_value"
  cc_of_account :: "consensus_account \<Rightarrow> cbor_value"
  cc_of_delegations :: "(address \<times> u128) list \<Rightarrow> cbor_value"
  cc_of_all_delegations :: "(address \<times> address \<times> u128) list \<Rightarrow> cbor_value"
  cc_of_undelegations :: "(address \<times> u64 \<times> u128) list \<Rightarrow> cbor_value"
  cc_of_all_undelegations :: "(address \<times> address \<times> u64 \<times> u128) list \<Rightarrow> cbor_value"
  cc_of_consensus_params :: "consensus_params \<Rightarrow> cbor_value"
  cc_of_ca_params :: "consensus_accounts_params \<Rightarrow> cbor_value"
  cc_show_consensus :: "consensus_error \<Rightarrow> string"
  cc_show_ca :: "ca_error \<Rightarrow> string"
  cc_hooks :: hook_codec

definition consensus_module :: "core_config \<Rightarrow> codecs \<Rightarrow> consensus_codecs \<Rightarrow> consensus_view \<Rightarrow> consensus_params \<Rightarrow>
    ('m, 'g) sdk_state module_ops" where
  "consensus_module cfg K kc cv genesis = default_module
     \<lparr>mo_dispatch_call := by_method
        [(''consensus.RoundRoot'', dispatch_handler (cc_round_root kc) (cc_of_root kc) (cd_show_core K)
            (consensus_into_call_result (cc_show_consensus kc)) (internal_only Cons_Core (internal_round_root cfg cv)))],
      mo_dispatch_query := by_method
        [(''consensus.Parameters'', query_handler (cd_unit K) (cc_of_consensus_params kc) (malformed_query K)
            (\<lambda>e. (fst (consensus_error_code e), snd (consensus_error_code e), cc_show_consensus kc e)) (\<lambda>_. reads_op (\<lambda>s. cons_params (st_store s))))],
      mo_init_or_migrate := init_or_migrate ''consensus'' 1 [(0, expect_op (consensus_init genesis))]\<rparr>"

definition ca_err :: "consensus_codecs \<Rightarrow> ca_error \<Rightarrow> runtime_error" where
  "ca_err kc e = (fst (ca_error_code e), snd (ca_error_code e), cc_show_ca kc e)"

definition ca_queries :: "codecs \<Rightarrow> consensus_codecs \<Rightarrow> consensus_view \<Rightarrow>
    (string \<times> (cbor_value \<Rightarrow> (('m, 'g) sdk_state, ub, (cbor_value, runtime_error + cbor_value) handled) rust_op)) list" where
  "ca_queries K kc cv =
     [(''consensus.Balance'', query_handler (cd_address K) (cc_of_amount kc) (malformed_query K) (ca_err kc) (\<lambda>a. reads_op (query_balance a))),
      (''consensus.Account'', query_handler (cd_address K) (cc_of_account kc) (malformed_query K) (ca_err kc)
         (\<lambda>a. result_op (query_consensus_account cv a))),
      (''consensus.Delegation'', query_handler (cc_delegation kc) (cc_of_delegation kc) (malformed_query K) (ca_err kc)
         (\<lambda>(from_addr, to_addr). reads_op (get_delegation from_addr to_addr))),
      (''consensus.Delegations'', query_handler (cd_address K) (cc_of_delegations kc) (malformed_query K) (ca_err kc)
         (\<lambda>a. reads_op (get_delegations a))),
      (''consensus.AllDelegations'', query_handler (cd_unit K) (cc_of_all_delegations kc) (malformed_query K) (ca_err kc)
         (\<lambda>_. reads_op get_all_delegations)),
      (''consensus.Undelegations'', query_handler (cd_address K) (cc_of_undelegations kc) (malformed_query K) (ca_err kc)
         (\<lambda>a. reads_op (get_undelegations a))),
      (''consensus.AllUndelegations'', query_handler (cd_unit K) (cc_of_all_undelegations kc) (malformed_query K) (ca_err kc)
         (\<lambda>_. reads_op get_all_undelegations)),
      (''consensus_accounts.Parameters'', query_handler (cd_unit K) (cc_of_ca_params kc) (malformed_query K) (ca_err kc)
         (\<lambda>_. reads_op (\<lambda>s. ca_params (ca_of s))))]"

definition ca_calls :: "core_config \<Rightarrow> ctx \<Rightarrow> codecs \<Rightarrow> consensus_codecs \<Rightarrow> consensus_view \<Rightarrow>
    (string \<times> (cbor_value \<Rightarrow> ('g cons_state, ub, (cbor_value, module_result) handled) rust_op)) list" where
  "ca_calls cfg c K kc cv =
     [(''consensus.Deposit'', dispatch_handler (cc_deposit kc) (\<lambda>_. Cbor_Null) (cd_show_core K) (ca_into_call_result (cc_show_ca kc))
         (tx_deposit cfg c (cc_hooks kc))),
      (''consensus.Withdraw'', dispatch_handler (cc_withdraw kc) (\<lambda>_. Cbor_Null) (cd_show_core K) (ca_into_call_result (cc_show_ca kc))
         (tx_withdraw cfg c (cc_hooks kc))),
      (''consensus.Delegate'', dispatch_handler (cc_delegate kc) (\<lambda>_. Cbor_Null) (cd_show_core K) (ca_into_call_result (cc_show_ca kc))
         (tx_delegate cfg c (cc_hooks kc))),
      (''consensus.Undelegate'', dispatch_handler (cc_undelegate kc) (\<lambda>_. Cbor_Null) (cd_show_core K) (ca_into_call_result (cc_show_ca kc))
         (tx_undelegate cfg c (cc_hooks kc))),
      (''consensus.TakeReceipt'', dispatch_handler (cc_take_receipt kc) (cc_of_receipt kc) (cd_show_core K) (ca_into_call_result (cc_show_ca kc))
         (internal_only CA_Core (internal_take_receipt cfg c))),
      (''consensus.Delegation'', dispatch_handler (cc_delegation kc) (cc_of_delegation kc) (cd_show_core K) (ca_into_call_result (cc_show_ca kc))
         (internal_only CA_Core (internal_delegation cfg))),
      (''consensus.SharesToTokens'', dispatch_handler (cc_shares_to_tokens kc) (cc_of_amount kc) (cd_show_core K) (ca_into_call_result (cc_show_ca kc))
         (internal_only CA_Core (internal_shares_to_tokens cfg cv)))]"

definition consensus_accounts_module :: "core_config \<Rightarrow> ctx \<Rightarrow> codecs \<Rightarrow> consensus_codecs \<Rightarrow> consensus_view \<Rightarrow>
    (u64 \<Rightarrow> (consensus_error, u64) outcome) \<Rightarrow> ('c, u64 \<times> address, u128 \<times> u128) cache_ops \<Rightarrow> 'c \<Rightarrow> consensus_accounts_params \<Rightarrow>
    'g cons_state module_ops" where
  "consensus_accounts_module cfg c K kc cv heights ops cache genesis = default_module
     \<lparr>mo_dispatch_call := by_method (ca_calls cfg c K kc cv),
      mo_dispatch_query := by_method (ca_queries K kc cv),
      mo_dispatch_message_result := ca_dispatch_message_result cv c (cc_hooks kc),
      mo_is_expensive_query := (\<lambda>meth. meth \<in> {''consensus.AllDelegations'', ''consensus.AllUndelegations''}),
      mo_end_block := ca_end_block cv heights ops cache c,
      mo_check_invariants := (\<lambda>s. result_op (ca_check_invariants cv c s) s),
      mo_init_or_migrate := init_or_migrate ''consensus_accounts'' 1 [(0, update_op (ca_init genesis))]\<rparr>"

end
