(* ===== verification/Obligations.thy ===== *)
theory Obligations
  imports Accounts_Api
begin

text \<open>
  Modules that hold tokens for others owe them: obligations per account and denomination, and what the
  operations of the accounts interface do to balances that cover them.
\<close>

definition covers :: "(address \<Rightarrow> denomination \<Rightarrow> nat) \<Rightarrow> (address \<Rightarrow> denomination \<Rightarrow> nat) \<Rightarrow> bool" where
  "covers ob b \<longleftrightarrow> (\<forall>a d. ob a d \<le> b a d)"

definition owing :: "address \<Rightarrow> base_units \<Rightarrow> address \<Rightarrow> denomination \<Rightarrow> nat" where
  "owing f amt a d = (if a = f then units_of amt d else 0)"

context accounts_supply_api
begin

lemma covers_enough:
  assumes "covers (\<lambda>a d. owing f amt a d + ob a d) (bal s)"
  shows "unat (amount amt) \<le> bal s f (denom amt)"
  using assms [unfolded covers_def, rule_format, of f "denom amt"] by (simp add: owing_def units_of_def)

lemma refund_covered:
  assumes "good s" "\<not> dry s" "covers (\<lambda>a d. owing f amt a d + ob a d) (bal s)"
  shows "\<exists>t. xfer f to amt s = (Ok (), t) \<and> good t \<and> \<not> dry t \<and> covers ob (bal t) \<and> sup t = sup s \<and> rest t = rest s"
proof -
  obtain r t where run: "xfer f to amt s = (r, t)" by (cases "xfer f to amt s")
  have r: "r = Ok ()" using run xfer_Err [OF assms(1), of f to amt _ t] xfer_no_panic covers_enough [OF assms(3)] by (cases r) auto
  have "ob a d \<le> bal t a d" for a d
    using xfer_Ok [OF assms(1) run [unfolded r]] assms(2) assms(3) [unfolded covers_def, rule_format, of a d]
    by (auto simp: moved_def owing_def split: if_splits dest!: spec [of _ a] spec [of _ d])
  then show ?thesis using run r xfer_Ok [OF assms(1) run [unfolded r]] assms(2) by (auto simp: covers_def)
qed

lemma burn_covered:
  assumes "good s" "\<not> dry s" "covers (\<lambda>a d. owing f amt a d + ob a d) (bal s)"
  shows "\<exists>t. brn f amt s = (Ok (), t) \<and> good t \<and> \<not> dry t \<and> covers ob (bal t) \<and> (\<forall>d. sup t d + units_of amt d = sup s d) \<and> rest t = rest s"
proof -
  obtain r t where run: "brn f amt s = (r, t)" by (cases "brn f amt s")
  have r: "r = Ok ()" using run brn_Err [OF assms(1), of f amt _ t] brn_no_panic [OF assms(1)] covers_enough [OF assms(3)] by (cases r) auto
  have "ob a d \<le> bal t a d" for a d
    using brn_Ok [OF assms(1) run [unfolded r]] assms(2) assms(3) [unfolded covers_def, rule_format, of a d]
    by (auto simp: owing_def split: if_splits dest!: spec [of _ a] spec [of _ d])
  then show ?thesis using run r brn_Ok [OF assms(1) run [unfolded r]] assms(2) by (auto simp: covers_def)
qed

lemma mint_covered:
  assumes "good s" "\<not> dry s" "covers ob (bal s)" "sup s (denom amt) + unat (amount amt) < 2 ^ 128"
  shows "\<exists>t. mnt to amt s = (Ok (), t) \<and> good t \<and> \<not> dry t \<and> covers ob (bal t) \<and> (\<forall>d. sup t d = sup s d + units_of amt d) \<and> rest t = rest s"
proof -
  obtain t where run: "mnt to amt s = (Ok (), t)" using mnt_fits [OF assms(1,4)] by blast
  then show ?thesis using mnt_Ok [OF assms(1) run] assms(2,3) by (auto simp: covers_def trans_le_add1)
qed

text \<open>Setting tokens aside, from an account nothing is owed from.\<close>

lemma aside_covered:
  assumes "good s" "\<not> dry s" "covers ob (bal s)" "\<And>d. ob f d = 0" "f \<noteq> pool" "xfer f pool amt s = (Ok x, t)"
  shows "good t \<and> \<not> dry t \<and> covers (\<lambda>a d. owing pool amt a d + ob a d) (bal t) \<and> sup t = sup s \<and> rest t = rest s"
proof -
  have "owing pool amt a d + ob a d \<le> bal t a d" for a d
    using xfer_Ok [OF assms(1,6)] assms(2-5) [unfolded covers_def]
    by (auto simp: moved_def owing_def split: if_splits dest!: spec [of _ a] spec [of _ d])
  then show ?thesis using xfer_Ok [OF assms(1,6)] assms(2) by (auto simp: covers_def)
qed

end

end
