(* ===== verification/Consensus_Settlement.thy ===== *)
theory Consensus_Settlement
  imports Consensus_Accounts Obligations
begin

text \<open>
  How tokens travel between the layers: what is set aside for messages under way is there when their results
  arrive. The obligations of a list of messages, what each operation does to them, and the system of calls, blocks and
  results as a step relation.
\<close>

section \<open>What does not touch the tokens\<close>

definition token_view :: "('m, 'g) sdk_state \<Rightarrow> storage \<times> fee_manager option \<times> environment \<times> 'm list" where
  "token_view s = (empty_storage\<lparr>acc_balances := acc_balances (st_store s), acc_total_supplies := acc_total_supplies (st_store s)\<rparr>,
     bv_fee_manager (st_block_values s), st_env s, st_messages s)"

lemma token_view_eq:
  assumes "token_view t = token_view s"
  shows "balances_nat t = balances_nat s" "supplies_nat t = supplies_nat s" "accounts_inv t \<longleftrightarrow> accounts_inv s"
    "st_env t = st_env s" "st_messages t = st_messages s"
proof -
  have a: "acc_balances (st_store t) = acc_balances (st_store s)"
    and b: "acc_total_supplies (st_store t) = acc_total_supplies (st_store s)"
    using assms [THEN arg_cong, of "acc_balances \<circ> fst"] assms [THEN arg_cong, of "acc_total_supplies \<circ> fst"]
    by (simp_all add: token_view_def)
  have c: "bv_fee_manager (st_block_values t) = bv_fee_manager (st_block_values s)"
    and d: "st_env t = st_env s" and e: "st_messages t = st_messages s"
    using assms by (simp_all add: token_view_def)
  show "balances_nat t = balances_nat s" "supplies_nat t = supplies_nat s" by (simp_all add: balance_of_def supply_of_def a b)
  show "accounts_inv t \<longleftrightarrow> accounts_inv s"
    by (simp add: accounts_inv_def circulating_def total_balance_def supply_of_def fee_manager_now_def a b c)
  show "st_env t = st_env s" "st_messages t = st_messages s" by (fact d e)+
qed

named_theorems token_frame \<open>updates that do not touch tokens\<close>

lemma token_view_simps [token_frame]:
  "token_view (upd_ca f s) = token_view s" "token_view (emit_event_raw k ev s) = token_view s"
  "token_view (set_receipt owner kind i r s) = token_view s"
  by (simp_all add: token_view_def upd_ca_def set_receipt_def emit_event_raw_def upd_store_def)

lemma delegation_view [token_frame]:
  "add_delegation f to sh s = (r, t) \<Longrightarrow> token_view t = token_view s"
  "sub_delegation f to sh s = (r, t) \<Longrightarrow> token_view t = token_view s"
  "add_undelegation f to e sh i s = (r', t) \<Longrightarrow> token_view t = token_view s"
  "take_undelegation ud s = (r'', t) \<Longrightarrow> token_view t = token_view s"
  by (auto simp: add_delegation_def sub_delegation_def add_undelegation_def take_undelegation_def Let_def token_frame split: option.splits if_splits)

lemma store_receipt_run:
  "\<exists>t. store_receipt_if b owner kind i r s = (Ok (), t) \<and> token_view t = token_view s"
  by (simp add: store_receipt_if_def update_op_def return_op_def token_frame)

section \<open>Messages under way\<close>

text \<open>What has to lie on which account while a message is under way.\<close>

definition hook_owes :: "ctx \<Rightarrow> hook_codec \<Rightarrow> hook_invocation \<Rightarrow> address \<Rightarrow> denomination \<Rightarrow> nat" where
  "hook_owes c hk h a d =
     (if hi_hook_name h = CONSENSUS_TRANSFER_HANDLER
      then (case hk_transfer hk (hi_payload h) of Some x \<Rightarrow> owing (ADDRESS_PENDING_WITHDRAWAL c) (tc_amount x) a d | None \<Rightarrow> 0)
      else if hi_hook_name h = CONSENSUS_DELEGATE_HANDLER
      then (case hk_delegate hk (hi_payload h) of Some x \<Rightarrow> owing (ADDRESS_PENDING_DELEGATION c) (dc_amount x) a d | None \<Rightarrow> 0)
      else 0)"

definition flight_owes :: "ctx \<Rightarrow> hook_codec \<Rightarrow> hook_invocation list \<Rightarrow> address \<Rightarrow> denomination \<Rightarrow> nat" where
  "flight_owes c hk hs a d = (\<Sum>h \<leftarrow> hs. hook_owes c hk h a d)"

definition valid_hook :: "hook_codec \<Rightarrow> hook_invocation \<Rightarrow> bool" where
  "valid_hook hk h \<longleftrightarrow>
     (hi_hook_name h = CONSENSUS_TRANSFER_HANDLER \<and> hk_transfer hk (hi_payload h) \<noteq> None) \<or>
     (hi_hook_name h = CONSENSUS_WITHDRAW_HANDLER \<and> hk_withdraw hk (hi_payload h) \<noteq> None) \<or>
     (hi_hook_name h = CONSENSUS_DELEGATE_HANDLER \<and> hk_delegate hk (hi_payload h) \<noteq> None) \<or>
     (hi_hook_name h = CONSENSUS_UNDELEGATE_HANDLER \<and> hk_undelegate hk (hi_payload h) \<noteq> None)"

text \<open>
  Results the consensus layer may report: of a deposit, an amount that fits into the supply; of an escrow or its
  reclaim, well-formed shares that fit. \<open>u128_room a b\<close> says that \<open>a + b\<close> does not overflow.
\<close>

abbreviation u128_room :: "u128 \<Rightarrow> u128 \<Rightarrow> bool" where
  "u128_room a b \<equiv> unat a + unat b < 2 ^ 128"

definition deposit_fits :: "consensus_view \<Rightarrow> message_event \<Rightarrow> withdraw_context \<Rightarrow> ('m, 'g) sdk_state \<Rightarrow> bool" where
  "deposit_fits cv me x s \<longleftrightarrow> cv_is_success cv me \<longrightarrow> u128_room (supply_of s (denom (wc_amount x))) (amount (wc_amount x))"

definition delegate_fits :: "consensus_view \<Rightarrow> message_event \<Rightarrow> delegate_context \<Rightarrow> ('m, 'g) sdk_state \<Rightarrow> bool" where
  "delegate_fits cv me x s \<longleftrightarrow> cv_is_success cv me \<longrightarrow>
     (\<exists>shares. new_shares_of cv me = Some shares \<and> u128_room (di_shares (get_delegation (dc_from x) (dc_to x) s)) shares)"

definition undelegate_fits :: "consensus_view \<Rightarrow> message_event \<Rightarrow> undelegate_context \<Rightarrow> ('m, 'g) sdk_state \<Rightarrow> bool" where
  "undelegate_fits cv me x s \<longleftrightarrow>
     (if cv_is_success cv me
      then (\<exists>e shares. debonding_of cv me = Some (e, shares) \<and>
        u128_room (di_shares (fm_get default_delegation_info (ca_undelegations (ca_of s)) (uc_to x, uc_from x, e))) shares)
      else u128_room (di_shares (get_delegation (uc_to x) (uc_from x) s)) (uc_shares x))"

definition result_fits :: "consensus_view \<Rightarrow> hook_codec \<Rightarrow> message_event \<Rightarrow> hook_invocation \<Rightarrow> ('m, 'g) sdk_state \<Rightarrow> bool" where
  "result_fits cv hk me h s \<longleftrightarrow>
     (hi_hook_name h = CONSENSUS_WITHDRAW_HANDLER \<longrightarrow> (\<forall>x. hk_withdraw hk (hi_payload h) = Some x \<longrightarrow> deposit_fits cv me x s)) \<and>
     (hi_hook_name h = CONSENSUS_DELEGATE_HANDLER \<longrightarrow> (\<forall>x. hk_delegate hk (hi_payload h) = Some x \<longrightarrow> delegate_fits cv me x s)) \<and>
     (hi_hook_name h = CONSENSUS_UNDELEGATE_HANDLER \<longrightarrow> (\<forall>x. hk_undelegate hk (hi_payload h) = Some x \<longrightarrow> undelegate_fits cv me x s))"

text \<open>The tokens a result creates and destroys.\<close>

definition result_mints :: "consensus_view \<Rightarrow> hook_codec \<Rightarrow> message_event \<Rightarrow> hook_invocation \<Rightarrow> denomination \<Rightarrow> nat" where
  "result_mints cv hk me h d =
     (if cv_is_success cv me \<and> hi_hook_name h = CONSENSUS_WITHDRAW_HANDLER
      then (case hk_withdraw hk (hi_payload h) of Some x \<Rightarrow> units_of (wc_amount x) d | None \<Rightarrow> 0) else 0)"

definition result_burns :: "consensus_view \<Rightarrow> hook_codec \<Rightarrow> message_event \<Rightarrow> hook_invocation \<Rightarrow> denomination \<Rightarrow> nat" where
  "result_burns cv hk me h d =
     (if \<not> cv_is_success cv me then 0
      else if hi_hook_name h = CONSENSUS_TRANSFER_HANDLER
      then (case hk_transfer hk (hi_payload h) of Some x \<Rightarrow> units_of (tc_amount x) d | None \<Rightarrow> 0)
      else if hi_hook_name h = CONSENSUS_DELEGATE_HANDLER
      then (case hk_delegate hk (hi_payload h) of Some x \<Rightarrow> units_of (dc_amount x) d | None \<Rightarrow> 0) else 0)"

section \<open>Results settle what is owed\<close>

definition settles :: "(address \<Rightarrow> denomination \<Rightarrow> nat) \<Rightarrow> (denomination \<Rightarrow> nat) \<Rightarrow> (denomination \<Rightarrow> nat) \<Rightarrow>
    ('m, 'g) sdk_state \<Rightarrow> ('m, 'g) sdk_state \<Rightarrow> bool" where
  "settles ob minted burned s t \<longleftrightarrow> accounts_inv t \<and> \<not> is_check_only (st_env t) \<and> covers ob (balances_nat t) \<and>
     (\<forall>d. supplies_nat t d + burned d = supplies_nat s d + minted d) \<and> st_messages t = st_messages s"

lemma settles_view:
  assumes "token_view u = token_view t" "settles ob mi bu s t"
  shows "settles ob mi bu s u"
  using token_view_eq [OF assms(1)] assms(2) by (simp add: settles_def fun_eq_iff)

lemma settles_refl:
  "accounts_inv s \<Longrightarrow> \<not> is_check_only (st_env s) \<Longrightarrow> covers ob (balances_nat s) \<Longrightarrow> settles ob (\<lambda>_. 0) (\<lambda>_. 0) s s"
  by (simp add: settles_def)

lemma besides_messages: "besides_tokens t = besides_tokens s \<Longrightarrow> st_messages t = st_messages s"
  by (drule arg_cong [where f = st_messages]) (simp add: besides_tokens_def)

lemma besides_ca: "besides_tokens t = besides_tokens s \<Longrightarrow> ca_of t = ca_of s"
  by (drule arg_cong [where f = ca_of]) (simp add: besides_tokens_def ca_of_def)

lemma settle_refund:
  assumes "accounts_inv s" "\<not> is_check_only (st_env s)" "covers (\<lambda>a d. owing f amt a d + ob a d) (balances_nat s)"
  shows "runs (transfer f to amt) s (\<lambda>_ t. settles ob (\<lambda>_. 0) (\<lambda>_. 0) s t \<and> ca_of t = ca_of s)"
  using acc.refund_covered [OF assms, of to] unfolding runs_def settles_def by (metis (no_types, lifting) add_0_right besides_ca besides_messages)

lemma settle_burn:
  assumes "accounts_inv s" "\<not> is_check_only (st_env s)" "covers (\<lambda>a d. owing f amt a d + ob a d) (balances_nat s)"
  shows "runs (burn f amt) s (\<lambda>_ t. settles ob (\<lambda>_. 0) (units_of amt) s t \<and> ca_of t = ca_of s)"
  using acc.burn_covered [OF assms] unfolding runs_def settles_def by (metis (no_types, lifting) add_0_right besides_ca besides_messages)

lemma settle_mint:
  assumes "accounts_inv s" "\<not> is_check_only (st_env s)" "covers ob (balances_nat s)" "u128_room (supply_of s (denom amt)) (amount amt)"
  shows "runs (mint to amt) s (\<lambda>_ t. settles ob (units_of amt) (\<lambda>_. 0) s t \<and> ca_of t = ca_of s)"
  using acc.mint_covered [OF assms, of to] unfolding runs_def settles_def by (metis (no_types, lifting) add_0_right besides_ca besides_messages)

lemma settle_emit: "settles ob mi bu s t \<Longrightarrow> runs (emit_event ev) t (\<lambda>_. settles ob mi bu s)"
  by (simp add: runs_def settles_view [OF token_view_simps(2)])

lemma settle_store: "settles ob mi bu s t \<Longrightarrow> runs (store_receipt_if b owner kind i r) t (\<lambda>_. settles ob mi bu s)"
  by (simp add: runs_def store_receipt_if_def update_op_def return_op_def settles_view [OF token_view_simps(3)])

lemma settle_finish: "settles ob mi bu s t \<Longrightarrow> runs (seq_op (store_receipt_if b owner kind i r) (emit_event ev)) t (\<lambda>_. settles ob mi bu s)"
  by (intro runs_seq runs_mono [OF settle_store] settle_emit)

lemma settle_add_delegation:
  assumes "settles ob mi bu s t" "u128_room (di_shares (get_delegation f to t)) shares"
  shows "runs (add_delegation f to shares) t (\<lambda>_. settles ob mi bu s)"
  using assms settles_view [OF token_view_simps(1) assms(1)] by (simp add: runs_def add_delegation_def checked_add_def Let_def)

lemma settle_add_undelegation:
  assumes "settles ob mi bu s t" "u128_room (di_shares (fm_get default_delegation_info (ca_undelegations (ca_of t)) (to, f, e))) shares"
  shows "runs (add_undelegation f to e shares i) t (\<lambda>_. settles ob mi bu s)"
  using assms settles_view [OF token_view_simps(1) assms(1)] by (simp add: runs_def add_undelegation_def checked_add_def Let_def)

lemma transfer_result_settles:
  assumes "accounts_inv s" "\<not> is_check_only (st_env s)"
    "covers (\<lambda>a d. owing (ADDRESS_PENDING_WITHDRAWAL c) (tc_amount x) a d + ob a d) (balances_nat s)"
  shows "runs (message_result_transfer cv c me x) s
    (\<lambda>_. settles ob (\<lambda>_. 0) (\<lambda>d. if cv_is_success cv me then units_of (tc_amount x) d else 0) s)"
  unfolding message_result_transfer_def
  by (auto intro!: runs_seq runs_expect runs_mono [OF settle_burn [OF assms]] runs_mono [OF settle_refund [OF assms]] settle_emit)

lemma withdraw_result_settles:
  assumes "accounts_inv s" "\<not> is_check_only (st_env s)" "covers ob (balances_nat s)" "deposit_fits cv me x s"
  shows "runs (message_result_withdraw cv c me x) s
    (\<lambda>_. settles ob (\<lambda>d. if cv_is_success cv me then units_of (wc_amount x) d else 0) (\<lambda>_. 0) s)"
  unfolding message_result_withdraw_def using assms(4)
  by (auto simp: deposit_fits_def intro!: runs_seq runs_expect runs_mono [OF settle_mint [OF assms(1-3)]] settle_emit settles_refl assms(1-3))

lemma delegate_result_settles:
  assumes "accounts_inv s" "\<not> is_check_only (st_env s)"
    "covers (\<lambda>a d. owing (ADDRESS_PENDING_DELEGATION c) (dc_amount x) a d + ob a d) (balances_nat s)" "delegate_fits cv me x s"
  shows "runs (message_result_delegate cv c me x) s
    (\<lambda>_. settles ob (\<lambda>_. 0) (\<lambda>d. if cv_is_success cv me then units_of (dc_amount x) d else 0) s)"
  unfolding message_result_delegate_def using assms(4)
  by (auto simp: delegate_fits_def get_delegation_def intro!: runs_seq [of "expect_op _"] runs_expect runs_mono [OF settle_burn [OF assms(1-3)]]
      runs_mono [OF settle_refund [OF assms(1-3)]] runs_mono [OF settle_add_delegation] settle_finish)

lemma undelegate_result_settles:
  assumes "accounts_inv s" "\<not> is_check_only (st_env s)" "covers ob (balances_nat s)" "undelegate_fits cv me x s"
  shows "runs (message_result_undelegate cv c me x) s (\<lambda>_. settles ob (\<lambda>_. 0) (\<lambda>_. 0) s)"
  unfolding message_result_undelegate_def using assms(4) settles_refl [OF assms(1-3)]
  by (auto simp: undelegate_fits_def intro!: runs_seq [of "expect_op _"] runs_bind runs_expect
      runs_mono [OF settle_add_delegation] runs_mono [OF settle_add_undelegation] settle_finish)

lemma runs_with_context: "runs (f v) s (\<lambda>_. P) \<Longrightarrow> runs (with_context (Some v) f) s (\<lambda>r t. r = Handled () \<and> P t)"
  by (auto simp: with_context_def runs_def seq_op_def return_op_def)

lemmas handler_names = CONSENSUS_TRANSFER_HANDLER_def CONSENSUS_WITHDRAW_HANDLER_def CONSENSUS_DELEGATE_HANDLER_def
  CONSENSUS_UNDELEGATE_HANDLER_def

lemma handlers_distinct:
  "CONSENSUS_TRANSFER_HANDLER \<noteq> CONSENSUS_WITHDRAW_HANDLER" "CONSENSUS_TRANSFER_HANDLER \<noteq> CONSENSUS_DELEGATE_HANDLER"
  "CONSENSUS_TRANSFER_HANDLER \<noteq> CONSENSUS_UNDELEGATE_HANDLER" "CONSENSUS_WITHDRAW_HANDLER \<noteq> CONSENSUS_DELEGATE_HANDLER"
  "CONSENSUS_WITHDRAW_HANDLER \<noteq> CONSENSUS_UNDELEGATE_HANDLER" "CONSENSUS_DELEGATE_HANDLER \<noteq> CONSENSUS_UNDELEGATE_HANDLER"
  by (simp_all add: handler_names)

lemmas handler_simps = handlers_distinct handlers_distinct [symmetric]

lemma result_settles:
  assumes "accounts_inv s" "\<not> is_check_only (st_env s)" "valid_hook hk h" "result_fits cv hk me h s"
    "covers (\<lambda>a d. hook_owes c hk h a d + ob a d) (balances_nat s)"
  shows "runs (ca_dispatch_message_result cv c hk (hi_hook_name h) (me, hi_payload h)) s
    (\<lambda>r t. r = Handled () \<and> settles ob (result_mints cv hk me h) (result_burns cv hk me h) s t)"
proof -
  consider (1) x where "hi_hook_name h = CONSENSUS_TRANSFER_HANDLER" "hk_transfer hk (hi_payload h) = Some x"
    | (2) x where "hi_hook_name h = CONSENSUS_WITHDRAW_HANDLER" "hk_withdraw hk (hi_payload h) = Some x"
    | (3) x where "hi_hook_name h = CONSENSUS_DELEGATE_HANDLER" "hk_delegate hk (hi_payload h) = Some x"
    | (4) x where "hi_hook_name h = CONSENSUS_UNDELEGATE_HANDLER" "hk_undelegate hk (hi_payload h) = Some x"
    using assms(3) by (auto simp: valid_hook_def)
  then show ?thesis
  proof cases
    case 1
    have "result_mints cv hk me h = (\<lambda>_. 0)" "result_burns cv hk me h = (\<lambda>d. if cv_is_success cv me then units_of (tc_amount x) d else 0)"
      using 1 by (auto simp: result_mints_def result_burns_def handler_simps)
    then show ?thesis
      using assms(4,5) 1
      by (simp add: ca_dispatch_message_result_def hook_owes_def result_fits_def) (intro runs_with_context transfer_result_settles assms(1,2); simp)
  next
    case 2
    have "result_burns cv hk me h = (\<lambda>_. 0)" "result_mints cv hk me h = (\<lambda>d. if cv_is_success cv me then units_of (wc_amount x) d else 0)"
      using 2 by (auto simp: result_mints_def result_burns_def handler_simps)
    then show ?thesis
      using assms(4,5) 2
      by (simp add: ca_dispatch_message_result_def hook_owes_def handler_simps result_fits_def) (intro runs_with_context withdraw_result_settles assms(1,2); simp)
  next
    case 3
    have "result_mints cv hk me h = (\<lambda>_. 0)" "result_burns cv hk me h = (\<lambda>d. if cv_is_success cv me then units_of (dc_amount x) d else 0)"
      using 3 by (auto simp: result_mints_def result_burns_def handler_simps)
    then show ?thesis
      using assms(4,5) 3
      by (simp add: ca_dispatch_message_result_def hook_owes_def handler_simps result_fits_def) (intro runs_with_context delegate_result_settles assms(1,2); simp)
  next
    case 4
    have "result_mints cv hk me h = (\<lambda>_. 0)" "result_burns cv hk me h = (\<lambda>_. 0)"
      using 4 by (auto simp: result_mints_def result_burns_def handler_simps)
    then show ?thesis
      using assms(4,5) 4
      by (simp add: ca_dispatch_message_result_def hook_owes_def handler_simps result_fits_def) (intro runs_with_context undelegate_result_settles assms(1,2); simp)
  qed
qed

section \<open>Calls launch messages\<close>

definition hook_codec_law :: "hook_codec \<Rightarrow> bool" where
  "hook_codec_law hk \<longleftrightarrow>
     (\<forall>x. hk_transfer hk (hk_of_transfer hk x) = Some x) \<and> (\<forall>x. hk_withdraw hk (hk_of_withdraw hk x) = Some x) \<and>
     (\<forall>x. hk_delegate hk (hk_of_delegate hk x) = Some x) \<and> (\<forall>x. hk_undelegate hk (hk_of_undelegate hk x) = Some x)"

definition module_accounts :: "ctx \<Rightarrow> address set" where
  "module_accounts c = {ADDRESS_PENDING_WITHDRAWAL c, ADDRESS_PENDING_DELEGATION c}"

lemma owes_elsewhere:
  "a \<notin> module_accounts c \<Longrightarrow> hook_owes c hk h a d = 0" "a \<notin> module_accounts c \<Longrightarrow> flight_owes c hk hs a d = 0"
  by (auto simp: hook_owes_def flight_owes_def owing_def module_accounts_def split: option.splits)

lemma flight_owes_append [simp]:
  "flight_owes c hk (hs @ hs') = (\<lambda>a d. flight_owes c hk hs a d + flight_owes c hk hs' a d)"
  "flight_owes c hk (h # hs) = (\<lambda>a d. hook_owes c hk h a d + flight_owes c hk hs a d)" "flight_owes c hk [] = (\<lambda>a d. 0)"
  by (simp_all add: flight_owes_def fun_eq_iff)

text \<open>One message more, with what it owes set aside.\<close>

definition launches :: "ctx \<Rightarrow> hook_codec \<Rightarrow> (address \<Rightarrow> denomination \<Rightarrow> nat) \<Rightarrow> 'g cons_state \<Rightarrow> 'g cons_state \<Rightarrow> bool" where
  "launches c hk ob s t \<longleftrightarrow> (\<exists>m h. st_messages t = st_messages s @ [(m, h)] \<and> valid_hook hk h \<and>
     covers (\<lambda>a d. hook_owes c hk h a d + ob a d) (balances_nat t)) \<and>
     accounts_inv t \<and> \<not> is_check_only (st_env t) \<and> supplies_nat t = supplies_nat s"

lemma emitted_tokens [simp]:
  "balances_nat (emitted m h s) = balances_nat s" "supplies_nat (emitted m h s) = supplies_nat s"
  "accounts_inv (emitted m h s) \<longleftrightarrow> accounts_inv s"
  by (simp_all add: balance_of_def supply_of_def accounts_inv_def circulating_def total_balance_def fee_manager_now_def)

lemma set_aside_launches:
  assumes "accounts_inv s" "\<not> is_check_only (st_env s)" "covers ob (balances_nat s)" "\<And>d. ob f d = 0" "f \<noteq> pool" "valid_hook hk h"
    "hook_owes c hk h = owing pool amt" "set_aside f pool amt (emitted m h s) = (Ok (), t)"
  shows "launches c hk ob s t"
proof -
  have run: "transfer f pool amt (emitted m h s) = (Ok (), t)" using assms(2,8) by (simp add: set_aside_def map_err_op_iff)
  have "accounts_inv (emitted m h s)" "\<not> check_state (emitted m h s)" "covers ob (balances_nat (emitted m h s))" using assms by simp_all
  from acc.aside_covered [OF this assms(4,5) run] besides_messages [of t "emitted m h s"] show ?thesis
    using assms(6,7) by (auto simp: launches_def)
qed

lemma call_launches:
  assumes inv: "accounts_inv s" "\<not> is_check_only (st_env s)" "covers ob (balances_nat s)"
    and law: "hook_codec_law hk" and own: "\<And>a d. a \<notin> module_accounts c \<Longrightarrow> ob a d = 0"
  shows "ca_deposit c hk f' n to amt s = (Ok (), t) \<Longrightarrow> launches c hk ob s t"
    "ca_withdraw c hk f n to amt s = (Ok (), t) \<Longrightarrow> f \<notin> module_accounts c \<Longrightarrow> launches c hk ob s t"
    "ca_delegate c hk f n to amt b s = (Ok (), t) \<Longrightarrow> f \<notin> module_accounts c \<Longrightarrow> launches c hk ob s t"
    "ca_undelegate c hk f' n to sh b s = (Ok (), t) \<Longrightarrow> launches c hk ob s t"
proof -
  have pools: "f \<noteq> ADDRESS_PENDING_WITHDRAWAL c" "f \<noteq> ADDRESS_PENDING_DELEGATION c" "\<And>d. ob f d = 0" if "f \<notin> module_accounts c"
    using that own [OF that] by (auto simp: module_accounts_def)
  show "launches c hk ob s t" if "ca_deposit c hk f' n to amt s = (Ok (), t)"
    using that inv law by (auto simp: ca_deposit_def map_err_op_iff launches_def valid_hook_def hook_codec_law_def hook_owes_def handler_simps
        dest!: consensus_message_cases(2) intro!: exI)
  show "launches c hk ob s t" if "ca_withdraw c hk f n to amt s = (Ok (), t)" and f: "f \<notin> module_accounts c"
    using that(1) law unfolding ca_withdraw_def seq_op_def bind_op_Ok_iff map_err_op_iff
    by (auto dest!: consensus_message_cases(1) intro!: set_aside_launches [OF inv pools(3,1) [OF f]]
        simp: valid_hook_def hook_codec_law_def hook_owes_def fun_eq_iff)
  show "launches c hk ob s t" if "ca_delegate c hk f n to amt b s = (Ok (), t)" and f: "f \<notin> module_accounts c"
    using that(1) law unfolding ca_delegate_def seq_op_def bind_op_Ok_iff map_err_op_iff
    by (auto dest!: consensus_message_cases(3) intro!: set_aside_launches [OF inv pools(3,2) [OF f]]
        simp: valid_hook_def hook_codec_law_def hook_owes_def fun_eq_iff handler_simps)
  show "launches c hk ob s t" if und: "ca_undelegate c hk f' n to sh b s = (Ok (), t)"
  proof -
    obtain x u where u: "sub_delegation to f' sh s = (Ok x, u)"
      and run: "map_err_op CA_Consensus (consensus_reclaim_escrow c f' sh \<lparr>hi_hook_name = CONSENSUS_UNDELEGATE_HANDLER,
        hi_payload = hk_of_undelegate hk \<lparr>uc_from = f', uc_nonce = n, uc_to = to, uc_shares = sh, uc_receipt = b\<rparr>\<rparr>) u = (Ok (), t)"
      using und unfolding ca_undelegate_def seq_op_def bind_op_Ok_iff by blast
    show ?thesis
      using run law inv token_view_eq [OF delegation_view(2) [OF u]]
      by (auto simp: map_err_op_iff launches_def valid_hook_def hook_codec_law_def hook_owes_def handler_simps dest!: consensus_message_cases(4))
  qed
qed

section \<open>The system\<close>

text \<open>
  Calls by accounts the module does not own, anything else that leaves the module's accounts and the messages alone, the end of a
  block, which sends the emitted messages, and results of messages, in any order.
\<close>

inductive ca_step :: "consensus_view \<Rightarrow> ctx \<Rightarrow> hook_codec \<Rightarrow> 'g cons_state \<times> hook_invocation list \<Rightarrow>
    'g cons_state \<times> hook_invocation list \<Rightarrow> bool" for cv c hk where
  Step_Deposit: "ca_deposit c hk f n to amt s = (Ok (), t) \<Longrightarrow> ca_step cv c hk (s, fl) (t, fl)"
| Step_Withdraw: "ca_withdraw c hk f n to amt s = (Ok (), t) \<Longrightarrow> f \<notin> module_accounts c \<Longrightarrow> ca_step cv c hk (s, fl) (t, fl)"
| Step_Delegate: "ca_delegate c hk f n to amt b s = (Ok (), t) \<Longrightarrow> f \<notin> module_accounts c \<Longrightarrow> ca_step cv c hk (s, fl) (t, fl)"
| Step_Undelegate: "ca_undelegate c hk f n to sh b s = (Ok (), t) \<Longrightarrow> ca_step cv c hk (s, fl) (t, fl)"
| Step_Other: "accounts_inv t \<Longrightarrow> \<not> is_check_only (st_env t) \<Longrightarrow> st_messages t = st_messages s \<Longrightarrow>
    (\<And>a d. a \<in> module_accounts c \<Longrightarrow> balance_of s a d \<le> balance_of t a d) \<Longrightarrow> ca_step cv c hk (s, fl) (t, fl)"
| Step_Block: "take_messages s = (ms, t) \<Longrightarrow> ca_step cv c hk (s, fl) (t, fl @ map snd ms)"
| Step_Result: "result_fits cv hk me h s \<Longrightarrow>
    ca_dispatch_message_result cv c hk (hi_hook_name h) (me, hi_payload h) s = (r, t) \<Longrightarrow> ca_step cv c hk (s, fl1 @ h # fl2) (t, fl1 @ fl2)"

inductive_cases ca_stepE: "ca_step cv c hk (s, fl) (t, fl')"

definition under_way :: "'g cons_state \<times> hook_invocation list \<Rightarrow> hook_invocation list" where
  "under_way = (\<lambda>(s, fl). fl @ map snd (st_messages s))"

definition ca_inv :: "ctx \<Rightarrow> hook_codec \<Rightarrow> 'g cons_state \<times> hook_invocation list \<Rightarrow> bool" where
  "ca_inv c hk sys \<longleftrightarrow> accounts_inv (fst sys) \<and> \<not> is_check_only (st_env (fst sys)) \<and>
     (\<forall>h \<in> set (under_way sys). valid_hook hk h) \<and> covers (flight_owes c hk (under_way sys)) (balances_nat (fst sys))"

lemma ca_inv_launch:
  assumes "ca_inv c hk (s, fl)" "launches c hk (flight_owes c hk (under_way (s, fl))) s t"
  shows "ca_inv c hk (t, fl)"
  using assms by (clarsimp simp: ca_inv_def launches_def under_way_def add_ac)

lemma ca_inv_call:
  assumes "ca_inv c hk (s, fl)" "hook_codec_law hk"
  shows "ca_deposit c hk f n to amt s = (Ok (), t) \<Longrightarrow> ca_inv c hk (t, fl)"
    "ca_withdraw c hk f n to amt s = (Ok (), t) \<Longrightarrow> f \<notin> module_accounts c \<Longrightarrow> ca_inv c hk (t, fl)"
    "ca_delegate c hk f n to amt b s = (Ok (), t) \<Longrightarrow> f \<notin> module_accounts c \<Longrightarrow> ca_inv c hk (t, fl)"
    "ca_undelegate c hk f n to sh b s = (Ok (), t) \<Longrightarrow> ca_inv c hk (t, fl)"
proof -
  have inv: "accounts_inv s" "\<not> is_check_only (st_env s)" "covers (flight_owes c hk (under_way (s, fl))) (balances_nat s)"
    using assms(1) by (simp_all add: ca_inv_def)
  note call = call_launches [OF inv assms(2) owes_elsewhere(2)]
  show "ca_deposit c hk f n to amt s = (Ok (), t) \<Longrightarrow> ca_inv c hk (t, fl)"
    "ca_withdraw c hk f n to amt s = (Ok (), t) \<Longrightarrow> f \<notin> module_accounts c \<Longrightarrow> ca_inv c hk (t, fl)"
    "ca_delegate c hk f n to amt b s = (Ok (), t) \<Longrightarrow> f \<notin> module_accounts c \<Longrightarrow> ca_inv c hk (t, fl)"
    "ca_undelegate c hk f n to sh b s = (Ok (), t) \<Longrightarrow> ca_inv c hk (t, fl)"
    by (blast intro: ca_inv_launch [OF assms(1)] call)+
qed

lemma take_messages_tokens:
  assumes "take_messages s = (ms, t)"
  shows "ms = st_messages s" "st_messages t = []" "balances_nat t = balances_nat s" "st_env t = st_env s" "accounts_inv t \<longleftrightarrow> accounts_inv s"
  using assms by (auto simp: take_messages_def balance_of_def accounts_inv_def circulating_def total_balance_def supply_of_def fee_manager_now_def)

lemma ca_inv_result:
  assumes "ca_inv c hk (s, fl1 @ h # fl2)" "result_fits cv hk me h s"
  shows "runs (ca_dispatch_message_result cv c hk (hi_hook_name h) (me, hi_payload h)) s
    (\<lambda>r t. r = Handled () \<and> ca_inv c hk (t, fl1 @ fl2) \<and>
      (\<forall>d. supplies_nat t d + result_burns cv hk me h d = supplies_nat s d + result_mints cv hk me h d))"
proof (rule runs_mono [OF result_settles])
  show "accounts_inv s" "\<not> is_check_only (st_env s)" "valid_hook hk h" using assms(1) by (auto simp: ca_inv_def under_way_def)
  show "result_fits cv hk me h s" by (fact assms(2))
  show "covers (\<lambda>a d. hook_owes c hk h a d + flight_owes c hk (under_way (s, fl1 @ fl2)) a d) (balances_nat s)"
    using assms(1) by (simp add: ca_inv_def under_way_def add_ac)
  fix r t
  assume "r = Handled () \<and> settles (flight_owes c hk (under_way (s, fl1 @ fl2))) (result_mints cv hk me h) (result_burns cv hk me h) s t"
  then show "r = Handled () \<and> ca_inv c hk (t, fl1 @ fl2) \<and>
      (\<forall>d. supplies_nat t d + result_burns cv hk me h d = supplies_nat s d + result_mints cv hk me h d)"
    using assms(1) by (auto simp: settles_def ca_inv_def under_way_def)
qed

lemma ca_inv_step:
  assumes law: "hook_codec_law hk" and "ca_step cv c hk x y" "ca_inv c hk x"
  shows "ca_inv c hk y"
  using assms(2,3)
proof (induction rule: ca_step.induct)
  case (Step_Other t s fl)
  have "covers (flight_owes c hk (under_way (t, fl))) (balances_nat t)"
    unfolding covers_def
  proof (intro allI)
    fix a d
    show "flight_owes c hk (under_way (t, fl)) a d \<le> balances_nat t a d"
    proof (cases "a \<in> module_accounts c")
      case True
      have "flight_owes c hk (under_way (s, fl)) a d \<le> balances_nat s a d" using Step_Other.prems by (simp add: ca_inv_def covers_def)
      also have "\<dots> \<le> balances_nat t a d" using Step_Other.hyps(4) [OF True] by (simp add: word_le_nat_alt)
      finally show ?thesis using Step_Other.hyps(3) by (simp add: under_way_def)
    qed (simp add: owes_elsewhere)
  qed
  then show ?case using Step_Other by (simp add: ca_inv_def under_way_def)
next
  case (Step_Block s ms t fl)
  then show ?case using take_messages_tokens [OF Step_Block.hyps] by (simp add: ca_inv_def under_way_def)
next
  case (Step_Result me h s r t fl1 fl2)
  then show ?case using ca_inv_result [OF Step_Result.prems Step_Result.hyps(1)] by (auto simp: runs_def)
qed (auto intro: ca_inv_call [OF _ law])

end
