(* ===== verification/Consensus_Undelegations.thy ===== *)
theory Consensus_Undelegations
  imports Consensus_Settlement
begin

text \<open>
  The end of undelegations: the table of undelegations and the queue by epoch agree, and the end of a block pays the due ones,
  each its share of what the runtime got back from the consensus layer, whatever the cache of totals remembers.
\<close>

section \<open>Table and queue\<close>

definition queue_agrees :: "('m, 'g) sdk_state \<Rightarrow> bool" where
  "queue_agrees s \<longleftrightarrow> (\<forall>e to f. (e, to, f) \<in> fmdom' (ca_queue (ca_of s)) \<longleftrightarrow> (to, f, e) \<in> fmdom' (ca_undelegations (ca_of s)))"

lemma ca_of_upd [simp]: "ca_of (upd_ca f s) = f (ca_of s)" "ca_of (emit_event_raw k ev s) = ca_of s"
  by (simp_all add: ca_of_def upd_ca_def upd_store_def emit_event_raw_def)

lemma add_undelegation_agrees:
  assumes "add_undelegation f to e sh i s = (r, t)" "queue_agrees s"
  shows "queue_agrees t"
  using assms by (auto simp: add_undelegation_def Let_def queue_agrees_def split: option.splits)

text \<open>The due entries of the queue, those of epochs up to the current one.\<close>

lemma queued_undelegations:
  "get_queued_undelegations e s = map undelegation_of_key (filter (\<lambda>k. fst k \<le> e) (map fst (fm_entries (ca_queue (ca_of s)))))"
proof -
  let ?ks = "map fst (fm_entries (ca_queue (ca_of s)))"
  have "sorted (map fst ?ks)"
    using sorted_fm_entries [of "ca_queue (ca_of s)"] by (auto simp: sorted_iff_nth_mono less_eq_prod_def intro: less_imp_le)
  then have "takeWhile (\<lambda>k. fst k \<le> e) ?ks = filter (\<lambda>k. fst k \<le> e) ?ks" by (rule takeWhile_sorted)
  moreover have "get_queued_undelegations e s = map undelegation_of_key (takeWhile (\<lambda>k. fst k \<le> e) ?ks)"
    by (simp add: get_queued_undelegations_def undelegation_of_key_def takeWhile_map comp_def split_beta)
  ultimately show ?thesis by simp
qed

lemma undelegation_of_key_inj: "undelegation_of_key k = undelegation_of_key k' \<longleftrightarrow> k = k'"
  by (auto simp: undelegation_of_key_def split: prod.splits)

lemma distinct_queued: "distinct (get_queued_undelegations e s)"
  unfolding queued_undelegations distinct_map [of undelegation_of_key]
  by (auto simp: undelegation_of_key_inj inj_on_def intro: distinct_filter distinct_fm_entries)

lemma set_queued:
  "queue_agrees s \<Longrightarrow> set (get_queued_undelegations e s) =
     {ud. ud_epoch ud \<le> e \<and> (ud_to ud, ud_from ud, ud_epoch ud) \<in> fmdom' (ca_undelegations (ca_of s))}"
proof (intro set_eqI)
  fix ud
  have key: "ud = undelegation_of_key (ud_epoch ud, ud_to ud, ud_from ud)" by (simp add: undelegation_of_key_def)
  assume "queue_agrees s"
  moreover have "ud \<in> set (get_queued_undelegations e s) \<longleftrightarrow> ud \<in> undelegation_of_key ` {k \<in> fmdom' (ca_queue (ca_of s)). fst k \<le> e}"
    by (auto simp: queued_undelegations simp flip: fst_fm_entries)
  moreover have "\<dots> \<longleftrightarrow> (ud_epoch ud, ud_to ud, ud_from ud) \<in> fmdom' (ca_queue (ca_of s)) \<and> ud_epoch ud \<le> e"
    by (subst (1) key) (auto simp: image_iff undelegation_of_key_inj)
  ultimately show "ud \<in> set (get_queued_undelegations e s) \<longleftrightarrow>
      ud \<in> {ud. ud_epoch ud \<le> e \<and> (ud_to ud, ud_from ud, ud_epoch ud) \<in> fmdom' (ca_undelegations (ca_of s))}"
    by (auto simp: queue_agrees_def)
qed

section \<open>Paying one\<close>

text \<open>Units of the runtime for \<open>shares\<close> of what came back.\<close>

definition shares_worth :: "('m, 'g) sdk_state \<Rightarrow> u128 \<Rightarrow> u128 \<times> u128 \<Rightarrow> nat" where
  "shares_worth s shares = (\<lambda>(total_amount, total_shares). unat shares * unat total_amount div unat total_shares * unat (scaling_factor s))"

definition undelegation_tables :: "('m, 'g) sdk_state \<Rightarrow> (address \<times> address \<times> u64, delegation_info) fmap \<times> (u64 \<times> address \<times> address, unit) fmap \<times> consensus_params" where
  "undelegation_tables s = (ca_undelegations (ca_of s), ca_queue (ca_of s), cons_params (st_store s))"

lemma besides_tables: "besides_tokens t = besides_tokens s \<Longrightarrow> undelegation_tables t = undelegation_tables s"
  by (drule arg_cong [where f = undelegation_tables]) (simp add: besides_tokens_def undelegation_tables_def ca_of_def)

lemma tables_simps [simp]:
  "undelegation_tables (emit_event_raw k ev s) = undelegation_tables s"
  "undelegation_tables (set_receipt owner kind i r s) = undelegation_tables s"
  by (simp_all add: undelegation_tables_def set_receipt_def upd_ca_def upd_store_def emit_event_raw_def ca_of_def)

lemma tables_worth: "undelegation_tables t = undelegation_tables s \<Longrightarrow> shares_worth t = shares_worth s"
  by (auto simp: undelegation_tables_def shares_worth_def scaling_factor_def fun_eq_iff)

definition paid :: "address \<Rightarrow> denomination \<Rightarrow> nat \<Rightarrow> ('m, 'g) sdk_state \<Rightarrow> ('m, 'g) sdk_state \<Rightarrow> bool" where
  "paid to den n s t \<longleftrightarrow> accounts_inv t \<and> \<not> is_check_only (st_env t) \<and>
     (\<forall>a d. balances_nat t a d = balances_nat s a d + (if a = to \<and> d = den then n else 0)) \<and>
     (\<forall>d. supplies_nat t d = supplies_nat s d + (if d = den then n else 0))"

lemma paid_view: "token_view u = token_view t \<Longrightarrow> paid to den n s t \<Longrightarrow> paid to den n s u"
  unfolding paid_def using token_view_eq [of u t] by metis

lemma paid_from: "balances_nat u = balances_nat s \<Longrightarrow> supplies_nat u = supplies_nat s \<Longrightarrow> paid to den n u t \<Longrightarrow> paid to den n s t"
  by (simp add: paid_def fun_eq_iff)

lemma pay_undelegation_Ok:
  assumes "pay_undelegation den ud udi totals s = (Ok (), t)" "accounts_inv s" "\<not> is_check_only (st_env s)"
  shows "paid (ud_to ud) den (shares_worth s (di_shares udi) totals) s t \<and> undelegation_tables t = undelegation_tables s"
proof -
  obtain ta ts where tot: "totals = (ta, ts)" by (cases totals)
  obtain raw u where raw: "unat raw = shares_worth s (di_shares udi) totals" and u: "mint (ud_to ud) (BaseUnits raw den) s = (Ok (), u)"
    and t: "token_view t = token_view u" "undelegation_tables t = undelegation_tables u"
    using assms(1) by (auto simp: tot pay_undelegation_def shares_worth_def checked_mul_Some checked_div_Some amount_from_consensus_iff
        seq_op_def bind_op_Ok_iff store_receipt_if_def update_op_def return_op_def token_frame expect_op_iff split: option.splits sum.splits if_splits)
  have "paid (ud_to ud) den (unat raw) s u"
    using acc.mnt_Ok [OF assms(2) u] assms(3) by (auto simp: paid_def units_of_def)
  then show ?thesis
    using paid_view [OF t(1)] t(2) besides_tables [of u s] acc.mnt_Ok [OF assms(2) u] raw by simp
qed

section \<open>Paying all that are due\<close>

text \<open>The cache of totals: it remembers nothing but totals of the consensus layer.\<close>

definition totals_known :: "(u64 \<times> address \<Rightarrow> (u128 \<times> u128) option) \<Rightarrow> (u64 \<times> address \<rightharpoonup> u128 \<times> u128) \<Rightarrow> bool" where
  "totals_known tot m \<longleftrightarrow> m \<subseteq>\<^sub>m tot"

definition payout :: "(u64 \<times> address \<Rightarrow> (u128 \<times> u128) option) \<Rightarrow> ('m, 'g) sdk_state \<Rightarrow> undelegation \<Rightarrow> nat" where
  "payout tot s ud = (case tot (ud_epoch ud, ud_from ud) of None \<Rightarrow> 0
     | Some totals \<Rightarrow> shares_worth s (di_shares (fm_get default_delegation_info (ca_undelegations (ca_of s)) (ud_to ud, ud_from ud, ud_epoch ud))) totals)"

definition payouts :: "(u64 \<times> address \<Rightarrow> (u128 \<times> u128) option) \<Rightarrow> ('m, 'g) sdk_state \<Rightarrow> undelegation list \<Rightarrow> address \<Rightarrow> nat" where
  "payouts tot s uds a = (\<Sum>ud \<leftarrow> uds. if a = ud_to ud then payout tot s ud else 0)"

definition all_paid :: "denomination \<Rightarrow> (address \<Rightarrow> nat) \<Rightarrow> nat \<Rightarrow> ('m, 'g) sdk_state \<Rightarrow> ('m, 'g) sdk_state \<Rightarrow> bool" where
  "all_paid den to_each tot s t \<longleftrightarrow> accounts_inv t \<and> \<not> is_check_only (st_env t) \<and>
     (\<forall>a d. balances_nat t a d = balances_nat s a d + (if d = den then to_each a else 0)) \<and>
     (\<forall>d. supplies_nat t d = supplies_nat s d + (if d = den then tot else 0))"

lemma all_paid_step:
  "paid to den n s u \<Longrightarrow> all_paid den f k u t \<Longrightarrow> all_paid den (\<lambda>a. (if a = to then n else 0) + f a) (n + k) s t"
  by (auto simp: paid_def all_paid_def)

definition taken :: "undelegation list \<Rightarrow> ('m, 'g) sdk_state \<Rightarrow> ('m, 'g) sdk_state \<Rightarrow> bool" where
  "taken uds s t \<longleftrightarrow> cons_params (st_store t) = cons_params (st_store s) \<and>
     (\<forall>to f e. let gone = \<lparr>ud_from = f, ud_to = to, ud_epoch = e\<rparr> \<in> set uds in
        fmlookup (ca_undelegations (ca_of t)) (to, f, e) = (if gone then None else fmlookup (ca_undelegations (ca_of s)) (to, f, e)) \<and>
        fmlookup (ca_queue (ca_of t)) (e, to, f) = (if gone then None else fmlookup (ca_queue (ca_of s)) (e, to, f)))"

lemma take_undelegation_taken:
  assumes "take_undelegation ud s = (Ok udi, t)"
  shows "taken [ud] s t" "udi = fm_get default_delegation_info (ca_undelegations (ca_of s)) (ud_to ud, ud_from ud, ud_epoch ud)"
  using assms by (auto simp: take_undelegation_def taken_def upd_ca_def upd_store_def ca_of_def Let_def)

lemma taken_tables: "undelegation_tables t = undelegation_tables s \<Longrightarrow> taken uds r s \<Longrightarrow> taken uds r t"
  by (simp add: taken_def undelegation_tables_def)

lemma taken_Cons: "taken [ud] s u \<Longrightarrow> taken uds u t \<Longrightarrow> taken (ud # uds) s t"
  by (simp add: taken_def Let_def)

lemma payout_taken:
  assumes "taken uds s t" "ud \<notin> set uds"
  shows "payout tot t ud = payout tot s ud"
proof -
  have "\<lparr>ud_from = ud_from ud, ud_to = ud_to ud, ud_epoch = ud_epoch ud\<rparr> \<notin> set uds" using assms(2) by (cases ud) simp
  then have "fmlookup (ca_undelegations (ca_of t)) (ud_to ud, ud_from ud, ud_epoch ud) = fmlookup (ca_undelegations (ca_of s)) (ud_to ud, ud_from ud, ud_epoch ud)"
    "scaling_factor t = scaling_factor s"
    using assms(1) by (simp_all add: taken_def Let_def scaling_factor_def)
  then show ?thesis by (simp add: payout_def shares_worth_def fm_get_def split: option.splits)
qed

lemma payouts_Cons: "payouts tot s (ud # uds) = (\<lambda>a. (if a = ud_to ud then payout tot s ud else 0) + payouts tot s uds a)"
  by (simp add: payouts_def fun_eq_iff)

lemma payouts_taken: "taken [ud] s t \<Longrightarrow> ud \<notin> set uds \<Longrightarrow> payouts tot t uds = payouts tot s uds \<and> map (payout tot t) uds = map (payout tot s) uds"
  by (induction uds) (auto simp: payouts_def payout_taken fun_eq_iff)

lemma take_undelegation_view:
  assumes "take_undelegation ud s = (r, t)"
  shows "balances_nat t = balances_nat s" "supplies_nat t = supplies_nat s" "accounts_inv t \<longleftrightarrow> accounts_inv s" "st_env t = st_env s"
  using token_view_eq [OF delegation_view(4) [OF assms]] by simp_all

text \<open>Where the totals come from does not matter.\<close>

lemma process_undelegations_step:
  fixes t :: "('m, 'g) sdk_state" and ok :: "('e, unit) outcome"
  defines "ok \<equiv> Ok ()"
  assumes "process_undelegations cv heights ops own den (ud # uds) cache s = (ok, t)" "cache_law ops contents"
    and tot: "tot = (\<lambda>(e, a). reclaim_totals cv heights own e a)" and "totals_known tot (contents cache)"
  obtains udi u totals v cache' where "take_undelegation ud s = (Ok udi, u)" "tot (ud_epoch ud, ud_from ud) = Some totals"
    "pay_undelegation den ud udi totals u = (ok, v)" "process_undelegations cv heights ops own den uds cache' v = (ok, t)"
    "totals_known tot (contents cache')"
proof -
  let ?k = "(ud_epoch ud, ud_from ud)"
  obtain udi u where u: "take_undelegation ud s = (Ok udi, u)" by (simp add: take_undelegation_def)
  obtain r cache1 where g: "cache_get ops cache ?k = (r, cache1)" by (cases "cache_get ops cache ?k")
  have le: "contents cache1 \<subseteq>\<^sub>m tot" and hit: "r \<noteq> None \<Longrightarrow> tot ?k = r"
    using assms(3,5) g unfolding cache_law_def totals_known_def
    by (metis map_le_trans snd_conv) (metis assms(3,5) cache_law_def totals_known_def domIff fst_conv g map_le_def)
  have put: "totals_known tot (contents (cache_put ops cache1 ?k totals))" if "tot ?k = Some totals" for totals
  proof -
    have "(contents cache1)(?k \<mapsto> totals) \<subseteq>\<^sub>m tot" using le that by (auto simp: map_le_def)
    then show ?thesis using assms(3) unfolding cache_law_def totals_known_def by (meson map_le_trans)
  qed
  show thesis
    using assms(2) u g le hit put that [OF u] tot
    by (auto simp: seq_op_def bind_op_Ok_iff expect_op_iff totals_known_def ok_def panic_op_def split: option.splits)
qed

lemma process_undelegations_Ok:
  assumes "process_undelegations cv heights ops own den uds cache s = (Ok () :: ('e, unit) outcome, t)" "cache_law ops contents"
    "tot = (\<lambda>(e, a). reclaim_totals cv heights own e a)" "totals_known tot (contents cache)"
    "accounts_inv s" "\<not> is_check_only (st_env s)" "distinct uds"
  shows "all_paid den (payouts tot s uds) (\<Sum>ud \<leftarrow> uds. payout tot s ud) s t \<and> taken uds s t"
  using assms(1,4-)
proof (induction uds arbitrary: cache s)
  case Nil
  then show ?case by (simp add: return_op_def all_paid_def payouts_def taken_def)
next
  case (Cons ud uds)
  obtain udi u totals v cache' where u: "take_undelegation ud s = (Ok udi, u)" and totals: "tot (ud_epoch ud, ud_from ud) = Some totals"
    and v: "pay_undelegation den ud udi totals u = (Ok () :: ('e, unit) outcome, v)"
    and rest: "process_undelegations cv heights ops own den uds cache' v = (Ok () :: ('e, unit) outcome, t)"
    and known: "totals_known tot (contents cache')"
    by (rule process_undelegations_step [OF Cons.prems(1) assms(2,3) Cons.prems(2)])
  note view = take_undelegation_view [OF u]
  have inv: "accounts_inv u" "\<not> is_check_only (st_env u)" using Cons.prems(3,4) view by simp_all
  have worth: "shares_worth u (di_shares udi) totals = payout tot s ud"
    using take_undelegation_taken [OF u] totals by (simp add: payout_def shares_worth_def scaling_factor_def taken_def)
  have pay: "paid (ud_to ud) den (payout tot s ud) s v" "undelegation_tables v = undelegation_tables u"
    using pay_undelegation_Ok [OF v inv] paid_from [OF view(1,2)] by (simp_all add: worth)
  have tv: "taken [ud] s v" by (rule taken_tables [OF pay(2) take_undelegation_taken(1) [OF u]])
  have eq: "payouts tot v uds = payouts tot s uds" "map (payout tot v) uds = map (payout tot s) uds"
    using payouts_taken [OF tv, of uds tot] Cons.prems(5) by simp_all
  have "accounts_inv v" "\<not> is_check_only (st_env v)" "distinct uds" using pay(1) Cons.prems(5) by (simp_all add: paid_def)
  from Cons.IH [OF rest known this]
  have "all_paid den (payouts tot s uds) (\<Sum>ud \<leftarrow> uds. payout tot s ud) v t" "taken uds v t" unfolding eq by simp_all
  from all_paid_step [OF pay(1) this(1)] taken_Cons [OF tv this(2)] show ?case
    unfolding payouts_Cons list.map sum_list.Cons by blast
qed

lemma taken_agrees: "taken uds s t \<Longrightarrow> queue_agrees s \<Longrightarrow> queue_agrees t"
  by (simp add: taken_def queue_agrees_def Let_def fmlookup_dom'_iff)

end
