(* ===== verification/Consensus_Properties.thy ===== *)
theory Consensus_Properties
  imports Consensus_Undelegations Accounts_Properties
begin

text \<open>
  Properties of the consensus layer's modules: results of messages never get stuck, undelegations are paid exactly, the height
  of an epoch is found, and amounts survive the change of units. Each is applied to a concrete system.
\<close>

section \<open>Concrete values\<close>

text \<open>A coding of the contexts: fixed widths first, the denomination last.\<close>

definition bool_byte :: "bool \<Rightarrow> u8" where "bool_byte b = (if b then 1 else 0)"

definition coded :: "address \<Rightarrow> u64 \<Rightarrow> address \<Rightarrow> u128 \<Rightarrow> bytes \<Rightarrow> cbor_value" where
  "coded a n b v rest = Cbor_Other (address_bytes a @ be_bytes 8 (unat n) @ address_bytes b @ be_bytes 16 (unat v) @ rest)"

fun decoded :: "cbor_value \<Rightarrow> (address \<times> u64 \<times> address \<times> u128 \<times> bytes) option" where
  "decoded (Cbor_Other bs) = Some (Abs_address (take 21 bs), of_nat (be_value (take 8 (drop 21 bs))), Abs_address (take 21 (drop 29 bs)),
     of_nat (be_value (take 16 (drop 50 bs))), drop 66 bs)"
| "decoded _ = None"

lemma decoded_coded: "decoded (coded a n b v rest) = Some (a, n, b, v, rest)"
proof -
  have l: "length (address_bytes x) = 21" for x using address_bytes by simp
  have "of_nat (be_value (be_bytes 8 (unat n))) = n" "of_nat (be_value (be_bytes 16 (unat v))) = v"
    using unat_lt [of n] unat_lt [of v] by (simp_all add: be_value_bytes del: be_bytes.simps)
  then show ?thesis by (simp add: coded_def l address_bytes_inverse del: be_bytes.simps)
qed

definition sample_hooks :: hook_codec where
  "sample_hooks = \<lparr>
     hk_of_transfer = (\<lambda>x. coded (tc_address x) (tc_nonce x) (tc_to x) (amount (tc_amount x)) (denomination_bytes (denom (tc_amount x)))),
     hk_of_withdraw = (\<lambda>x. coded (wc_from x) (wc_nonce x) (wc_address x) (amount (wc_amount x)) (denomination_bytes (denom (wc_amount x)))),
     hk_of_delegate = (\<lambda>x. coded (dc_from x) (dc_nonce x) (dc_to x) (amount (dc_amount x)) (bool_byte (dc_receipt x) # denomination_bytes (denom (dc_amount x)))),
     hk_of_undelegate = (\<lambda>x. coded (uc_from x) (uc_nonce x) (uc_to x) (uc_shares x) [bool_byte (uc_receipt x)]),
     hk_transfer = (\<lambda>v. map_option (\<lambda>(a, n, b, v, r). \<lparr>tc_address = a, tc_nonce = n, tc_to = b, tc_amount = BaseUnits v (Abs_denomination r)\<rparr>) (decoded v)),
     hk_withdraw = (\<lambda>v. map_option (\<lambda>(a, n, b, v, r). \<lparr>wc_from = a, wc_nonce = n, wc_address = b, wc_amount = BaseUnits v (Abs_denomination r)\<rparr>) (decoded v)),
     hk_delegate = (\<lambda>v. map_option (\<lambda>(a, n, b, v, r). \<lparr>dc_from = a, dc_nonce = n, dc_to = b, dc_amount = BaseUnits v (Abs_denomination (tl r)), dc_receipt = hd r = 1\<rparr>) (decoded v)),
     hk_undelegate = (\<lambda>v. map_option (\<lambda>(a, n, b, v, r). \<lparr>uc_from = a, uc_nonce = n, uc_to = b, uc_shares = v, uc_receipt = hd r = 1\<rparr>) (decoded v))\<rparr>"

lemma sample_hooks_law: "hook_codec_law sample_hooks"
proof -
  have "BaseUnits (amount u) (denom u) = u" for u by (cases u) simp
  then show ?thesis by (simp add: hook_codec_law_def sample_hooks_def decoded_coded denomination_bytes_inverse bool_byte_def)
qed

text \<open>A view of the consensus layer in which every message succeeds.\<close>

definition sample_view :: consensus_view where
  "sample_view = \<lparr>cv_runtime_id = [7], cv_account = (\<lambda>_. Inl ''''), cv_delegation = (\<lambda>_ _. Inl ''''), cv_round_roots = (\<lambda>_ _. Inl ''''),
     cv_state_at = (\<lambda>h. Inr \<lparr>hs_height = h, hs_future_epoch_state = Inr \<lparr>es_epoch = 9, es_height = 9\<rparr>,
        hs_epoch_state = Inr (if h < 5 then \<lparr>es_epoch = 2, es_height = 1\<rparr> else \<lparr>es_epoch = 3, es_height = 5\<rparr>)\<rparr>),
     cv_events_at = (\<lambda>_. Inl FailedToFetchEvents), cv_height_latest = 8, cv_epoch_invalid = 0, cv_is_success = (\<lambda>_. True),
     cv_add_escrow_result = (\<lambda>_. None), cv_reclaim_escrow_result = (\<lambda>_. None)\<rparr>"

definition sample_success :: message_event where
  "sample_success = \<lparr>me_module = [], me_code = 0, me_index = 0, me_result = None\<rparr>"

definition sample_consensus_params :: consensus_params where
  "sample_consensus_params = default_consensus_params\<lparr>csp_consensus_denomination := NATIVE, csp_consensus_scaling_factor := 10\<rparr>"

definition sample_bridge :: "unit cons_state" where
  "sample_bridge = put_supply NATIVE 1000 (put_balance alice NATIVE 1000 (root_state (empty_storage\<lparr>cons_params := sample_consensus_params\<rparr>) Execute))"

lemma bridge_simps:
  "balance_of sample_bridge a d = (if a = alice \<and> d = NATIVE then 1000 else 0)" "supply_of sample_bridge d = (if d = NATIVE then 1000 else 0)"
  "st_env sample_bridge = default_environment" "st_messages sample_bridge = []" "cons_params (st_store sample_bridge) = sample_consensus_params"
  "is_check_only (st_env sample_bridge) = False"
  by (simp_all add: sample_bridge_def acc_simps root_state_def balance_of_def supply_of_def empty_storage_def put_supply_def put_balance_def upd_store_def
      default_environment_def is_check_only_def)

lemma bridge_running: "\<not> is_check_only (st_env sample_bridge)"
  by (simp add: bridge_simps default_environment_def is_check_only_def)

lemma bridge_inv: "accounts_inv sample_bridge"
proof -
  have "denom_total (fmupd (alice, NATIVE) 1000 fmempty) d = (if d = NATIVE then 1000 else 0)" for d by (simp add: fm_total_def)
  moreover have "fee_manager_now sample_bridge = fee_manager_new"
    by (simp add: sample_bridge_def put_supply_def put_balance_def upd_store_def root_state_def fee_manager_now_def default_block_values_ext_def)
  ultimately show ?thesis
    by (simp add: accounts_inv_def circulating_def total_balance_def bridge_simps fee_manager_inv_new)
      (simp add: sample_bridge_def put_supply_def put_balance_def upd_store_def root_state_def empty_storage_def)
qed

definition sample_hook :: hook_invocation where
  "sample_hook = \<lparr>hi_hook_name = CONSENSUS_TRANSFER_HANDLER, hi_payload = hk_of_transfer sample_hooks
     \<lparr>tc_address = alice, tc_nonce = 4, tc_to = bob, tc_amount = BaseUnits 300 NATIVE\<rparr>\<rparr>"

lemma alice_outside: "alice \<notin> module_accounts sample_ctx"
proof -
  have "\<forall>bs. length (dep_hash sample_deps bs) = 32" by (auto simp: sample_deps_def min_def)
  from module_address_byte [OF this] have "hd (address_bytes a) = 0" if "a \<in> module_accounts sample_ctx" for a
    using that by (auto simp: module_accounts_def ADDRESS_PENDING_WITHDRAWAL_def ADDRESS_PENDING_DELEGATION_def sample_ctx_def)
  then show ?thesis by (force simp: alice_def test_address_bytes)
qed

lemma bridge_withdraw:
  "\<exists>t. ca_withdraw sample_ctx sample_hooks alice 4 bob (BaseUnits 300 NATIVE) sample_bridge = (Ok (), t) \<and> map snd (st_messages t) = [sample_hook] \<and>
     supplies_nat t NATIVE = 1000"
proof -
  let ?m = "Staking_Transfer bob 30" and ?pool = "ADDRESS_PENDING_WITHDRAWAL sample_ctx" and ?amt = "BaseUnits 300 NATIVE"
  have sent: "consensus_transfer sample_ctx bob ?amt sample_hook sample_bridge = (Ok (), emitted ?m sample_hook sample_bridge)"
    by (simp add: consensus_transfer_def to_consensus_op_def ensure_consensus_denomination_def consensus_denomination_def bridge_simps
        sample_consensus_params_def amount_to_consensus_def scaling_factor_def bind_op_def seq_op_def ok_or_def bind_result_def checked_div_def checked_rem_def
        emit_staking_def map_err_op_def emit_message_def emitted_messages_count_def emitted_messages_max_def emitted_def sample_ctx_def env_auth_info_def default_environment_def)
      (simp add: sample_bridge_def root_state_def put_supply_def put_balance_def upd_store_def)
  obtain r t where run: "transfer alice ?pool ?amt (emitted ?m sample_hook sample_bridge) = (r, t)" by (cases "transfer alice ?pool ?amt (emitted ?m sample_hook sample_bridge)")
  have inv: "accounts_inv (emitted ?m sample_hook sample_bridge)" by (simp add: bridge_inv)
  have "balance_of (emitted ?m sample_hook sample_bridge) alice NATIVE = 1000" using bridge_simps(1) by (simp add: balance_of_def)
  then have r: "r = Ok ()" using run acc.xfer_Err [OF inv, of alice ?pool ?amt _ t] acc.xfer_no_panic [of alice ?pool ?amt "emitted ?m sample_hook sample_bridge" t] by (cases r) auto
  have "st_messages t = st_messages (emitted ?m sample_hook sample_bridge)" by (rule besides_messages) (use acc.xfer_Ok [OF inv run [unfolded r]] in simp)
  moreover have "supplies_nat t NATIVE = supplies_nat sample_bridge NATIVE" using acc.xfer_Ok [OF inv run [unfolded r]] by (simp add: fun_eq_iff)
  ultimately show ?thesis using sent run r
    by (simp add: ca_withdraw_def seq_op_def bind_op_def map_err_op_def set_aside_def bridge_simps default_environment_def is_check_only_def flip: sample_hook_def)
qed

text \<open>A cache that never forgets, and a block in which one of two undelegations is due.\<close>

definition map_cache :: "('k \<rightharpoonup> 'v, 'k, 'v) cache_ops" where
  "map_cache = \<lparr>cache_get = (\<lambda>m k. (m k, m)), cache_put = (\<lambda>m k v. m(k \<mapsto> v))\<rparr>"

lemma map_cache_law: "cache_law map_cache (\<lambda>m. m)"
  by (simp add: cache_law_def map_cache_def)

definition reclaim_view :: consensus_view where
  "reclaim_view = sample_view\<lparr>cv_events_at := (\<lambda>h. Inr [Other_Event, Reclaim (runtime_address sample_view sample_ctx) bob 30 60])\<rparr>"

definition due_block :: "unit cons_state" where
  "due_block = upd_block (\<lambda>b. b\<lparr>bv_epoch_changed := Some True\<rparr>) (upd_ca (\<lambda>ca. ca\<lparr>
     ca_undelegations := fmupd (alice, bob, 3) \<lparr>di_shares = 50, di_receipt = 0\<rparr> (fmupd (alice, bob, 9) \<lparr>di_shares = 10, di_receipt = 0\<rparr> fmempty),
     ca_queue := fmupd (3, alice, bob) () (fmupd (9, alice, bob) () fmempty)\<rparr>) sample_bridge)"

lemma due_tables:
  "ca_undelegations (ca_of due_block) = fmupd (alice, bob, 3) \<lparr>di_shares = 50, di_receipt = 0\<rparr> (fmupd (alice, bob, 9) \<lparr>di_shares = 10, di_receipt = 0\<rparr> fmempty)"
  "ca_queue (ca_of due_block) = fmupd (3, alice, bob) () (fmupd (9, alice, bob) () fmempty)" "cons_params (st_store due_block) = sample_consensus_params"
  by (simp_all add: due_block_def ca_of_def upd_ca_def upd_store_def upd_block_def bridge_simps)

lemma due_view: "token_view due_block = (token_view sample_bridge)"
  by (simp add: due_block_def token_view_def upd_ca_def upd_store_def upd_block_def)

lemma due_simps:
  "has_epoch_changed due_block" "queue_agrees due_block" "accounts_inv due_block" "\<not> is_check_only (st_env due_block)"
  "balances_nat due_block = balances_nat sample_bridge" "supplies_nat due_block = supplies_nat sample_bridge"
  using token_view_eq [OF due_view] bridge_inv bridge_running
  by (simp_all add: due_block_def upd_block_def has_epoch_changed_def) (auto simp: queue_agrees_def due_tables [unfolded due_block_def upd_block_def])

lemma singleton_list: "set xs = {x} \<Longrightarrow> distinct xs \<Longrightarrow> xs = [x]"
  by (cases xs; cases "tl xs") auto

lemma due_queued: "get_queued_undelegations 3 due_block = [\<lparr>ud_from = bob, ud_to = alice, ud_epoch = 3\<rparr>]"
proof (rule singleton_list)
  show "set (get_queued_undelegations 3 due_block) = {\<lparr>ud_from = bob, ud_to = alice, ud_epoch = 3\<rparr>}"
    unfolding set_queued [OF due_simps(2)] due_tables by (auto intro: undelegation.equality)
qed (rule distinct_queued)

lemma due_totals: "reclaim_totals reclaim_view (\<lambda>_. Ok 5) (runtime_address reclaim_view sample_ctx) 3 bob = Some (30, 60)"
  by (simp add: reclaim_totals_def reclaim_view_def sample_view_def runtime_address_def quantity_u128_def)

lemma due_run: "\<exists>t. ca_end_block reclaim_view (\<lambda>_. Ok 5) map_cache Map.empty sample_ctx due_block = (Ok () :: ('e, unit) outcome, t)"
proof -
  let ?ud = "\<lparr>ud_from = bob, ud_to = alice, ud_epoch = 3\<rparr>"
  obtain udi u where u: "take_undelegation ?ud due_block = (Ok udi, u)" by (simp add: take_undelegation_def)
  note view = take_undelegation_view [OF u] and tk = take_undelegation_taken [OF u]
  have inv: "accounts_inv u" "supplies_nat u NATIVE = 1000" using view due_simps(3,6) bridge_simps(2) by (simp_all add: fun_eq_iff)
  then obtain v where "mint alice (BaseUnits 250 NATIVE) u = (Ok (), v)" using acc.mnt_fits [OF inv(1), of "BaseUnits 250 NATIVE" alice] by auto
  moreover have "scaling_factor u = 10" using tk(1) by (simp add: taken_def scaling_factor_def due_tables sample_consensus_params_def)
  moreover have "di_shares udi = 50" "di_receipt udi = 0" using tk(2) by (simp_all add: due_tables fm_get_def)
  ultimately have "\<exists>w. pay_undelegation NATIVE ?ud udi (30, 60) u = (Ok () :: ('e, unit) outcome, w)"
    by (simp add: pay_undelegation_def checked_mul_def checked_div_def amount_from_consensus_def ok_or_def seq_op_def bind_op_def expect_op_def store_receipt_if_def return_op_def)
  then show ?thesis
    using u due_totals due_simps(1)
    by (auto simp: ca_end_block_def due_queued sample_ctx_def consensus_denomination_def due_tables sample_consensus_params_def bind_op_def seq_op_def expect_op_def
        map_cache_def return_op_def)
qed

lemma sample_epoch: "ctx_epoch sample_ctx = 3"
  by (simp add: sample_ctx_def)

text \<open>The chain of \<open>sample_view\<close>: eight blocks, epoch 3 begins with the fifth.\<close>

definition sample_epochs :: "nat \<Rightarrow> nat" where
  "sample_epochs h = (if h < 5 then 2 else 3)"

lemma epoch_start_sample: "1 \<le> h \<Longrightarrow> epoch_start sample_epochs h = (if h < 5 then 1 else 5)"
  unfolding epoch_start_def sample_epochs_def by (rule Least_equality) (auto split: if_splits)

lemma sample_history: "epoch_history sample_view sample_epochs 8"
proof -
  have tells: "tells_epoch sample_view sample_epochs (of_nat h) h" if "1 \<le> h" "h \<le> 8" for h
  proof -
    have "h = 1 \<or> h = 2 \<or> h = 3 \<or> h = 4 \<or> h = 5 \<or> h = 6 \<or> h = 7 \<or> h = 8" using that by presburger
    then show ?thesis
      by (elim disjE) (simp_all add: tells_epoch_def sample_view_def effective_epoch_state_def epoch_start_sample sample_epochs_def [of h for h :: nat])
  qed
  moreover have "cv_height_latest sample_view = of_nat 8" by (simp add: sample_view_def)
  ultimately show ?thesis using tells [of 8] by (auto simp: epoch_history_def sample_epochs_def)
qed

section \<open>Properties\<close>

text \<open>C6: whatever calls, blocks and results came before, the result of a message under way is handled: no panic for
  want of tokens that should have been set aside. The supplies change by exactly what the result moves between the layers,
  and the tokens of all other messages under way stay covered, so that the same holds for the next result. Contexts are
  decoded to what was encoded; a successful escrow or reclaim reports well-formed shares that fit, and a deposit fits into the
  supply.\<close>

theorem messages_settle:
  assumes "hook_codec_law hk" "accounts_inv s0" "\<not> is_check_only (st_env s0)" "st_messages s0 = []"
    "(ca_step cv c hk)\<^sup>*\<^sup>* (s0, []) (s, fl1 @ h # fl2)" "result_fits cv hk me h s"
  shows "\<exists>t. ca_dispatch_message_result cv c hk (hi_hook_name h) (me, hi_payload h) s = (Ok (Handled ()), t) \<and>
    (\<forall>d. supplies_nat t d + result_burns cv hk me h d = supplies_nat s d + result_mints cv hk me h d) \<and>
    covers (flight_owes c hk (under_way (t, fl1 @ fl2))) (balances_nat t) \<and> accounts_inv t"
proof -
  have "ca_inv c hk sys" if "(ca_step cv c hk)\<^sup>*\<^sup>* (s0, []) sys" for sys
    using that
  proof (induction rule: rtranclp_induct)
    case base
    then show ?case using assms(2-4) by (simp add: ca_inv_def under_way_def covers_def)
  next
    case (step y z)
    then show ?case by (blast intro: ca_inv_step [OF assms(1)])
  qed
  from ca_inv_result [OF this [OF assms(5)] assms(6)] show ?thesis by (auto simp: runs_def ca_inv_def)
qed

theorem messages_settle_witness:
  "\<exists>s h t. (ca_step sample_view sample_ctx sample_hooks)\<^sup>*\<^sup>* (sample_bridge, []) (s, [h]) \<and>
     ca_dispatch_message_result sample_view sample_ctx sample_hooks (hi_hook_name h) (sample_success, hi_payload h) s = (Ok (Handled ()), t) \<and>
     supplies_nat t NATIVE = 700"
proof -
  let ?step = "ca_step sample_view sample_ctx sample_hooks"
  obtain u where u: "ca_withdraw sample_ctx sample_hooks alice 4 bob (BaseUnits 300 NATIVE) sample_bridge = (Ok (), u)"
    and m: "map snd (st_messages u) = [sample_hook]" and sup: "supplies_nat u NATIVE = 1000"
    using bridge_withdraw by (elim exE conjE) (rule that)
  obtain ms v where v: "take_messages u = (ms, v)" by (cases "take_messages u")
  have one: "?step (sample_bridge, []) (u, [])" by (rule Step_Withdraw [OF u alice_outside])
  have two: "?step (u, []) (v, [] @ sample_hook # [])"
    using Step_Block [OF v, of sample_view sample_ctx sample_hooks "[]"] take_messages_tokens(1) [OF v] m by simp
  have reach: "?step\<^sup>*\<^sup>* (sample_bridge, []) (v, [] @ sample_hook # [])"
    by (rule converse_rtranclp_into_rtranclp [of ?step, OF one r_into_rtranclp [of ?step, OF two]])
  have fits: "result_fits sample_view sample_hooks sample_success sample_hook v" by (simp add: result_fits_def sample_hook_def handler_simps)
  have moved: "result_burns sample_view sample_hooks sample_success sample_hook NATIVE = 300"
    "result_mints sample_view sample_hooks sample_success sample_hook NATIVE = 0"
    using sample_hooks_law by (simp_all add: result_burns_def result_mints_def sample_view_def sample_hook_def hook_codec_law_def units_of_def handler_simps)
  have old: "supplies_nat v NATIVE = 1000" using sup v by (auto simp: take_messages_def supply_of_def)
  obtain t where run: "ca_dispatch_message_result sample_view sample_ctx sample_hooks (hi_hook_name sample_hook)
      (sample_success, hi_payload sample_hook) v = (Ok (Handled ()), t)"
    and eq: "\<forall>d. supplies_nat t d + result_burns sample_view sample_hooks sample_success sample_hook d =
      supplies_nat v d + result_mints sample_view sample_hooks sample_success sample_hook d"
    using messages_settle [OF sample_hooks_law bridge_inv bridge_running bridge_simps(4) reach fits] by (elim exE conjE) (rule that)
  have "supplies_nat t NATIVE = 700" using spec [OF eq, of NATIVE] unfolding moved old by simp
  then show ?thesis using reach run unfolding append_Nil by blast
qed

text \<open>C12: at the first block of an epoch exactly the undelegations of past and current epochs end. Each pays its
  share of what the runtime got back from the escrow account in that epoch, scaled and rounded down, whichever totals the cache
  remembers; no other balance changes, and the table and the queue still agree.\<close>

theorem undelegations_paid:
  assumes "ca_end_block cv heights ops cache c s = (Ok () :: ('e, unit) outcome, t)" "has_epoch_changed s" "queue_agrees s" "accounts_inv s"
    "\<not> is_check_only (st_env s)" "cache_law ops contents" "totals_known tot (contents cache)"
    "tot = (\<lambda>(e, a). reclaim_totals cv heights (runtime_address cv c) e a)"
  shows "queue_agrees t \<and> accounts_inv t \<and>
    (\<forall>to f e. fmlookup (ca_undelegations (ca_of t)) (to, f, e) =
       (if e \<le> ctx_epoch c then None else fmlookup (ca_undelegations (ca_of s)) (to, f, e))) \<and>
    (\<forall>a d. balances_nat t a d = balances_nat s a d +
       (if d = consensus_denomination s then payouts tot s (get_queued_undelegations (ctx_epoch c) s) a else 0))"
proof -
  let ?uds = "get_queued_undelegations (ctx_epoch c) s"
  have run: "process_undelegations cv heights ops (runtime_address cv c) (consensus_denomination s) ?uds cache s = (Ok () :: ('e, unit) outcome, t)"
    using assms(1,2) by (simp add: ca_end_block_def)
  from process_undelegations_Ok [OF run assms(6,8,7,4,5) distinct_queued]
  have pay: "all_paid (consensus_denomination s) (payouts tot s ?uds) (\<Sum>ud \<leftarrow> ?uds. payout tot s ud) s t" and tk: "taken ?uds s t" by simp_all
  have "fmlookup (ca_undelegations (ca_of t)) (to, f, e) =
      (if e \<le> ctx_epoch c then None else fmlookup (ca_undelegations (ca_of s)) (to, f, e))" for to f e
    using tk set_queued [OF assms(3), of "ctx_epoch c"] by (auto simp: taken_def Let_def fmdom'_notI fmdom'_notD)
  then show ?thesis using pay taken_agrees [OF tk assms(3)] by (simp add: all_paid_def)
qed

theorem undelegations_paid_witness:
  "\<exists>t. ca_end_block reclaim_view (\<lambda>_. Ok 5) map_cache Map.empty sample_ctx due_block = (Ok () :: (ub, unit) outcome, t) \<and>
     balances_nat t alice NATIVE = 1250 \<and> fmlookup (ca_undelegations (ca_of t)) (alice, bob, 3) = None"
proof -
  obtain t where run: "ca_end_block reclaim_view (\<lambda>_. Ok 5) map_cache Map.empty sample_ctx due_block = (Ok () :: (ub, unit) outcome, t)"
    using due_run by blast
  let ?tot = "\<lambda>(e, a). reclaim_totals reclaim_view (\<lambda>_. Ok 5) (runtime_address reclaim_view sample_ctx) e a"
  have "totals_known ?tot Map.empty" by (simp add: totals_known_def)
  note paid = undelegations_paid [where contents = "\<lambda>m. m", OF run due_simps(1,2,3,4) map_cache_law this refl]
  have "balances_nat t alice NATIVE = balances_nat due_block alice NATIVE + payouts ?tot due_block (get_queued_undelegations 3 due_block) alice"
    using paid by (simp add: consensus_denomination_def due_tables sample_consensus_params_def sample_epoch)
  moreover have "balances_nat due_block alice NATIVE = 1000" using due_simps(5) bridge_simps(1) by (simp add: fun_eq_iff)
  moreover have "payouts ?tot due_block (get_queued_undelegations 3 due_block) alice = 250"
    by (simp add: due_queued payouts_def payout_def due_totals shares_worth_def due_tables fm_get_def scaling_factor_def sample_consensus_params_def)
  ultimately show ?thesis using run paid by (auto simp: sample_epoch)
qed

text \<open>C36: the height of an epoch. For every epoch of the chain up to its latest block the search returns the first block of
  that epoch, whatever heights of epochs the cache remembers, within as many turns as the chain has blocks.\<close>

theorem epoch_height_found:
  assumes "epoch_history cv E latest" "cache_law ops contents" "heights_known E latest (contents cache)"
    "1 \<le> h" "h \<le> latest" "unat epoch = E h" "latest \<le> fuel"
  shows "\<exists>cache'. height_for_epoch fuel cv ops epoch cache = (Some (Ok (of_nat (epoch_start E h))), cache') \<and>
    heights_known E latest (contents cache')"
  by (rule height_for_epoch_finds [OF assms])

theorem epoch_height_found_witness:
  "\<exists>cache'. height_for_epoch 8 sample_view map_cache 3 Map.empty = (Some (Ok 5), cache')"
proof -
  have "heights_known sample_epochs 8 Map.empty" by (simp add: heights_known_def)
  from epoch_height_found [where contents = "\<lambda>m. m", OF sample_history map_cache_law this, of 6 3 8] show ?thesis
    by (auto simp: sample_epochs_def epoch_start_sample)
qed

text \<open>C18: amounts on both layers. An amount of the runtime stands for an amount of the consensus layer exactly when that one
  scales to it: neither conversion loses or creates tokens, and what cannot be represented is refused.\<close>

theorem amounts_between_layers:
  assumes "csp_consensus_scaling_factor (cons_params (st_store s)) \<noteq> 0"
  shows "amount_to_consensus a s = Inr b \<longleftrightarrow> amount_from_consensus b s = Inr a"
proof -
  have "scaling_factor s \<noteq> 0" using assms by (metis unat_scaling_factor unat_eq_zero)
  then show ?thesis by (simp add: amount_to_consensus_iff amount_from_consensus_iff)
qed

theorem amounts_between_layers_witness:
  "amount_from_consensus 30 sample_bridge = Inr 300 \<and> amount_to_consensus 300 sample_bridge = Inr 30"
proof -
  have "amount_from_consensus 30 sample_bridge = Inr 300"
    by (simp add: amount_from_consensus_def checked_mul_def scaling_factor_def bridge_simps sample_consensus_params_def ok_or_def)
  then show ?thesis using amounts_between_layers [of sample_bridge 300 30] by (simp add: bridge_simps sample_consensus_params_def)
qed

end
