(* ===== verification/Rofl_Policy.thy ===== *)
theory Rofl_Policy
  imports Module_Interface Dispatcher
begin

text \<open>
  Policies of ROFL applications (\<open>modules/rofl/policy.rs\<close>): their validation and the evaluation of endorsement policies, which are
  trees of conditions on the node that endorses an enclave. The registry of the consensus layer is a parameter.
\<close>

section \<open>Errors\<close>

datatype rofl_error =
    Rofl_InvalidArgument | Rofl_UnknownApp | Rofl_NotSignedByRAK | Rofl_NotSignedByExtraKey | Rofl_UnknownEnclave
  | Rofl_UnknownNode | Rofl_NodeNotAllowed | Rofl_RegistrationExpired | Rofl_ExtraKeyUpdateNotAllowed | Rofl_AppAlreadyExists
  | Rofl_Forbidden | Rofl_UnknownInstance | Rofl_PlainCallFormatNotAllowed | Rofl_EndorsementPolicyTooDeep nat
  | Rofl_EndorsementPolicyTooManyAtoms nat | Rofl_PolicyMaxExpirationTooHigh u64
  | Rofl_Core core_error | Rofl_Accounts accounts_error | Rofl_Abort dispatcher_error

section \<open>Configuration\<close>

text \<open>
  \<open>Cfg\<close>; \<open>rc_verify_atom\<close> is the \<open>verify_atom\<close> of its policy evaluator, which may read the state.
\<close>

type_synonym 's atom_evaluator = "allowed_endorsement \<Rightarrow> endorsed_capability \<Rightarrow> bytes \<Rightarrow> node_descriptor option \<Rightarrow> metadata \<Rightarrow> 's \<Rightarrow> rofl_error + unit"

record 's rofl_config =
  rc_gas_create :: u64
  rc_gas_update :: u64
  rc_gas_remove :: u64
  rc_gas_register :: u64
  rc_gas_is_authorized_origin :: u64
  rc_gas_authorized_origin_node :: u64
  rc_gas_authorized_origin_entity :: u64
  rc_gas_origin_app :: u64
  rc_gas_stake_thresholds :: u64
  rc_gas_derive_key :: u64
  rc_max_metadata_pairs :: nat
  rc_max_metadata_key_size :: nat
  rc_max_metadata_value_size :: nat
  rc_stake_app_create :: base_units
  rc_derive_key_max_key_id_length :: nat
  rc_max_endorsement_policy_atoms :: nat
  rc_max_policy_expiration_epochs :: u64
  rc_verify_atom :: "'s atom_evaluator"

text \<open>The consensus layer's registry: nodes, their roles and runtimes.\<close>

record registry_view =
  rv_node :: "bytes \<Rightarrow> string + node_descriptor option"
  rv_is_compute_worker :: "node_descriptor \<Rightarrow> bool"
  rv_is_observer :: "node_descriptor \<Rightarrow> bool"
  rv_has_runtime :: "node_descriptor \<Rightarrow> bool"

section \<open>Validation\<close>

definition MAX_ENDORSEMENT_POLICY_DEPTH :: nat where "MAX_ENDORSEMENT_POLICY_DEPTH = 4"

text \<open>\<open>atoms_from\<close> is the loop over the atoms.\<close>

function count_endorsement_atoms :: "allowed_endorsement list \<Rightarrow> nat \<Rightarrow> rofl_error + nat"
  and atoms_from :: "allowed_endorsement list \<Rightarrow> nat \<Rightarrow> nat \<Rightarrow> rofl_error + nat" where
  "count_endorsement_atoms endorsements depth =
     (if depth > MAX_ENDORSEMENT_POLICY_DEPTH then Inl (Rofl_EndorsementPolicyTooDeep MAX_ENDORSEMENT_POLICY_DEPTH)
      else atoms_from endorsements depth (length endorsements))"
| "atoms_from [] depth n = Inr n"
| "atoms_from (Endorse_And atoms # rest) depth n =
     bind_result (count_endorsement_atoms atoms (depth + 1)) (\<lambda>child. atoms_from rest depth (min (n + child) USIZE_MAX))"
| "atoms_from (Endorse_Or atoms # rest) depth n =
     bind_result (count_endorsement_atoms atoms (depth + 1)) (\<lambda>child. atoms_from rest depth (min (n + child) USIZE_MAX))"
| "atoms_from (Endorse_Any # rest) depth n = atoms_from rest depth n"
| "atoms_from (Endorse_ComputeRole # rest) depth n = atoms_from rest depth n"
| "atoms_from (Endorse_ObserverRole # rest) depth n = atoms_from rest depth n"
| "atoms_from (Endorse_Entity e # rest) depth n = atoms_from rest depth n"
| "atoms_from (Endorse_Node i # rest) depth n = atoms_from rest depth n"
| "atoms_from (Endorse_Provider p # rest) depth n = atoms_from rest depth n"
| "atoms_from (Endorse_ProviderInstanceAdmin a # rest) depth n = atoms_from rest depth n"
  by pat_completeness auto
termination
  by (relation "measure (\<lambda>x. case x of Inl (es, _) \<Rightarrow> 2 * size_list size es + 1 | Inr (es, _, _) \<Rightarrow> 2 * size_list size es)") auto

definition policy_validate :: "'s rofl_config \<Rightarrow> app_auth_policy \<Rightarrow> rofl_error + unit" where
  "policy_validate cfg p =
     bind_result (count_endorsement_atoms (pol_endorsements p) 1) (\<lambda>atom_count.
     if atom_count > rc_max_endorsement_policy_atoms cfg
     then Inl (Rofl_EndorsementPolicyTooManyAtoms (rc_max_endorsement_policy_atoms cfg))
     else if pol_max_expiration p > rc_max_policy_expiration_epochs cfg
     then Inl (Rofl_PolicyMaxExpirationTooHigh (rc_max_policy_expiration_epochs cfg))
     else Inr ())"

section \<open>Evaluation\<close>

text \<open>\<open>verify_from\<close> is the loop over the atoms, \<open>V\<close> the evaluation of a single one.\<close>

function verify_atoms :: "(allowed_endorsement \<Rightarrow> rofl_error + unit) \<Rightarrow> endorsement_operator \<Rightarrow> allowed_endorsement list \<Rightarrow> nat \<Rightarrow> rofl_error + unit"
  and verify_from :: "(allowed_endorsement \<Rightarrow> rofl_error + unit) \<Rightarrow> endorsement_operator \<Rightarrow> allowed_endorsement list \<Rightarrow> nat \<Rightarrow> rofl_error + unit"
  and verify_one :: "(allowed_endorsement \<Rightarrow> rofl_error + unit) \<Rightarrow> allowed_endorsement \<Rightarrow> nat \<Rightarrow> rofl_error + unit" where
  "verify_atoms V op policy max_depth = (if max_depth = 0 then Inl Rofl_NodeNotAllowed else verify_from V op policy max_depth)"
| "verify_from V op [] max_depth = (case op of Op_Or \<Rightarrow> Inl Rofl_NodeNotAllowed | Op_And \<Rightarrow> Inr ())"
| "verify_from V op (atom # rest) max_depth =
     (case (op, verify_one V atom max_depth) of
        (Op_Or, Inr _) \<Rightarrow> Inr ()
      | (Op_And, Inl err) \<Rightarrow> Inl err
      | _ \<Rightarrow> verify_from V op rest max_depth)"
| "verify_one V (Endorse_And children) max_depth = verify_atoms V Op_And children (max_depth - 1)"
| "verify_one V (Endorse_Or children) max_depth = verify_atoms V Op_Or children (max_depth - 1)"
| "verify_one V Endorse_Any max_depth = V Endorse_Any"
| "verify_one V Endorse_ComputeRole max_depth = V Endorse_ComputeRole"
| "verify_one V Endorse_ObserverRole max_depth = V Endorse_ObserverRole"
| "verify_one V (Endorse_Entity e) max_depth = V (Endorse_Entity e)"
| "verify_one V (Endorse_Node i) max_depth = V (Endorse_Node i)"
| "verify_one V (Endorse_Provider p) max_depth = V (Endorse_Provider p)"
| "verify_one V (Endorse_ProviderInstanceAdmin a) max_depth = V (Endorse_ProviderInstanceAdmin a)"
  by pat_completeness auto
termination
  by (relation "measure (\<lambda>x. case x of Inl (_, _, es, _) \<Rightarrow> 3 * size_list size es + 1 | Inr (Inl (_, _, es, _)) \<Rightarrow> 3 * size_list size es
     | Inr (Inr (_, e, _)) \<Rightarrow> 3 * size e)") auto

definition endorsing_node :: "registry_view \<Rightarrow> ctx \<Rightarrow> bytes \<Rightarrow> rofl_error + node_descriptor option" where
  "endorsing_node rv c node_id =
     (case rv_node rv node_id of
        Inl _ \<Rightarrow> Inl Rofl_UnknownNode
      | Inr None \<Rightarrow> Inr None
      | Inr (Some node) \<Rightarrow> if node_expiration node < ctx_epoch c then Inr None else Inr (Some node))"

definition policy_verify :: "registry_view \<Rightarrow> 's atom_evaluator \<Rightarrow> ctx \<Rightarrow> allowed_endorsement list \<Rightarrow> endorsed_capability \<Rightarrow> metadata \<Rightarrow> 's \<Rightarrow>
    rofl_error + node_descriptor option" where
  "policy_verify rv V c policy ect meta s =
     bind_result (endorsing_node rv c (ect_node ect)) (\<lambda>node.
     bind_result (verify_atoms (\<lambda>atom. V atom ect (ect_node ect) node meta s) Op_Or policy MAX_ENDORSEMENT_POLICY_DEPTH) (\<lambda>_. Inr node))"

text \<open>The evaluator of a tuple of evaluators: the first that accepts.\<close>

fun tuple_verify_atom :: "'s atom_evaluator list \<Rightarrow> 's atom_evaluator" where
  "tuple_verify_atom [] policy ect node_id node meta s = Inl Rofl_NodeNotAllowed"
| "tuple_verify_atom (V # Vs) policy ect node_id node meta s =
     (case V policy ect node_id node meta s of Inr _ \<Rightarrow> Inr () | Inl _ \<Rightarrow> tuple_verify_atom Vs policy ect node_id node meta s)"

definition basic_verify_atom :: "registry_view \<Rightarrow> 's atom_evaluator" where
  "basic_verify_atom rv policy ect node_id node meta s =
     (if (case (policy, node) of
            (Endorse_Any, _) \<Rightarrow> True
          | (Endorse_ComputeRole, Some n) \<Rightarrow> rv_is_compute_worker rv n \<and> rv_has_runtime rv n
          | (Endorse_ObserverRole, Some n) \<Rightarrow> rv_is_observer rv n \<and> rv_has_runtime rv n
          | (Endorse_Entity entity_id, Some n) \<Rightarrow> node_entity_id n = entity_id
          | (Endorse_Node i, _) \<Rightarrow> node_id = i
          | _ \<Rightarrow> False)
      then Inr () else Inl Rofl_NodeNotAllowed)"

section \<open>What a policy means\<close>

text \<open>\<open>ok\<close> says which single conditions hold; a policy is the disjunction of its atoms.\<close>

fun endorsement_holds :: "(allowed_endorsement \<Rightarrow> bool) \<Rightarrow> allowed_endorsement \<Rightarrow> bool" where
  "endorsement_holds ok (Endorse_And children) \<longleftrightarrow> list_all (endorsement_holds ok) children"
| "endorsement_holds ok (Endorse_Or children) \<longleftrightarrow> list_ex (endorsement_holds ok) children"
| "endorsement_holds ok atom \<longleftrightarrow> ok atom"

text \<open>Lists of conditions nested in a condition.\<close>

fun endorsement_depth :: "allowed_endorsement \<Rightarrow> nat" where
  "endorsement_depth (Endorse_And children) = Suc (foldr max (map endorsement_depth children) 0)"
| "endorsement_depth (Endorse_Or children) = Suc (foldr max (map endorsement_depth children) 0)"
| "endorsement_depth atom = 0"

abbreviation policy_depth :: "allowed_endorsement list \<Rightarrow> nat" where
  "policy_depth policy \<equiv> Suc (foldr max (map endorsement_depth policy) 0)"

declare count_endorsement_atoms.simps [simp del] verify_atoms.simps [simp del]

lemma counted_depth:
  "count_endorsement_atoms es depth = Inr n \<Longrightarrow> depth + policy_depth es \<le> Suc MAX_ENDORSEMENT_POLICY_DEPTH"
  "atoms_from es depth k = Inr n \<Longrightarrow> depth \<le> MAX_ENDORSEMENT_POLICY_DEPTH \<Longrightarrow> depth + policy_depth es \<le> Suc MAX_ENDORSEMENT_POLICY_DEPTH"
proof (induction es depth and es depth k arbitrary: n and n rule: count_endorsement_atoms_atoms_from.induct)
  case (1 endorsements depth)
  then show ?case by (simp add: count_endorsement_atoms.simps split: if_splits)
qed (auto simp: bind_result_def max_def split: sum.splits)

lemma verify_holds:
  "policy_depth policy \<le> d \<Longrightarrow> verify_atoms V op policy d = Inr () \<longleftrightarrow>
     (case op of Op_Or \<Rightarrow> list_ex (endorsement_holds (\<lambda>a. V a = Inr ())) policy | Op_And \<Rightarrow> list_all (endorsement_holds (\<lambda>a. V a = Inr ())) policy)"
  "policy_depth policy \<le> d \<Longrightarrow> verify_from V op policy d = Inr () \<longleftrightarrow>
     (case op of Op_Or \<Rightarrow> list_ex (endorsement_holds (\<lambda>a. V a = Inr ())) policy | Op_And \<Rightarrow> list_all (endorsement_holds (\<lambda>a. V a = Inr ())) policy)"
  "Suc (endorsement_depth e) \<le> d \<Longrightarrow> verify_one V e d = Inr () \<longleftrightarrow> endorsement_holds (\<lambda>a. V a = Inr ()) e"
proof (induction V op policy d and V op policy d and V e d rule: verify_atoms_verify_from_verify_one.induct)
  case (1 V op policy d)
  then show ?case by (simp add: verify_atoms.simps)
next
  case (3 V op atom rest d)
  have "Suc (endorsement_depth atom) \<le> d" "policy_depth rest \<le> d" using "3.prems" by auto
  then show ?case using 3 by (cases op; cases "verify_one V atom d") auto
qed (auto split: endorsement_operator.splits)

text \<open>A valid policy is evaluated in full.\<close>

lemma valid_policy_verified:
  assumes "policy_validate cfg p = Inr ()"
  shows "verify_atoms V Op_Or (pol_endorsements p) MAX_ENDORSEMENT_POLICY_DEPTH = Inr () \<longleftrightarrow>
    list_ex (endorsement_holds (\<lambda>a. V a = Inr ())) (pol_endorsements p)"
proof -
  obtain n where "count_endorsement_atoms (pol_endorsements p) 1 = Inr n"
    using assms by (auto simp: policy_validate_def bind_result_def split: sum.splits)
  from counted_depth(1) [OF this] verify_holds(1) [of "pol_endorsements p" MAX_ENDORSEMENT_POLICY_DEPTH V Op_Or] show ?thesis by simp
qed

end
