(* ===== verification/Rofl_Module.thy ===== *)
theory Rofl_Module
  imports Rofl_Policy Runtime_Modules Accounts_Api "HOL-Library.Char_ord"
begin

text \<open>
  The ROFL module (\<open>runtime-sdk/src/modules/rofl\<close>): applications with a stake and a policy, registrations of their instances, which
  expire, keys endorsed by a registration, and keys derived for applications. The verification of endorsed TEE capabilities,
  the key manager, the hash function and the coding of extra domain separation are parameters.
\<close>

section \<open>Operations used by the handlers\<close>

definition ensure_op :: "bool \<Rightarrow> 'e \<Rightarrow> ('s, 'e, unit) rust_op" where
  [op_simps]: "ensure_op b e = (if b then return_op () else throw_op e)"

text \<open>In checks a handler ends here.\<close>

definition unless_check :: "'a \<Rightarrow> (('m, 'g) sdk_state, 'e, 'a) rust_op \<Rightarrow> (('m, 'g) sdk_state, 'e, 'a) rust_op" where
  "unless_check a m s = (if is_check_only (st_env s) then (Ok a, s) else m s)"

definition some_op :: "'a option \<Rightarrow> ('s, 'e, 'a) rust_op" where
  [op_simps]: "some_op x = (case x of Some a \<Rightarrow> return_op a | None \<Rightarrow> panic_op)"

definition caller_op :: "ctx \<Rightarrow> (('m, 'g) sdk_state, 'e, address) rust_op" where
  "caller_op c s = some_op (tx_caller_address (ctx_deps c) (st_env s)) s"

section \<open>State\<close>

definition rofl_of :: "('m, 'g) sdk_state \<Rightarrow> rofl_storage" where
  "rofl_of s = rofl (st_store s)"

definition upd_rofl :: "(rofl_storage \<Rightarrow> rofl_storage) \<Rightarrow> ('m, 'g) sdk_state \<Rightarrow> ('m, 'g) sdk_state" where
  "upd_rofl f = upd_store (\<lambda>st. st\<lparr>rofl := f (rofl st)\<rparr>)"

definition hash_pk :: "ctx \<Rightarrow> public_key \<Rightarrow> bytes" where
  "hash_pk c pk = dep_hash (ctx_deps c) [ascii (key_type pk), pk_as_bytes pk]"

definition hash_rak :: "ctx \<Rightarrow> bytes \<Rightarrow> bytes" where
  "hash_rak c rak = hash_pk c (Pk_Ed25519 rak)"

definition rofl_get_app :: "app_id \<Rightarrow> ('m, 'g) sdk_state \<Rightarrow> app_config option" where
  "rofl_get_app app s = fmlookup (ro_apps (rofl_of s)) app"

definition rofl_get_apps :: "('m, 'g) sdk_state \<Rightarrow> app_config list" where
  "rofl_get_apps s = map snd (fm_entries (ro_apps (rofl_of s)))"

definition rofl_set_app :: "app_config \<Rightarrow> ('m, 'g) sdk_state \<Rightarrow> ('m, 'g) sdk_state" where
  "rofl_set_app cfg = upd_rofl (\<lambda>r. r\<lparr>ro_apps := fmupd (app_id_of cfg) cfg (ro_apps r)\<rparr>)"

definition rofl_remove_app :: "app_id \<Rightarrow> ('m, 'g) sdk_state \<Rightarrow> ('m, 'g) sdk_state" where
  "rofl_remove_app app = upd_rofl (\<lambda>r. r\<lparr>ro_apps := fmdrop app (ro_apps r)\<rparr>)"

definition get_registration_hrak :: "app_id \<Rightarrow> bytes \<Rightarrow> ('m, 'g) sdk_state \<Rightarrow> registration option" where
  "get_registration_hrak app hrak s = fmlookup (ro_registrations (rofl_of s)) (app, hrak)"

definition get_registration :: "ctx \<Rightarrow> app_id \<Rightarrow> bytes \<Rightarrow> ('m, 'g) sdk_state \<Rightarrow> registration option" where
  "get_registration c app rak s = get_registration_hrak app (hash_rak c rak) s"

definition get_registrations_for_app :: "app_id \<Rightarrow> ('m, 'g) sdk_state \<Rightarrow> registration list" where
  "get_registrations_for_app app s = map snd (filter (\<lambda>((a, _), _). a = app) (fm_entries (ro_registrations (rofl_of s))))"

definition get_endorser :: "ctx \<Rightarrow> public_key \<Rightarrow> ('m, 'g) sdk_state \<Rightarrow> key_endorsement_info option" where
  "get_endorser c pk s = map_option kei_of_stored (fmlookup (ro_endorsers (rofl_of s)) (hash_pk c pk))"

definition insert_expiration_queue :: "u64 \<Rightarrow> app_id \<Rightarrow> bytes \<Rightarrow> rofl_storage \<Rightarrow> rofl_storage" where
  "insert_expiration_queue epoch app hrak r = r\<lparr>ro_expirations := fmupd (epoch, app, hrak) () (ro_expirations r)\<rparr>"

definition remove_expiration_queue :: "u64 \<Rightarrow> app_id \<Rightarrow> bytes \<Rightarrow> rofl_storage \<Rightarrow> rofl_storage" where
  "remove_expiration_queue epoch app hrak r = r\<lparr>ro_expirations := fmdrop (epoch, app, hrak) (ro_expirations r)\<rparr>"

definition endorse :: "bytes \<Rightarrow> key_endorsement_info \<Rightarrow> rofl_storage \<Rightarrow> rofl_storage" where
  "endorse hpk kei r = r\<lparr>ro_endorsers := fmupd hpk (Stored_Info kei) (ro_endorsers r)\<rparr>"

definition endorse_keys :: "ctx \<Rightarrow> registration \<Rightarrow> rofl_storage \<Rightarrow> rofl_storage" where
  "endorse_keys c reg r =
     fold (\<lambda>pk. endorse (hash_pk c pk) (kei_for_extra_key (reg_node_id reg) (reg_app reg) (reg_rak reg))) (reg_extra_keys reg)
       (endorse (hash_rak c (reg_rak reg)) (kei_for_rak (reg_node_id reg) (reg_app reg)) r)"

definition update_registration :: "ctx \<Rightarrow> registration \<Rightarrow> (('m, 'g) sdk_state, rofl_error, unit) rust_op" where
  "update_registration c reg s =
     (let hrak = hash_rak c (reg_rak reg);
          store = (\<lambda>r. (endorse_keys c reg (insert_expiration_queue (reg_expiration reg) (reg_app reg) hrak r))
            \<lparr>ro_registrations := fmupd (reg_app reg, hrak) reg (ro_registrations r)\<rparr>)
      in case get_registration_hrak (reg_app reg) hrak s of
           Some existing \<Rightarrow>
             if reg_extra_keys existing \<noteq> reg_extra_keys reg then (Err Rofl_ExtraKeyUpdateNotAllowed, s)
             else (Ok (), upd_rofl (store \<circ> remove_expiration_queue (reg_expiration existing) (reg_app reg) hrak) s)
         | None \<Rightarrow> (Ok (), upd_rofl store s))"

definition unendorse_keys :: "ctx \<Rightarrow> bytes \<Rightarrow> registration \<Rightarrow> rofl_storage \<Rightarrow> rofl_storage" where
  "unendorse_keys c hrak reg r =
     r\<lparr>ro_endorsers := fold (\<lambda>pk. fmdrop (hash_pk c pk)) (reg_extra_keys reg) (fmdrop hrak (ro_endorsers r))\<rparr>"

definition remove_registration_hrak :: "ctx \<Rightarrow> app_id \<Rightarrow> bytes \<Rightarrow> ('m, 'g) sdk_state \<Rightarrow> ('m, 'g) sdk_state" where
  "remove_registration_hrak c app hrak s =
     (case get_registration_hrak app hrak s of
        None \<Rightarrow> s
      | Some reg \<Rightarrow> upd_rofl (\<lambda>r.
          (unendorse_keys c hrak reg (remove_expiration_queue (reg_expiration reg) (reg_app reg) hrak r))
            \<lparr>ro_registrations := fmdrop (app, hrak) (ro_registrations r)\<rparr>) s)"

definition remove_registration :: "ctx \<Rightarrow> app_id \<Rightarrow> bytes \<Rightarrow> ('m, 'g) sdk_state \<Rightarrow> ('m, 'g) sdk_state" where
  "remove_registration c app rak = remove_registration_hrak c app (hash_rak c rak)"

definition expired_registrations :: "u64 \<Rightarrow> nat \<Rightarrow> ('m, 'g) sdk_state \<Rightarrow> (app_id \<times> bytes) list" where
  "expired_registrations epoch limit s =
     take limit (map snd (takeWhile (\<lambda>(e, _). e \<le> epoch) (map fst (fm_entries (ro_expirations (rofl_of s))))))"

definition expire_registrations :: "ctx \<Rightarrow> u64 \<Rightarrow> nat \<Rightarrow> ('m, 'g) sdk_state \<Rightarrow> ('m, 'g) sdk_state" where
  "expire_registrations c epoch limit s =
     fold (\<lambda>(app, hrak). remove_registration_hrak c app hrak) (expired_registrations epoch limit s) s"

section \<open>The origin of a call\<close>

definition get_origin_app :: "ctx \<Rightarrow> (('m, 'g) sdk_state, 'e, app_id option) rust_op" where
  "get_origin_app c s =
     bind_op (some_op (tx_caller_public_key (env_origin s))) (\<lambda>pk.
     return_op (case pk of None \<Rightarrow> None | Some caller_pk \<Rightarrow> map_option kei_app_id (get_endorser c caller_pk s))) s"

definition get_origin_rak :: "ctx \<Rightarrow> (('m, 'g) sdk_state, 'e, public_key option) rust_op" where
  "get_origin_rak c s =
     bind_op (some_op (tx_caller_public_key (env_origin s))) (\<lambda>pk.
     return_op (case pk of None \<Rightarrow> None
       | Some caller_pk \<Rightarrow> map_option (\<lambda>kei. case kei_rak kei of Some rak \<Rightarrow> Pk_Ed25519 rak | None \<Rightarrow> caller_pk) (get_endorser c caller_pk s))) s"

text \<open>The conversion of a public key to one of the consensus layer, which has Ed25519 keys only.\<close>

definition core_public_key :: "public_key \<Rightarrow> bytes option" where
  "core_public_key pk = (case pk of Pk_Ed25519 k \<Rightarrow> Some k | _ \<Rightarrow> None)"

definition get_origin_registration :: "ctx \<Rightarrow> app_id \<Rightarrow> (('m, 'g) sdk_state, 'e, registration option) rust_op" where
  "get_origin_registration c app =
     bind_op (get_origin_rak c) (\<lambda>rak.
     case rak of None \<Rightarrow> return_op None
     | Some pk \<Rightarrow> bind_op (some_op (core_public_key pk)) (\<lambda>k s. (Ok (get_registration c app k s), s)))"

definition is_authorized_origin :: "ctx \<Rightarrow> app_id \<Rightarrow> (('m, 'g) sdk_state, 'e, bool) rust_op" where
  "is_authorized_origin c app = bind_op (get_origin_registration c app) (\<lambda>reg. return_op (reg \<noteq> None))"

section \<open>Keys of applications\<close>

text \<open>The key manager's key pair: the state key and the input key pair.\<close>

record key_pair =
  kp_state_key :: bytes
  kp_sk :: bytes
  kp_pk :: bytes

text \<open>
  What the module calls outside the repository: the key manager, \<open>get_key_pair_id\<close>, the coding of the extra domain separation,
  the verification of an endorsed capability against a quote policy (the enclave's identity and the endorsing node), and
  of its endorsement alone, and the consensus layer's address of a node.
\<close>

record rofl_deps =
  rd_key_pair_id :: "bytes list \<Rightarrow> bytes"
  rd_key_manager :: "(bytes \<Rightarrow> string + key_pair) option"
  rd_encode_dom :: "(string, bytes) fmap \<Rightarrow> bytes"
  rd_verify :: "endorsed_capability \<Rightarrow> bytes \<Rightarrow> (bytes \<times> bytes option) option"
  rd_verify_endorsement :: "endorsed_capability \<Rightarrow> string + unit"
  rd_node_address :: "bytes \<Rightarrow> address"
  rd_registry :: registry_view

definition ROFL_DERIVE_KEY_CONTEXT :: bytes where "ROFL_DERIVE_KEY_CONTEXT = ascii ''oasis-runtime-sdk/rofl: derive key v1''"
definition ROFL_KEY_ID_SEK :: bytes where "ROFL_KEY_ID_SEK = ascii ''oasis-runtime-sdk/rofl: secrets encryption key v1''"

text \<open>The parts that identify a key.\<close>

definition app_key_parts :: "rofl_deps \<Rightarrow> app_id \<Rightarrow> key_kind \<Rightarrow> key_scope \<Rightarrow> bytes \<Rightarrow> registration option \<Rightarrow> rofl_error + bytes list" where
  "app_key_parts D app kind scope key_id reg =
     (let parts = [ROFL_DERIVE_KEY_CONTEXT, app, [key_kind_u8 kind], key_id];
          within = (\<lambda>dom. let extra = rd_encode_dom D dom in if extra \<noteq> [] then parts @ [extra] else parts)
      in case scope of
           Scope_Global \<Rightarrow> Inr parts
         | Scope_Node \<Rightarrow> bind_result (ok_or Rofl_InvalidArgument reg) (\<lambda>reg.
             Inr (within (fmap_of_list [(''scope'', [key_scope_u8 scope]), (''node_id'', reg_node_id reg)])))
         | Scope_Entity \<Rightarrow> bind_result (ok_or Rofl_InvalidArgument reg) (\<lambda>reg. bind_result (ok_or Rofl_InvalidArgument (reg_entity_id reg)) (\<lambda>entity_id.
             Inr (within (fmap_of_list [(''scope'', [key_scope_u8 scope]), (''entity_id'', entity_id)])))))"

definition derive_app_key_id :: "rofl_deps \<Rightarrow> app_id \<Rightarrow> key_kind \<Rightarrow> key_scope \<Rightarrow> bytes \<Rightarrow> registration option \<Rightarrow> rofl_error + bytes" where
  "derive_app_key_id D app kind scope key_id reg =
     bind_result (app_key_parts D app kind scope key_id reg) (\<lambda>parts. Inr (rd_key_pair_id D parts))"

definition derive_app_key :: "rofl_deps \<Rightarrow> app_id \<Rightarrow> key_kind \<Rightarrow> key_scope \<Rightarrow> bytes \<Rightarrow> registration option \<Rightarrow> rofl_error + key_pair" where
  "derive_app_key D app kind scope key_id reg =
     bind_result (derive_app_key_id D app kind scope key_id reg) (\<lambda>key_id.
     case rd_key_manager D of
       None \<Rightarrow> Inl (Rofl_Abort (KeyManagerFailure ''not initialized''))
     | Some km \<Rightarrow> map_err (\<lambda>err. Rofl_Abort (KeyManagerFailure err)) (km key_id))"

definition derive_sek :: "rofl_deps \<Rightarrow> app_id \<Rightarrow> rofl_error + bytes" where
  "derive_sek D app = bind_result (derive_app_key D app X25519 Scope_Global ROFL_KEY_ID_SEK None) (\<lambda>key. Inr (kp_pk key))"

section \<open>Calls\<close>

definition ADDRESS_APP_STAKE_POOL :: "ctx \<Rightarrow> address" where
  "ADDRESS_APP_STAKE_POOL c = address_from_module (dep_hash (ctx_deps c)) ''rofl'' ''app-stake-pool''"

text \<open>The limits on key-value pairs, of metadata and of secrets.\<close>

definition check_pairs :: "'s rofl_config \<Rightarrow> (string, 'v list) fmap \<Rightarrow> rofl_error + unit" where
  "check_pairs cfg m =
     (if fcard (fmdom m) > rc_max_metadata_pairs cfg \<or>
         list_ex (\<lambda>(key, val). length key > rc_max_metadata_key_size cfg \<or> length val > rc_max_metadata_value_size cfg) (fm_entries m)
      then Inl Rofl_InvalidArgument else Inr ())"

definition rofl_gas :: "core_config \<Rightarrow> u64 \<Rightarrow> (('m, 'g) sdk_state, rofl_error, unit) rust_op" where
  "rofl_gas cc gas = map_err_op Rofl_Core (use_tx_gas cc gas)"

definition new_app_id :: "ctx \<Rightarrow> identifier_scheme \<Rightarrow> address \<Rightarrow> nat \<Rightarrow> (('m, 'g) sdk_state, rofl_error, app_id) rust_op" where
  "new_app_id c scheme creator index s =
     (case scheme of
        CreatorRoundIndex \<Rightarrow>
          if index < 2 ^ 32 then (Ok (app_id_from_creator_round_index (dep_hash (ctx_deps c)) creator (ctx_round c) (of_nat index)), s)
          else (Err Rofl_InvalidArgument, s)
      | CreatorNonce \<Rightarrow> (Ok (app_id_from_creator_nonce (dep_hash (ctx_deps c)) creator (get_nonce creator s)), s))"

definition rofl_tx_create :: "core_config \<Rightarrow> ctx \<Rightarrow> rofl_deps \<Rightarrow> ('m, 'g) sdk_state rofl_config \<Rightarrow> rofl_create \<Rightarrow>
    (('m, 'g) sdk_state, rofl_error, app_id) rust_op" where
  "rofl_tx_create cc c D cfg body =
     seq_op (rofl_gas cc (rc_gas_create cfg))
     (seq_op (result_op (check_pairs cfg (cr_metadata body)))
     (seq_op (result_op (policy_validate cfg (cr_policy body)))
     (unless_check default_app_id
     (bind_op (caller_op c) (\<lambda>creator.
      bind_op (\<lambda>s. some_op (tx_index (st_env s)) s) (\<lambda>index.
      bind_op (new_app_id c (cr_scheme body) creator index) (\<lambda>app.
      bind_op (reads_op (rofl_get_app app)) (\<lambda>existing.
      seq_op (ensure_op (existing = None) Rofl_AppAlreadyExists)
     (seq_op (map_err_op Rofl_Accounts (transfer creator (ADDRESS_APP_STAKE_POOL c) (rc_stake_app_create cfg)))
     (bind_op (result_op (derive_sek D app)) (\<lambda>sek.
      seq_op (update_op (rofl_set_app \<lparr>app_id_of = app, app_policy = cr_policy body, app_admin = Some creator,
        app_stake = rc_stake_app_create cfg, app_metadata = cr_metadata body, app_secrets = fmempty, app_sek = sek\<rparr>))
     (seq_op (emit_event (Ev_AppCreated app))
     (return_op app)))))))))))))"

definition ensure_caller_is_admin :: "ctx \<Rightarrow> app_config \<Rightarrow> (('m, 'g) sdk_state, rofl_error, unit) rust_op" where
  "ensure_caller_is_admin c app = bind_op (caller_op c) (\<lambda>caller. ensure_op (app_admin app = Some caller) Rofl_Forbidden)"

definition default_sek :: bytes where "default_sek = replicate 32 0"

definition rofl_tx_update :: "core_config \<Rightarrow> ctx \<Rightarrow> rofl_deps \<Rightarrow> ('m, 'g) sdk_state rofl_config \<Rightarrow> rofl_update \<Rightarrow>
    (('m, 'g) sdk_state, rofl_error, unit) rust_op" where
  "rofl_tx_update cc c D cfg body =
     seq_op (rofl_gas cc (rc_gas_update cfg))
     (seq_op (result_op (check_pairs cfg (up_metadata body)))
     (seq_op (result_op (check_pairs cfg (up_secrets body)))
     (seq_op (result_op (policy_validate cfg (up_policy body)))
     (bind_op (reads_op (rofl_get_app (up_id body))) (\<lambda>found.
      bind_op (ok_or_op Rofl_UnknownApp found) (\<lambda>app.
      seq_op (ensure_caller_is_admin c app)
     (unless_check ()
     (bind_op (if app_sek app = default_sek then result_op (derive_sek D (up_id body)) else return_op (app_sek app)) (\<lambda>sek.
      seq_op (update_op (rofl_set_app (app\<lparr>app_sek := sek, app_policy := up_policy body, app_admin := up_admin body,
        app_metadata := up_metadata body, app_secrets := up_secrets body\<rparr>)))
     (emit_event (Ev_AppUpdated (up_id body))))))))))))"

definition rofl_tx_remove :: "core_config \<Rightarrow> ctx \<Rightarrow> ('m, 'g) sdk_state rofl_config \<Rightarrow> app_id \<Rightarrow>
    (('m, 'g) sdk_state, rofl_error, unit) rust_op" where
  "rofl_tx_remove cc c cfg app_id =
     seq_op (rofl_gas cc (rc_gas_remove cfg))
     (bind_op (reads_op (rofl_get_app app_id)) (\<lambda>found.
      bind_op (ok_or_op Rofl_UnknownApp found) (\<lambda>app.
      seq_op (ensure_caller_is_admin c app)
     (unless_check ()
     (seq_op (update_op (rofl_remove_app app_id))
     (seq_op (case app_admin app of
          None \<Rightarrow> return_op ()
        | Some admin \<Rightarrow> map_err_op Rofl_Accounts (transfer (ADDRESS_APP_STAKE_POOL c) admin (app_stake app)))
     (emit_event (Ev_AppRemoved app_id))))))))"

definition signer_public_keys :: "auth_info \<Rightarrow> public_key set" where
  "signer_public_keys ai = set (List.map_filter (address_spec_public_key \<circ> si_address_spec) (ai_signer_info ai))"

text \<open>What makes a registration acceptable, once it is known to be signed.\<close>

definition verify_registration :: "rofl_deps \<Rightarrow> ctx \<Rightarrow> 's rofl_config \<Rightarrow> app_auth_policy \<Rightarrow> rofl_register \<Rightarrow> 's \<Rightarrow>
    rofl_error + bytes option \<times> node_descriptor option" where
  "verify_registration D c cfg policy body s =
     bind_result (ok_or Rofl_InvalidArgument (rd_verify D (rg_ect body) (pol_quotes policy))) (\<lambda>(identity, node_id).
     if identity \<notin> set (pol_enclaves policy) then Inl Rofl_UnknownEnclave
     else bind_result (policy_verify (rd_registry D) (rc_verify_atom cfg) c (pol_endorsements policy) (rg_ect body) (rg_metadata body) s) (\<lambda>node.
       Inr (node_id, node)))"

definition rofl_tx_register :: "core_config \<Rightarrow> ctx \<Rightarrow> rofl_deps \<Rightarrow> ('m, 'g) sdk_state rofl_config \<Rightarrow> rofl_register \<Rightarrow>
    (('m, 'g) sdk_state, rofl_error, unit) rust_op" where
  "rofl_tx_register cc c D cfg body =
     seq_op (rofl_gas cc (rc_gas_register cfg))
     (seq_op (ensure_op (rg_expiration body > ctx_epoch c) Rofl_RegistrationExpired)
     (seq_op (result_op (check_pairs cfg (rg_metadata body)))
     (bind_op (reads_op (rofl_get_app (rg_app body))) (\<lambda>found.
      bind_op (ok_or_op Rofl_UnknownApp found) (\<lambda>app.
      seq_op (ensure_op (rg_expiration body - ctx_epoch c \<le> pol_max_expiration (app_policy app)) Rofl_InvalidArgument)
     (bind_op (\<lambda>s. some_op (env_auth_info (st_env s)) s) (\<lambda>ai.
      let signer_pks = signer_public_keys ai in
      seq_op (ensure_op (Pk_Ed25519 (ect_rak (rg_ect body)) \<in> signer_pks) Rofl_NotSignedByRAK)
     (seq_op (ensure_op (list_all (\<lambda>pk. pk \<in> signer_pks) (rg_extra_keys body)) Rofl_NotSignedByExtraKey)
     (unless_check ()
     (bind_op (reads_op (verify_registration D c cfg (app_policy app) body)) (\<lambda>verified.
      bind_op (result_op verified) (\<lambda>(node_id, node).
      bind_op (some_op node_id) (\<lambda>node_id.
      bind_op (ok_or_op Rofl_InvalidArgument (ect_rek (rg_ect body))) (\<lambda>rek.
      seq_op (update_registration c \<lparr>reg_app = rg_app body, reg_node_id = node_id, reg_entity_id = map_option node_entity_id node,
        reg_rak = ect_rak (rg_ect body), reg_rek = rek, reg_expiration = rg_expiration body, reg_extra_keys = rg_extra_keys body,
        reg_metadata = rg_metadata body\<rparr>)
     (emit_event (Ev_InstanceRegistered (rg_app body) (Pk_Ed25519 (ect_rak (rg_ect body)))))))))))))))))))"

definition rofl_tx_derive_key :: "core_config \<Rightarrow> ctx \<Rightarrow> rofl_deps \<Rightarrow> ('m, 'g) sdk_state rofl_config \<Rightarrow> rofl_derive_key \<Rightarrow>
    (('m, 'g) sdk_state, rofl_error, bytes) rust_op" where
  "rofl_tx_derive_key cc c D cfg body =
     seq_op (rofl_gas cc (rc_gas_derive_key cfg))
     (bind_op (\<lambda>s. some_op (tx_call_format (st_env s)) s) (\<lambda>format.
      seq_op (ensure_op (is_encrypted format) Rofl_PlainCallFormatNotAllowed)
     (seq_op (ensure_op (dk_generation body = 0) Rofl_InvalidArgument)
     (seq_op (ensure_op (length (dk_key_id body) \<le> rc_derive_key_max_key_id_length cfg) Rofl_InvalidArgument)
     (bind_op (reads_op (\<lambda>s. env_internal (st_env s))) (\<lambda>internal.
      seq_op (ensure_op (\<not> internal) Rofl_Forbidden)
     (unless_check []
     (bind_op (get_origin_registration c (dk_app body)) (\<lambda>found.
      bind_op (ok_or_op Rofl_Forbidden found) (\<lambda>reg.
      bind_op (result_op (derive_app_key D (dk_app body) (dk_kind body) (dk_scope body) (dk_key_id body) (Some reg))) (\<lambda>key.
      return_op (case dk_kind body of EntropyV0 \<Rightarrow> kp_state_key key | X25519 \<Rightarrow> kp_sk key))))))))))))"

section \<open>Calls by other modules\<close>

definition internal_is_authorized_origin :: "core_config \<Rightarrow> ctx \<Rightarrow> ('m, 'g) sdk_state rofl_config \<Rightarrow> app_id \<Rightarrow> (('m, 'g) sdk_state, rofl_error, bool) rust_op" where
  "internal_is_authorized_origin cc c cfg app = seq_op (rofl_gas cc (rc_gas_is_authorized_origin cfg)) (is_authorized_origin c app)"

definition internal_authorized_origin_node :: "core_config \<Rightarrow> ctx \<Rightarrow> ('m, 'g) sdk_state rofl_config \<Rightarrow> app_id \<Rightarrow> (('m, 'g) sdk_state, rofl_error, bytes) rust_op" where
  "internal_authorized_origin_node cc c cfg app =
     seq_op (rofl_gas cc (rc_gas_authorized_origin_node cfg))
     (bind_op (get_origin_registration c app) (\<lambda>found. bind_op (ok_or_op Rofl_UnknownInstance found) (\<lambda>reg. return_op (reg_node_id reg))))"

definition internal_authorized_origin_entity :: "core_config \<Rightarrow> ctx \<Rightarrow> ('m, 'g) sdk_state rofl_config \<Rightarrow> app_id \<Rightarrow>
    (('m, 'g) sdk_state, rofl_error, bytes option) rust_op" where
  "internal_authorized_origin_entity cc c cfg app =
     seq_op (rofl_gas cc (rc_gas_authorized_origin_entity cfg))
     (bind_op (get_origin_registration c app) (\<lambda>found. bind_op (ok_or_op Rofl_UnknownInstance found) (\<lambda>reg. return_op (reg_entity_id reg))))"

definition internal_origin_app :: "core_config \<Rightarrow> ctx \<Rightarrow> ('m, 'g) sdk_state rofl_config \<Rightarrow> (('m, 'g) sdk_state, rofl_error, app_id) rust_op" where
  "internal_origin_app cc c cfg =
     seq_op (rofl_gas cc (rc_gas_origin_app cfg)) (bind_op (get_origin_app c) (ok_or_op Rofl_UnknownInstance))"

definition internal_query_stake_thresholds :: "core_config \<Rightarrow> ('m, 'g) sdk_state rofl_config \<Rightarrow> (('m, 'g) sdk_state, rofl_error, base_units) rust_op" where
  "internal_query_stake_thresholds cc cfg = seq_op (rofl_gas cc (rc_gas_stake_thresholds cfg)) (return_op (rc_stake_app_create cfg))"

section \<open>Fees paid by the endorsing node\<close>

fun rofl_message :: "rofl_error \<Rightarrow> string" where
  "rofl_message Rofl_InvalidArgument = ''invalid argument''"
| "rofl_message Rofl_UnknownApp = ''unknown application''"
| "rofl_message Rofl_NotSignedByRAK = ''tx not signed by RAK''"
| "rofl_message Rofl_RegistrationExpired = ''registration expired''"
| "rofl_message _ = ''''"

text \<open>\<open>dec\<close> decodes the body of \<open>rofl.Register\<close>; its errors are texts here, as those of \<open>anyhow\<close>.\<close>

definition resolve_payer_from_tx :: "ctx \<Rightarrow> rofl_deps \<Rightarrow> (cbor_value \<Rightarrow> rofl_register option) \<Rightarrow> transaction \<Rightarrow> app_id \<Rightarrow> ('m, 'g) sdk_state \<Rightarrow>
    string + address option" where
  "resolve_payer_from_tx c D dec tx app s =
     (let caller_pk = (case first_signer (tx_auth_info tx) of Some si \<Rightarrow> address_spec_public_key (si_address_spec si) | None \<Rightarrow> None) in
      if call_method (tx_call tx) = ''rofl.Register''
      then bind_result (ok_or ''invalid body'' (dec (call_body (tx_call tx)))) (\<lambda>body.
        if rg_app body \<noteq> app then Inl (rofl_message Rofl_InvalidArgument)
        else if rg_expiration body \<le> ctx_epoch c then Inl (rofl_message Rofl_RegistrationExpired)
        else if caller_pk \<noteq> Some (Pk_Ed25519 (ect_rak (rg_ect body))) then Inl (rofl_message Rofl_NotSignedByRAK)
        else bind_result (rd_verify_endorsement D (rg_ect body)) (\<lambda>_. Inr (Some (rd_node_address D (ect_node (rg_ect body))))))
      else (case caller_pk of
          None \<Rightarrow> Inr None
        | Some pk \<Rightarrow> (case get_endorser c pk s of
              None \<Rightarrow> Inr None
            | Some endorser \<Rightarrow>
                if kei_app_id endorser \<noteq> app then Inl (rofl_message Rofl_InvalidArgument)
                else Inr (Some (rd_node_address D (kei_node_id endorser))))))"

definition rofl_resolve_payer :: "ctx \<Rightarrow> rofl_deps \<Rightarrow> (cbor_value \<Rightarrow> rofl_register option) \<Rightarrow> transaction \<Rightarrow>
    (('m, 'g) sdk_state, core_error, address option) rust_op" where
  "rofl_resolve_payer c D dec tx s =
     (case fee_proxy_of (ai_fee (tx_auth_info tx)) of
        None \<Rightarrow> (Ok None, s)
      | Some proxy \<Rightarrow>
          if fp_module proxy \<noteq> ''rofl'' then (Ok None, s)
          else (case app_id_from_bytes (fp_id proxy) of
              Inl _ \<Rightarrow> (Err (Core_InvalidArgument ''malformed identifier''), s)
            | Inr app \<Rightarrow>
                (case rofl_get_app app s of
                   None \<Rightarrow> (Err (Core_InvalidArgument (rofl_message Rofl_UnknownApp)), s)
                 | Some cfg \<Rightarrow>
                     (case pol_fees (app_policy cfg) of
                        InstancePays \<Rightarrow> (Ok None, s)
                      | EndorsingNodePays \<Rightarrow> result_op (map_err Core_InvalidArgument (resolve_payer_from_tx c D dec tx app s)) s))))"

section \<open>Blocks and genesis\<close>

definition rofl_end_block :: "ctx \<Rightarrow> (('m, 'g) sdk_state, 'e, unit) rust_op" where
  "rofl_end_block c s = (if \<not> has_epoch_changed s then (Ok (), s) else (Ok (), expire_registrations c (ctx_epoch c) 128 s))"

definition rofl_init_app :: "app_config \<Rightarrow> (('m, 'g) sdk_state, 'e, unit) rust_op" where
  "rofl_init_app cfg s = (if rofl_get_app (app_id_of cfg) s \<noteq> None then (Panic, s) else (Ok (), rofl_set_app cfg s))"

definition rofl_init :: "app_config list \<Rightarrow> (('m, 'g) sdk_state, 'e, unit) rust_op" where
  "rofl_init apps = for_op rofl_init_app apps"

section \<open>The module\<close>

fun rofl_error_code :: "rofl_error \<Rightarrow> string \<times> u32" where
  "rofl_error_code Rofl_InvalidArgument = (''rofl'', 1)"
| "rofl_error_code Rofl_UnknownApp = (''rofl'', 2)"
| "rofl_error_code Rofl_NotSignedByRAK = (''rofl'', 3)"
| "rofl_error_code Rofl_NotSignedByExtraKey = (''rofl'', 4)"
| "rofl_error_code Rofl_UnknownEnclave = (''rofl'', 5)"
| "rofl_error_code Rofl_UnknownNode = (''rofl'', 6)"
| "rofl_error_code Rofl_NodeNotAllowed = (''rofl'', 7)"
| "rofl_error_code Rofl_RegistrationExpired = (''rofl'', 8)"
| "rofl_error_code Rofl_ExtraKeyUpdateNotAllowed = (''rofl'', 9)"
| "rofl_error_code Rofl_AppAlreadyExists = (''rofl'', 10)"
| "rofl_error_code Rofl_Forbidden = (''rofl'', 11)"
| "rofl_error_code Rofl_UnknownInstance = (''rofl'', 12)"
| "rofl_error_code Rofl_PlainCallFormatNotAllowed = (''rofl'', 13)"
| "rofl_error_code (Rofl_EndorsementPolicyTooDeep _) = (''rofl'', 14)"
| "rofl_error_code (Rofl_EndorsementPolicyTooManyAtoms _) = (''rofl'', 15)"
| "rofl_error_code (Rofl_PolicyMaxExpirationTooHigh _) = (''rofl'', 16)"
| "rofl_error_code (Rofl_Core e) = core_error_code e"
| "rofl_error_code (Rofl_Accounts e) = accounts_error_code e"
| "rofl_error_code (Rofl_Abort e) = (''rofl'', 0)"

definition rofl_into_call_result :: "(rofl_error \<Rightarrow> string) \<Rightarrow> rofl_error \<Rightarrow> module_result" where
  "rofl_into_call_result shw e =
     (case e of
        Rofl_Abort err \<Rightarrow> Res_Aborted err
      | Rofl_Core (Core_Abort err) \<Rightarrow> Res_Aborted err
      | Rofl_Accounts (Acc_Core (Core_Abort err)) \<Rightarrow> Res_Aborted err
      | _ \<Rightarrow> Res_Failed (fst (rofl_error_code e)) (snd (rofl_error_code e)) (shw e))"

record rofl_codecs =
  rk_create :: "cbor_value \<Rightarrow> rofl_create option"
  rk_update :: "cbor_value \<Rightarrow> rofl_update option"
  rk_app_id :: "cbor_value \<Rightarrow> app_id option"
  rk_register :: "cbor_value \<Rightarrow> rofl_register option"
  rk_derive_key :: "cbor_value \<Rightarrow> rofl_derive_key option"
  rk_app_instance :: "cbor_value \<Rightarrow> (app_id \<times> public_key) option"
  rk_of_app_id :: "app_id \<Rightarrow> cbor_value"
  rk_of_key :: "bytes \<Rightarrow> cbor_value"
  rk_of_bool :: "bool \<Rightarrow> cbor_value"
  rk_of_node :: "bytes \<Rightarrow> cbor_value"
  rk_of_entity :: "bytes option \<Rightarrow> cbor_value"
  rk_of_app :: "app_config \<Rightarrow> cbor_value"
  rk_of_apps :: "app_config list \<Rightarrow> cbor_value"
  rk_of_registration :: "registration \<Rightarrow> cbor_value"
  rk_of_registrations :: "registration list \<Rightarrow> cbor_value"
  rk_of_stake :: "base_units \<Rightarrow> cbor_value"
  rk_of_limits :: "u64 \<times> u64 \<times> u64 \<Rightarrow> cbor_value"
  rk_show :: "rofl_error \<Rightarrow> string"

definition rofl_calls :: "core_config \<Rightarrow> ctx \<Rightarrow> codecs \<Rightarrow> rofl_codecs \<Rightarrow> rofl_deps \<Rightarrow> ('m, 'g) sdk_state rofl_config \<Rightarrow>
    (string \<times> (cbor_value \<Rightarrow> (('m, 'g) sdk_state, ub, (cbor_value, module_result) handled) rust_op)) list" where
  "rofl_calls cc c K kr D cfg =
     (let result = rofl_into_call_result (rk_show kr) in
     [(''rofl.Create'', dispatch_handler (rk_create kr) (rk_of_app_id kr) (cd_show_core K) result (rofl_tx_create cc c D cfg)),
      (''rofl.Update'', dispatch_handler (rk_update kr) (\<lambda>_. Cbor_Null) (cd_show_core K) result (rofl_tx_update cc c D cfg)),
      (''rofl.Remove'', dispatch_handler (rk_app_id kr) (\<lambda>_. Cbor_Null) (cd_show_core K) result (rofl_tx_remove cc c cfg)),
      (''rofl.Register'', dispatch_handler (rk_register kr) (\<lambda>_. Cbor_Null) (cd_show_core K) result (rofl_tx_register cc c D cfg)),
      (''rofl.DeriveKey'', dispatch_handler (rk_derive_key kr) (rk_of_key kr) (cd_show_core K) result (rofl_tx_derive_key cc c D cfg)),
      (''rofl.IsAuthorizedOrigin'', dispatch_handler (rk_app_id kr) (rk_of_bool kr) (cd_show_core K) result
         (internal_only Rofl_Core (internal_is_authorized_origin cc c cfg))),
      (''rofl.AuthorizedOriginNode'', dispatch_handler (rk_app_id kr) (rk_of_node kr) (cd_show_core K) result
         (internal_only Rofl_Core (internal_authorized_origin_node cc c cfg))),
      (''rofl.AuthorizedOriginEntity'', dispatch_handler (rk_app_id kr) (rk_of_entity kr) (cd_show_core K) result
         (internal_only Rofl_Core (internal_authorized_origin_entity cc c cfg))),
      (''rofl.OriginApp'', dispatch_handler (cd_unit K) (rk_of_app_id kr) (cd_show_core K) result
         (internal_only Rofl_Core (\<lambda>_. internal_origin_app cc c cfg))),
      (''rofl.StakeThresholds'', dispatch_handler (cd_unit K) (rk_of_stake kr) (cd_show_core K) result
         (internal_only Rofl_Core (\<lambda>_. internal_query_stake_thresholds cc cfg)))])"

definition rofl_queries :: "ctx \<Rightarrow> codecs \<Rightarrow> rofl_codecs \<Rightarrow> ('m, 'g) sdk_state rofl_config \<Rightarrow>
    (string \<times> (cbor_value \<Rightarrow> (('m, 'g) sdk_state, ub, (cbor_value, runtime_error + cbor_value) handled) rust_op)) list" where
  "rofl_queries c K kr cfg =
     (let err = (\<lambda>e. (fst (rofl_error_code e), snd (rofl_error_code e), rk_show kr e)) in
     [(''rofl.App'', query_handler (rk_app_id kr) (rk_of_app kr) (malformed_query K) err
         (\<lambda>app. bind_op (reads_op (rofl_get_app app)) (ok_or_op Rofl_UnknownApp))),
      (''rofl.Apps'', query_handler (cd_unit K) (rk_of_apps kr) (malformed_query K) err (\<lambda>_. reads_op rofl_get_apps)),
      (''rofl.AppInstance'', query_handler (rk_app_instance kr) (rk_of_registration kr) (malformed_query K) err
         (\<lambda>(app, rak). bind_op (ok_or_op Rofl_InvalidArgument (core_public_key rak)) (\<lambda>k.
            bind_op (reads_op (get_registration c app k)) (ok_or_op Rofl_UnknownInstance)))),
      (''rofl.AppInstances'', query_handler (rk_app_id kr) (rk_of_registrations kr) (malformed_query K) err
         (\<lambda>app. reads_op (get_registrations_for_app app))),
      (''rofl.StakeThresholds'', query_handler (cd_unit K) (rk_of_stake kr) (malformed_query K) err (\<lambda>_. return_op (rc_stake_app_create cfg))),
      (''rofl.MetadataLimits'', query_handler (cd_unit K) (rk_of_limits kr) (malformed_query K) err
         (\<lambda>_. return_op (of_nat (rc_max_metadata_pairs cfg), of_nat (rc_max_metadata_key_size cfg), of_nat (rc_max_metadata_value_size cfg))))])"

definition rofl_module :: "core_config \<Rightarrow> ctx \<Rightarrow> codecs \<Rightarrow> rofl_codecs \<Rightarrow> rofl_deps \<Rightarrow> ('m, 'g) sdk_state rofl_config \<Rightarrow> app_config list \<Rightarrow>
    ('m, 'g) sdk_state module_ops" where
  "rofl_module cc c K kr D cfg genesis = default_module
     \<lparr>mo_dispatch_call := by_method (rofl_calls cc c K kr D cfg),
      mo_dispatch_query := by_method (rofl_queries c K kr cfg),
      mo_is_expensive_query := (\<lambda>meth. meth \<in> {''rofl.Apps'', ''rofl.AppInstances''}),
      mo_end_block := rofl_end_block c,
      mo_init_or_migrate := init_or_migrate ''rofl'' 1 [(0, rofl_init genesis)]\<rparr>"

end
