(* ===== verification/Rofl_Registry.thy ===== *)
theory Rofl_Registry
  imports Rofl_Module Module_Contracts
begin

text \<open>
  The tables of the ROFL module belong together: the queue of expirations lists exactly the registrations, and every endorsed key
  is backed by a registration that has it. All operations keep this.
\<close>

section \<open>The invariant\<close>

definition backed :: "ctx \<Rightarrow> (app_id \<times> bytes, registration) fmap \<Rightarrow> bytes \<Rightarrow> key_endorsement_info \<Rightarrow> bool" where
  "backed c regs h kei \<longleftrightarrow>
     (case kei_rak kei of
        None \<Rightarrow> \<exists>reg. fmlookup regs (kei_app_id kei, h) = Some reg \<and> reg_node_id reg = kei_node_id kei
      | Some rak \<Rightarrow> \<exists>reg. fmlookup regs (kei_app_id kei, hash_rak c rak) = Some reg \<and> reg_node_id reg = kei_node_id kei \<and>
          h \<in> hash_pk c ` set (reg_extra_keys reg))"

text \<open>A stored endorser; a legacy entry does not say for which application, but there is one.\<close>

definition endorser_ok :: "ctx \<Rightarrow> (app_id \<times> bytes, registration) fmap \<Rightarrow> bytes \<Rightarrow> stored_endorsement \<Rightarrow> bool" where
  "endorser_ok c regs h e \<longleftrightarrow>
     (case e of
        Stored_Info kei \<Rightarrow> backed c regs h kei
      | Stored_Legacy node_id rak \<Rightarrow> \<exists>app. backed c regs h \<lparr>kei_node_id = node_id, kei_rak = rak, kei_app_id = app\<rparr>)"

definition registry_ok :: "ctx \<Rightarrow> rofl_storage \<Rightarrow> bool" where
  "registry_ok c r \<longleftrightarrow>
     (\<forall>app h reg. fmlookup (ro_registrations r) (app, h) = Some reg \<longrightarrow> reg_app reg = app \<and> h = hash_rak c (reg_rak reg)) \<and>
     (\<forall>e app h. fmlookup (ro_expirations r) (e, app, h) \<noteq> None \<longleftrightarrow>
        (\<exists>reg. fmlookup (ro_registrations r) (app, h) = Some reg \<and> reg_expiration reg = e)) \<and>
     (\<forall>h e. fmlookup (ro_endorsers r) h = Some e \<longrightarrow> endorser_ok c (ro_registrations r) h e)"

lemma endorse_keys_simps [simp]:
  "ro_registrations (endorse_keys c reg r) = ro_registrations r" "ro_expirations (endorse_keys c reg r) = ro_expirations r"
  "ro_apps (endorse_keys c reg r) = ro_apps r"
proof -
  have "ro_registrations (fold (\<lambda>pk. endorse (f pk) k) pks r) = ro_registrations r \<and>
      ro_expirations (fold (\<lambda>pk. endorse (f pk) k) pks r) = ro_expirations r \<and> ro_apps (fold (\<lambda>pk. endorse (f pk) k) pks r) = ro_apps r"
    for f :: "public_key \<Rightarrow> bytes" and k pks r
    by (induction pks arbitrary: r) (simp_all add: endorse_def)
  then show "ro_registrations (endorse_keys c reg r) = ro_registrations r" "ro_expirations (endorse_keys c reg r) = ro_expirations r"
    "ro_apps (endorse_keys c reg r) = ro_apps r" by (simp_all add: endorse_keys_def) (simp_all add: endorse_def)
qed

lemma endorse_keys_lookup:
  "fmlookup (ro_endorsers (endorse_keys c reg r)) h =
     (if h \<in> hash_pk c ` set (reg_extra_keys reg) then Some (Stored_Info (kei_for_extra_key (reg_node_id reg) (reg_app reg) (reg_rak reg)))
      else if h = hash_rak c (reg_rak reg) then Some (Stored_Info (kei_for_rak (reg_node_id reg) (reg_app reg)))
      else fmlookup (ro_endorsers r) h)"
proof -
  have "fmlookup (ro_endorsers (fold (\<lambda>pk. endorse (f pk) k) pks r)) h = (if h \<in> f ` set pks then Some (Stored_Info k) else fmlookup (ro_endorsers r) h)"
    for f :: "public_key \<Rightarrow> bytes" and k pks r
    by (induction pks arbitrary: r) (auto simp: endorse_def)
  then show ?thesis by (simp add: endorse_keys_def) (simp add: endorse_def)
qed

lemma unendorse_keys_lookup:
  "fmlookup (ro_endorsers (unendorse_keys c h' reg r)) h =
     (if h = h' \<or> h \<in> hash_pk c ` set (reg_extra_keys reg) then None else fmlookup (ro_endorsers r) h)"
proof -
  have "fmlookup (fold (\<lambda>pk. fmdrop (f pk)) pks m) h = (if h \<in> f ` set pks then None else fmlookup m h)"
    for f :: "public_key \<Rightarrow> bytes" and pks and m :: "(bytes, stored_endorsement) fmap"
    by (induction pks arbitrary: m) auto
  then show ?thesis by (auto simp: unendorse_keys_def)
qed

lemma unendorse_keys_simps [simp]:
  "ro_registrations (unendorse_keys c h' reg r) = ro_registrations r" "ro_expirations (unendorse_keys c h' reg r) = ro_expirations r"
  "ro_apps (unendorse_keys c h' reg r) = ro_apps r"
  by (simp_all add: unendorse_keys_def)

lemma queue_simps [simp]:
  "ro_registrations (insert_expiration_queue e a h r) = ro_registrations r" "ro_endorsers (insert_expiration_queue e a h r) = ro_endorsers r"
  "ro_apps (insert_expiration_queue e a h r) = ro_apps r"
  "ro_registrations (remove_expiration_queue e a h r) = ro_registrations r" "ro_endorsers (remove_expiration_queue e a h r) = ro_endorsers r"
  "ro_apps (remove_expiration_queue e a h r) = ro_apps r"
  "ro_expirations (insert_expiration_queue e a h r) = fmupd (e, a, h) () (ro_expirations r)"
  "ro_expirations (remove_expiration_queue e a h r) = fmdrop (e, a, h) (ro_expirations r)"
  by (simp_all add: insert_expiration_queue_def remove_expiration_queue_def)

lemma rofl_of_upd [simp]: "rofl_of (upd_rofl f s) = f (rofl_of s)" "rofl_of (emit_event_raw k ev s) = rofl_of s"
  by (simp_all add: rofl_of_def upd_rofl_def upd_store_def emit_event_raw_def)

section \<open>Registrations\<close>

text \<open>A key stays backed when another registration changes, and when its own is renewed with the same keys.\<close>

lemma backed_other:
  assumes "backed c regs h kei" "h \<noteq> h'" "\<And>reg. fmlookup regs (app, h') = Some reg \<Longrightarrow> h \<notin> hash_pk c ` set (reg_extra_keys reg)"
  shows "backed c (fmupd (app, h') reg' regs) h kei" "backed c (fmdrop (app, h') regs) h kei"
  using assms by (auto simp: backed_def split: option.splits)

lemma endorser_other:
  assumes "endorser_ok c regs h e" "h \<noteq> h'" "\<And>reg. fmlookup regs (app, h') = Some reg \<Longrightarrow> h \<notin> hash_pk c ` set (reg_extra_keys reg)"
  shows "endorser_ok c (fmupd (app, h') reg' regs) h e" "endorser_ok c (fmdrop (app, h') regs) h e"
  using assms(1) by (auto simp: endorser_ok_def split: stored_endorsement.splits intro: backed_other [OF _ assms(2,3)])

lemma update_registration_ok:
  assumes "update_registration c reg s = (r, t)" "registry_ok c (rofl_of s)"
  shows "registry_ok c (rofl_of t)"
proof (cases r)
  case (Ok u)
  let ?h = "hash_rak c (reg_rak reg)" and ?R = "rofl_of s" and ?T = "rofl_of t"
  have keys: "reg_extra_keys old = reg_extra_keys reg" if "fmlookup (ro_registrations ?R) (reg_app reg, ?h) = Some old" for old
    using assms(1) Ok that by (auto simp: update_registration_def Let_def get_registration_hrak_def split: if_splits)
  have regs: "ro_registrations ?T = fmupd (reg_app reg, ?h) reg (ro_registrations ?R)"
    and ends: "\<And>h. fmlookup (ro_endorsers ?T) h = fmlookup (ro_endorsers (endorse_keys c reg ?R)) h"
    and queue: "\<And>e a h. fmlookup (ro_expirations ?T) (e, a, h) = (if (e, a, h) = (reg_expiration reg, reg_app reg, ?h) then Some ()
      else if (a, h) = (reg_app reg, ?h) \<and> (\<exists>old. fmlookup (ro_registrations ?R) (a, h) = Some old \<and> reg_expiration old = e) then None
      else fmlookup (ro_expirations ?R) (e, a, h))"
    using assms(1) Ok by (auto simp: update_registration_def Let_def get_registration_hrak_def endorse_keys_lookup split: option.splits if_splits)
  have "endorser_ok c (ro_registrations ?T) h e" if "fmlookup (ro_endorsers ?T) h = Some e" for h e
  proof (cases "h \<in> insert ?h (hash_pk c ` set (reg_extra_keys reg))")
    case True
    then show ?thesis using that by (auto simp: ends endorse_keys_lookup regs endorser_ok_def backed_def kei_for_extra_key_def kei_for_rak_def split: if_splits)
  next
    case False
    then have "endorser_ok c (ro_registrations ?R) h e" using that assms(2) by (auto simp: ends endorse_keys_lookup registry_ok_def)
    then show ?thesis unfolding regs using False keys by (intro endorser_other(1)) auto
  qed
  moreover have "fmlookup (ro_expirations ?T) (e, app, h) \<noteq> None \<longleftrightarrow>
      (\<exists>reg. fmlookup (ro_registrations ?T) (app, h) = Some reg \<and> reg_expiration reg = e)" for e app h
    using assms(2) by (auto simp: queue regs registry_ok_def)
  moreover have "reg_app rg = app \<and> h = hash_rak c (reg_rak rg)" if "fmlookup (ro_registrations ?T) (app, h) = Some rg" for app h rg
    using assms(2) that by (auto simp: regs registry_ok_def split: if_splits)
  ultimately show ?thesis unfolding registry_ok_def by blast
qed (use assms in \<open>auto simp: update_registration_def Let_def split: option.splits if_splits\<close>)

lemma remove_registration_ok:
  assumes "registry_ok c (rofl_of s)"
  shows "registry_ok c (rofl_of (remove_registration_hrak c app h' s))"
proof (cases "get_registration_hrak app h' s")
  case (Some reg)
  let ?R = "rofl_of s" and ?T = "rofl_of (remove_registration_hrak c app h' s)"
  have reg: "fmlookup (ro_registrations ?R) (app, h') = Some reg" "reg_app reg = app"
    using Some assms by (auto simp: get_registration_hrak_def registry_ok_def)
  have regs: "ro_registrations ?T = fmdrop (app, h') (ro_registrations ?R)"
    and ends: "\<And>h. fmlookup (ro_endorsers ?T) h = fmlookup (ro_endorsers (unendorse_keys c h' reg ?R)) h"
    and queue: "ro_expirations ?T = fmdrop (reg_expiration reg, app, h') (ro_expirations ?R)"
    using Some reg by (simp_all add: remove_registration_hrak_def unendorse_keys_lookup)
  have "endorser_ok c (ro_registrations ?T) h e" if "fmlookup (ro_endorsers ?T) h = Some e" for h e
  proof -
    have "h \<noteq> h'" "h \<notin> hash_pk c ` set (reg_extra_keys reg)" "fmlookup (ro_endorsers ?R) h = Some e"
      using that by (simp_all add: ends unendorse_keys_lookup split: if_splits)
    then show ?thesis unfolding regs using assms reg(1) by (intro endorser_other(2)) (auto simp: registry_ok_def)
  qed
  moreover have "fmlookup (ro_expirations ?T) (e, a, h) \<noteq> None \<longleftrightarrow>
      (\<exists>reg. fmlookup (ro_registrations ?T) (a, h) = Some reg \<and> reg_expiration reg = e)" for e a h
    using assms reg(1) by (auto simp: queue regs registry_ok_def)
  ultimately show ?thesis using assms by (auto simp: regs registry_ok_def)
qed (use assms in \<open>simp add: remove_registration_hrak_def\<close>)

end
