(* ===== verification/Run_Rules.thy ===== *)
theory Run_Rules
  imports Module_Interface Core_Queries
begin

text \<open>
  Rules for the states a handler can end in, whatever its outcome: through a sequence of operations, where
  most only read the state.
\<close>

definition ends :: "('s \<Rightarrow> bool) \<Rightarrow> ('s, 'e, 'a) rust_op \<Rightarrow> 's \<Rightarrow> bool" where
  "ends Q m s \<longleftrightarrow> (\<forall>r t. m s = (r, t) \<longrightarrow> Q t)"

definition silent :: "('s, 'e, 'a) rust_op \<Rightarrow> bool" where
  "silent m \<longleftrightarrow> (\<forall>s. snd (m s) = s)"

named_theorems silents \<open>operations that only read the state\<close>

lemma silentD: "silent m \<Longrightarrow> m s = (r, t) \<Longrightarrow> t = s"
  unfolding silent_def by (metis snd_conv)

lemma silent_basic [silents]:
  "silent (return_op a)" "silent (throw_op e)" "silent panic_op" "silent (reads_op f)" "silent (ok_or_op e x)" "silent (result_op r)"
  by (auto simp: silent_def op_simps result_op_def split: option.splits sum.splits)

lemma silent_bind [silents]: "silent m \<Longrightarrow> (\<And>a. silent (f a)) \<Longrightarrow> silent (bind_op m f)"
  by (auto simp: silent_def bind_op_def split: prod.splits outcome.splits) (metis snd_conv)+

lemma silent_seq [silents]: "silent m \<Longrightarrow> silent n \<Longrightarrow> silent (seq_op m n)"
  by (simp add: seq_op_def silent_bind)

lemma silent_if [silents]: "silent m \<Longrightarrow> silent n \<Longrightarrow> silent (if b then m else n)"
  by simp

lemma silent_map_err [silents]: "silent m \<Longrightarrow> silent (map_err_op g m)"
  by (auto simp: silent_def map_err_op_def split: prod.splits outcome.splits) (metis snd_conv)+

lemma endsI: "(\<And>r t. m s = (r, t) \<Longrightarrow> Q t) \<Longrightarrow> ends Q m s"
  by (simp add: ends_def)

lemma ends_steps: "steps True R m \<Longrightarrow> ends (R s) m s"
  by (simp add: ends_def steps_def)

lemma ends_silent: "silent m \<Longrightarrow> Q s \<Longrightarrow> ends Q m s"
  by (auto intro!: endsI dest: silentD)

lemma ends_bind:
  "ends Q m s \<Longrightarrow> (\<And>a t. m s = (Ok a, t) \<Longrightarrow> ends Q (f a) t) \<Longrightarrow> ends Q (bind_op m f) s"
  by (auto simp: ends_def bind_op_def split: prod.splits outcome.splits)

lemma ends_read:
  assumes "silent m" "Q s" "\<And>a. m s = (Ok a, s) \<Longrightarrow> ends Q (f a) s"
  shows "ends Q (bind_op m f) s"
  by (rule ends_bind [OF ends_silent]) (use assms silentD [OF assms(1)] in auto)

lemma ends_read_seq: "silent m \<Longrightarrow> Q s \<Longrightarrow> (m s = (Ok (), s) \<Longrightarrow> ends Q n s) \<Longrightarrow> ends Q (seq_op m n) s"
  unfolding seq_op_def by (rule ends_read) auto

lemma ends_seq: "ends Q m s \<Longrightarrow> (\<And>t. m s = (Ok (), t) \<Longrightarrow> ends Q n t) \<Longrightarrow> ends Q (seq_op m n) s"
  unfolding seq_op_def by (rule ends_bind) auto

lemma ends_update: "Q (f s) \<Longrightarrow> ends Q (update_op f) s"
  by (simp add: ends_def update_op_def)

lemma steps_from:
  "(\<And>s. ends (R s) m s) \<Longrightarrow> steps True R m"
  by (simp add: ends_def steps_def)

lemma ends_update_seq: "ends Q n (f s) \<Longrightarrow> ends Q (seq_op (update_op f) n) s"
  by (simp add: ends_def op_simps bind_op_def)

lemma ends_map_err: "ends Q m s \<Longrightarrow> ends Q (map_err_op g m) s"
  by (auto simp: ends_def map_err_op_def split: prod.splits outcome.splits)

end
