(* ===== verification/Rofl_Invariant.thy ===== *)
theory Rofl_Invariant
  imports Rofl_Registry Obligations Run_Rules
begin

text \<open>
  The invariant of the ROFL module over all its calls and blocks: the registry is consistent and the stake pool
  holds the stakes of all applications. What expires at an epoch, and who is taken for an instance of an application.
\<close>

section \<open>Stakes\<close>

definition stakes_owed :: "ctx \<Rightarrow> (app_id, app_config) fmap \<Rightarrow> address \<Rightarrow> denomination \<Rightarrow> nat" where
  "stakes_owed c apps a d = (\<Sum>app \<in> fmdom' apps. owing (ADDRESS_APP_STAKE_POOL c) (app_stake (the (fmlookup apps app))) a d)"

lemma stakes_owed_drop:
  assumes "fmlookup apps app = Some cfg"
  shows "stakes_owed c apps = (\<lambda>a d. owing (ADDRESS_APP_STAKE_POOL c) (app_stake cfg) a d + stakes_owed c (fmdrop app apps) a d)"
proof (intro ext)
  fix a d
  have "app \<in> fmdom' apps" using assms by (simp add: fmdom'I)
  then show "stakes_owed c apps a d = owing (ADDRESS_APP_STAKE_POOL c) (app_stake cfg) a d + stakes_owed c (fmdrop app apps) a d"
    using assms by (simp add: stakes_owed_def sum.remove [of "fmdom' apps" app])
qed

lemma stakes_owed_upd:
  assumes "fmlookup apps app = None \<or> (\<exists>old. fmlookup apps app = Some old \<and> app_stake old = app_stake cfg)"
  shows "stakes_owed c (fmupd app cfg apps) =
    (if fmlookup apps app = None then (\<lambda>a d. owing (ADDRESS_APP_STAKE_POOL c) (app_stake cfg) a d + stakes_owed c apps a d) else stakes_owed c apps)"
proof -
  have new: "fmdrop app (fmupd app cfg apps) = fmdrop app apps" by (rule fmap_ext) simp
  have same: "fmdrop app apps = apps" if "fmlookup apps app = None" using that by (intro fmap_ext) auto
  show ?thesis using assms stakes_owed_drop [of "fmupd app cfg apps" app cfg c] stakes_owed_drop [of apps app _ c] new same by auto
qed

definition rofl_inv :: "ctx \<Rightarrow> ('m, 'g) sdk_state \<Rightarrow> bool" where
  "rofl_inv c s \<longleftrightarrow> accounts_inv s \<and> registry_ok c (rofl_of s) \<and> covers (stakes_owed c (ro_apps (rofl_of s))) (balances_nat s) \<and>
     (\<forall>app cfg. fmlookup (ro_apps (rofl_of s)) app = Some cfg \<longrightarrow> app_id_of cfg = app)"

definition rofl_kept :: "ctx \<Rightarrow> ('m, 'g) sdk_state \<Rightarrow> ('m, 'g) sdk_state \<Rightarrow> bool" where
  "rofl_kept c s t \<longleftrightarrow> st_env t = st_env s \<and> (rofl_inv c s \<and> tx_caller_address (ctx_deps c) (st_env s) \<noteq> Some (ADDRESS_APP_STAKE_POOL c) \<longrightarrow> rofl_inv c t)"

section \<open>What does not touch the module\<close>

definition rofl_view :: "('m, 'g) sdk_state \<Rightarrow> rofl_storage \<times> storage \<times> fee_manager option \<times> environment" where
  "rofl_view s = (rofl_of s, empty_storage\<lparr>acc_balances := acc_balances (st_store s), acc_total_supplies := acc_total_supplies (st_store s)\<rparr>,
     bv_fee_manager (st_block_values s), st_env s)"

lemma rofl_view_eq:
  assumes "rofl_view t = rofl_view s"
  shows "rofl_of t = rofl_of s" "balances_nat t = balances_nat s" "accounts_inv t \<longleftrightarrow> accounts_inv s" "st_env t = st_env s"
    "rofl_inv c t \<longleftrightarrow> rofl_inv c s" "rofl_kept c s t"
proof -
  have a: "acc_balances (st_store t) = acc_balances (st_store s)"
    and b: "acc_total_supplies (st_store t) = acc_total_supplies (st_store s)"
    using assms [THEN arg_cong, of "acc_balances \<circ> fst \<circ> snd"] assms [THEN arg_cong, of "acc_total_supplies \<circ> fst \<circ> snd"]
    by (simp_all add: rofl_view_def)
  have d: "bv_fee_manager (st_block_values t) = bv_fee_manager (st_block_values s)" and r: "rofl_of t = rofl_of s" and e: "st_env t = st_env s"
    using assms by (simp_all add: rofl_view_def)
  have bal: "balances_nat t = balances_nat s" by (simp add: balance_of_def a)
  have acc: "accounts_inv t \<longleftrightarrow> accounts_inv s"
    by (simp add: accounts_inv_def circulating_def total_balance_def supply_of_def fee_manager_now_def a b d)
  show "rofl_of t = rofl_of s" "balances_nat t = balances_nat s" "accounts_inv t \<longleftrightarrow> accounts_inv s" "st_env t = st_env s" by (fact r bal acc e)+
  show "rofl_inv c t \<longleftrightarrow> rofl_inv c s" by (simp add: rofl_inv_def r bal acc)
  then show "rofl_kept c s t" using e by (simp add: rofl_kept_def)
qed

lemma rofl_view_simps [simp]:
  "rofl_view (upd_local h s) = rofl_view s" "rofl_view (upd_block (\<lambda>b. b\<lparr>bv_gas_used := g\<rparr>) s) = rofl_view s"
  "rofl_view (emit_unconditional_event k v s) = rofl_view s" "rofl_view (emit_event_raw k v s) = rofl_view s"
  by (simp_all add: rofl_view_def rofl_of_def upd_local_def upd_block_def emit_unconditional_event_def emit_event_raw_def)

interpretation rkept: step_rel "rofl_kept c"
  by unfold_locales (auto simp: rofl_kept_def)

interpretation rgas: gas_rel "rofl_kept c"
  by unfold_locales (rule rofl_view_eq; simp)+

lemma upd_rofl_kept:
  assumes "registry_ok c (rofl_of s) \<Longrightarrow> registry_ok c (f (rofl_of s))" "ro_apps (f (rofl_of s)) = ro_apps (rofl_of s)"
  shows "rofl_kept c s (upd_rofl f s)"
proof -
  have "balances_nat (upd_rofl f s) = balances_nat s" "accounts_inv (upd_rofl f s) \<longleftrightarrow> accounts_inv s" "st_env (upd_rofl f s) = st_env s"
    by (simp_all add: upd_rofl_def upd_store_def balance_of_def accounts_inv_def circulating_def total_balance_def supply_of_def fee_manager_now_def)
  then show ?thesis using assms by (auto simp: rofl_kept_def rofl_inv_def)
qed

lemma update_registration_kept: "steps True (rofl_kept c) (update_registration c reg)"
proof (rule stepsI)
  fix s :: "('m, 'g) sdk_state" and r t
  assume run: "update_registration c reg s = (r, t)"
  show "rofl_kept c s t"
  proof (cases "t = s")
    case False
    with run obtain f where t: "t = upd_rofl f s" "ro_apps (f (rofl_of s)) = ro_apps (rofl_of s)"
      by (auto simp: update_registration_def Let_def split: option.splits if_splits)
    then show ?thesis using update_registration_ok [OF run] by (auto intro!: upd_rofl_kept)
  qed (simp add: rkept.step_refl)
qed

lemma remove_registration_kept: "rofl_kept c s (remove_registration_hrak c app h s)"
proof (cases "get_registration_hrak app h s")
  case (Some reg)
  then obtain f where t: "remove_registration_hrak c app h s = upd_rofl f s" "ro_apps (f (rofl_of s)) = ro_apps (rofl_of s)"
    by (auto simp: remove_registration_hrak_def)
  then show ?thesis using remove_registration_ok [of c s app h] by (auto intro!: upd_rofl_kept)
qed (simp add: remove_registration_hrak_def rkept.step_refl)

lemma remove_registrations_kept: "rofl_kept c s (fold (\<lambda>(app, h). remove_registration_hrak c app h) xs s)"
proof (induction xs arbitrary: s)
  case (Cons x xs)
  show ?case using rkept.step_trans [OF remove_registration_kept [of c s "fst x" "snd x"] Cons] by (simp add: case_prod_unfold)
qed (simp add: rkept.step_refl)

section \<open>The handlers\<close>

lemma rofl_gas_kept: "steps True (rofl_kept c) (rofl_gas cc gas)"
  unfolding rofl_gas_def by (intro rkept.steps_map_err rgas.uses_tx_gas)

lemma emit_kept: "steps True (rofl_kept c) (emit_event ev)"
  by (auto intro!: stepsI rofl_view_eq(6) simp: emit_event_def update_op_def)

lemma silent_kept:
  "steps True (rofl_kept c) (ensure_op b e)" "steps True (rofl_kept c) (some_op x)" "steps True (rofl_kept c) (caller_op c')"
  "steps True (rofl_kept c) (ensure_caller_is_admin c' app)" "steps True (rofl_kept c) (\<lambda>s. some_op (f s) s)"
  "steps True (rofl_kept c) (get_origin_registration c' a)" "steps True (rofl_kept c) (get_origin_app c')"
  by (auto intro!: stepsI simp: op_simps caller_op_def ensure_caller_is_admin_def get_origin_registration_def get_origin_rak_def get_origin_app_def
      bind_op_def return_op_def throw_op_def panic_op_def rkept.step_refl split: option.splits prod.splits outcome.splits if_splits)

lemma unless_check_kept:
  "(\<And>s r t. \<not> is_check_only (st_env s) \<Longrightarrow> m s = (r, t) \<Longrightarrow> rofl_kept c s t) \<Longrightarrow> steps True (rofl_kept c) (unless_check a m)"
  by (auto simp: steps_def unless_check_def rkept.step_refl split: if_splits)

lemma unless_check_steps: "steps True (rofl_kept c) m \<Longrightarrow> steps True (rofl_kept c) (unless_check a m)"
  by (rule unless_check_kept) (simp add: steps_def)

lemmas kept_rules = rkept.steps_bind rkept.steps_seq rkept.steps_map_err rkept.steps_return rkept.steps_throw rkept.steps_reads rkept.steps_ok_or
  rkept.steps_result rofl_gas_kept emit_kept silent_kept update_registration_kept

lemma register_kept: "steps True (rofl_kept c) (rofl_tx_register cc c D cfg body)"
  unfolding rofl_tx_register_def Let_def by (intro kept_rules unless_check_steps) (auto intro!: kept_rules split: prod.splits)

lemma derive_key_kept: "steps True (rofl_kept c) (rofl_tx_derive_key cc c' D cfg body)"
  unfolding rofl_tx_derive_key_def by (intro kept_rules unless_check_steps)

lemma set_app_frame:
  "balances_nat (upd_rofl f s) = balances_nat s" "accounts_inv (upd_rofl f s) \<longleftrightarrow> accounts_inv s" "st_env (upd_rofl f s) = st_env s"
  by (simp_all add: upd_rofl_def upd_store_def balance_of_def accounts_inv_def circulating_def total_balance_def supply_of_def fee_manager_now_def)

text \<open>Tokens move without a change to the registry.\<close>

lemma besides_tokens_rofl:
  assumes "besides_tokens t = besides_tokens s"
  shows "rofl_of t = rofl_of s" "st_env t = st_env s"
  using assms [THEN arg_cong, of rofl_of] besides_tokens_env [OF assms] by (simp_all add: besides_tokens_def rofl_of_def)

lemma rofl_inv_new_app:
  assumes "rofl_inv c s" "\<not> is_check_only (st_env s)" "creator \<noteq> ADDRESS_APP_STAKE_POOL c" "rofl_get_app app s = None"
    "transfer creator (ADDRESS_APP_STAKE_POOL c) (app_stake cfg) s = (r, t)" "app_id_of cfg = app"
  shows "rofl_inv c t \<and> st_env t = st_env s \<and> (r = Ok () \<longrightarrow> rofl_inv c (rofl_set_app cfg t))"
proof (cases r)
  case (Ok u)
  have inv: "accounts_inv s" "covers (stakes_owed c (ro_apps (rofl_of s))) (balances_nat s)" using assms(1) by (simp_all add: rofl_inv_def)
  have free: "stakes_owed c (ro_apps (rofl_of s)) creator d = 0" for d
    using assms(3) by (simp add: stakes_owed_def owing_def)
  have run: "transfer creator (ADDRESS_APP_STAKE_POOL c) (app_stake cfg) s = (Ok u, t)" using assms(5) Ok by simp
  note aside = acc.aside_covered [OF inv(1) assms(2) inv(2) free assms(3) run]
  have cov: "covers (\<lambda>a d. owing (ADDRESS_APP_STAKE_POOL c) (app_stake cfg) a d + stakes_owed c (ro_apps (rofl_of s)) a d) (balances_nat t)"
    and besides: "besides_tokens t = besides_tokens s" and good: "accounts_inv t" using aside by auto
  have "covers (stakes_owed c (ro_apps (rofl_of s))) (balances_nat t)" using cov by (auto simp: covers_def intro: add_leD2)
  then show ?thesis using assms(1,4,6) cov besides_tokens_rofl [OF besides] good
    by (simp add: rofl_inv_def rofl_set_app_def set_app_frame rofl_get_app_def registry_ok_def stakes_owed_upd)
next
  case (Err e)
  have "accounts_inv s" using assms(1) by (simp add: rofl_inv_def)
  then show ?thesis using acc.xfer_Err [of s creator "ADDRESS_APP_STAKE_POOL c" "app_stake cfg" e t] assms(1,5) Err by simp
next
  case Panic
  then show ?thesis using acc.xfer_no_panic [of creator "ADDRESS_APP_STAKE_POOL c" "app_stake cfg" s t] assms(5) by simp
qed

text \<open>Removing an application: the pool covers its stake, which is returned to its administrator.\<close>

lemma rofl_inv_remove_app:
  assumes "rofl_inv c s" "\<not> is_check_only (st_env s)" "rofl_get_app app s = Some cfg"
  shows "\<exists>t. transfer (ADDRESS_APP_STAKE_POOL c) admin (app_stake cfg) (rofl_remove_app app s) = (Ok (), t) \<and> rofl_inv c t \<and> st_env t = st_env s \<and>
    rofl_of t = (rofl_of s)\<lparr>ro_apps := fmdrop app (ro_apps (rofl_of s))\<rparr> \<and>
    moved (balances_nat s) (ADDRESS_APP_STAKE_POOL c) admin (app_stake cfg) (balances_nat t)"
proof -
  let ?s = "rofl_remove_app app s"
  have s: "balances_nat ?s = balances_nat s" "accounts_inv ?s \<longleftrightarrow> accounts_inv s" "st_env ?s = st_env s"
    "rofl_of ?s = (rofl_of s)\<lparr>ro_apps := fmdrop app (ro_apps (rofl_of s))\<rparr>"
    by (simp_all add: rofl_remove_app_def set_app_frame)
  have "fmlookup (ro_apps (rofl_of s)) app = Some cfg" using assms(3) by (simp add: rofl_get_app_def)
  from stakes_owed_drop [OF this, of c]
  have "covers (\<lambda>a d. owing (ADDRESS_APP_STAKE_POOL c) (app_stake cfg) a d + stakes_owed c (ro_apps (rofl_of ?s)) a d) (balances_nat ?s)"
    using assms(1) by (simp add: rofl_inv_def s)
  moreover have "accounts_inv ?s" "\<not> is_check_only (st_env ?s)" using assms by (simp_all add: rofl_inv_def s)
  ultimately obtain t where t: "transfer (ADDRESS_APP_STAKE_POOL c) admin (app_stake cfg) ?s = (Ok (), t)" "accounts_inv t"
      "covers (stakes_owed c (ro_apps (rofl_of ?s))) (balances_nat t)" "besides_tokens t = besides_tokens ?s"
    using acc.refund_covered [of ?s "ADDRESS_APP_STAKE_POOL c" "app_stake cfg" "stakes_owed c (ro_apps (rofl_of ?s))" admin] by auto
  have "moved (balances_nat s) (ADDRESS_APP_STAKE_POOL c) admin (app_stake cfg) (balances_nat t)"
    using transfer_moves [OF t(1)] assms(2) by (simp add: s)
  then show ?thesis using t besides_tokens_rofl [OF t(4)] assms(1) by (auto simp: rofl_inv_def s registry_ok_def)
qed

lemma silent_handlers [silents]:
  "silent (ensure_op b e)" "silent (some_op x)" "silent (caller_op c')" "silent (\<lambda>s. some_op (f s) s)" "silent (new_app_id c' scheme creator index)"
  "silent (get_origin_registration c' a)" "silent (get_origin_app c')" "silent (is_authorized_origin c' a)"
proof -
  show basic: "silent (some_op x)" "silent (ensure_op b e)" "silent (caller_op c')" "silent (\<lambda>s. some_op (f s) s)" "silent (new_app_id c' scheme creator index)"
    by (auto simp: silent_def op_simps caller_op_def new_app_id_def split: option.splits identifier_scheme.splits)
  have "silent (get_origin_rak c')" by (auto simp: silent_def get_origin_rak_def bind_op_def op_simps split: option.splits)
  then show reg: "silent (get_origin_registration c' a)" unfolding get_origin_registration_def
    by (rule silent_bind) (auto simp: silent_def op_simps bind_op_def split: option.splits)
  show "silent (is_authorized_origin c' a)" unfolding is_authorized_origin_def by (intro silents reg)
  show "silent (get_origin_app c')" by (auto simp: silent_def get_origin_app_def bind_op_def op_simps split: option.splits)
qed

lemma ends_unless_check: "Q s \<Longrightarrow> (\<not> is_check_only (st_env s) \<Longrightarrow> ends Q m s) \<Longrightarrow> ends Q (unless_check a m) s"
  by (auto simp: ends_def unless_check_def)

lemma emit_ends: "rofl_kept c s t \<Longrightarrow> ends (rofl_kept c s) (emit_event ev) t"
  by (auto simp: ends_def emit_event_def update_op_def intro: rkept.step_trans [OF _ rofl_view_eq(6)])

lemma update_kept: "steps True (rofl_kept c) (rofl_tx_update cc c' D cfg body)"
proof -
  have kept: "rofl_kept c s (rofl_set_app (app\<lparr>app_sek := sek, app_policy := pol, app_admin := adm, app_metadata := meta, app_secrets := sec\<rparr>) s)"
    if "rofl_get_app a s = Some app" for s :: "('m, 'g) sdk_state" and app a sek pol adm meta sec
    using that by (auto simp: rofl_kept_def rofl_inv_def rofl_set_app_def set_app_frame rofl_get_app_def registry_ok_def stakes_owed_upd)
  show ?thesis unfolding rofl_tx_update_def ensure_caller_is_admin_def
    by (intro rkept.steps_seq rofl_gas_kept rkept.steps_result steps_from,
      intro ends_update_seq ends_read ends_read_seq ends_unless_check emit_ends silents rkept.step_refl)
      (auto intro!: kept simp: op_simps split: option.splits)
qed

lemma ends_transfer:
  assumes "\<And>r t. transfer f to amt s = (r, t) \<Longrightarrow> Q t" "\<And>t. transfer f to amt s = (Ok (), t) \<Longrightarrow> ends Q n t"
  shows "ends Q (seq_op (map_err_op g (transfer f to amt)) n) s"
  by (rule ends_seq) (auto intro!: ends_map_err simp: ends_def [of Q "transfer f to amt"] map_err_op_iff assms)

lemma handler_iffs [simp]:
  "ensure_op b e s = (Ok u, t) \<longleftrightarrow> b \<and> t = s" "caller_op c s = (Ok a, t) \<longleftrightarrow> tx_caller_address (ctx_deps c) (st_env s) = Some a \<and> t = s"
  "reads_op f s = (Ok x, t) \<longleftrightarrow> x = f s \<and> t = s" "ok_or_op e y s = (Ok x, t) \<longleftrightarrow> y = Some x \<and> t = s"
  "result_op z s = (Ok w, t) \<longleftrightarrow> z = Inr w \<and> t = s" "some_op y s = (Ok x, t) \<longleftrightarrow> y = Some x \<and> t = s"
  "emit_event ev s = (Ok u, t) \<longleftrightarrow> t = emit_event_raw (sdk_event_key ev) ev s"
  by (auto simp: op_simps caller_op_def result_op_def emit_event_def split: option.splits sum.splits)

lemma new_app_kept:
  assumes "\<not> is_check_only (st_env s)" "tx_caller_address (ctx_deps c) (st_env s) = Some creator" "rofl_get_app app s = None"
      "transfer creator (ADDRESS_APP_STAKE_POOL c) amt s = (r, t)"
  shows "rofl_kept c s t" "r = Ok () \<Longrightarrow> app_id_of ac = app \<Longrightarrow> app_stake ac = amt \<Longrightarrow> rofl_kept c s (rofl_set_app ac t)"
proof -
  have env: "st_env t = st_env s" using mild_run [OF transfer_mild assms(4)] by (simp add: mild_def)
  then have "st_env (rofl_set_app ac t) = st_env s" by (simp add: rofl_set_app_def set_app_frame)
  then show "rofl_kept c s (rofl_set_app ac t)" if "r = Ok ()" "app_id_of ac = app" "app_stake ac = amt"
    using env that assms rofl_inv_new_app [of c s creator app ac r t] by (auto simp: rofl_kept_def)
  show "rofl_kept c s t" using env assms rofl_inv_new_app [of c s creator app "ac\<lparr>app_id_of := app, app_stake := amt\<rparr>" r t]
    by (auto simp: rofl_kept_def)
qed

lemma emit_return_ends: "rofl_kept c s t \<Longrightarrow> ends (rofl_kept c s) (seq_op (emit_event ev) (return_op a)) t"
  unfolding emit_event_def by (intro ends_update_seq ends_silent silents) (rule rkept.step_trans [OF _ rofl_view_eq(6)], simp_all)

lemma create_kept: "steps True (rofl_kept c) (rofl_tx_create cc c D cfg body)"
  unfolding rofl_tx_create_def
  by (intro rkept.steps_seq rofl_gas_kept rkept.steps_result steps_from,
    intro emit_return_ends ends_update_seq ends_transfer ends_read ends_read_seq ends_unless_check silents rkept.step_refl)
    (auto elim: new_app_kept)

lemma remove_kept: "steps True (rofl_kept c) (rofl_tx_remove cc c cfg app)"
proof -
  have refund: "ends (rofl_kept c s) (seq_op (case app_admin a of None \<Rightarrow> return_op ()
        | Some admin \<Rightarrow> map_err_op Rofl_Accounts (transfer (ADDRESS_APP_STAKE_POOL c) admin (app_stake a))) n) (rofl_remove_app app s)"
    if "\<not> is_check_only (st_env s)" "rofl_get_app app s = Some a" "app_admin a \<noteq> None"
      "\<And>t. rofl_kept c s t \<Longrightarrow> ends (rofl_kept c s) n t"
    for s :: "('m, 'g) sdk_state" and a n
  proof -
    obtain admin where admin: "app_admin a = Some admin" using \<open>app_admin a \<noteq> None\<close> by blast
    have env: "st_env t = st_env s" if "transfer (ADDRESS_APP_STAKE_POOL c) admin (app_stake a) (rofl_remove_app app s) = (r, t)" for r t
      using mild_run [OF transfer_mild that] by (simp add: mild_def rofl_remove_app_def set_app_frame)
    have "rofl_kept c s t" if "transfer (ADDRESS_APP_STAKE_POOL c) admin (app_stake a) (rofl_remove_app app s) = (r, t)" for r t
      using env [OF that] that rofl_inv_remove_app [OF _ \<open>\<not> is_check_only (st_env s)\<close> \<open>rofl_get_app app s = Some a\<close>, of c admin]
      by (auto simp: rofl_kept_def)
    then show ?thesis using that admin by (auto intro!: ends_transfer)
  qed
  show ?thesis unfolding rofl_tx_remove_def ensure_caller_is_admin_def
    by (intro rkept.steps_seq rofl_gas_kept rkept.steps_result steps_from,
      intro refund ends_update_seq ends_read ends_read_seq ends_unless_check emit_ends silents rkept.step_refl)
      (auto simp: seq_op_def bind_op_Ok_iff)
qed

lemma end_block_kept: "steps pan (rofl_kept c) (rofl_end_block c)"
  by (auto simp: steps_def rofl_end_block_def expire_registrations_def rkept.step_refl remove_registrations_kept split: if_splits)

lemma internal_kept:
  "steps True (rofl_kept c) (internal_is_authorized_origin cc c' cfg app)" "steps True (rofl_kept c) (internal_authorized_origin_node cc c' cfg app)"
  "steps True (rofl_kept c) (internal_authorized_origin_entity cc c' cfg app)" "steps True (rofl_kept c) (internal_origin_app cc c' cfg)"
  "steps True (rofl_kept c) (internal_query_stake_thresholds cc cfg)"
  unfolding internal_is_authorized_origin_def internal_authorized_origin_node_def internal_authorized_origin_entity_def internal_origin_app_def
    internal_query_stake_thresholds_def is_authorized_origin_def by (intro kept_rules)+

lemma internal_only_kept: "(\<And>args. steps True (rofl_kept c) (h args)) \<Longrightarrow> steps True (rofl_kept c) (internal_only g h args)"
  by (auto simp: internal_only_def steps_def op_simps bind_op_def rkept.step_refl split: if_splits)

lemma dispatch_kept: "steps True (rofl_kept c) (mo_dispatch_call (rofl_module cc c K kr D cfg genesis) meth body)"
  unfolding rofl_module_def
  by (auto simp: rofl_calls_def Let_def intro!: rkept.steps_by_method rkept.steps_dispatch_handler create_kept update_kept remove_kept register_kept
      derive_key_kept internal_only_kept internal_kept)

section \<open>Expiration\<close>

definition due_registrations :: "u64 \<Rightarrow> ('m, 'g) sdk_state \<Rightarrow> (app_id \<times> bytes) set" where
  "due_registrations epoch s = {k. \<exists>reg. fmlookup (ro_registrations (rofl_of s)) k = Some reg \<and> reg_expiration reg \<le> epoch}"

definition expiration_of :: "('m, 'g) sdk_state \<Rightarrow> app_id \<times> bytes \<Rightarrow> u64" where
  "expiration_of s k = reg_expiration (the (fmlookup (ro_registrations (rofl_of s)) k))"

definition due_queue :: "u64 \<Rightarrow> ('m, 'g) sdk_state \<Rightarrow> (app_id \<times> bytes) list" where
  "due_queue epoch s = map snd (takeWhile (\<lambda>(e, _). e \<le> epoch) (map fst (fm_entries (ro_expirations (rofl_of s)))))"

lemma due_queue:
  assumes "registry_ok c (rofl_of s)"
  shows "set (due_queue epoch s) = due_registrations epoch s" "distinct (due_queue epoch s)" "sorted (map (expiration_of s) (due_queue epoch s))"
proof -
  let ?keys = "map fst (fm_entries (ro_expirations (rofl_of s)))" and ?regs = "ro_registrations (rofl_of s)"
  have lex: "sorted ?keys" "distinct ?keys" by (rule sorted_fm_entries distinct_fm_entries)+
  have byepoch: "sorted (map fst ?keys)" 
    unfolding sorted_map by (rule sorted_wrt_mono_rel [OF _ lex(1)]) (auto simp: less_eq_prod_def)
  have "fmlookup (ro_expirations (rofl_of s)) k \<noteq> None \<longleftrightarrow> k \<in> set ?keys" for k
    by (simp add: fst_fm_entries fmlookup_dom'_iff)
  then have keys: "(e, k) \<in> set ?keys \<longleftrightarrow> (\<exists>reg. fmlookup ?regs k = Some reg \<and> reg_expiration reg = e)" for e k
    using assms unfolding registry_ok_def by (cases k) blast
  have due: "due_queue epoch s = map snd (filter (\<lambda>k. fst k \<le> epoch) ?keys)"
    unfolding due_queue_def using takeWhile_sorted [OF byepoch, of epoch] by (simp add: case_prod_unfold)
  show "set (due_queue epoch s) = due_registrations epoch s"
  proof (rule set_eqI)
    fix k
    have "k \<in> set (due_queue epoch s) \<longleftrightarrow> (\<exists>e. (e, k) \<in> set ?keys \<and> e \<le> epoch)" unfolding due by (force simp: image_iff)
    then show "k \<in> set (due_queue epoch s) \<longleftrightarrow> k \<in> due_registrations epoch s" unfolding keys by (auto simp: due_registrations_def)
  qed
  have one: "p = (expiration_of s (snd p), snd p)" if "p \<in> set ?keys" for p
    using that keys [of "fst p" "snd p"] by (auto simp: expiration_of_def prod_eq_iff)
  have snds: "inj_on snd (set ?keys)" by (rule inj_onI) (metis one)
  have "inj_on snd (set (filter (\<lambda>k. fst k \<le> epoch) ?keys))" by (rule inj_on_subset [OF snds]) auto
  then show "distinct (due_queue epoch s)" unfolding due using lex(2) by (simp add: distinct_map)
  have "map (expiration_of s) (due_queue epoch s) = map fst (filter (\<lambda>k. fst k \<le> epoch) ?keys)"
    unfolding due map_map comp_def 
    by (rule map_cong [OF refl], subst (2) one) (auto simp del: set_map)
  then show "sorted (map (expiration_of s) (due_queue epoch s))" using sorted_filter [of fst ?keys] byepoch by simp
qed

lemma remove_registrations_lookup:
  "fmlookup (ro_registrations (rofl_of (fold (\<lambda>(app, h). remove_registration_hrak c app h) ks s))) k =
     (if k \<in> set ks then None else fmlookup (ro_registrations (rofl_of s)) k)"
proof (induction ks arbitrary: s)
  case (Cons a ks)
  have "fmlookup (ro_registrations (rofl_of (remove_registration_hrak c (fst a) (snd a) s))) k =
      (if k = a then None else fmlookup (ro_registrations (rofl_of s)) k)"
    by (auto simp: remove_registration_hrak_def get_registration_hrak_def split: option.splits)
  then show ?case using Cons by (cases "k = a") (simp_all add: case_prod_unfold)
qed simp

end
