(* ===== verification/Subcall.thy ===== *)
theory Subcall
  imports Dispatcher_Nesting
begin

text \<open>
  Calls from modules to methods of the runtime (\<open>subcall.rs\<close>) and the access control module (\<open>modules/access\<close>).
  The thread-local stack of subcalls is dynamically scoped: an entry lives exactly as long as its call, also when the
  call unwinds. It is a reader argument here: the runtime that a subcall dispatches to is the one for the longer stack.
\<close>

section \<open>Subcalls\<close>

record subcall_info =
  sc_caller :: caller_address
  sc_method :: string
  sc_body :: cbor_value
  sc_max_depth :: u16
  sc_max_gas :: u64
  sc_read_only :: bool

record subcall_result =
  sr_call_result :: module_result
  sr_gas_used :: u64

type_synonym validator = "subcall_info \<Rightarrow> core_error + unit"
type_synonym subcall_stack = "validator list"

definition allow_all_validator :: validator where
  "allow_all_validator info = Inr ()"

definition subcall_depth :: "subcall_stack \<Rightarrow> u16" where
  "subcall_depth stack = of_nat (length stack)"

fun run_validators :: "subcall_stack \<Rightarrow> subcall_info \<Rightarrow> core_error + unit" where
  "run_validators [] info = Inr ()"
| "run_validators (v # vs) info = bind_result (v info) (\<lambda>_. run_validators vs info)"

definition subcall_push :: "validator \<Rightarrow> subcall_info \<Rightarrow> subcall_stack \<Rightarrow> core_error + subcall_stack" where
  "subcall_push v info stack =
     bind_result (v info) (\<lambda>_.
     if subcall_depth stack \<ge> sc_max_depth info then Inl (Core_CallDepthExceeded (subcall_depth stack + 1) (sc_max_depth info))
     else bind_result (run_validators stack info) (\<lambda>_. Inr (stack @ [v])))"

definition subcall_tx :: "ctx \<Rightarrow> subcall_info \<Rightarrow> ('m, 'g) sdk_state \<Rightarrow> transaction" where
  "subcall_tx c info s =
     \<lparr>tx_version = LATEST_TRANSACTION_VERSION,
      tx_call = \<lparr>call_format_of = Plain, call_method = sc_method info, call_body = sc_body info, call_read_only = sc_read_only info\<rparr>,
      tx_auth_info = default_auth_info\<lparr>
        ai_signer_info := [\<lparr>si_address_spec = Spec_Internal (sc_caller info), si_nonce = 0\<rparr>],
        ai_fee := \<lparr>fee_amount_of = base_units_native 0, fee_gas_of = sc_max_gas info,
          fee_consensus_messages = emitted_messages_max (ctx_max_messages c) s, fee_proxy_of = None\<rparr>\<rparr>\<rparr>"

definition subcall_body :: "('m, 'g) sdk_state runtime \<Rightarrow> ctx \<Rightarrow> call \<Rightarrow>
    (('m, 'g) sdk_state, ub, (module_result \<times> u64) transaction_result) rust_op" where
  "subcall_body R c cl =
     bind_op (dispatch_tx_call R c cl default_dispatch_options) (\<lambda>(result, _).
     bind_op (expect_op remaining_tx_gas) (\<lambda>gas.
     return_op (if res_is_success result then Commit (result, gas) else Rollback (result, gas))))"

definition subcall_options :: "transaction \<Rightarrow> options" where
  "subcall_options tx = with_tx (tx_with_meta_internal tx) (with_internal True default_options)"

definition subcall :: "(subcall_stack \<Rightarrow> ('m, 'g) sdk_state runtime) \<Rightarrow> ctx \<Rightarrow> subcall_info \<Rightarrow> validator \<Rightarrow> subcall_stack \<Rightarrow>
    (('m, 'g) sdk_state, core_error, subcall_result) rust_op" where
  "subcall R c info v stack s =
     (case subcall_push v info stack of
        Inl e \<Rightarrow> (Err e, s)
      | Inr stack' \<Rightarrow>
          (let tx = subcall_tx c info s in
           bind_op (expect_op (with_transaction_opts snapshot_ops [] (subcall_options tx) (subcall_body (R stack') c (tx_call tx))))
             (\<lambda>(call_result, gas). return_op \<lparr>sr_call_result = call_result, sr_gas_used = saturating_sub (sc_max_gas info) gas\<rparr>) s))"

section \<open>Access control\<close>

datatype method_authorization = AllowFrom "address fset"

fun method_is_authorized :: "method_authorization \<Rightarrow> address \<Rightarrow> bool" where
  "method_is_authorized (AllowFrom addrs) a \<longleftrightarrow> a |\<in>| addrs"

datatype authorization = FilterOnly "(string, method_authorization) fmap"

definition authorization_new :: authorization where
  "authorization_new = FilterOnly fmempty"

fun is_authorized :: "authorization \<Rightarrow> string \<Rightarrow> address \<Rightarrow> bool" where
  "is_authorized (FilterOnly meths) meth a \<longleftrightarrow>
     (case fmlookup meths meth of Some authz \<Rightarrow> method_is_authorized authz a | None \<Rightarrow> True)"

text \<open>\<open>tx_caller_address\<close> panics outside of a transaction.\<close>

definition access_before_authorized_call_dispatch :: "ctx \<Rightarrow> authorization \<Rightarrow> call \<Rightarrow> (('m, 'g) sdk_state, core_error, unit) rust_op" where
  "access_before_authorized_call_dispatch c authz cl s =
     (case tx_caller_address (ctx_deps c) (st_env s) of
        None \<Rightarrow> (Panic, s)
      | Some a \<Rightarrow>
          if is_authorized authz (call_method cl) a then (Ok (), s)
          else (Err (Core_InvalidArgument ''caller is not authorized to call method''), s))"

definition access_module :: "ctx \<Rightarrow> authorization \<Rightarrow> ('m, 'g) sdk_state module_ops" where
  "access_module c authz = default_module\<lparr>mo_before_authorized_call_dispatch := access_before_authorized_call_dispatch c authz\<rparr>"

section \<open>Validators\<close>

lemma run_validators_iff: "run_validators stack info = Inr () \<longleftrightarrow> (\<forall>v \<in> set stack. v info = Inr ())"
  by (induction stack) (auto simp: bind_result_def split: sum.splits)

lemma run_validators_Inl: "run_validators stack info = Inl e \<Longrightarrow> \<exists>v \<in> set stack. v info = Inl e"
  by (induction stack) (auto simp: bind_result_def split: sum.splits)

lemma subcall_push_iff:
  "subcall_push v info stack = Inr stack' \<longleftrightarrow>
     stack' = stack @ [v] \<and> (\<forall>w \<in> set (stack @ [v]). w info = Inr ()) \<and> subcall_depth stack < sc_max_depth info"
  by (auto simp: subcall_push_def bind_result_def split: sum.splits simp flip: run_validators_iff)

lemma subcall_push_Inl:
  "subcall_push v info stack = Inl e \<Longrightarrow>
     (\<exists>w \<in> set (stack @ [v]). w info = Inl e) \<or>
     e = Core_CallDepthExceeded (subcall_depth stack + 1) (sc_max_depth info) \<and> sc_max_depth info \<le> subcall_depth stack"
  by (auto simp: subcall_push_def bind_result_def split: sum.splits if_splits dest: run_validators_Inl)

section \<open>The state of a subcall\<close>

lemma init_subcall:
  assumes "state_init [] (subcall_options tx) (state_open snapshot_ops s) = Ok s1"
  shows "st_store s1 = st_store s" "st_hidden_block_values s1 = Some (st_block_values s)" "st_block_values s1 = default"
    "st_env s1 = (st_env s)\<lparr>env_tx := Some (tx_with_meta_internal tx), env_internal := True\<rparr>"
    "\<not> st_always_rollback s1" "st_messages s1 = []" "st_events s1 = fmempty" "st_unconditional_events s1 = fmempty" "st_local_values s1 = default"
  using assms
  by (auto simp: state_init_def init_mode_def init_tx_def init_internal_def init_rng_def disable_rng_def map_rng_def bind_outcome_Ok hide_block_values_def
      state_open_def snapshot_ops_def with_tx_def with_internal_def default_options_def subcall_options_def Let_def split: option.splits if_splits)

lemma subcall_body_steps:
  assumes "\<forall>m \<in> set (rt_modules R). call_steps True nested m"
  shows "steps True nested (subcall_body R c cl)"
proof -
  have gas: "steps True nested (remaining_tx_gas :: (('a, 'b) sdk_state, core_error, u64) rust_op)"
    by (rule stepsI) (auto simp: remaining_tx_gas_def Let_def set_used_tx_gas_def intro: nest.step_refl split: option.splits)
  show ?thesis
    unfolding subcall_body_def
    by (intro nest.steps_bind dispatch_tx_call_steps [OF nest.step_rel_axioms assms]) (auto intro!: nest.steps_bind nest.steps_expect gas)
qed

lemma subcall_cases:
  assumes "\<forall>m \<in> set (rt_modules (R (stack @ [v]))). call_steps True nested m" "st_rng s \<noteq> None" "subcall R c info v stack s = (Ok res, t)"
  obtains s1 metadata w gas u where "subcall_push v info stack = Inr (stack @ [v])"
    "state_init [] (subcall_options (subcall_tx c info s)) (state_open snapshot_ops s) = Ok s1"
    "dispatch_tx_call (R (stack @ [v])) c (tx_call (subcall_tx c info s)) default_dispatch_options s1 = (Ok (sr_call_result res, metadata), w)"
    "expect_op remaining_tx_gas w = (Ok gas :: (ub, u64) outcome, u)" "sr_gas_used res = saturating_sub (sc_max_gas info) gas"
    "nested s1 u" "child_of s u" "st_rng s1 \<noteq> None"
    "t = (if res_is_success (sr_call_result res)
       then s\<lparr>st_store := st_store u, st_messages := st_messages s @ st_messages u,
          st_events := merge_events (st_events s) (st_events u),
          st_unconditional_events := merge_events (st_unconditional_events s) (st_unconditional_events u),
          st_block_values := returned_block_values u, st_rng := returned_rng u\<rparr>
       else s\<lparr>st_block_values := returned_block_values u, st_rng := returned_rng u\<rparr>)"
proof -
  let ?R = "R (stack @ [v])" and ?tx = "subcall_tx c info s"
  obtain call_result gas where push: "subcall_push v info stack = Inr (stack @ [v])"
    and run: "with_transaction_opts snapshot_ops [] (subcall_options ?tx) (subcall_body ?R c (tx_call ?tx)) s = (Ok (call_result, gas), t)"
    and res: "res = \<lparr>sr_call_result = call_result, sr_gas_used = saturating_sub (sc_max_gas info) gas\<rparr>"
    using assms(3) by (auto simp: subcall_def Let_def bind_op_Ok_iff expect_op_iff return_op_def subcall_push_iff split: sum.splits)
  obtain s1 x u where s1: "state_init [] (subcall_options ?tx) (state_open snapshot_ops s) = Ok s1"
    and body: "subcall_body ?R c (tx_call ?tx) s1 = (x, u)" and n: "nested s1 u" "child_of s u" and rng: "st_rng s1 \<noteq> None"
    and close: "with_transaction_opts snapshot_ops [] (subcall_options ?tx) (subcall_body ?R c (tx_call ?tx)) s = close_transaction snapshot_ops (level u) (x, u)"
    by (rule with_transaction_nested [OF subcall_body_steps [OF assms(1)] assms(2)])
  have fin: "close_transaction snapshot_ops (level u) (x, u) = (Ok (call_result, gas), t)" using run close by simp
  obtain result metadata w gas' where call: "dispatch_tx_call ?R c (tx_call ?tx) default_dispatch_options s1 = (Ok (result, metadata), w)"
    and gas: "expect_op remaining_tx_gas w = (Ok gas' :: (ub, u64) outcome, u)"
    and x: "x = Ok (if res_is_success result then Commit (result, gas') else Rollback (result, gas'))"
  proof (cases x)
    case (Ok a)
    then show thesis using body that by (auto simp: subcall_body_def bind_op_Ok_iff return_op_def)
  qed (use fin in \<open>simp_all add: close_err [OF n(2)] close_panic [OF n(2)]\<close>)
  have "\<not> st_always_rollback u" using n(1) init_subcall(5) [OF s1] rng by (simp add: nested_def)
  then have "call_result = result" "gas = gas'" "t = (if res_is_success result
       then s\<lparr>st_store := st_store u, st_messages := st_messages s @ st_messages u,
          st_events := merge_events (st_events s) (st_events u),
          st_unconditional_events := merge_events (st_unconditional_events s) (st_unconditional_events u),
          st_block_values := returned_block_values u, st_rng := returned_rng u\<rparr>
       else s\<lparr>st_block_values := returned_block_values u, st_rng := returned_rng u\<rparr>)"
    using fin x by (simp_all add: close_commit [OF n(2)] close_rollback [OF n(2)] split: if_splits)
  then show thesis using res call gas by (intro that [OF push s1 _ _ _ n rng, of metadata w gas]) simp_all
qed

end
