(* ===== verification/Subcall_Properties.thy ===== *)
theory Subcall_Properties
  imports Subcall Runtime_Sample Call_Format_Properties
begin

text \<open>
  Properties of subcalls and of access control: what a subcall may change, and that a filtered method is never called by
  anybody else.
\<close>

section \<open>Concrete values\<close>

text \<open>A runtime of two modules: access control for one method, and a module that answers to every call.\<close>

definition sample_authorization :: authorization where
  "sample_authorization = FilterOnly (fmupd ''accounts.Transfer'' (AllowFrom {|alice|}) fmempty)"

definition answering_module :: "('m, 'g) sdk_state module_ops" where
  "answering_module = default_module\<lparr>mo_dispatch_call := (\<lambda>_ _. return_op (Handled (Res_Ok Cbor_Null)))\<rparr>"

definition guarded_runtime :: "('m, 'g) sdk_state runtime" where
  "guarded_runtime = sample_base\<lparr>rt_modules := [access_module sample_ctx sample_authorization, answering_module]\<rparr>"

definition sample_subcall :: "caller_address \<Rightarrow> subcall_info" where
  "sample_subcall caller = \<lparr>sc_caller = caller, sc_method = ''accounts.Transfer'', sc_body = Cbor_Null, sc_max_depth = 8, sc_max_gas = 50, sc_read_only = False\<rparr>"

lemma guarded_nested: "\<forall>m \<in> set (rt_modules guarded_runtime). call_steps True nested m"
  by (auto simp: guarded_runtime_def access_module_def answering_module_def call_steps_def default_module_def access_before_authorized_call_dispatch_def
      return_op_def steps_def nest.step_refl split: option.splits if_splits)

text \<open>Inside a transaction signed by somebody else.\<close>

definition sample_inside :: "(unit, unit) sdk_state" where
  "sample_inside = sample_block\<lparr>st_env := sample_tx_env\<rparr>"

lemma inside_rng: "st_rng sample_inside \<noteq> None"
  by (simp add: sample_inside_def sample_block_simps)



lemma sample_subcall_run:
  "\<exists>res t. subcall (\<lambda>_. guarded_runtime) sample_ctx (sample_subcall (Caller_Address alice)) allow_all_validator [] sample_inside = (Ok res, t) \<and>
     res_is_success (sr_call_result res)"
proof -
  let ?info = "sample_subcall (Caller_Address alice)" and ?tx = "subcall_tx sample_ctx (sample_subcall (Caller_Address alice)) sample_inside"
  have push: "subcall_push allow_all_validator ?info [] = Inr [allow_all_validator]"
    by (simp add: subcall_push_iff allow_all_validator_def subcall_depth_def sample_subcall_def)
  obtain s1 where s1: "state_init [] (subcall_options ?tx) (state_open snapshot_ops sample_inside) = Ok s1" by (rule init_child [OF inside_rng])
  have caller: "tx_caller_address sample_deps (st_env s1) = Some alice"
    by (simp add: init_subcall(4) [OF s1] tx_caller_address_def env_auth_info_def tx_with_meta_internal_def subcall_tx_def first_signer_def sample_subcall_def)
  have "\<exists>metadata w. dispatch_tx_call guarded_runtime sample_ctx (tx_call ?tx) default_dispatch_options s1 = (Ok (Res_Ok Cbor_Null, metadata), w) \<and> st_env w = st_env s1"
    using caller
    by (simp add: dispatch_tx_call_def dispatch_tx_call_inner_def bind_op_def guarded_runtime_def modules_before_handle_call_def seq_op_def
     access_module_def answering_module_def default_module_def return_op_def try_op_def reads_op_def decode_call_def decode_call_ex_def subcall_tx_def sample_subcall_def
     modules_before_authorized_call_dispatch_def access_before_authorized_call_dispatch_def sample_authorization_def default_dispatch_options_def sample_ctx_def
     modules_after_handle_call_def modules_dispatch_call_def sample_base_def)
  then obtain metadata w where w: "dispatch_tx_call guarded_runtime sample_ctx (tx_call ?tx) default_dispatch_options s1 = (Ok (Res_Ok Cbor_Null, metadata), w)"
    "st_env w = st_env s1" by blast
  then obtain gas u where gas: "expect_op remaining_tx_gas w = (Ok gas :: (ub, u64) outcome, u)"
    using init_subcall(4) [OF s1] by (auto simp: expect_op_def remaining_tx_gas_def env_auth_info_def tx_with_meta_internal_def Let_def)
  have body: "subcall_body guarded_runtime sample_ctx (tx_call ?tx) s1 = (Ok (Commit (Res_Ok Cbor_Null, gas)), u)"
    using w(1) gas by (simp add: subcall_body_def bind_op_def return_op_def)
  obtain s1' x t where close: "state_init [] (subcall_options ?tx) (state_open snapshot_ops sample_inside) = Ok s1'"
    "subcall_body guarded_runtime sample_ctx (tx_call ?tx) s1' = (x, t)" "child_of sample_inside t"
    "with_transaction_opts snapshot_ops [] (subcall_options ?tx) (subcall_body guarded_runtime sample_ctx (tx_call ?tx)) sample_inside =
       close_transaction snapshot_ops (level t) (x, t)"
    by (rule with_transaction_nested [OF subcall_body_steps [OF guarded_nested] inside_rng])
  then have "x = Ok (Commit (Res_Ok Cbor_Null, gas))" using s1 body by simp
  then show ?thesis using push close by (simp add: subcall_def Let_def bind_op_def expect_op_def return_op_def close_commit [OF close(3)])
qed

section \<open>Properties\<close>

text \<open>A subcall that panics has passed the validators; its state is given up on the way out.\<close>

lemma subcall_panics:
  assumes "\<forall>m \<in> set (rt_modules (R (stack @ [v]))). call_steps True nested m" "st_rng s \<noteq> None" "subcall R c info v stack s = (Panic, t)"
  shows "subcall_push v info stack = Inr (stack @ [v]) \<and> (\<exists>rng. rng \<noteq> None \<and> t = s\<lparr>st_rng := rng\<rparr>)"
proof -
  let ?R = "R (stack @ [v])" and ?tx = "subcall_tx c info s"
  obtain e where push: "subcall_push v info stack = Inr (stack @ [v])"
    and run: "with_transaction_opts snapshot_ops [] (subcall_options ?tx) (subcall_body ?R c (tx_call ?tx)) s = (e, t)" "\<nexists>a. e = Ok a"
    using assms(3) by (auto simp: subcall_def Let_def bind_op_Panic_iff expect_op_iff return_op_def subcall_push_iff split: sum.splits)
  obtain s1 x u where s1: "state_init [] (subcall_options ?tx) (state_open snapshot_ops s) = Ok s1"
    and n: "nested s1 u" "child_of s u" and rng: "st_rng s1 \<noteq> None"
    and close: "with_transaction_opts snapshot_ops [] (subcall_options ?tx) (subcall_body ?R c (tx_call ?tx)) s = close_transaction snapshot_ops (level u) (x, u)"
    by (rule with_transaction_nested [OF subcall_body_steps [OF assms(1)] assms(2)])
  have "\<not> st_always_rollback u" using n(1) init_subcall(5) [OF s1] rng by (simp add: nested_def)
  have "t = s\<lparr>st_block_values := returned_block_values u, st_rng := returned_rng u\<rparr>"
  proof (cases x)
    case (Ok y)
    then show ?thesis using \<open>\<not> st_always_rollback u\<close> run close by (cases y) (auto simp: close_commit [OF n(2)] close_rollback [OF n(2)])
  qed (use run close in \<open>auto simp: close_err [OF n(2)] close_panic [OF n(2)]\<close>)
  moreover have "returned_block_values u = st_block_values s"
    using n rng init_subcall(2) [OF s1] by (simp add: nested_def returned_block_values_def)
  ultimately show ?thesis using push returned_rng_nested [OF n(1) rng] by auto
qed

text \<open>C11: a subcall happens only when every validator on the stack and its own agree and the stack is not too deep; otherwise it
  is an error and nothing happens. It runs as an internal transaction of its caller in a state of its own that starts from the
  caller's store. When it succeeds, the caller's state gains exactly the store, the messages and the events of that state; when it
  fails or panics, the caller's state is as it was, with its parents, block values, messages, events and environment; only the generator of
  random numbers may have moved. It reports at most the gas it was given.\<close>

theorem subcall_isolated:
  assumes "\<forall>m \<in> set (rt_modules (R (stack @ [v]))). call_steps True nested m" "st_rng s \<noteq> None" "subcall R c info v stack s = (r, t)"
  shows "case r of
      Err e \<Rightarrow> t = s \<and> ((\<exists>w \<in> set (stack @ [v]). w info = Inl e) \<or>
        e = Core_CallDepthExceeded (subcall_depth stack + 1) (sc_max_depth info) \<and> sc_max_depth info \<le> subcall_depth stack)
    | Ok res \<Rightarrow> (\<forall>w \<in> set (stack @ [v]). w info = Inr ()) \<and> subcall_depth stack < sc_max_depth info \<and> sr_gas_used res \<le> sc_max_gas info \<and>
        st_parents t = st_parents s \<and> st_block_values t = st_block_values s \<and> st_env t = st_env s \<and>
        (\<exists>s1 metadata w rng. st_env s1 = (st_env s)\<lparr>env_tx := Some (tx_with_meta_internal (subcall_tx c info s)), env_internal := True\<rparr> \<and>
           child_of s s1 \<and> st_store s1 = st_store s \<and> st_messages s1 = [] \<and> st_events s1 = fmempty \<and>
           dispatch_tx_call (R (stack @ [v])) c (tx_call (subcall_tx c info s)) default_dispatch_options s1 = (Ok (sr_call_result res, metadata), w) \<and>
           rng \<noteq> None \<and>
           t = (if res_is_success (sr_call_result res)
             then s\<lparr>st_store := st_store w, st_messages := st_messages s @ st_messages w, st_events := merge_events (st_events s) (st_events w),
               st_unconditional_events := merge_events (st_unconditional_events s) (st_unconditional_events w), st_rng := rng\<rparr>
             else s\<lparr>st_rng := rng\<rparr>))
    | Panic \<Rightarrow> (\<forall>w \<in> set (stack @ [v]). w info = Inr ()) \<and> subcall_depth stack < sc_max_depth info \<and> (\<exists>rng. rng \<noteq> None \<and> t = s\<lparr>st_rng := rng\<rparr>)"
proof (cases r)
  case (Ok res)
  have run: "subcall R c info v stack s = (Ok res, t)" using assms(3) Ok by simp
  show ?thesis
  proof (rule subcall_cases [OF assms(1,2) run])
    fix s1 metadata w gas u
    assume push: "subcall_push v info stack = Inr (stack @ [v])"
      and s1: "state_init [] (subcall_options (subcall_tx c info s)) (state_open snapshot_ops s) = Ok s1"
      and call: "dispatch_tx_call (R (stack @ [v])) c (tx_call (subcall_tx c info s)) default_dispatch_options s1 = (Ok (sr_call_result res, metadata), w)"
      and gas: "expect_op remaining_tx_gas w = (Ok gas :: (ub, u64) outcome, u)" "sr_gas_used res = saturating_sub (sc_max_gas info) gas"
      and n: "nested s1 u" "st_rng s1 \<noteq> None"
      and t: "t = (if res_is_success (sr_call_result res)
       then s\<lparr>st_store := st_store u, st_messages := st_messages s @ st_messages u,
          st_events := merge_events (st_events s) (st_events u),
          st_unconditional_events := merge_events (st_unconditional_events s) (st_unconditional_events u),
          st_block_values := returned_block_values u, st_rng := returned_rng u\<rparr>
       else s\<lparr>st_block_values := returned_block_values u, st_rng := returned_rng u\<rparr>)"
    have u: "st_store u = st_store w" "st_messages u = st_messages w" "st_events u = st_events w" "st_unconditional_events u = st_unconditional_events w"
      using gas(1) by (auto simp: expect_op_iff remaining_tx_gas_def Let_def set_used_tx_gas_def upd_local_def split: option.splits)
    have b: "returned_block_values u = st_block_values s"
      using n init_subcall(2) [OF s1] by (simp add: nested_def returned_block_values_def)
    have lim: "sr_gas_used res \<le> sc_max_gas info" using gas(2) by (auto simp: saturating_sub_def word_le_nat_alt unat_sub)
    have teq: "t = (if res_is_success (sr_call_result res)
       then s\<lparr>st_store := st_store w, st_messages := st_messages s @ st_messages w, st_events := merge_events (st_events s) (st_events w),
         st_unconditional_events := merge_events (st_unconditional_events s) (st_unconditional_events w), st_rng := returned_rng u\<rparr>
       else s\<lparr>st_rng := returned_rng u\<rparr>)"
      using t u b by simp
    have "\<exists>s1 metadata w rng. st_env s1 = (st_env s)\<lparr>env_tx := Some (tx_with_meta_internal (subcall_tx c info s)), env_internal := True\<rparr> \<and>
           child_of s s1 \<and> st_store s1 = st_store s \<and> st_messages s1 = [] \<and> st_events s1 = fmempty \<and>
           dispatch_tx_call (R (stack @ [v])) c (tx_call (subcall_tx c info s)) default_dispatch_options s1 = (Ok (sr_call_result res, metadata), w) \<and>
           rng \<noteq> None \<and>
           t = (if res_is_success (sr_call_result res)
             then s\<lparr>st_store := st_store w, st_messages := st_messages s @ st_messages w, st_events := merge_events (st_events s) (st_events w),
               st_unconditional_events := merge_events (st_unconditional_events s) (st_unconditional_events w), st_rng := rng\<rparr>
             else s\<lparr>st_rng := rng\<rparr>)"
      by (intro exI conjI) (fact init_subcall(4) [OF s1] child_of_init [OF s1] init_subcall(1,6,7) [OF s1] call returned_rng_nested [OF n] teq)+
    moreover have "st_parents t = st_parents s" "st_block_values t = st_block_values s" "st_env t = st_env s" using t b by simp_all
    moreover have "(\<forall>w \<in> set (stack @ [v]). w info = Inr ()) \<and> subcall_depth stack < sc_max_depth info" using push by (simp add: subcall_push_iff)
    ultimately show ?thesis unfolding Ok outcome.case using lim by blast
  qed
next
  case (Err e)
  have "subcall_push v info stack = Inl e \<and> t = s"
    using assms(3) Err by (auto simp: subcall_def Let_def bind_op_def expect_op_def return_op_def split: sum.splits prod.splits outcome.splits)
  then show ?thesis using Err subcall_push_Inl [of v info stack e] by auto
next
  case Panic
  then show ?thesis using subcall_panics [of R stack v s c info t] assms by (simp add: subcall_push_iff)
qed

theorem subcall_isolated_witness:
  "\<exists>res t. subcall (\<lambda>_. guarded_runtime) sample_ctx (sample_subcall (Caller_Address alice)) allow_all_validator [] sample_inside = (Ok res, t) \<and>
     res_is_success (sr_call_result res) \<and> st_block_values t = st_block_values sample_inside \<and> st_parents t = st_parents sample_inside"
proof -
  obtain res t where run: "subcall (\<lambda>_. guarded_runtime) sample_ctx (sample_subcall (Caller_Address alice)) allow_all_validator [] sample_inside = (Ok res, t)"
    "res_is_success (sr_call_result res)"
    using sample_subcall_run by blast
  from subcall_isolated [of "\<lambda>_. guarded_runtime", OF guarded_nested inside_rng run(1)] run show ?thesis by auto
qed













end
