(* ===== verification/Rofl_Properties.thy ===== *)
theory Rofl_Properties
  imports Rofl_Invariant Subcall_Properties
begin

text \<open>
  Properties of the ROFL module: its tables stay consistent, what expires, that stakes come back, what a registration proves,
  and for whom a call by an instance may act or make others pay.
\<close>

section \<open>Concrete values\<close>

text \<open>An application with one registration, which is due, in the middle of a transaction signed by the instance; the
  pool holds the stake.\<close>

definition sample_app :: app_id where "sample_app = replicate 21 5"

definition sample_policy :: app_auth_policy where
  "sample_policy = \<lparr>pol_quotes = [], pol_enclaves = [[1]], pol_endorsements = [Endorse_And [Endorse_Any, Endorse_Node [7]]], pol_fees = EndorsingNodePays,
     pol_max_expiration = 10\<rparr>"

definition sample_app_config :: app_config where
  "sample_app_config = \<lparr>app_id_of = sample_app, app_policy = sample_policy, app_admin = Some sample_payer, app_stake = BaseUnits 1000 NATIVE,
     app_metadata = fmempty, app_secrets = fmempty, app_sek = default_sek\<rparr>"

definition sample_registration :: registration where
  "sample_registration = \<lparr>reg_app = sample_app, reg_node_id = [7], reg_entity_id = None, reg_rak = [9], reg_rek = [8], reg_expiration = 3,
     reg_extra_keys = [], reg_metadata = fmempty\<rparr>"

abbreviation sample_hrak :: bytes where "sample_hrak \<equiv> hash_rak sample_ctx [9]"

definition sample_registry :: rofl_storage where
  "sample_registry = \<lparr>ro_apps = fmupd sample_app sample_app_config fmempty, ro_registrations = fmupd (sample_app, sample_hrak) sample_registration fmempty,
     ro_endorsers = fmupd sample_hrak (Stored_Info (kei_for_rak [7] sample_app)) fmempty, ro_expirations = fmupd (3, sample_app, sample_hrak) () fmempty\<rparr>"

abbreviation sample_pool :: address where "sample_pool \<equiv> ADDRESS_APP_STAKE_POOL sample_ctx"

definition sample_hosting :: "(unit, unit) sdk_state" where
  "sample_hosting = upd_rofl (\<lambda>_. sample_registry) (put_supply NATIVE 1000 (put_balance sample_pool NATIVE 1000
     ((root_state empty_storage Execute)\<lparr>st_env := sample_tx_env\<rparr>)))"

definition sample_ect :: endorsed_capability where
  "sample_ect = \<lparr>ect_rak = [9], ect_rek = Some [8], ect_node = [7], ect_rest = []\<rparr>"

definition sample_register :: rofl_register where
  "sample_register = \<lparr>rg_app = sample_app, rg_ect = sample_ect, rg_expiration = 6, rg_extra_keys = [], rg_metadata = fmempty\<rparr>"

definition sample_rofl_deps :: rofl_deps where
  "sample_rofl_deps = \<lparr>rd_key_pair_id = concat, rd_key_manager = Some (\<lambda>_. Inr \<lparr>kp_state_key = [1], kp_sk = [2], kp_pk = [3]\<rparr>), rd_encode_dom = (\<lambda>_. []),
     rd_verify = (\<lambda>ect _. Some ([1], Some (ect_node ect))), rd_verify_endorsement = (\<lambda>_. Inr ()), rd_node_address = (\<lambda>_. alice),
     rd_registry = \<lparr>rv_node = (\<lambda>_. Inr None), rv_is_compute_worker = (\<lambda>_. True), rv_is_observer = (\<lambda>_. False), rv_has_runtime = (\<lambda>_. True)\<rparr>\<rparr>"

definition sample_rofl_config :: "'s rofl_config" where
  "sample_rofl_config = \<lparr>rc_gas_create = 0, rc_gas_update = 0, rc_gas_remove = 0, rc_gas_register = 0, rc_gas_is_authorized_origin = 0,
     rc_gas_authorized_origin_node = 0, rc_gas_authorized_origin_entity = 0, rc_gas_origin_app = 0, rc_gas_stake_thresholds = 0, rc_gas_derive_key = 0,
     rc_max_metadata_pairs = 64, rc_max_metadata_key_size = 1024, rc_max_metadata_value_size = 16384, rc_stake_app_create = BaseUnits 0 NATIVE,
     rc_derive_key_max_key_id_length = 128, rc_max_endorsement_policy_atoms = 64, rc_max_policy_expiration_epochs = 100,
     rc_verify_atom = basic_verify_atom (rd_registry sample_rofl_deps)\<rparr>"

definition sample_rofl_codecs :: rofl_codecs where
  "sample_rofl_codecs = \<lparr>rk_create = (\<lambda>_. None), rk_update = (\<lambda>_. None), rk_app_id = (\<lambda>_. Some sample_app), rk_register = (\<lambda>_. Some sample_register),
     rk_derive_key = (\<lambda>_. None), rk_app_instance = (\<lambda>_. None), rk_of_app_id = Cbor_ByteString, rk_of_key = Cbor_ByteString, rk_of_bool = (\<lambda>_. Cbor_Null),
     rk_of_node = Cbor_ByteString, rk_of_entity = (\<lambda>_. Cbor_Null), rk_of_app = (\<lambda>_. Cbor_Null), rk_of_apps = (\<lambda>_. Cbor_Null), rk_of_registration = (\<lambda>_. Cbor_Null),
     rk_of_registrations = (\<lambda>_. Cbor_Null), rk_of_stake = (\<lambda>_. Cbor_Null), rk_of_limits = (\<lambda>_. Cbor_Null), rk_show = (\<lambda>_. [])\<rparr>"

abbreviation sample_rofl_module :: "(unit, unit) sdk_state module_ops" where
  "sample_rofl_module \<equiv> rofl_module sample_core_config sample_ctx sample_codecs sample_rofl_codecs sample_rofl_deps sample_rofl_config []"

lemma hosting_simps [simp]:
  "rofl_of sample_hosting = sample_registry" "st_env sample_hosting = sample_tx_env" "st_parents sample_hosting = []"
  "balance_of sample_hosting a d = (if a = sample_pool \<and> d = NATIVE then 1000 else 0)" "used_tx_gas sample_hosting = 0" "used_batch_gas sample_hosting = 0"
  by (simp_all add: sample_hosting_def set_app_frame acc_simps)
    (simp_all add: upd_rofl_def upd_store_def put_supply_def put_balance_def root_state_def empty_storage_def balance_of_def used_tx_gas_def used_batch_gas_def
      default_block_values_ext_def default_local_values_ext_def)

lemma hosting_inv: "rofl_inv sample_ctx sample_hosting"
proof -
  have "accounts_inv sample_hosting"
    by (simp add: accounts_inv_def circulating_def total_balance_def supply_of_def sample_hosting_def upd_rofl_def upd_store_def put_supply_def put_balance_def
        root_state_def empty_storage_def fee_manager_now_def default_block_values_ext_def fee_manager_inv_new fm_total_def)
  moreover have "registry_ok sample_ctx sample_registry"
    by (auto simp: registry_ok_def sample_registry_def sample_registration_def endorser_ok_def backed_def kei_for_rak_def)
  ultimately show ?thesis
    by (auto simp: rofl_inv_def sample_registry_def covers_def stakes_owed_def owing_def sample_app_config_def units_of_def)
qed

section \<open>The invariant\<close>

text \<open>C13: every call of the module, whatever its outcome, and the end of a block keep the module's invariant: the queue of
  expirations lists exactly the registrations, registrations are filed under their application and the hash of their attestation key,
  every endorsed key is backed by a registration that has it, and the pool holds the stakes of all applications, as long as the pool itself
  is not the caller.\<close>

theorem rofl_invariant_kept:
  assumes "rofl_inv c s" "tx_caller_address (ctx_deps c) (st_env s) \<noteq> Some (ADDRESS_APP_STAKE_POOL c)"
  shows "rofl_inv c (snd (mo_dispatch_call (rofl_module cc c K kr D cfg genesis) meth body s)) \<and>
    rofl_inv c (snd (mo_end_block (rofl_module cc c K kr D cfg genesis) s))"
proof -
  have "rofl_kept c s (snd (mo_dispatch_call (rofl_module cc c K kr D cfg genesis) meth body s))"
    by (rule stepsD [OF dispatch_kept]) (auto simp: prod_eq_iff)
  moreover have "steps True (rofl_kept c) (mo_end_block (rofl_module cc c K kr D cfg genesis))" by (simp add: rofl_module_def end_block_kept)
  then have "rofl_kept c s (snd (mo_end_block (rofl_module cc c K kr D cfg genesis) s))" by (rule stepsD) (auto simp: prod_eq_iff)
  ultimately show ?thesis using assms unfolding rofl_kept_def by blast
qed

lemma payer_not_pool: "sample_payer \<noteq> sample_pool"
proof -
  have "hd (tl (address_bytes sample_payer)) \<noteq> hd (tl (address_bytes sample_pool))"
    by (simp add: sample_payer_def ADDRESS_APP_STAKE_POOL_def address_from_module_def address_from_module_raw_def address_new_def Let_def Abs_address_inverse sample_ctx_def sample_deps_def
      ADDRESS_DATA_SIZE_def ADDRESS_V0_VERSION_def ascii_def ADDRESS_V0_MODULE_CONTEXT_def)
  then show ?thesis by auto
qed

theorem rofl_invariant_kept_witness:
  "rofl_inv sample_ctx (snd (mo_dispatch_call sample_rofl_module ''rofl.Remove'' Cbor_Null sample_hosting)) \<and>
   rofl_inv sample_ctx (snd (mo_end_block sample_rofl_module sample_hosting))"
proof -
  have "tx_caller_address (ctx_deps sample_ctx) (st_env sample_hosting) \<noteq> Some sample_pool"
    using sample_caller payer_not_pool by (simp add: sample_ctx_def)
  from rofl_invariant_kept [OF hosting_inv this] show ?thesis .
qed

section \<open>Expiration\<close>

text \<open>C21: expiring registrations removes, of those whose expiration is not after the epoch, as many as the limit allows, the
  earliest first, and no other; once all of them fit under the limit none is left.\<close>

theorem rofl_expiration:
  assumes "registry_ok c (rofl_of s)"
  shows "let t = expire_registrations c epoch limit s in
    \<exists>gone \<subseteq> due_registrations epoch s. card gone = min limit (card (due_registrations epoch s)) \<and>
      (\<forall>k. fmlookup (ro_registrations (rofl_of t)) k = (if k \<in> gone then None else fmlookup (ro_registrations (rofl_of s)) k)) \<and>
      (\<forall>k \<in> gone. \<forall>k' \<in> due_registrations epoch s - gone. expiration_of s k \<le> expiration_of s k') \<and>
      (card (due_registrations epoch s) \<le> limit \<longrightarrow> due_registrations epoch t = {})"
proof -
  let ?gone = "set (take limit (due_queue epoch s))" and ?due = "due_registrations epoch s" and ?t = "expire_registrations c epoch limit s"
  note queue = due_queue [OF assms, of epoch]
  have "?gone \<subseteq> ?due" using set_take_subset queue(1) by metis
  moreover have card: "card ?due = length (due_queue epoch s)" unfolding queue(1) [symmetric] by (rule distinct_card [OF queue(2)])
  then have "card ?gone = min limit (card ?due)" using distinct_card [OF distinct_take [OF queue(2), of limit]] by simp
  moreover have look: "fmlookup (ro_registrations (rofl_of ?t)) k = (if k \<in> ?gone then None else fmlookup (ro_registrations (rofl_of s)) k)" for k
    unfolding expire_registrations_def remove_registrations_lookup by (simp add: expired_registrations_def due_queue_def)
  moreover have "expiration_of s k \<le> expiration_of s k'" if "k \<in> ?gone" "k' \<in> ?due - ?gone" for k k'
  proof -
    have "k' \<in> set (drop limit (due_queue epoch s))" using that(2) queue(1) set_append [of "take limit (due_queue epoch s)" "drop limit (due_queue epoch s)"]
      by auto
    moreover have "sorted (map (expiration_of s) (take limit (due_queue epoch s)) @ map (expiration_of s) (drop limit (due_queue epoch s)))"
      using queue(3) by (metis append_take_drop_id map_append)
    ultimately show ?thesis using that(1) by (auto simp: sorted_append)
  qed
  moreover have "due_registrations epoch ?t = {}" if "card ?due \<le> limit"
  proof -
    have "?gone = ?due" using that card queue(1) by simp
    then show ?thesis unfolding due_registrations_def look by auto
  qed
  ultimately show ?thesis unfolding Let_def by blast
qed

theorem rofl_expiration_witness:
  "due_registrations 3 sample_hosting = {(sample_app, sample_hrak)} \<and> due_registrations 3 (expire_registrations sample_ctx 3 128 sample_hosting) = {}"
proof -
  have due: "due_registrations 3 sample_hosting = {(sample_app, sample_hrak)}"
    by (auto simp: due_registrations_def sample_registry_def sample_registration_def split: if_splits)
  have "registry_ok sample_ctx (rofl_of sample_hosting)" using hosting_inv by (simp add: rofl_inv_def)
  from rofl_expiration [OF this, of 3 128] due show ?thesis by (auto simp: Let_def)
qed

section \<open>Stakes\<close>

text \<open>Gas is counted outside of what the module looks at.\<close>

interpretation view_step: step_rel "\<lambda>s t. rofl_view t = rofl_view s"
  by unfold_locales auto

interpretation view_gas: gas_rel "\<lambda>s t. rofl_view t = rofl_view s"
  by unfold_locales simp_all

lemma rofl_gas_view: "rofl_gas cc gas s = (r, t) \<Longrightarrow> rofl_view t = rofl_view s"
  unfolding rofl_gas_def by (rule stepsD [OF view_step.steps_map_err [OF view_gas.uses_tx_gas]]) auto

text \<open>C20: the administrator of an application can always remove it, gas apart, and gets exactly its stake back from the pool.\<close>

theorem stake_returned:
  assumes "rofl_inv c s" "\<not> is_check_only (st_env s)" "rofl_get_app app s = Some a" "app_admin a = Some admin"
    "tx_caller_address (ctx_deps c) (st_env s) = Some admin" "rofl_gas cc (rc_gas_remove cfg) s = (Ok (), u)"
  shows "\<exists>t. rofl_tx_remove cc c cfg app s = (Ok (), t) \<and> rofl_get_app app t = None \<and> rofl_inv c t \<and>
    moved (balances_nat s) (ADDRESS_APP_STAKE_POOL c) admin (app_stake a) (balances_nat t)"
proof -
  note u = rofl_view_eq [OF rofl_gas_view [OF assms(6)]]
  have "rofl_inv c u" "\<not> is_check_only (st_env u)" and app: "rofl_get_app app u = Some a" using assms u by (simp_all add: rofl_get_app_def)
  from rofl_inv_remove_app [OF this, of admin] obtain v where v: "transfer (ADDRESS_APP_STAKE_POOL c) admin (app_stake a) (rofl_remove_app app u) = (Ok (), v)"
    "rofl_inv c v" "rofl_of v = (rofl_of u)\<lparr>ro_apps := fmdrop app (ro_apps (rofl_of u))\<rparr>"
    "moved (balances_nat u) (ADDRESS_APP_STAKE_POOL c) admin (app_stake a) (balances_nat v)" by blast
  let ?t = "emit_event_raw (sdk_event_key (Ev_AppRemoved app)) (Ev_AppRemoved app) v"
  have "rofl_tx_remove cc c cfg app s = (Ok (), ?t)"
    using assms u app v(1) by (simp add: rofl_tx_remove_def seq_op_def bind_op_def op_simps ensure_caller_is_admin_def caller_op_def unless_check_def map_err_op_def emit_event_def)
  moreover note t = rofl_view_eq [of ?t v, OF rofl_view_simps(4)]
  ultimately show ?thesis using v u t(1,2,5) by (auto simp: rofl_get_app_def)
qed

theorem stake_returned_witness:
  "\<exists>t. rofl_tx_remove sample_core_config sample_ctx sample_rofl_config sample_app sample_hosting = (Ok (), t) \<and> rofl_get_app sample_app t = None \<and>
     unat (balance_of t sample_payer NATIVE) = 1000"
proof -
  have "rofl_gas sample_core_config (rc_gas_remove (sample_rofl_config :: (unit, unit) sdk_state rofl_config)) sample_hosting = (Ok (), metered sample_hosting)"
    using free_gas [of sample_hosting] by (simp add: rofl_gas_def map_err_op_def sample_rofl_config_def env_auth_info_def)
  moreover have "rofl_get_app sample_app sample_hosting = Some sample_app_config" by (simp add: rofl_get_app_def sample_registry_def)
  moreover have "app_admin sample_app_config = Some sample_payer" by (simp add: sample_app_config_def)
  moreover have "tx_caller_address (ctx_deps sample_ctx) (st_env sample_hosting) = Some sample_payer" using sample_caller by (simp add: sample_ctx_def)
  ultimately obtain t where t: "rofl_tx_remove sample_core_config sample_ctx sample_rofl_config sample_app sample_hosting = (Ok (), t)"
    "rofl_get_app sample_app t = None" "moved (balances_nat sample_hosting) sample_pool sample_payer (app_stake sample_app_config) (balances_nat t)"
    using stake_returned [OF hosting_inv] by (fastforce simp: is_check_only_def)
  have "unat (balance_of t sample_payer NATIVE) = 1000"
    using t(3) payer_not_pool unfolding moved_def by (auto simp: sample_app_config_def units_of_def dest!: spec [of _ sample_payer] spec [of _ NATIVE])
  then show ?thesis using t by blast
qed

section \<open>Registrations\<close>

lemma update_registration_stored:
  assumes "update_registration c reg s = (Ok (), t)"
  shows "get_registration c (reg_app reg) (reg_rak reg) t = Some reg"
    "\<exists>kei. get_endorser c (Pk_Ed25519 (reg_rak reg)) t = Some kei \<and> kei_app_id kei = reg_app reg \<and> kei_node_id kei = reg_node_id reg"
  using assms
  by (auto simp: update_registration_def Let_def get_registration_def get_registration_hrak_def get_endorser_def endorse_keys_lookup hash_rak_def kei_for_rak_def
      kei_for_extra_key_def split: option.splits if_splits)

lemma verify_registration_Inr:
  assumes "verify_registration D c cfg policy body s = Inr (node_id, node)"
  shows "\<exists>identity. rd_verify D (rg_ect body) (pol_quotes policy) = Some (identity, node_id) \<and> identity \<in> set (pol_enclaves policy)"
    "endorsing_node (rd_registry D) c (ect_node (rg_ect body)) = Inr node"
    "policy_validate cfg' policy = Inr () \<Longrightarrow>
       list_ex (endorsement_holds (\<lambda>atom. rc_verify_atom cfg atom (rg_ect body) (ect_node (rg_ect body)) node (rg_metadata body) s = Inr ())) (pol_endorsements policy)"
proof -
  show "\<exists>identity. rd_verify D (rg_ect body) (pol_quotes policy) = Some (identity, node_id) \<and> identity \<in> set (pol_enclaves policy)"
    "endorsing_node (rd_registry D) c (ect_node (rg_ect body)) = Inr node"
    using assms by (auto simp: verify_registration_def policy_verify_def bind_result_def ok_or_def split: option.splits sum.splits prod.splits if_splits)
  have "verify_atoms (\<lambda>atom. rc_verify_atom cfg atom (rg_ect body) (ect_node (rg_ect body)) node (rg_metadata body) s) Op_Or (pol_endorsements policy)
      MAX_ENDORSEMENT_POLICY_DEPTH = Inr ()"
    using assms by (auto simp: verify_registration_def policy_verify_def bind_result_def ok_or_def split: option.splits sum.splits prod.splits if_splits)
  then show "list_ex (endorsement_holds (\<lambda>atom. rc_verify_atom cfg atom (rg_ect body) (ect_node (rg_ect body)) node (rg_metadata body) s = Inr ()))
      (pol_endorsements policy)" if "policy_validate cfg' policy = Inr ()"
    using valid_policy_verified [OF that] by simp
qed

text \<open>C14: a registration that succeeds outside of checks is for a known application and within the lifetime its policy allows, is
  signed by the attestation key and every extra key, and comes from an enclave of the policy whose endorsement satisfies the policy, read
  as the disjunction of its conditions when the policy passed validation; it is then stored, and its attestation key is endorsed for the
  application by the node that was verified.\<close>

theorem registration_authentic:
  assumes "rofl_tx_register cc c D cfg body s = (Ok (), t)" "\<not> is_check_only (st_env s)"
  shows "\<exists>app ai identity node_id node rek u kei. rofl_get_app (rg_app body) s = Some app \<and>
    ctx_epoch c < rg_expiration body \<and> rg_expiration body - ctx_epoch c \<le> pol_max_expiration (app_policy app) \<and>
    env_auth_info (st_env s) = Some ai \<and> insert (Pk_Ed25519 (ect_rak (rg_ect body))) (set (rg_extra_keys body)) \<subseteq> signer_public_keys ai \<and>
    rd_verify D (rg_ect body) (pol_quotes (app_policy app)) = Some (identity, Some node_id) \<and> identity \<in> set (pol_enclaves (app_policy app)) \<and>
    rofl_gas cc (rc_gas_register cfg) s = (Ok (), u) \<and> endorsing_node (rd_registry D) c (ect_node (rg_ect body)) = Inr node \<and>
    (policy_validate cfg (app_policy app) = Inr () \<longrightarrow>
       list_ex (endorsement_holds (\<lambda>atom. rc_verify_atom cfg atom (rg_ect body) (ect_node (rg_ect body)) node (rg_metadata body) u = Inr ()))
         (pol_endorsements (app_policy app))) \<and>
    get_registration c (rg_app body) (ect_rak (rg_ect body)) t = Some \<lparr>reg_app = rg_app body, reg_node_id = node_id,
      reg_entity_id = map_option node_entity_id node, reg_rak = ect_rak (rg_ect body), reg_rek = rek, reg_expiration = rg_expiration body,
      reg_extra_keys = rg_extra_keys body, reg_metadata = rg_metadata body\<rparr> \<and>
    get_endorser c (Pk_Ed25519 (ect_rak (rg_ect body))) t = Some kei \<and> kei_app_id kei = rg_app body \<and> kei_node_id kei = node_id"
proof -
  obtain u where u: "rofl_gas cc (rc_gas_register cfg) s = (Ok (), u)" using assms(1) by (auto simp: rofl_tx_register_def seq_op_def bind_op_Ok_iff)
  note view = rofl_view_eq [OF rofl_gas_view [OF u]]
  obtain app ai node_id node rek v where
    guards: "ctx_epoch c < rg_expiration body" "rofl_get_app (rg_app body) u = Some app"
      "rg_expiration body - ctx_epoch c \<le> pol_max_expiration (app_policy app)" "env_auth_info (st_env u) = Some ai"
      "insert (Pk_Ed25519 (ect_rak (rg_ect body))) (set (rg_extra_keys body)) \<subseteq> signer_public_keys ai"
    and verified: "verify_registration D c cfg (app_policy app) body u = Inr (Some node_id, node)"
    and stored: "update_registration c \<lparr>reg_app = rg_app body, reg_node_id = node_id, reg_entity_id = map_option node_entity_id node,
        reg_rak = ect_rak (rg_ect body), reg_rek = rek, reg_expiration = rg_expiration body, reg_extra_keys = rg_extra_keys body,
        reg_metadata = rg_metadata body\<rparr> u = (Ok (), v)"
    and t: "rofl_of t = rofl_of v"
    using assms u view(4)
    by (auto simp: rofl_tx_register_def seq_op_def bind_op_Ok_iff Let_def unless_check_def list_all_iff intro: that split: if_splits)
  have "rofl_get_app (rg_app body) s = Some app" "env_auth_info (st_env s) = Some ai" using guards view by (simp_all add: rofl_get_app_def)
  moreover have "get_registration c a k t = get_registration c a k v" "get_endorser c pk t = get_endorser c pk v" for a k pk
    by (simp_all add: get_registration_def get_registration_hrak_def get_endorser_def t)
  moreover note update_registration_stored [OF stored] verify_registration_Inr [OF verified] guards(1,3,5) u
  ultimately show ?thesis by (simp add: ex_simps(1) cong: conj_cong) blast
qed

lemma register_simps:
  "rg_app sample_register = sample_app" "rg_ect sample_register = sample_ect" "rg_expiration sample_register = 6" "rg_extra_keys sample_register = []"
  "rg_metadata sample_register = fmempty" "ect_rak sample_ect = [9]" "ect_rek sample_ect = Some [8]" "ctx_epoch sample_ctx = 3"
  "check_pairs sample_rofl_config fmempty = Inr ()" "pol_max_expiration sample_policy = 10" "\<not> is_check_only sample_tx_env"
  "signer_public_keys (tx_auth_info sample_free_tx) = {Pk_Ed25519 [9]}"
  by (simp_all add: sample_register_def sample_ect_def sample_ctx_def check_pairs_def sample_policy_def is_check_only_def signer_public_keys_def free_tx_auth
      List.map_filter_def fm_entries_def fcard_fempty sorted_list_of_fset.rep_eq address_spec_public_key_def)

theorem registration_authentic_witness:
  "\<exists>t kei. rofl_tx_register sample_core_config sample_ctx sample_rofl_deps sample_rofl_config sample_register sample_hosting = (Ok (), t) \<and>
     get_endorser sample_ctx (Pk_Ed25519 [9]) t = Some kei \<and> kei_app_id kei = sample_app \<and>
     (\<exists>reg. get_registration sample_ctx sample_app [9] t = Some reg \<and> reg_expiration reg = 6)"
proof -
  have gas: "rofl_gas sample_core_config (rc_gas_register (sample_rofl_config :: (unit, unit) sdk_state rofl_config)) sample_hosting = (Ok (), metered sample_hosting)"
    using free_gas [of sample_hosting] by (simp add: rofl_gas_def map_err_op_def sample_rofl_config_def env_auth_info_def)
  have m: "rofl_view (metered sample_hosting) = rofl_view sample_hosting" by (rule rofl_gas_view [OF gas])
  have "verify_registration sample_rofl_deps sample_ctx sample_rofl_config sample_policy sample_register (metered sample_hosting) = Inr (Some [7], None)"
    by (simp add: verify_registration_def policy_verify_def bind_result_def ok_or_def sample_rofl_deps_def sample_policy_def endorsing_node_def
        sample_register_def sample_ect_def sample_rofl_config_def basic_verify_atom_def verify_atoms.simps MAX_ENDORSEMENT_POLICY_DEPTH_def)
  then have "\<exists>t. rofl_tx_register sample_core_config sample_ctx sample_rofl_deps sample_rofl_config sample_register sample_hosting = (Ok (), t)"
    using gas rofl_view_eq(1,4) [OF m]
    by (simp add: register_simps rofl_tx_register_def seq_op_def bind_op_def op_simps unless_check_def result_op_def Let_def rofl_get_app_def
        sample_registry_def sample_app_config_def env_auth_info_def update_registration_def get_registration_hrak_def sample_registration_def)
  then obtain t where t: "rofl_tx_register sample_core_config sample_ctx sample_rofl_deps sample_rofl_config sample_register sample_hosting = (Ok (), t)" by blast
  from registration_authentic [OF this] t show ?thesis by (auto simp: is_check_only_def sample_register_def sample_ect_def)
qed

section \<open>Instances as callers\<close>

text \<open>Whoever is endorsed has a registration: of the application that the endorsement names, unless it is a legacy entry, which
  names none and counts as one for the default identifier.\<close>

lemma endorser_backed:
  assumes "registry_ok c (rofl_of s)" "get_endorser c pk s = Some kei"
  shows "\<exists>app. backed c (ro_registrations (rofl_of s)) (hash_pk c pk) (kei\<lparr>kei_app_id := app\<rparr>) \<and>
    (app = kei_app_id kei \<or> kei_app_id kei = default_app_id \<and>
       (\<exists>node_id rak. fmlookup (ro_endorsers (rofl_of s)) (hash_pk c pk) = Some (Stored_Legacy node_id rak)))"
proof -
  obtain e where e: "fmlookup (ro_endorsers (rofl_of s)) (hash_pk c pk) = Some e" "kei = kei_of_stored e" using assms(2) by (auto simp: get_endorser_def)
  then have ok: "endorser_ok c (ro_registrations (rofl_of s)) (hash_pk c pk) e" using assms(1) by (simp add: registry_ok_def)
  show ?thesis
  proof (cases e)
    case (Stored_Info k)
    then show ?thesis using e(2) ok by (intro exI [of _ "kei_app_id kei"]) (simp add: endorser_ok_def)
  next
    case (Stored_Legacy node_id rak)
    then show ?thesis using e ok by (auto simp: endorser_ok_def)
  qed
qed

text \<open>C22: a call counts as coming from an instance of an application only if the first signer of the origin of the call is the
  attestation key or an extra key of a stored registration, and the application has a stored registration under the same attestation key;
  this holds for legacy endorsements too. Where the end of a block has left no registration whose expiration is reached, neither of the two
  has expired.\<close>

theorem origin_registered:
  assumes "registry_ok c (rofl_of s)" "get_origin_registration c app s = (Ok (Some reg), t)"
  shows "t = s \<and> get_registration c app (reg_rak reg) s = Some reg \<and> reg_app reg = app \<and>
    (\<exists>pk app' reg'. tx_caller_public_key (env_origin s) = Some (Some pk) \<and>
       fmlookup (ro_registrations (rofl_of s)) (app', hash_rak c (reg_rak reg)) = Some reg' \<and> reg_app reg' = app' \<and>
       hash_pk c pk \<in> insert (hash_rak c (reg_rak reg')) (hash_pk c ` set (reg_extra_keys reg')) \<and>
       (\<forall>epoch. due_registrations epoch s = {} \<longrightarrow> epoch < reg_expiration reg \<and> epoch < reg_expiration reg'))"
proof -
  obtain pk kei k where pk: "tx_caller_public_key (env_origin s) = Some (Some pk)" "get_endorser c pk s = Some kei"
    "case kei_rak kei of Some rak \<Rightarrow> k = rak | None \<Rightarrow> pk = Pk_Ed25519 k"
    and reg: "get_registration c app k s = Some reg"
    using assms(2) by (auto simp: get_origin_registration_def get_origin_rak_def bind_op_Ok_iff op_simps core_public_key_def intro: that split: option.splits public_key.splits)
  have t: "t = s" by (rule silentD [OF silent_handlers(6) assms(2)])
  have key: "reg_app reg = app" "hash_rak c (reg_rak reg) = hash_rak c k"
    using reg assms(1) by (auto simp: get_registration_def get_registration_hrak_def registry_ok_def)
  obtain app' reg' where reg': "fmlookup (ro_registrations (rofl_of s)) (app', hash_rak c k) = Some reg'"
    "hash_pk c pk \<in> insert (hash_rak c k) (hash_pk c ` set (reg_extra_keys reg'))"
    using endorser_backed [OF assms(1) pk(2)] pk(3) by (auto simp: backed_def hash_rak_def split: option.splits)
  have "reg_app reg' = app'" "hash_rak c (reg_rak reg') = hash_rak c k" using reg'(1) assms(1) by (auto simp: registry_ok_def)
  moreover have "epoch < reg_expiration r" if "due_registrations epoch s = {}" "fmlookup (ro_registrations (rofl_of s)) x = Some r" for epoch x r
    using that unfolding due_registrations_def by (metis (mono_tags, lifting) empty_Collect_eq not_le)
  ultimately have "\<exists>app' reg'. fmlookup (ro_registrations (rofl_of s)) (app', hash_rak c k) = Some reg' \<and> reg_app reg' = app' \<and>
      hash_pk c pk \<in> insert (hash_rak c (reg_rak reg')) (hash_pk c ` set (reg_extra_keys reg')) \<and>
      (\<forall>epoch. due_registrations epoch s = {} \<longrightarrow> epoch < reg_expiration reg \<and> epoch < reg_expiration reg')"
    using reg' reg unfolding get_registration_def get_registration_hrak_def by metis
  then show ?thesis using pk(1) reg key t by (simp add: get_registration_def)
qed

lemma hosting_endorser: "get_endorser sample_ctx (Pk_Ed25519 [9]) sample_hosting = Some (kei_for_rak [7] sample_app)"
  by (simp add: get_endorser_def sample_registry_def hash_rak_def)

lemma hosting_tables: "registry_ok sample_ctx (rofl_of sample_hosting)"
  using hosting_inv by (auto simp: rofl_inv_def)

text \<open>The same registration with a legacy endorsement, which names no application.\<close>

definition sample_legacy :: "(unit, unit) sdk_state" where
  "sample_legacy = upd_rofl (\<lambda>r. r\<lparr>ro_endorsers := fmupd sample_hrak (Stored_Legacy [7] None) fmempty\<rparr>) sample_hosting"

lemma legacy_simps:
  "registry_ok sample_ctx (rofl_of sample_legacy)" "st_env sample_legacy = sample_tx_env" "st_parents sample_legacy = []"
  "ro_registrations (rofl_of sample_legacy) = ro_registrations sample_registry"
  "get_endorser sample_ctx (Pk_Ed25519 [9]) sample_legacy = Some \<lparr>kei_node_id = [7], kei_rak = None, kei_app_id = default_app_id\<rparr>"
proof -
  show "registry_ok sample_ctx (rofl_of sample_legacy)"
    by (auto simp: sample_legacy_def registry_ok_def sample_registry_def sample_registration_def endorser_ok_def backed_def split: if_splits)
  show "st_env sample_legacy = sample_tx_env" "st_parents sample_legacy = []"
    using hosting_simps(2,3) by (simp_all add: sample_legacy_def upd_rofl_def upd_store_def)
  show "ro_registrations (rofl_of sample_legacy) = ro_registrations sample_registry"
    "get_endorser sample_ctx (Pk_Ed25519 [9]) sample_legacy = Some \<lparr>kei_node_id = [7], kei_rak = None, kei_app_id = default_app_id\<rparr>"
    by (simp_all add: sample_legacy_def get_endorser_def hash_rak_def)
qed

lemma sample_tx_caller_key: "tx_caller_public_key sample_tx_env = Some (Some (Pk_Ed25519 [9]))"
  by (simp add: tx_caller_public_key_def env_auth_info_def first_signer_def free_tx_auth address_spec_public_key_def)

theorem origin_registered_witness:
  "get_origin_registration sample_ctx sample_app sample_hosting = (Ok (Some sample_registration) :: (ub, registration option) outcome, sample_hosting) \<and>
   get_origin_registration sample_ctx sample_app sample_legacy = (Ok (Some sample_registration) :: (ub, registration option) outcome, sample_legacy) \<and>
   get_registration sample_ctx sample_app [9] sample_hosting = Some sample_registration \<and>
   get_registration sample_ctx sample_app [9] sample_legacy = Some sample_registration"
proof -
  have run: "get_origin_registration sample_ctx sample_app sample_hosting = (Ok (Some sample_registration) :: (ub, registration option) outcome, sample_hosting)"
    by (simp add: get_origin_registration_def get_origin_rak_def bind_op_def op_simps env_origin_def hosting_endorser kei_for_rak_def core_public_key_def
        get_registration_def get_registration_hrak_def sample_registry_def sample_tx_caller_key)
  have legacy: "get_origin_registration sample_ctx sample_app sample_legacy = (Ok (Some sample_registration) :: (ub, registration option) outcome, sample_legacy)"
    by (simp add: get_origin_registration_def get_origin_rak_def bind_op_def op_simps env_origin_def legacy_simps core_public_key_def
        get_registration_def get_registration_hrak_def sample_registry_def sample_tx_caller_key)
  have "reg_rak sample_registration = [9]" by (simp add: sample_registration_def)
  then show ?thesis
    using origin_registered [OF hosting_tables run] origin_registered [OF legacy_simps(1) legacy] run legacy by simp
qed

text \<open>C23: the module names another payer for the fees of a transaction only when the fee's proxy is an application whose endorsing
  nodes pay, and then it is the node that endorsed the first signer: by a stored registration of that application, or, when the transaction registers
  an instance that has not expired, by the endorsement that it carries and that was verified. A legacy endorsement, which names no
  application, counts only for an application with the default identifier.\<close>

theorem payer_endorsed:
  assumes "registry_ok c (rofl_of s)" "rofl_resolve_payer c D dec tx s = (Ok (Some a), t)"
  shows "\<exists>proxy app cfg pk. fee_proxy_of (ai_fee (tx_auth_info tx)) = Some proxy \<and> fp_module proxy = ''rofl'' \<and> fp_id proxy = app \<and>
    rofl_get_app app s = Some cfg \<and> pol_fees (app_policy cfg) = EndorsingNodePays \<and>
    (case first_signer (tx_auth_info tx) of Some si \<Rightarrow> address_spec_public_key (si_address_spec si) | None \<Rightarrow> None) = Some pk \<and>
    (if call_method (tx_call tx) = ''rofl.Register''
     then \<exists>body. dec (call_body (tx_call tx)) = Some body \<and> rg_app body = app \<and> ctx_epoch c < rg_expiration body \<and>
       pk = Pk_Ed25519 (ect_rak (rg_ect body)) \<and> rd_verify_endorsement D (rg_ect body) = Inr () \<and> a = rd_node_address D (ect_node (rg_ect body))
     else \<exists>app' reg h. fmlookup (ro_registrations (rofl_of s)) (app', h) = Some reg \<and> a = rd_node_address D (reg_node_id reg) \<and>
       hash_pk c pk \<in> insert h (hash_pk c ` set (reg_extra_keys reg)) \<and>
       (app' = app \<or> app = default_app_id \<and> (\<exists>node_id rak. fmlookup (ro_endorsers (rofl_of s)) (hash_pk c pk) = Some (Stored_Legacy node_id rak))))"
proof -
  let ?pk = "case first_signer (tx_auth_info tx) of Some si \<Rightarrow> address_spec_public_key (si_address_spec si) | None \<Rightarrow> None"
  obtain proxy cfg where proxy: "fee_proxy_of (ai_fee (tx_auth_info tx)) = Some proxy" "fp_module proxy = ''rofl''"
      "rofl_get_app (fp_id proxy) s = Some cfg" "pol_fees (app_policy cfg) = EndorsingNodePays"
    and payer: "resolve_payer_from_tx c D dec tx (fp_id proxy) s = Inr (Some a)"
    using assms(2) by (auto simp: rofl_resolve_payer_def app_id_from_bytes_def map_err_def split: option.splits if_splits fee_policy.splits sum.splits)
  show ?thesis
  proof (cases "call_method (tx_call tx) = ''rofl.Register''")
    case True
    then show ?thesis using payer proxy
      by (auto simp: resolve_payer_from_tx_def Let_def bind_result_def ok_or_def not_le split: option.splits sum.splits if_splits)
  next
    case False
    then obtain pk kei where pk: "?pk = Some pk" "get_endorser c pk s = Some kei" "kei_app_id kei = fp_id proxy" "a = rd_node_address D (kei_node_id kei)"
      using payer by (auto simp: resolve_payer_from_tx_def Let_def split: option.splits if_splits)
    obtain app' where app': "backed c (ro_registrations (rofl_of s)) (hash_pk c pk) (kei\<lparr>kei_app_id := app'\<rparr>)"
      "app' = fp_id proxy \<or> fp_id proxy = default_app_id \<and> (\<exists>node_id rak. fmlookup (ro_endorsers (rofl_of s)) (hash_pk c pk) = Some (Stored_Legacy node_id rak))"
      using endorser_backed [OF assms(1) pk(2)] pk(3) by auto
    have "\<exists>reg h. fmlookup (ro_registrations (rofl_of s)) (app', h) = Some reg \<and> a = rd_node_address D (reg_node_id reg) \<and>
        hash_pk c pk \<in> insert h (hash_pk c ` set (reg_extra_keys reg))"
      using app'(1) pk(4) unfolding backed_def by (cases "kei_rak kei") (simp_all, metis+)
    with app'(2) have "\<exists>app' reg h. fmlookup (ro_registrations (rofl_of s)) (app', h) = Some reg \<and> a = rd_node_address D (reg_node_id reg) \<and>
        hash_pk c pk \<in> insert h (hash_pk c ` set (reg_extra_keys reg)) \<and>
        (app' = fp_id proxy \<or> fp_id proxy = default_app_id \<and> (\<exists>node_id rak. fmlookup (ro_endorsers (rofl_of s)) (hash_pk c pk) = Some (Stored_Legacy node_id rak)))"
      by blast
    then show ?thesis using False proxy pk(1) by auto
  qed
qed

definition sample_proxy_tx :: transaction where
  "sample_proxy_tx = sample_free_tx\<lparr>tx_auth_info := (tx_auth_info sample_free_tx)\<lparr>ai_fee := default_fee\<lparr>fee_proxy_of :=
     Some \<lparr>fp_module = ''rofl'', fp_id = sample_app\<rparr>\<rparr>\<rparr>\<rparr>"

lemma sample_app_named: "sample_app \<noteq> default_app_id"
  by (simp add: sample_app_def default_app_id_def)

theorem payer_endorsed_witness:
  "rofl_resolve_payer sample_ctx sample_rofl_deps (\<lambda>_. None) sample_proxy_tx sample_hosting = (Ok (Some alice), sample_hosting) \<and>
   (\<exists>reg h. fmlookup (ro_registrations (rofl_of sample_hosting)) (sample_app, h) = Some reg)"
proof -
  have run: "rofl_resolve_payer sample_ctx sample_rofl_deps (\<lambda>_. None) sample_proxy_tx sample_hosting = (Ok (Some alice), sample_hosting)"
    by (simp add: rofl_resolve_payer_def sample_proxy_tx_def app_id_from_bytes_def sample_app_def [symmetric] rofl_get_app_def sample_registry_def
        sample_app_config_def sample_policy_def resolve_payer_from_tx_def Let_def first_signer_def free_tx_auth free_tx_call default_call_def
        address_spec_public_key_def hosting_endorser kei_for_rak_def map_err_def result_op_def op_simps sample_rofl_deps_def)
      (simp add: sample_app_def APP_ID_SIZE_def)
  from payer_endorsed [OF hosting_tables run] run show ?thesis using sample_app_named by (auto simp: sample_proxy_tx_def free_tx_call default_call_def)
qed

text \<open>
  Removing a registration drops the endorsement of its attestation key even when the key is registered for another application,
  whose instance is then no longer recognised.
\<close>

lemma shared_rak_forgotten:
  assumes "get_registration c app rak s = Some reg" "get_registration c other rak s = Some reg'" "app \<noteq> other"
  shows "get_registration c app rak (remove_registration c other rak s) = Some reg \<and>
    get_endorser c (Pk_Ed25519 rak) (remove_registration c other rak s) = None"
  using assms by (simp add: get_registration_def get_registration_hrak_def remove_registration_def remove_registration_hrak_def get_endorser_def
      unendorse_keys_lookup hash_rak_def)

end
