(* ===== verification/Spec2Isabelle.thy ===== *)
theory Spec2Isabelle
  imports State_Properties Rewards_Properties Dispatcher_Properties Call_Format_Properties Consensus_Properties Rofl_Properties
begin

text \<open>
  A verification library for the Oasis Runtime SDK (Rust, \<open>runtime-sdk/src\<close>).

  \<^bold>\<open>The program.\<close> A runtime is a tuple of modules over a key-value store. For every transaction of a
  block the dispatcher decodes and verifies it, opens a nested state, runs the modules' hooks and the
  call, and commits or rolls back. The state nests stores (overlays), events, messages to the consensus
  layer, per-block values and the root RNG. The core module meters gas and prices; the accounts module
  keeps balances, supplies and nonces and moves fees; the rewards module pays the committee; the consensus
  modules move tokens between the runtime and the consensus layer by messages whose results arrive in a
  later block; the ROFL module keeps the registry of applications that run off the chain. A module may call
  methods of the runtime in a subcall, and the access module restricts who may call a method.

  \<^bold>\<open>The model, from the bottom up\<close> (paths are below \<open>runtime-sdk/src\<close>).
  \<^item> \<open>Prelude\<close>: words for Rust's integers with checked and saturating operations, outcomes (\<open>Ok\<close>, \<open>Err\<close>,
    \<open>Panic\<close>) and state operations (\<open>rust_op\<close>, a function from a state to an outcome and a state), finite
    maps for \<open>BTreeMap\<close>.
  \<^item> \<open>Kv_Store\<close>: \<open>storage/{overlay,prefix,typed}.rs\<close>; the trait \<open>Store\<close> is the locale \<open>kv_store\<close>, interpreted
    for the tree below, for overlays and for prefixes.
  \<^item> \<open>Token_Types\<close>, \<open>Signature_Types\<close>, \<open>Transaction_Types\<close>: \<open>types/{token,address,transaction}.rs\<close>,
    \<open>crypto/signature\<close>, \<open>crypto/multisig\<close>. Hashes, signature schemes and CBOR are parameters.
  \<^item> \<open>Execution_Env\<close>, \<open>Runtime_State\<close>: \<open>state.rs\<close>, \<open>event.rs\<close>, \<open>crypto/random.rs\<close>. A state is a record of the
    innermost state with the list of its suspended parents. The store is a type parameter: \<open>overlay_ops\<close>
    is the code (overlays moved into one another, with the unsafe cast back), \<open>snapshot_ops\<close> the
    specification (a snapshot per level); the code refines the specification and the cast is never wrong.
  \<^item> \<open>Consensus_Types\<close>, \<open>Rofl_Types\<close>, \<open>Market_Types\<close>, \<open>Fee_Manager\<close>, \<open>Module_State\<close>: what the modules keep, as a
    record of the typed contents of their stores (\<open>storage\<close>), with their parameters, events and errors. The
    modules work over the specification of the state. Of the ROFL market there is only this data.
  \<^item> \<open>Core_Module\<close>, \<open>Accounts_Module\<close>, \<open>Rewards_Module\<close>: \<open>modules/{core,accounts,rewards}\<close>, one definition per
    function, hook or call.
  \<^item> \<open>Module_Interface\<close>: \<open>module.rs\<close>; a module is a record of its handlers, and the handlers of a tuple of
    modules ask the modules of a list in order.
  \<^item> \<open>Call_Format\<close>: \<open>callformat.rs\<close>, plain and encrypted calls. \<open>Dispatcher\<close>: \<open>dispatcher.rs\<close>, with a runtime as a record (its modules and parameters), from
    decoding up to executing, scheduling and checking of batches, queries and messages. \<open>Core_Queries\<close>: the
    queries of the core module that go through the dispatcher. \<open>Subcall\<close>: \<open>subcall.rs\<close> and \<open>modules/access\<close>.
  \<^item> \<open>Runtime_Modules\<close>: the core, accounts and rewards modules as records, with what the derive macros of
    \<open>runtime-sdk-macros\<close> generate for them, and a runtime made of them (\<open>sdk_runtime\<close>).
  \<^item> \<open>Consensus_Module\<close>, \<open>Consensus_Accounts\<close>: \<open>modules/{consensus,consensus_accounts}\<close>. \<open>Rofl_Policy\<close>,
    \<open>Rofl_Module\<close>: \<open>modules/rofl\<close>.

  \<^bold>\<open>The interfaces.\<close> Next to \<open>kv_store\<close> there are the following locales.
  \<^item> \<open>step_rel\<close> (\<open>Module_Interface\<close>): a reflexive and transitive relation of states. \<open>steps p R op\<close> says that
    \<open>op\<close> relates its states by \<open>R\<close> (also where it panics, if \<open>p\<close>), and the rules for sequences, branches, loops and whole hooks are proved
    once. \<open>gas_rel\<close> (\<open>Module_Contracts\<close>) adds that gas may be charged. They are interpreted for the nesting of
    states, the core parameters, the books of the accounts and the registry of the ROFL module.
  \<^item> \<open>accounts_api\<close>, \<open>accounts_supply_api\<close> (\<open>Accounts_Api\<close>): what a module that calls \<open>transfer\<close>, \<open>mint\<close> and
    \<open>burn\<close> may rely on, interpreted for the accounts module; the consensus and ROFL modules use its facts.
  \<^item> \<open>tx_contract\<close> (\<open>Runtime_Contract\<close>): a relation kept by the calls of all modules, and one kept by the hooks
    around a call, lift to executed transactions and batches. \<open>sdk_assembly\<close> and \<open>sdk_books\<close> give such
    contracts for \<open>sdk_runtime\<close>. \<open>stable_decoding\<close> (\<open>Batch_Replay\<close>): decoding depends on nothing
    that transactions change.

  \<^bold>\<open>What is shown.\<close>
  \<^item> State (\<open>State_Properties\<close>): overlays implement snapshots through any nesting of transactions, the
    unsafe cast is applied only where it is right, iteration and commit of overlays are exact, the limit of
    messages is kept, and simulations leave no trace.
  \<^item> Transactions (\<open>Transaction_Properties\<close>): verification accepts exactly what its parts accept, and what
    was signed verifies.
  \<^item> Core (\<open>Core_Properties\<close>): gas is accounted exactly, calls are charged before and after they run, and
    the search of the gas estimation finds the limit.
  \<^item> Accounts (\<open>Accounts_Books\<close>, \<open>Accounts_Check\<close>, \<open>Accounts_Properties\<close>): transfers, minting and burning on
    every branch; fees and the end of a block conserve tokens; the invariant check and genesis accept exactly
    the balanced books; no transaction is accepted twice.
  \<^item> Rewards (\<open>Rewards_Properties\<close>): who is paid and how much, and the balances after a block.
  \<^item> Dispatcher (\<open>Dispatcher_Nesting\<close>, \<open>Batch_Replay\<close>, \<open>Module_Contracts\<close>, \<open>Runtime_Contract\<close>,
    \<open>Runtime_Books\<close>, \<open>Dispatcher_Properties\<close>): the outcomes of a transaction, what a failed one leaves, that
    batches keep the books, that a scheduled batch is replayed with the same results, that scheduling
    ends, and that queries leave no trace. \<open>Call_Format_Properties\<close>: the round trip of encrypted calls.
    \<open>Subcall_Properties\<close>: the state after a subcall, and that access control cannot be passed by.
  \<^item> Consensus (\<open>Obligations\<close>, \<open>Consensus_Settlement\<close>, \<open>Consensus_Undelegations\<close>,
    \<open>Consensus_Properties\<close>): what is set aside for messages is there when their results arrive, in every
    reachable state of a system of calls, blocks and results; undelegations are paid exactly; amounts
    survive the change of units; the height of an epoch is found.
  \<^item> ROFL (\<open>Rofl_Registry\<close>, \<open>Rofl_Invariant\<close>, \<open>Rofl_Properties\<close>, with the rules of \<open>Run_Rules\<close>): the tables
    stay consistent and the stakes covered, what expires at an epoch, and what a registration, the
    origin of a call and the payer of a fee prove.
  \<^item> \<open>Runtime_Sample\<close> and the witnesses in the theories of properties apply the theorems to concrete runtimes.

  \<^bold>\<open>Integers and panics.\<close> Machine integers are words of their width. Where the code uses a plain \<open>+\<close> it
  wraps, as in a release build. \<open>expect\<close>, \<open>unwrap\<close>, \<open>assert!\<close> and \<open>panic!\<close> give \<open>Panic\<close>.

  \<^bold>\<open>Loops.\<close> Most are recursions on lists or on finite maps. Three may run long.
  \<^item> \<open>schedule_loop\<close> asks the host for more transactions as long as the host has some, so it takes fuel;
    \<open>Dispatcher_Properties\<close> shows that fuel for the host's last full answer is enough and that more changes nothing.
  \<^item> \<open>height_loop\<close> walks back through the history of the consensus layer, one epoch a turn; by
    \<open>Consensus_Properties\<close> as many turns as the chain has blocks are enough.
  \<^item> \<open>estimate_loop\<close> has the bound of the code itself, the configured number of iterations;
    \<open>Core_Properties\<close> shows that the logarithm of the interval is enough.

  \<^bold>\<open>What is not modelled.\<close> The contracts and EVM modules, which mostly run third-party interpreters; the calls of
  the ROFL market; the adapters to the state tree of the host and the hashed and confidential stores; clients
  of the key manager, of the history and of enclave RPC, which are parameters where the modules use
  them; prefetching, logging and descriptions of modules for clients, which change no result; and
  client libraries and services around the runtime.
\<close>

end
